(* ===== verification/Kin_Prelude.thy ===== *)
theory Kin_Prelude
  imports Main "HOL-Library.AList" "HOL-Library.Char_ord" "HOL-Library.List_Lexorder"
    "HOL-Library.Word"
begin

text \<open>
  Shared vocabulary of the development: Python values, dictionaries and exceptions, the small
  part of SQL the sources use, and the generic lemmas and theorem collections the component
  theories build on.

  Python strings are HOL strings, compared lexicographically by code point
  (\<open>HOL-Library.List_Lexorder\<close> over \<open>HOL-Library.Char_ord\<close>); a dictionary is an association
  list in insertion order, read with \<open>map_of\<close> and written with \<open>AList.update\<close>, which replaces
  in place and otherwise appends, as a Python dict does. A Python exception is the left
  summand of a result.
\<close>

named_theorems gate_simps "unfoldings of the guards of an operation"
named_theorems frame_simps "fields an operation leaves alone"

section \<open>Python exceptions and results\<close>

datatype py_error =
    ValueError
  | TypeError
  | KeyError
  | UnboundLocalError
  | ValidationError
  | IntegrityError
  | RuntimeError
  | AppError string \<comment> \<open>an exception class of the repository, by its name\<close>

type_synonym 'a result = "py_error + 'a"

type_synonym byte = "8 word"
type_synonym bytes = "byte list"

section \<open>Python values\<close>

datatype pyfloat = FFinite int int \<comment> \<open>mantissa and binary exponent\<close> | FNan | FInf bool

datatype pyval =
    PNone
  | PBool bool
  | PInt int
  | PFloat pyfloat
  | PStr string
  | PList "pyval list"
  | PDict "(pyval \<times> pyval) list"
  | PObj string \<comment> \<open>an object of any other class, by the class name\<close>

type_synonym pydict = "(string \<times> pyval) list"

fun truthy :: "pyval \<Rightarrow> bool" where
  "truthy PNone = False"
| "truthy (PBool b) = b"
| "truthy (PInt i) = (i \<noteq> 0)"
| "truthy (PFloat (FFinite m e)) = (m \<noteq> 0)"
| "truthy (PFloat FNan) = True"
| "truthy (PFloat (FInf s)) = True"
| "truthy (PStr s) = (s \<noteq> [])"
| "truthy (PList xs) = (xs \<noteq> [])"
| "truthy (PDict kvs) = (kvs \<noteq> [])"
| "truthy (PObj c) = True"

text \<open>\<open>d.get(k)\<close>, \<open>d.get(k, v)\<close> and \<open>a or b\<close>.\<close>

definition dget :: "pydict \<Rightarrow> string \<Rightarrow> pyval" where
  "dget d k = (case map_of d k of None \<Rightarrow> PNone | Some v \<Rightarrow> v)"

definition dget_default :: "pydict \<Rightarrow> string \<Rightarrow> pyval \<Rightarrow> pyval" where
  "dget_default d k v = (case map_of d k of None \<Rightarrow> v | Some w \<Rightarrow> w)"

definition py_or :: "pyval \<Rightarrow> pyval \<Rightarrow> pyval" where
  "py_or a b = (if truthy a then a else b)"

text \<open>\<open>d.get(k, 0)\<close> on a dictionary of integers.\<close>

definition iget :: "('k \<times> int) list \<Rightarrow> 'k \<Rightarrow> int" where
  "iget d k = (case map_of d k of None \<Rightarrow> 0 | Some i \<Rightarrow> i)"

section \<open>Optional text\<close>

text \<open>
  A nullable text column or \<open>str | None\<close> value; in Python an empty string is as false as
  \<open>None\<close>, which \<open>x or y\<close> relies on.
\<close>

definition otruthy :: "string option \<Rightarrow> bool" where
  "otruthy x = (case x of None \<Rightarrow> False | Some s \<Rightarrow> s \<noteq> [])"

definition or_text :: "string option \<Rightarrow> string \<Rightarrow> string" where
  "or_text x d = (case x of None \<Rightarrow> d | Some s \<Rightarrow> if s = [] then d else s)"

text \<open>One step after another, an exception of the first ending both.\<close>

definition chain :: "'a result \<Rightarrow> ('a \<Rightarrow> 'b result) \<Rightarrow> 'b result" where
  "chain r f = (case r of Inl e \<Rightarrow> Inl e | Inr x \<Rightarrow> f x)"

section \<open>SQL aggregates\<close>

text \<open>\<open>MAX(c)\<close> over no row is NULL; NULL entries are skipped.\<close>

fun sql_max :: "int option list \<Rightarrow> int option" where
  "sql_max [] = None"
| "sql_max (None # xs) = sql_max xs"
| "sql_max (Some x # xs) = (case sql_max xs of None \<Rightarrow> Some x | Some y \<Rightarrow> Some (max x y))"

definition coalesce :: "int option \<Rightarrow> int \<Rightarrow> int" where
  "coalesce x d = (case x of None \<Rightarrow> d | Some i \<Rightarrow> i)"

section \<open>Generic lemmas\<close>

lemma chain_simps [simp]: "chain (Inl e) f = Inl e" "chain (Inr x) f = f x"
  by (simp_all add: chain_def)

lemma chain_Inr: "chain r f = Inr y \<longleftrightarrow> (\<exists>x. r = Inr x \<and> f x = Inr y)"
  by (cases r) simp_all

lemma chain_Inl: "chain r f = Inl e \<longleftrightarrow> r = Inl e \<or> (\<exists>x. r = Inr x \<and> f x = Inl e)"
  by (cases r) simp_all

lemma iget_update [simp]:
  "iget (AList.update k v d) k' = (if k = k' then v else iget d k')"
  by (auto simp: iget_def update_conv')

lemma iget_Nil [simp]: "iget [] k = 0"
  by (simp add: iget_def)

lemma map_of_AList_update [simp]:
  "map_of (AList.update k v d) k' = (if k = k' then Some v else map_of d k')"
  by (simp add: update_conv')

lemma dget_default_PNone: "dget_default d k PNone = dget d k"
  by (simp add: dget_def dget_default_def)

lemma or_text_truthy: "otruthy x \<Longrightarrow> or_text x d = the x"
  by (auto simp: otruthy_def or_text_def split: option.splits)

lemma or_text_default: "\<not> otruthy x \<Longrightarrow> or_text x d = d"
  by (auto simp: otruthy_def or_text_def split: option.splits)

lemma sql_max_append:
  "sql_max (xs @ ys) =
     (case sql_max xs of None \<Rightarrow> sql_max ys
      | Some x \<Rightarrow> (case sql_max ys of None \<Rightarrow> Some x | Some y \<Rightarrow> Some (max x y)))"
proof (induction xs)
  case Nil
  then show ?case by simp
next
  case (Cons a xs)
  then show ?case by (cases a) (auto split: option.splits)
qed

lemma sql_max_None_iff: "sql_max xs = None \<longleftrightarrow> (\<forall>x \<in> set xs. x = None)"
proof (induction xs)
  case Nil
  then show ?case by simp
next
  case (Cons a xs)
  then show ?case by (cases a) (auto split: option.splits)
qed

lemma sql_max_ge: "Some x \<in> set xs \<Longrightarrow> \<exists>m. sql_max xs = Some m \<and> x \<le> m"
proof (induction xs)
  case Nil
  then show ?case by simp
next
  case (Cons a xs)
  then show ?case by (cases a) (auto split: option.splits)
qed

lemma sql_max_in: "sql_max xs = Some m \<Longrightarrow> Some m \<in> set xs"
proof (induction xs arbitrary: m)
  case Nil
  then show ?case by simp
next
  case (Cons a xs)
  then show ?case by (cases a) (auto split: option.splits simp: max_def)
qed

lemma sql_max_upto: "sql_max (map (Some \<circ> int) [Suc 0..<Suc n]) = (if n = 0 then None else Some (int n))"
proof (induction n)
  case 0
  then show ?case by simp
next
  case (Suc n)
  have "[Suc 0..<Suc (Suc n)] = [Suc 0..<Suc n] @ [Suc n]"
    by simp
  then show ?case
    by (simp only: map_append sql_max_append Suc) simp
qed

lemma find_snoc:
  "find P (xs @ [x]) = (case find P xs of Some y \<Rightarrow> Some y | None \<Rightarrow> if P x then Some x else None)"
  by (induction xs) auto

end
