(* ===== verification/Kin_Lifecycle.thy ===== *)
theory Kin_Lifecycle
  imports Kin_Prelude
begin

text \<open>
  The session lifecycle of \<open>kin-node/kin/session/transition_matrix.py\<close>: the transition matrix,
  the terminal and resumable states, and the two predicates the reducer consults. States are
  strings, as in the source; a state outside the matrix has no successors. The locale
  \<open>lifecycle_matrix\<close> is what the rest of the system relies on: terminal states have no exit and
  the phases of a session are never left backwards.
\<close>

section \<open>Definitions\<close>

definition VALID_TRANSITIONS :: "(string \<times> string list) list" where
  "VALID_TRANSITIONS =
    [(''draft'', [''sent'', ''cancelled'', ''expired'']),
     (''sent'', [''queued'', ''delivered'', ''accepted'', ''failed'', ''expired'']),
     (''queued'', [''delivered'', ''accepted'', ''failed'', ''expired'']),
     (''delivered'', [''peer_review'', ''accepted'', ''failed'', ''expired'']),
     (''peer_review'',
        [''accepted'', ''declined'', ''needs_clarification'', ''cancelled'', ''expired'']),
     (''needs_clarification'', [''peer_review'', ''cancelled'', ''failed'', ''expired'']),
     (''accepted'', [''active'', ''cancelled'', ''expired'']),
     (''active'',
        [''awaiting_owner_approval'', ''awaiting_peer'', ''paused'', ''completed'', ''failed'',
         ''cancelled'', ''expired'']),
     (''awaiting_owner_approval'', [''active'', ''paused'', ''failed'', ''cancelled'', ''expired'']),
     (''awaiting_peer'', [''active'', ''paused'', ''failed'', ''cancelled'', ''expired'']),
     (''paused'', [''active'', ''cancelled'', ''failed'', ''expired'']),
     (''completed'', []),
     (''failed'', []),
     (''cancelled'', []),
     (''expired'', []),
     (''declined'', [])]"

definition TERMINAL_STATES :: "string list" where
  "TERMINAL_STATES = [''completed'', ''failed'', ''cancelled'', ''expired'', ''declined'']"

definition RESUMABLE_STATES :: "string list" where
  "RESUMABLE_STATES = [''awaiting_owner_approval'', ''awaiting_peer'', ''paused'']"

definition is_valid_transition :: "string \<Rightarrow> string \<Rightarrow> bool" where
  "is_valid_transition current_status next_status =
     (case map_of VALID_TRANSITIONS current_status of
        None \<Rightarrow> False
      | Some allowed \<Rightarrow> next_status \<in> set allowed)"

definition is_terminal_state :: "string \<Rightarrow> bool" where
  "is_terminal_state status = (status \<in> set TERMINAL_STATES)"

subsection \<open>Specification notions\<close>

definition known_status :: "string \<Rightarrow> bool" where
  "known_status s = (s \<in> set (map fst VALID_TRANSITIONS))"

text \<open>
  The phases of a session: composing, in transit, under review by the receiver, agreed,
  running, over.
\<close>

definition phase :: "string \<Rightarrow> nat" where
  "phase s =
     (if s = ''draft'' then 0
      else if s = ''sent'' then 1
      else if s = ''queued'' then 2
      else if s = ''delivered'' then 3
      else if s \<in> {''peer_review'', ''needs_clarification''} then 4
      else if s = ''accepted'' then 5
      else if s \<in> {''active'', ''awaiting_owner_approval'', ''awaiting_peer'', ''paused''} then 6
      else 7)"

text \<open>The matrix as a list of edges, over which a property of all transitions is a computation.\<close>

definition valid_edges :: "(string \<times> string) list" where
  "valid_edges = concat (map (\<lambda>(s, ts). map (Pair s) ts) VALID_TRANSITIONS)"

text \<open>A run of the lifecycle: each state a valid successor of the one before.\<close>

fun lifecycle_path :: "string list \<Rightarrow> bool" where
  "lifecycle_path [] = True"
| "lifecycle_path [s] = True"
| "lifecycle_path (s # t # ss) = (is_valid_transition s t \<and> lifecycle_path (t # ss))"

section \<open>What a client of the matrix may rely on\<close>

locale lifecycle_matrix =
  fixes allowed :: "'s \<Rightarrow> 's \<Rightarrow> bool"
    and terminal :: "'s \<Rightarrow> bool"
    and rank :: "'s \<Rightarrow> nat"
  assumes terminal_no_exit: "terminal s \<Longrightarrow> \<not> allowed s t"
    and rank_mono: "allowed s t \<Longrightarrow> rank s \<le> rank t"
begin

lemma terminal_absorbing: "allowed\<^sup>*\<^sup>* s t \<Longrightarrow> terminal s \<Longrightarrow> t = s"
  by (induction rule: rtranclp_induct) (auto dest: terminal_no_exit)

lemma rank_reach: "allowed\<^sup>*\<^sup>* s t \<Longrightarrow> rank s \<le> rank t"
  by (induction rule: rtranclp_induct) (auto dest: rank_mono)

end

section \<open>Facts about the matrix\<close>

lemmas matrix_defs = is_valid_transition_def VALID_TRANSITIONS_def TERMINAL_STATES_def
  RESUMABLE_STATES_def is_terminal_state_def known_status_def

lemma valid_transition_edge: "is_valid_transition s t \<Longrightarrow> (s, t) \<in> set valid_edges"
  by (force simp: is_valid_transition_def valid_edges_def dest: map_of_SomeD split: option.splits)

lemma valid_transition_all:
  assumes "list_all (\<lambda>(s, t). P s t) valid_edges" and "is_valid_transition s t"
  shows "P s t"
  using assms(1) valid_transition_edge [OF assms(2)] by (auto simp: list_all_iff)

lemma known_status_all:
  assumes "list_all P (map fst VALID_TRANSITIONS)" and "known_status s"
  shows "P s"
  using assms by (auto simp: list_all_iff known_status_def)

lemma valid_transition_not_terminal: "is_valid_transition s t \<Longrightarrow> s \<notin> set TERMINAL_STATES"
  by (rule valid_transition_all [where P = "\<lambda>s t. s \<notin> set TERMINAL_STATES"]) code_simp

lemma terminal_has_no_exit: "s \<in> set TERMINAL_STATES \<Longrightarrow> \<not> is_valid_transition s t"
  using valid_transition_not_terminal by blast

lemma valid_transition_known:
  assumes "is_valid_transition s t"
  shows "known_status s \<and> known_status t"
  by (rule valid_transition_all [OF _ assms]) code_simp

lemma phase_mono:
  assumes "is_valid_transition s t"
  shows "phase s \<le> phase t"
  by (rule valid_transition_all [OF _ assms]) code_simp

lemma valid_transition_irrefl: "is_valid_transition s t \<Longrightarrow> s \<noteq> t"
  by (rule valid_transition_all [where P = "\<lambda>s t. s \<noteq> t"]) code_simp

interpretation kin_matrix: lifecycle_matrix is_valid_transition is_terminal_state phase
  by unfold_locales (auto simp: is_terminal_state_def terminal_has_no_exit phase_mono)

lemma live_states_can_expire:
  assumes "known_status s" and "\<not> is_terminal_state s"
  shows "is_valid_transition s ''expired''"
proof -
  have "is_terminal_state s \<or> is_valid_transition s ''expired''"
    by (rule known_status_all [OF _ assms(1)]) code_simp
  with assms(2) show ?thesis by blast
qed

lemma enter_completed:
  assumes "is_valid_transition s ''completed''"
  shows "s = ''active''"
proof -
  have "''completed'' = ''completed'' \<longrightarrow> s = ''active''"
    by (rule valid_transition_all [where P = "\<lambda>s t. t = ''completed'' \<longrightarrow> s = ''active''", OF _ assms])
      code_simp
  then show ?thesis by simp
qed

text \<open>Before the receiver agrees, the only ways on are review, agreement or an early end.\<close>

lemma before_agreement_successors:
  assumes "is_valid_transition s t" and "phase s < 5"
  shows "phase t < 5 \<or> t = ''accepted'' \<or> is_terminal_state t"
proof -
  have "phase s < 5 \<longrightarrow> phase t < 5 \<or> t = ''accepted'' \<or> is_terminal_state t"
    by (rule valid_transition_all [OF _ assms(1)]) code_simp
  with assms(2) show ?thesis by blast
qed

lemma path_from_terminal: "lifecycle_path (s # ss) \<Longrightarrow> is_terminal_state s \<Longrightarrow> ss = []"
  by (cases ss) (auto simp: is_terminal_state_def terminal_has_no_exit)

lemma path_to_completed_passes_accepted:
  assumes "lifecycle_path (s # ss)" and "phase s < 5" and "last (s # ss) = ''completed''"
  shows "''accepted'' \<in> set ss"
  using assms
proof (induction ss arbitrary: s)
  case Nil
  then show ?case by (simp add: phase_def)
next
  case (Cons t ss)
  then have step: "is_valid_transition s t" and path: "lifecycle_path (t # ss)" by auto
  from step Cons.prems(2) consider "phase t < 5" | "t = ''accepted''" | "is_terminal_state t"
    by (auto dest: before_agreement_successors)
  then show ?case
  proof cases
    case 1
    with Cons.IH [OF path] Cons.prems(3) show ?thesis by simp
  next
    case 2
    then show ?thesis by simp
  next
    case 3
    with path have "ss = []" by (rule path_from_terminal)
    with Cons.prems(3) step have "s = ''active''" by (auto dest: enter_completed)
    with Cons.prems(2) show ?thesis by (simp add: phase_def)
  qed
qed

section \<open>Properties\<close>

text \<open>
  Lifecycle monotonicity and absorption: along any sequence of valid transitions the phase
  of a session never decreases, and a session that has reached a terminal state stays exactly
  in that state.
\<close>

theorem lifecycle_monotone_and_absorbing:
  assumes "is_valid_transition\<^sup>*\<^sup>* s t"
  shows "phase s \<le> phase t \<and> (is_terminal_state s \<longrightarrow> t = s)"
  using assms kin_matrix.rank_reach kin_matrix.terminal_absorbing by blast

theorem lifecycle_monotone_and_absorbing_witness:
  "is_valid_transition\<^sup>*\<^sup>* ''draft'' ''sent'' \<and> phase ''draft'' \<le> phase ''sent''"
proof -
  have "is_valid_transition ''draft'' ''sent''" by (simp add: matrix_defs)
  then have r: "is_valid_transition\<^sup>*\<^sup>* ''draft'' ''sent''" by (rule r_into_rtranclp)
  with lifecycle_monotone_and_absorbing [OF r] show ?thesis by blast
qed

text \<open>
  No completion without agreement: every run of the lifecycle from \<open>draft\<close> to \<open>completed\<close>
  goes through \<open>accepted\<close>.
\<close>

theorem completion_requires_acceptance:
  assumes "lifecycle_path ss" and "ss \<noteq> []" and "hd ss = ''draft''" and "last ss = ''completed''"
  shows "''accepted'' \<in> set ss"
proof (cases ss)
  case Nil
  with assms(2) show ?thesis by simp
next
  case (Cons s rest)
  with assms have "lifecycle_path (s # rest)" and "phase s < 5" and "last (s # rest) = ''completed''"
    by (auto simp: phase_def)
  then have "''accepted'' \<in> set rest" by (rule path_to_completed_passes_accepted)
  with Cons show ?thesis by simp
qed

theorem completion_requires_acceptance_witness:
  "lifecycle_path [''draft'', ''sent'', ''accepted'', ''active'', ''completed''] \<and>
   ''accepted'' \<in> set [''draft'', ''sent'', ''accepted'', ''active'', ''completed'']"
proof -
  have p: "lifecycle_path [''draft'', ''sent'', ''accepted'', ''active'', ''completed'']"
    by (simp add: matrix_defs)
  from completion_requires_acceptance [OF p] p show ?thesis by simp
qed

end
