(* ===== verification/Kin_Encoding.thy ===== *)
theory Kin_Encoding
  imports Kin_Prelude
begin

text \<open>
  Byte and text encodings: the unpadded URL-safe Base64 of \<open>kin-node/kin/schemas.py\<close>
  (\<open>base64url_encode\<close>, \<open>base64url_decode\<close>), with the encoder of Python's \<open>base64\<close> module and
  the lenient decoder of \<open>binascii.a2b_base64\<close> written out as the four-state machine it is:
  characters outside the alphabet are skipped, and padding ends the input once it completes a
  group. The headline is the round trip; the length and the alphabet of the output are what the
  content-hash validator relies on.
\<close>

section \<open>Definitions\<close>

definition B64_ALPHABET :: string where
  "B64_ALPHABET = ''ABCDEFGHIJKLMNOPQRSTUVWXYZabcdefghijklmnopqrstuvwxyz0123456789-_''"

definition b64_char :: "nat \<Rightarrow> char" where
  "b64_char n = B64_ALPHABET ! n"

text \<open>
  The value of a character for the URL-safe decoder, which first translates \<open>-\<close> and \<open>_\<close> to the
  standard alphabet, so that \<open>+\<close> and \<open>/\<close> are accepted as well.
\<close>

definition b64_value :: "char \<Rightarrow> nat option" where
  "b64_value ch = map_of (zip B64_ALPHABET [0..<64] @ [(CHR ''+'', 62), (CHR ''/'', 63)]) ch"

fun b64encode :: "nat list \<Rightarrow> string" where
  "b64encode [] = []"
| "b64encode [a] = [b64_char (a div 4), b64_char (a mod 4 * 16), CHR ''='', CHR ''='']"
| "b64encode [a, b] =
     [b64_char (a div 4), b64_char (a mod 4 * 16 + b div 16), b64_char (b mod 16 * 4), CHR ''='']"
| "b64encode (a # b # c # rest) =
     b64_char (a div 4) # b64_char (a mod 4 * 16 + b div 16) #
     b64_char (b mod 16 * 4 + c div 64) # b64_char (c mod 64) # b64encode rest"

definition rstrip :: "char \<Rightarrow> string \<Rightarrow> string" where
  "rstrip ch s = rev (dropWhile (\<lambda>x. x = ch) (rev s))"

definition base64url_encode :: "bytes \<Rightarrow> string" where
  "base64url_encode data = rstrip (CHR ''='') (b64encode (map unat data))"

text \<open>
  \<open>binascii.a2b_base64\<close>: the position in the group of four, the bits left over, and the padding
  seen since the last data character.
\<close>

fun a2b_base64 :: "nat \<Rightarrow> nat \<Rightarrow> nat \<Rightarrow> string \<Rightarrow> nat list option" where
  "a2b_base64 quad left pads [] = (if quad = 0 then Some [] else None)"
| "a2b_base64 quad left pads (ch # rest) =
     (if ch = CHR ''='' then
        (if 2 \<le> quad then
           (if 4 \<le> quad + Suc pads then Some [] else a2b_base64 quad left (Suc pads) rest)
         else a2b_base64 quad left pads rest)
      else
        (case b64_value ch of
           None \<Rightarrow> a2b_base64 quad left pads rest
         | Some v \<Rightarrow>
             if quad = 0 then a2b_base64 1 v 0 rest
             else if quad = 1 then
               map_option (Cons (left * 4 + v div 16)) (a2b_base64 2 (v mod 16) 0 rest)
             else if quad = 2 then
               map_option (Cons (left * 16 + v div 4)) (a2b_base64 3 (v mod 4) 0 rest)
             else map_option (Cons (left * 64 + v)) (a2b_base64 0 0 0 rest)))"

definition is_ascii :: "string \<Rightarrow> bool" where
  "is_ascii s = list_all (\<lambda>ch. (of_char ch :: nat) < 128) s"

definition base64url_decode :: "string \<Rightarrow> bytes result" where
  "base64url_decode encoded =
     (let padded = encoded @ replicate (nat (- int (length encoded) mod 4)) (CHR ''='')
      in if \<not> is_ascii padded then Inl ValueError
         else case a2b_base64 0 0 0 padded of
                None \<Rightarrow> Inl ValueError
              | Some ns \<Rightarrow> Inr (map of_nat ns))"

subsection \<open>The encoder without its padding\<close>

fun b64encode_raw :: "nat list \<Rightarrow> string" where
  "b64encode_raw [] = []"
| "b64encode_raw [a] = [b64_char (a div 4), b64_char (a mod 4 * 16)]"
| "b64encode_raw [a, b] =
     [b64_char (a div 4), b64_char (a mod 4 * 16 + b div 16), b64_char (b mod 16 * 4)]"
| "b64encode_raw (a # b # c # rest) =
     b64_char (a div 4) # b64_char (a mod 4 * 16 + b div 16) #
     b64_char (b mod 16 * 4 + c div 64) # b64_char (c mod 64) # b64encode_raw rest"

section \<open>The alphabet\<close>

lemma length_B64_ALPHABET: "length B64_ALPHABET = 64"
  by (simp add: B64_ALPHABET_def)

lemma distinct_B64_ALPHABET: "distinct B64_ALPHABET"
  by (simp add: B64_ALPHABET_def)

lemma B64_ALPHABET_plain:
  "list_all (\<lambda>ch. ch \<noteq> CHR ''='' \<and> (of_char ch :: nat) < 128) B64_ALPHABET"
  by (simp add: B64_ALPHABET_def)

lemma b64_char_in_alphabet: "n < 64 \<Longrightarrow> b64_char n \<in> set B64_ALPHABET"
  by (simp add: b64_char_def length_B64_ALPHABET)

lemma b64_char_table:
  assumes "n < 64"
  shows "b64_value (b64_char n) = Some n" and "b64_char n \<noteq> CHR ''=''"
    and "(of_char (b64_char n) :: nat) < 128"
proof -
  have "map_of (zip B64_ALPHABET [0..<64]) (B64_ALPHABET ! n) = Some ([0..<64] ! n)"
    using assms by (intro map_of_zip_nth) (auto simp: length_B64_ALPHABET distinct_B64_ALPHABET)
  with assms show "b64_value (b64_char n) = Some n"
    by (simp add: b64_value_def b64_char_def map_add_def)
  show "b64_char n \<noteq> CHR ''=''" and "(of_char (b64_char n) :: nat) < 128"
    using B64_ALPHABET_plain b64_char_in_alphabet [OF assms] by (auto simp: list_all_iff)
qed

lemma b64_groups_bounded:
  assumes "a < 256" and "b < 256" and "c < (256 :: nat)"
  shows "a div 4 < 64" and "a mod 4 * 16 < 64" and "a mod 4 * 16 + b div 16 < 64"
    and "b mod 16 * 4 < 64" and "b mod 16 * 4 + c div 64 < 64" and "c mod 64 < 64"
  using assms by auto

lemma rstrip_snoc_other: "x \<noteq> ch \<Longrightarrow> rstrip ch (xs @ [x]) = xs @ [x]"
  by (simp add: rstrip_def)

lemma rstrip_snoc_same: "rstrip ch (xs @ [ch]) = rstrip ch xs"
  by (simp add: rstrip_def)

lemma rstrip_append:
  "rstrip ch (xs @ ys) = (if list_all (\<lambda>x. x = ch) ys then rstrip ch xs else xs @ rstrip ch ys)"
proof (induction ys rule: rev_induct)
  case Nil
  then show ?case by simp
next
  case (snoc y ys)
  show ?case
  proof (cases "y = ch")
    case True
    have "rstrip ch (xs @ ys @ [ch]) = rstrip ch (xs @ ys)"
      using rstrip_snoc_same [of ch "xs @ ys"] by simp
    with True snoc show ?thesis by (simp add: rstrip_snoc_same)
  next
    case False
    then show ?thesis
      using rstrip_snoc_other [of y ch "xs @ ys"] by (simp add: rstrip_snoc_other)
  qed
qed

lemma rstrip_Nil [simp]: "rstrip ch [] = []"
  by (simp add: rstrip_def)

lemma rstrip_all: "list_all (\<lambda>x. x = ch) xs \<Longrightarrow> rstrip ch xs = []"
  using rstrip_append [of ch "[]" xs] by simp

lemma rstrip_Cons_other: "x \<noteq> ch \<Longrightarrow> rstrip ch (x # xs) = x # rstrip ch xs"
  using rstrip_append [of ch "[x]" xs] rstrip_snoc_other [of x ch "[]"]
  by (simp add: rstrip_all)

lemma rstrip_b64encode:
  "list_all (\<lambda>n. n < 256) xs \<Longrightarrow> rstrip (CHR ''='') (b64encode xs) = b64encode_raw xs"
proof (induction xs rule: b64encode.induct)
  case (4 a b c rest)
  then have "a < 256" "b < 256" "c < 256" by auto
  note bounds = b64_groups_bounded [OF this]
  with 4 show ?case by (simp add: rstrip_Cons_other b64_char_table)
next
  case (3 a b)
  then have "a < 256" "b < 256" "0 < (256 :: nat)" by auto
  note bounds = b64_groups_bounded [OF this]
  then show ?case by (simp add: rstrip_Cons_other b64_char_table rstrip_all)
qed (simp_all add: rstrip_Cons_other b64_char_table rstrip_all)

section \<open>Length, alphabet and round trip\<close>

lemma length_b64encode_raw:
  "length (b64encode_raw xs) = (4 * length xs + 2) div 3"
  by (induction xs rule: b64encode_raw.induct) simp_all

lemma b64encode_raw_alphabet:
  "list_all (\<lambda>n. n < 256) xs \<Longrightarrow> set (b64encode_raw xs) \<subseteq> set B64_ALPHABET"
proof (induction xs rule: b64encode_raw.induct)
  case (4 a b c rest)
  then have "a < 256" "b < 256" "c < 256" by auto
  note bounds = b64_groups_bounded [OF this]
  with 4 show ?case by (simp add: b64_char_in_alphabet)
next
  case (3 a b)
  then have "a < 256" "b < 256" "0 < (256 :: nat)" by auto
  note bounds = b64_groups_bounded [OF this]
  then show ?case by (simp add: b64_char_in_alphabet)
qed (simp_all add: b64_char_in_alphabet)

lemma a2b_group:
  assumes "v0 < 64" and "v1 < 64" and "v2 < 64" and "v3 < 64"
  shows "a2b_base64 0 0 0 (b64_char v0 # b64_char v1 # b64_char v2 # b64_char v3 # rest) =
    map_option (\<lambda>r. (v0 * 4 + v1 div 16) # (v1 mod 16 * 16 + v2 div 4) # (v2 mod 4 * 64 + v3) # r)
      (a2b_base64 0 0 0 rest)"
  using assms by (simp add: b64_char_table option.map_comp comp_def)

lemma regroup_3:
  assumes "a < 256" and "b < 256" and "c < (256 :: nat)"
  shows "a div 4 * 4 + (a mod 4 * 16 + b div 16) div 16 = a"
    and "(a mod 4 * 16 + b div 16) mod 16 * 16 + (b mod 16 * 4 + c div 64) div 4 = b"
    and "(b mod 16 * 4 + c div 64) mod 4 * 64 + c mod 64 = c"
proof -
  have "b div 16 < 16" and "c div 64 < 4" using assms by auto
  then show "a div 4 * 4 + (a mod 4 * 16 + b div 16) div 16 = a"
    and "(a mod 4 * 16 + b div 16) mod 16 * 16 + (b mod 16 * 4 + c div 64) div 4 = b"
    and "(b mod 16 * 4 + c div 64) mod 4 * 64 + c mod 64 = c"
    by (simp_all add: div_mult_mod_eq)
qed

lemma a2b_b64encode_raw:
  "list_all (\<lambda>n. n < 256) xs \<Longrightarrow>
   a2b_base64 0 0 0 (b64encode_raw xs
     @ replicate (nat (- int (length (b64encode_raw xs)) mod 4)) (CHR ''='')) = Some xs"
proof (induction xs rule: b64encode_raw.induct)
  case (4 a b c rest)
  then have lt: "a < 256" "b < 256" "c < 256" by auto
  have pad: "- int (length (b64encode_raw (a # b # c # rest))) mod 4 = - int (length (b64encode_raw rest)) mod 4"
    by simp presburger
  from 4 have "a2b_base64 0 0 0 (b64encode_raw rest
     @ replicate (nat (- int (length (b64encode_raw rest)) mod 4)) (CHR ''='')) = Some rest"
    by simp
  then show ?case
    by (simp only: pad) (simp only: b64encode_raw.simps append_Cons
        a2b_group [OF b64_groups_bounded(1,3,5,6) [OF lt]] regroup_3 [OF lt] option.map)
next
  case (2 a)
  then have "a < 256" by simp
  then show ?case
    using b64_groups_bounded [of a 0 0] by (simp add: b64_char_table numeral_2_eq_2 div_mult_mod_eq)
next
  case (3 a b)
  then have lt: "a < 256" "b < 256" by auto
  then show ?case
    using b64_groups_bounded [of a b 0] regroup_3 [of a b 0] by (simp add: b64_char_table)
qed simp

lemma bytes_bounded: "list_all (\<lambda>n. n < 256) (map unat (bs :: bytes))"
proof -
  have "unat (b :: byte) < 256" for b using unsigned_less [of b] by simp
  then show ?thesis by (simp add: list_all_iff)
qed

lemma base64url_encode_raw: "base64url_encode bs = b64encode_raw (map unat bs)"
  by (simp add: base64url_encode_def rstrip_b64encode bytes_bounded)

lemma base64url_encode_alphabet: "set (base64url_encode bs) \<subseteq> set B64_ALPHABET"
  by (simp add: base64url_encode_raw b64encode_raw_alphabet bytes_bounded)

lemma length_base64url_encode: "length (base64url_encode bs) = (4 * length bs + 2) div 3"
  by (simp add: base64url_encode_raw length_b64encode_raw)

lemma base64url_encode_ascii: "is_ascii (base64url_encode bs)"
  using base64url_encode_alphabet [of bs] B64_ALPHABET_plain
  by (auto simp: is_ascii_def list_all_iff)

lemma base64url_decode_encode [simp]: "base64url_decode (base64url_encode bs) = Inr bs"
proof -
  have "a2b_base64 0 0 0 (base64url_encode bs
      @ replicate (nat (- int (length (base64url_encode bs)) mod 4)) (CHR ''='')) = Some (map unat bs)"
    unfolding base64url_encode_raw by (rule a2b_b64encode_raw [OF bytes_bounded])
  moreover have "is_ascii (base64url_encode bs @ replicate n (CHR ''=''))" for n
    using base64url_encode_ascii [of bs] by (auto simp: is_ascii_def list_all_iff)
  ultimately show ?thesis
    by (simp add: base64url_decode_def Let_def comp_def)
qed

section \<open>Properties\<close>

text \<open>
  Base64url round trip: decoding what \<open>base64url_encode\<close> wrote gives back the same bytes, for
  every byte string; the text written is unpadded, has length \<open>\<lceil>4n/3\<rceil>\<close> and stays in the
  URL-safe alphabet.
\<close>

theorem base64url_roundtrip:
  "base64url_decode (base64url_encode bs) = Inr bs
   \<and> length (base64url_encode bs) = (4 * length bs + 2) div 3
   \<and> set (base64url_encode bs) \<subseteq> set B64_ALPHABET"
  by (simp add: length_base64url_encode base64url_encode_alphabet)

end
