(* ===== verification/Kin_Schemas.thy ===== *)
theory Kin_Schemas
  imports Kin_Encoding "HOL-Library.Monad_Syntax"
begin

text \<open>
  The wire schemas of \<open>kin-node/kin/schemas.py\<close>: the enumerations with their string values, the
  validation patterns, the session envelope with its field validators, content hashing, signing
  and the six-stage verification pipeline.

  Python's \<open>re.match\<close> with a trailing \<open>$\<close> also accepts one final newline; \<open>at_dollar\<close> keeps
  that. The third-party functions (RFC 8785 canonicalisation, Ed25519, and pydantic's lax integer
  and boolean coercions) are the fields of the record \<open>crypto\<close>, an argument of every definition that uses
  them; what a theorem needs of them is a named hypothesis. SHA-256 is a field of the same
  record: no theorem depends on how it is computed. Human-readable error texts are not modelled;
  the error codes are.
\<close>

section \<open>Enumerations\<close>

datatype session_type = ASK | RESEARCH | DEBATE | BUILD_PIPELINE | REVIEW | DELEGATE_SUBTASK

fun session_type_value :: "session_type \<Rightarrow> string" where
  "session_type_value ASK = ''ask''"
| "session_type_value RESEARCH = ''research''"
| "session_type_value DEBATE = ''debate''"
| "session_type_value BUILD_PIPELINE = ''build_pipeline''"
| "session_type_value REVIEW = ''review''"
| "session_type_value DELEGATE_SUBTASK = ''delegate_subtask''"

definition SESSION_TYPES :: "session_type list" where
  "SESSION_TYPES = [ASK, RESEARCH, DEBATE, BUILD_PIPELINE, REVIEW, DELEGATE_SUBTASK]"

datatype message_kind =
    TASK_REQUEST | ACCEPTANCE | DECLINE | CLARIFICATION | PLAN | PROPOSAL | COUNTERPROPOSAL
  | FINDING | QUESTION | ANSWER | ARTIFACT_OFFER | ARTIFACT_ACCEPT | APPROVAL_REQUEST
  | APPROVAL_DECISION | STATUS_EVENT | FINAL_RESULT | CANCEL | PARTICIPANT_CHANGED

fun message_kind_value :: "message_kind \<Rightarrow> string" where
  "message_kind_value TASK_REQUEST = ''task_request''"
| "message_kind_value ACCEPTANCE = ''acceptance''"
| "message_kind_value DECLINE = ''decline''"
| "message_kind_value CLARIFICATION = ''clarification''"
| "message_kind_value PLAN = ''plan''"
| "message_kind_value PROPOSAL = ''proposal''"
| "message_kind_value COUNTERPROPOSAL = ''counterproposal''"
| "message_kind_value FINDING = ''finding''"
| "message_kind_value QUESTION = ''question''"
| "message_kind_value ANSWER = ''answer''"
| "message_kind_value ARTIFACT_OFFER = ''artifact_offer''"
| "message_kind_value ARTIFACT_ACCEPT = ''artifact_accept''"
| "message_kind_value APPROVAL_REQUEST = ''approval_request''"
| "message_kind_value APPROVAL_DECISION = ''approval_decision''"
| "message_kind_value STATUS_EVENT = ''status_event''"
| "message_kind_value FINAL_RESULT = ''final_result''"
| "message_kind_value CANCEL = ''cancel''"
| "message_kind_value PARTICIPANT_CHANGED = ''participant_changed''"

definition MESSAGE_KINDS :: "message_kind list" where
  "MESSAGE_KINDS =
    [TASK_REQUEST, ACCEPTANCE, DECLINE, CLARIFICATION, PLAN, PROPOSAL, COUNTERPROPOSAL, FINDING,
     QUESTION, ANSWER, ARTIFACT_OFFER, ARTIFACT_ACCEPT, APPROVAL_REQUEST, APPROVAL_DECISION,
     STATUS_EVENT, FINAL_RESULT, CANCEL, PARTICIPANT_CHANGED]"

datatype action_class =
    INFORMATIONAL_RELAY | SESSION_PARTICIPATION | ARTIFACT_RECEIPT | WORKSPACE_READ
  | WORKSPACE_WRITE | SHELL_NETWORK_EXTERNAL

fun action_class_value :: "action_class \<Rightarrow> string" where
  "action_class_value INFORMATIONAL_RELAY = ''informational_relay''"
| "action_class_value SESSION_PARTICIPATION = ''session_participation''"
| "action_class_value ARTIFACT_RECEIPT = ''artifact_receipt''"
| "action_class_value WORKSPACE_READ = ''workspace_read''"
| "action_class_value WORKSPACE_WRITE = ''workspace_write''"
| "action_class_value SHELL_NETWORK_EXTERNAL = ''shell_network_external''"

definition ACTION_CLASSES :: "action_class list" where
  "ACTION_CLASSES = [INFORMATIONAL_RELAY, SESSION_PARTICIPATION, ARTIFACT_RECEIPT, WORKSPACE_READ,
     WORKSPACE_WRITE, SHELL_NETWORK_EXTERNAL]"

datatype risk_label = LOW | MEDIUM | HIGH | CRITICAL

fun risk_label_value :: "risk_label \<Rightarrow> string" where
  "risk_label_value LOW = ''low''"
| "risk_label_value MEDIUM = ''medium''"
| "risk_label_value HIGH = ''high''"
| "risk_label_value CRITICAL = ''critical''"

datatype decision_kind = APPROVE_ONCE | DENY | EDIT_CONSTRAINTS | ALWAYS_ALLOW_BOUNDED

fun decision_kind_value :: "decision_kind \<Rightarrow> string" where
  "decision_kind_value APPROVE_ONCE = ''approve_once''"
| "decision_kind_value DENY = ''deny''"
| "decision_kind_value EDIT_CONSTRAINTS = ''edit_constraints''"
| "decision_kind_value ALWAYS_ALLOW_BOUNDED = ''always_allow_bounded''"

definition DECISION_KINDS :: "decision_kind list" where
  "DECISION_KINDS = [APPROVE_ONCE, DENY, EDIT_CONSTRAINTS, ALWAYS_ALLOW_BOUNDED]"

datatype agent_availability =
    READY | BUSY | RESERVED | NEEDS_KEY | NEEDS_WORKSPACE | WAITING_FOR_APPROVAL | OFFLINE
  | POLICY_BLOCKED

fun availability_value :: "agent_availability \<Rightarrow> string" where
  "availability_value READY = ''ready''"
| "availability_value BUSY = ''busy''"
| "availability_value RESERVED = ''reserved''"
| "availability_value NEEDS_KEY = ''needs_key''"
| "availability_value NEEDS_WORKSPACE = ''needs_workspace''"
| "availability_value WAITING_FOR_APPROVAL = ''waiting_for_approval''"
| "availability_value OFFLINE = ''offline''"
| "availability_value POLICY_BLOCKED = ''policy_blocked''"

definition AVAILABILITIES :: "agent_availability list" where
  "AVAILABILITIES = [READY, BUSY, RESERVED, NEEDS_KEY, NEEDS_WORKSPACE, WAITING_FOR_APPROVAL, OFFLINE,
     POLICY_BLOCKED]"

datatype autonomy_level = NEVER | ALWAYS_ASK | ALWAYS_ALLOW

fun autonomy_value :: "autonomy_level \<Rightarrow> string" where
  "autonomy_value NEVER = ''never''"
| "autonomy_value ALWAYS_ASK = ''always_ask''"
| "autonomy_value ALWAYS_ALLOW = ''always_allow''"

definition AUTONOMY_LEVELS :: "autonomy_level list" where
  "AUTONOMY_LEVELS = [NEVER, ALWAYS_ASK, ALWAYS_ALLOW]"

datatype internal_event_kind =
    MESSAGE | ENVELOPE_RECEIVED | PUBLIC_MSG | PRIVATE_NOTE | OUTBOUND_ENVELOPE_QUEUED | ACTIVITY
  | ADAPTER_ERROR | CHECKPOINT | DECISION | OUTCOME | RERUN_CREATED

fun internal_event_kind_value :: "internal_event_kind \<Rightarrow> string" where
  "internal_event_kind_value MESSAGE = ''message''"
| "internal_event_kind_value ENVELOPE_RECEIVED = ''envelope_received''"
| "internal_event_kind_value PUBLIC_MSG = ''public_msg''"
| "internal_event_kind_value PRIVATE_NOTE = ''private_note''"
| "internal_event_kind_value OUTBOUND_ENVELOPE_QUEUED = ''outbound_envelope_queued''"
| "internal_event_kind_value ACTIVITY = ''activity''"
| "internal_event_kind_value ADAPTER_ERROR = ''adapter_error''"
| "internal_event_kind_value CHECKPOINT = ''checkpoint''"
| "internal_event_kind_value DECISION = ''decision''"
| "internal_event_kind_value OUTCOME = ''outcome''"
| "internal_event_kind_value RERUN_CREATED = ''rerun_created''"

definition INTERNAL_EVENT_KINDS :: "internal_event_kind list" where
  "INTERNAL_EVENT_KINDS = [MESSAGE, ENVELOPE_RECEIVED, PUBLIC_MSG, PRIVATE_NOTE,
     OUTBOUND_ENVELOPE_QUEUED, ACTIVITY, ADAPTER_ERROR, CHECKPOINT, DECISION, OUTCOME, RERUN_CREATED]"

text \<open>\<open>MessageKind(v)\<close> and its kin: the member with that value, or \<open>ValueError\<close> (\<open>None\<close>).\<close>

definition session_type_of :: "string \<Rightarrow> session_type option" where
  "session_type_of v = find (\<lambda>k. session_type_value k = v) SESSION_TYPES"

definition message_kind_of :: "string \<Rightarrow> message_kind option" where
  "message_kind_of v = find (\<lambda>k. message_kind_value k = v) MESSAGE_KINDS"

definition availability_of :: "string \<Rightarrow> agent_availability option" where
  "availability_of v = find (\<lambda>k. availability_value k = v) AVAILABILITIES"

definition autonomy_of :: "string \<Rightarrow> autonomy_level option" where
  "autonomy_of v = find (\<lambda>k. autonomy_value k = v) AUTONOMY_LEVELS"

definition action_class_of :: "string \<Rightarrow> action_class option" where
  "action_class_of v = find (\<lambda>k. action_class_value k = v) ACTION_CLASSES"

definition decision_kind_of :: "string \<Rightarrow> decision_kind option" where
  "decision_kind_of v = find (\<lambda>k. decision_kind_value k = v) DECISION_KINDS"

definition internal_event_kind_of :: "string \<Rightarrow> internal_event_kind option" where
  "internal_event_kind_of v = find (\<lambda>k. internal_event_kind_value k = v) INTERNAL_EVENT_KINDS"

instantiation message_kind :: enum
begin

definition enum_message_kind :: "message_kind list" where
  "enum_message_kind = MESSAGE_KINDS"

definition enum_all_message_kind :: "(message_kind \<Rightarrow> bool) \<Rightarrow> bool" where
  "enum_all_message_kind P = list_all P MESSAGE_KINDS"

definition enum_ex_message_kind :: "(message_kind \<Rightarrow> bool) \<Rightarrow> bool" where
  "enum_ex_message_kind P = list_ex P MESSAGE_KINDS"

instance
proof (intro_classes)
  have all: "k \<in> set MESSAGE_KINDS" for k by (cases k) (simp_all add: MESSAGE_KINDS_def)
  then show "(UNIV :: message_kind set) = set enum_class.enum"
    unfolding enum_message_kind_def by blast
  show "distinct (enum_class.enum :: message_kind list)"
    by (simp add: enum_message_kind_def MESSAGE_KINDS_def)
  fix P :: "message_kind \<Rightarrow> bool"
  show "enum_class.enum_all P \<longleftrightarrow> Ball UNIV P"
    using all by (auto simp: enum_all_message_kind_def list_all_iff)
  show "enum_class.enum_ex P \<longleftrightarrow> Bex UNIV P"
    using all by (auto simp: enum_ex_message_kind_def list_ex_iff)
qed

end

section \<open>Validation patterns\<close>

definition char_code :: "char \<Rightarrow> nat" where
  "char_code ch = of_char ch"

definition NEWLINE :: char where
  "NEWLINE = CHR 0x0A"

definition is_digit :: "char \<Rightarrow> bool" where
  "is_digit ch = (48 \<le> char_code ch \<and> char_code ch \<le> 57)"

definition is_lower :: "char \<Rightarrow> bool" where
  "is_lower ch = (97 \<le> char_code ch \<and> char_code ch \<le> 122)"

definition is_upper :: "char \<Rightarrow> bool" where
  "is_upper ch = (65 \<le> char_code ch \<and> char_code ch \<le> 90)"

definition is_alnum :: "char \<Rightarrow> bool" where
  "is_alnum ch = (is_digit ch \<or> is_lower ch \<or> is_upper ch)"

text \<open>\<open>\s\<close> and \<open>str.isspace\<close> on the modelled code points.\<close>

definition is_space :: "char \<Rightarrow> bool" where
  "is_space ch = (let n = char_code ch in
     (9 \<le> n \<and> n \<le> 13) \<or> (28 \<le> n \<and> n \<le> 32) \<or> n = 133 \<or> n = 160)"

definition at_dollar :: "(string \<Rightarrow> bool) \<Rightarrow> string \<Rightarrow> bool" where
  "at_dollar body s = (body s \<or> (s \<noteq> [] \<and> last s = NEWLINE \<and> body (butlast s)))"

text \<open>A fixed layout in which \<open>#\<close> stands for a decimal digit; the rest of the input follows.\<close>

fun eat_layout :: "string \<Rightarrow> string \<Rightarrow> string option" where
  "eat_layout [] s = Some s"
| "eat_layout (p # ps) [] = None"
| "eat_layout (p # ps) (ch # s) =
     (if (if p = CHR ''#'' then is_digit ch else p = ch) then eat_layout ps s else None)"

definition timestamp_tail :: "string list \<Rightarrow> string \<Rightarrow> bool" where
  "timestamp_tail zones rest =
     (rest \<in> set zones \<or>
      (rest \<noteq> [] \<and> hd rest = CHR ''.'' \<and>
       takeWhile is_digit (tl rest) \<noteq> [] \<and> dropWhile is_digit (tl rest) \<in> set zones))"

definition timestamp_body :: "string list \<Rightarrow> string \<Rightarrow> bool" where
  "timestamp_body zones s =
     (case eat_layout ''####-##-##T##:##:##'' s of
        None \<Rightarrow> False
      | Some rest \<Rightarrow> timestamp_tail zones rest)"

definition TIMESTAMP_REGEX :: "string \<Rightarrow> bool" where
  "TIMESTAMP_REGEX = at_dollar (timestamp_body [''Z''])"

definition CREATED_AT_REGEX :: "string \<Rightarrow> bool" where
  "CREATED_AT_REGEX = at_dollar (timestamp_body [''+00:00'', ''Z''])"

definition url_safe_char :: "char \<Rightarrow> bool" where
  "url_safe_char ch = (is_alnum ch \<or> ch = CHR ''_'' \<or> ch = CHR ''-'')"

definition CONTENT_HASH_REGEX :: "string \<Rightarrow> bool" where
  "CONTENT_HASH_REGEX = at_dollar (\<lambda>s. length s = 43 \<and> list_all url_safe_char s)"

definition SAFE_ID_REGEX :: "string \<Rightarrow> bool" where
  "SAFE_ID_REGEX = at_dollar (\<lambda>s. 1 \<le> length s \<and> length s \<le> 64 \<and> list_all url_safe_char s)"

definition TAG_PATTERN :: "string \<Rightarrow> bool" where
  "TAG_PATTERN = at_dollar (\<lambda>s. s \<noteq> [] \<and>
     list_all (\<lambda>ch. is_lower ch \<or> is_digit ch \<or> ch = CHR ''-'') s)"

section \<open>JSON payloads\<close>

fun validate_json_primitives :: "pyval \<Rightarrow> unit result"
and validate_json_items :: "pyval list \<Rightarrow> unit result"
and validate_json_entries :: "(pyval \<times> pyval) list \<Rightarrow> unit result" where
  "validate_json_primitives PNone = Inr ()"
| "validate_json_primitives (PStr s) = Inr ()"
| "validate_json_primitives (PBool b) = Inr ()"
| "validate_json_primitives (PInt i) = Inr ()"
| "validate_json_primitives (PFloat f) =
     (case f of FFinite m e \<Rightarrow> Inr () | FNan \<Rightarrow> Inl ValueError | FInf s \<Rightarrow> Inl ValueError)"
| "validate_json_primitives (PList xs) = validate_json_items xs"
| "validate_json_primitives (PDict kvs) = validate_json_entries kvs"
| "validate_json_primitives (PObj c) = Inl ValueError"
| "validate_json_items [] = Inr ()"
| "validate_json_items (x # xs) =
     (case validate_json_primitives x of Inl e \<Rightarrow> Inl e | Inr _ \<Rightarrow> validate_json_items xs)"
| "validate_json_entries [] = Inr ()"
| "validate_json_entries ((k, v) # kvs) =
     (case k of
        PStr s \<Rightarrow>
          (case validate_json_primitives v of Inl e \<Rightarrow> Inl e | Inr _ \<Rightarrow> validate_json_entries kvs)
      | _ \<Rightarrow> Inl ValueError)"

text \<open>A \<open>dict[str, Any]\<close> as a Python value and back.\<close>

definition of_dict :: "pydict \<Rightarrow> pyval" where
  "of_dict d = PDict (map (\<lambda>(k, v). (PStr k, v)) d)"

definition as_str :: "pyval \<Rightarrow> string option" where
  "as_str v = (case v of PStr s \<Rightarrow> Some s | _ \<Rightarrow> None)"

fun as_entries :: "(pyval \<times> pyval) list \<Rightarrow> pydict option" where
  "as_entries [] = Some []"
| "as_entries ((k, v) # kvs) =
     (case (as_str k, as_entries kvs) of (Some s, Some d) \<Rightarrow> Some ((s, v) # d) | _ \<Rightarrow> None)"

definition as_str_dict :: "pyval \<Rightarrow> pydict option" where
  "as_str_dict v = (case v of PDict kvs \<Rightarrow> as_entries kvs | _ \<Rightarrow> None)"

section \<open>Cryptography and hashing\<close>

record crypto =
  c_jcs :: "pydict \<Rightarrow> bytes option"
  c_sha256 :: "bytes \<Rightarrow> bytes"
  c_ed_public :: "bytes \<Rightarrow> bytes"
  c_ed_sign :: "bytes \<Rightarrow> bytes \<Rightarrow> bytes"
  c_ed_verify :: "bytes \<Rightarrow> bytes \<Rightarrow> bytes \<Rightarrow> bool"
  c_lax_int :: "pyval \<Rightarrow> int option"
  c_lax_bool :: "pyval \<Rightarrow> bool option"

definition canonical_jcs :: "crypto \<Rightarrow> pydict \<Rightarrow> bytes result" where
  "canonical_jcs C data = (case c_jcs C data of None \<Rightarrow> Inl ValueError | Some b \<Rightarrow> Inr b)"

definition compute_content_hash :: "crypto \<Rightarrow> pydict \<Rightarrow> string result" where
  "compute_content_hash C payload =
     (case validate_json_primitives (of_dict payload) of
        Inl e \<Rightarrow> Inl e
      | Inr _ \<Rightarrow>
          (case canonical_jcs C payload of
             Inl e \<Rightarrow> Inl e
           | Inr jcs_bytes \<Rightarrow> Inr (base64url_encode (c_sha256 C jcs_bytes))))"

section \<open>The session envelope\<close>

record session_envelope =
  env_schema_version :: string
  env_protocol_version :: string
  env_session_id :: string
  env_sequence :: int
  env_actor_username :: string
  env_actor_agent_id :: string
  env_timestamp :: string
  env_kind :: message_kind
  env_content_hash :: string
  env_payload :: pydict
  env_signature :: "string option"

definition ENVELOPE_FIELDS :: "string list" where
  "ENVELOPE_FIELDS =
    [''schema_version'', ''protocol_version'', ''session_id'', ''sequence'', ''actor_username'',
     ''actor_agent_id'', ''timestamp'', ''kind'', ''content_hash'', ''payload'', ''signature'']"

definition validate_kind_enum :: "pyval \<Rightarrow> message_kind option" where
  "validate_kind_enum v = (case v of PStr s \<Rightarrow> message_kind_of s | _ \<Rightarrow> None)"

definition validate_strict_int_sequence :: "pyval \<Rightarrow> int option" where
  "validate_strict_int_sequence v = (case v of PInt i \<Rightarrow> if i < 1 then None else Some i | _ \<Rightarrow> None)"

definition validate_literal :: "string \<Rightarrow> pyval \<Rightarrow> string option" where
  "validate_literal lit v = (if v = PStr lit then Some lit else None)"

definition validate_pattern :: "(string \<Rightarrow> bool) \<Rightarrow> pyval \<Rightarrow> string option" where
  "validate_pattern re v = (case v of PStr s \<Rightarrow> if re s then Some s else None | _ \<Rightarrow> None)"

definition validate_payload_primitives :: "pyval \<Rightarrow> pydict option" where
  "validate_payload_primitives v =
     (case as_str_dict v of
        None \<Rightarrow> None
      | Some d \<Rightarrow> (case validate_json_primitives (of_dict d) of Inl _ \<Rightarrow> None | Inr _ \<Rightarrow> Some d))"

definition validate_optional_str :: "pyval option \<Rightarrow> string option option" where
  "validate_optional_str v =
     (case v of None \<Rightarrow> Some None | Some PNone \<Rightarrow> Some None | Some (PStr s) \<Rightarrow> Some (Some s) | _ \<Rightarrow> None)"

text \<open>\<open>SessionEnvelope.model_validate(raw)\<close>: any field error is one \<open>ValidationError\<close>.\<close>

definition envelope_fields :: "pydict \<Rightarrow> session_envelope option" where
  "envelope_fields raw = do {
     sv \<leftarrow> Option.bind (map_of raw ''schema_version'') (validate_literal ''1.1'');
     pv \<leftarrow> Option.bind (map_of raw ''protocol_version'') (validate_literal ''1.1'');
     sid \<leftarrow> Option.bind (map_of raw ''session_id'') as_str;
     sq \<leftarrow> Option.bind (map_of raw ''sequence'') validate_strict_int_sequence;
     au \<leftarrow> Option.bind (map_of raw ''actor_username'') as_str;
     ag \<leftarrow> Option.bind (map_of raw ''actor_agent_id'') as_str;
     ts \<leftarrow> Option.bind (map_of raw ''timestamp'') (validate_pattern TIMESTAMP_REGEX);
     kd \<leftarrow> Option.bind (map_of raw ''kind'') validate_kind_enum;
     ch \<leftarrow> Option.bind (map_of raw ''content_hash'') (validate_pattern CONTENT_HASH_REGEX);
     pl \<leftarrow> Option.bind (map_of raw ''payload'') validate_payload_primitives;
     sg \<leftarrow> validate_optional_str (map_of raw ''signature'');
     Some \<lparr>env_schema_version = sv, env_protocol_version = pv, env_session_id = sid,
       env_sequence = sq, env_actor_username = au, env_actor_agent_id = ag, env_timestamp = ts,
       env_kind = kd, env_content_hash = ch, env_payload = pl, env_signature = sg\<rparr>
   }"

definition session_envelope_validate :: "pydict \<Rightarrow> session_envelope result" where
  "session_envelope_validate raw =
     (if \<not> set (map fst raw) \<subseteq> set ENVELOPE_FIELDS then Inl ValidationError
      else case envelope_fields raw of None \<Rightarrow> Inl ValidationError | Some e \<Rightarrow> Inr e)"

text \<open>\<open>envelope.model_dump(mode="json")\<close>.\<close>

definition envelope_dump :: "session_envelope \<Rightarrow> pydict" where
  "envelope_dump e =
    [(''schema_version'', PStr (env_schema_version e)),
     (''protocol_version'', PStr (env_protocol_version e)),
     (''session_id'', PStr (env_session_id e)),
     (''sequence'', PInt (env_sequence e)),
     (''actor_username'', PStr (env_actor_username e)),
     (''actor_agent_id'', PStr (env_actor_agent_id e)),
     (''timestamp'', PStr (env_timestamp e)),
     (''kind'', PStr (message_kind_value (env_kind e))),
     (''content_hash'', PStr (env_content_hash e)),
     (''payload'', of_dict (env_payload e)),
     (''signature'', (case env_signature e of None \<Rightarrow> PNone | Some s \<Rightarrow> PStr s))]"

subsection \<open>Signatures\<close>

definition unsigned_part :: "pydict \<Rightarrow> pydict" where
  "unsigned_part d = filter (\<lambda>(k, v). k \<noteq> ''signature'') d"

definition sign_envelope :: "crypto \<Rightarrow> pydict \<Rightarrow> bytes \<Rightarrow> string result" where
  "sign_envelope C envelope_dict private_key =
     (case canonical_jcs C (unsigned_part envelope_dict) of
        Inl e \<Rightarrow> Inl e
      | Inr jcs_bytes \<Rightarrow> Inr (base64url_encode (c_ed_sign C private_key jcs_bytes)))"

definition verify_envelope_signature :: "crypto \<Rightarrow> pydict \<Rightarrow> bytes \<Rightarrow> bool" where
  "verify_envelope_signature C envelope_dict public_key =
     (let sig_str = dget envelope_dict ''signature'' in
      if \<not> truthy sig_str then False
      else (case sig_str of
              PStr s \<Rightarrow>
                (case base64url_decode s of
                   Inl _ \<Rightarrow> False
                 | Inr sig_bytes \<Rightarrow>
                     (case canonical_jcs C (unsigned_part envelope_dict) of
                        Inl _ \<Rightarrow> False
                      | Inr jcs_bytes \<Rightarrow> c_ed_verify C public_key sig_bytes jcs_bytes))
            | _ \<Rightarrow> False))"

subsection \<open>The verification pipeline\<close>

record verified_envelope =
  ve_envelope :: session_envelope
  ve_actor_public_key :: bytes
  ve_verified_at :: string

record verification_result =
  vr_success :: bool
  vr_verified_envelope :: "verified_envelope option"
  vr_error_code :: "string option"

definition verification_failure :: "string \<Rightarrow> verification_result" where
  "verification_failure code =
     \<lparr>vr_success = False, vr_verified_envelope = None, vr_error_code = Some code\<rparr>"

definition verify_and_build_envelope ::
  "crypto \<Rightarrow> pydict \<Rightarrow> (string \<Rightarrow> bytes option) \<Rightarrow> string \<Rightarrow> (string \<times> string) list
   \<Rightarrow> verification_result" where
  "verify_and_build_envelope C raw_dict get_public_key_fn active_session_id participant_map =
     (case session_envelope_validate raw_dict of
        Inl _ \<Rightarrow> verification_failure ''STRUCTURAL_SCHEMA_INVALID''
      | Inr envelope \<Rightarrow>
        if env_session_id envelope \<noteq> active_session_id
        then verification_failure ''SESSION_ID_MISMATCH''
        else (case compute_content_hash C (env_payload envelope) of
          Inl _ \<Rightarrow> verification_failure ''PAYLOAD_CANONICALIZATION_FAILED''
        | Inr expected_hash \<Rightarrow>
          if env_content_hash envelope \<noteq> expected_hash
          then verification_failure ''CONTENT_HASH_MISMATCH''
          else (case map_of participant_map (env_actor_username envelope) of
            None \<Rightarrow> verification_failure ''UNAUTHORIZED_ACTOR''
          | Some expected_agent_id \<Rightarrow>
            if env_actor_agent_id envelope \<noteq> expected_agent_id
            then verification_failure ''UNAUTHORIZED_AGENT''
            else (case get_public_key_fn (env_actor_username envelope) of
              None \<Rightarrow> verification_failure ''PUBLIC_KEY_NOT_FOUND''
            | Some pub_key \<Rightarrow>
              if \<not> otruthy (env_signature envelope) \<or> \<not> verify_envelope_signature C raw_dict pub_key
              then verification_failure ''INVALID_SIGNATURE''
              else \<lparr>vr_success = True,
                    vr_verified_envelope = Some \<lparr>ve_envelope = envelope,
                      ve_actor_public_key = pub_key, ve_verified_at = env_timestamp envelope\<rparr>,
                    vr_error_code = None\<rparr>))))"

section \<open>Lemmas\<close>

lemma message_kind_of_value [simp]: "message_kind_of (message_kind_value k) = Some k"
  by (cases k) (simp_all add: message_kind_of_def MESSAGE_KINDS_def)

lemma message_kind_value_inject [simp]: "message_kind_value k = message_kind_value l \<longleftrightarrow> k = l"
  by (metis message_kind_of_value option.inject)

lemma message_kind_of_SomeD: "message_kind_of v = Some k \<Longrightarrow> message_kind_value k = v"
  by (auto simp: message_kind_of_def find_Some_iff)

lemma action_class_of_value [simp]: "action_class_of (action_class_value k) = Some k"
  by (cases k) (simp_all add: action_class_of_def ACTION_CLASSES_def)

lemma action_class_value_inject [simp]: "action_class_value k = action_class_value l \<longleftrightarrow> k = l"
  by (metis action_class_of_value option.inject)

lemma decision_kind_of_value [simp]: "decision_kind_of (decision_kind_value k) = Some k"
  by (cases k) (simp_all add: decision_kind_of_def DECISION_KINDS_def)

lemma decision_kind_value_inject [simp]: "decision_kind_value k = decision_kind_value l \<longleftrightarrow> k = l"
  by (metis decision_kind_of_value option.inject)

lemma as_entries_of_dict [simp]: "as_entries (map (\<lambda>(k, v). (PStr k, v)) d) = Some d"
  by (induction d) (auto simp: as_str_def)

lemma as_str_dict_of_dict [simp]: "as_str_dict (of_dict d) = Some d"
  by (simp add: as_str_dict_def of_dict_def)

lemma at_dollar_body: "body s \<Longrightarrow> at_dollar body s"
  by (simp add: at_dollar_def)

lemma B64_ALPHABET_url_safe: "list_all url_safe_char B64_ALPHABET"
  by code_simp

lemma content_hash_matches_regex: "length bs = 32 \<Longrightarrow> CONTENT_HASH_REGEX (base64url_encode bs)"
  using B64_ALPHABET_url_safe base64url_encode_alphabet [of bs]
  by (auto simp: CONTENT_HASH_REGEX_def length_base64url_encode list_all_iff intro!: at_dollar_body)

text \<open>Canonicalisation ignores the signature field, whatever its value and position.\<close>

lemma unsigned_part_update [simp]:
  "unsigned_part (AList.update ''signature'' v d) = unsigned_part d"
  by (induction d) (auto simp: unsigned_part_def)

lemma compute_content_hash_wf:
  assumes "compute_content_hash C p = Inr h" and "\<And>b. length (c_sha256 C b) = 32"
  shows "CONTENT_HASH_REGEX h"
  using assms by (auto simp: compute_content_hash_def content_hash_matches_regex split: sum.splits)

subsection \<open>Well-formed envelopes\<close>

definition wf_envelope :: "session_envelope \<Rightarrow> bool" where
  "wf_envelope e =
     (env_schema_version e = ''1.1'' \<and> env_protocol_version e = ''1.1'' \<and> 1 \<le> env_sequence e \<and>
      TIMESTAMP_REGEX (env_timestamp e) \<and> CONTENT_HASH_REGEX (env_content_hash e) \<and>
      validate_json_primitives (of_dict (env_payload e)) = Inr ())"

lemmas field_validator_defs = validate_literal_def validate_strict_int_sequence_def
  validate_pattern_def validate_kind_enum_def validate_payload_primitives_def
  validate_optional_str_def as_str_def

lemma envelope_fields_dump: "wf_envelope e \<Longrightarrow> envelope_fields (envelope_dump e) = Some e"
  by (simp add: envelope_fields_def envelope_dump_def wf_envelope_def field_validator_defs
      split: option.splits)

lemma envelope_dump_keys: "map fst (envelope_dump e) = ENVELOPE_FIELDS"
  by (simp add: envelope_dump_def ENVELOPE_FIELDS_def)

lemma session_envelope_validate_dump:
  "wf_envelope e \<Longrightarrow> session_envelope_validate (envelope_dump e) = Inr e"
  by (simp add: session_envelope_validate_def envelope_dump_keys envelope_fields_dump)

lemma validate_literalD: "validate_literal lit v = Some s \<Longrightarrow> s = lit"
  by (simp add: validate_literal_def split: if_splits)

lemma validate_strict_int_sequenceD: "validate_strict_int_sequence v = Some i \<Longrightarrow> v = PInt i \<and> 1 \<le> i"
  by (cases v) (auto simp: validate_strict_int_sequence_def split: if_splits)

lemma validate_patternD: "validate_pattern re v = Some s \<Longrightarrow> v = PStr s \<and> re s"
  by (cases v) (auto simp: validate_pattern_def split: if_splits)

lemma validate_payload_primitivesD:
  "validate_payload_primitives v = Some d \<Longrightarrow> validate_json_primitives (of_dict d) = Inr ()"
  by (auto simp: validate_payload_primitives_def split: option.splits sum.splits)

lemmas field_validator_dests = validate_literalD validate_strict_int_sequenceD validate_patternD
  validate_payload_primitivesD

lemma envelope_fields_wf: "envelope_fields raw = Some e \<Longrightarrow> wf_envelope e"
  unfolding envelope_fields_def wf_envelope_def
  by (clarsimp simp: bind_eq_Some_conv) (auto dest!: field_validator_dests)

lemma session_envelope_validate_wf: "session_envelope_validate raw = Inr e \<Longrightarrow> wf_envelope e"
  by (auto simp: session_envelope_validate_def split: if_splits option.splits
      intro: envelope_fields_wf)

subsection \<open>Signing and verification\<close>

lemma sign_then_verify:
  assumes jcs: "c_jcs C (unsigned_part d) = Some b"
    and ed: "c_ed_verify C (c_ed_public C sk) (c_ed_sign C sk b) b"
    and nonempty: "c_ed_sign C sk b \<noteq> []"
  shows "sign_envelope C d sk = Inr (base64url_encode (c_ed_sign C sk b))
    \<and> verify_envelope_signature C
        (AList.update ''signature'' (PStr (base64url_encode (c_ed_sign C sk b))) d) (c_ed_public C sk)"
proof -
  have "base64url_encode (c_ed_sign C sk b) \<noteq> []"
  proof
    assume "base64url_encode (c_ed_sign C sk b) = []"
    then have "length (base64url_encode (c_ed_sign C sk b)) = 0" by simp
    with nonempty show False
      by (cases "c_ed_sign C sk b") (auto simp: length_base64url_encode)
  qed
  with assms show ?thesis
    by (simp add: sign_envelope_def verify_envelope_signature_def canonical_jcs_def dget_def)
qed

lemma verify_signatureD:
  assumes "verify_envelope_signature C d pk"
  shows "\<exists>s sig b. map_of d ''signature'' = Some (PStr s) \<and> base64url_decode s = Inr sig
    \<and> c_jcs C (unsigned_part d) = Some b \<and> c_ed_verify C pk sig b"
  using assms
  by (auto simp: verify_envelope_signature_def canonical_jcs_def dget_def Let_def
      split: if_splits pyval.splits sum.splits option.splits)

lemma envelope_dump_signed:
  "envelope_dump (e\<lparr>env_signature := Some s\<rparr>) = AList.update ''signature'' (PStr s) (envelope_dump e)"
  by (simp add: envelope_dump_def)

lemma wf_envelope_signature [simp]: "wf_envelope (e\<lparr>env_signature := x\<rparr>) = wf_envelope e"
  by (simp add: wf_envelope_def)

text \<open>Success of the pipeline is exactly the conjunction of its six stages.\<close>

lemma verify_and_build_success_iff:
  "vr_success (verify_and_build_envelope C raw get_pk sid pmap) \<longleftrightarrow>
   (\<exists>e pk. session_envelope_validate raw = Inr e \<and> env_session_id e = sid
      \<and> compute_content_hash C (env_payload e) = Inr (env_content_hash e)
      \<and> map_of pmap (env_actor_username e) = Some (env_actor_agent_id e)
      \<and> get_pk (env_actor_username e) = Some pk
      \<and> otruthy (env_signature e) \<and> verify_envelope_signature C raw pk
      \<and> verify_and_build_envelope C raw get_pk sid pmap =
          \<lparr>vr_success = True,
           vr_verified_envelope = Some \<lparr>ve_envelope = e, ve_actor_public_key = pk,
             ve_verified_at = env_timestamp e\<rparr>,
           vr_error_code = None\<rparr>)"
  (is "?l \<longleftrightarrow> ?r")
proof
  assume ?l
  then show ?r
    by (auto simp: verify_and_build_envelope_def verification_failure_def
        split: sum.splits option.splits if_splits)
next
  assume ?r
  then show ?l by auto
qed

text \<open>A failed pipeline carries one of seven codes and no envelope.\<close>

definition VERIFICATION_CODES :: "string list" where
  "VERIFICATION_CODES = [''STRUCTURAL_SCHEMA_INVALID'', ''SESSION_ID_MISMATCH'',
     ''PAYLOAD_CANONICALIZATION_FAILED'', ''CONTENT_HASH_MISMATCH'', ''UNAUTHORIZED_ACTOR'',
     ''UNAUTHORIZED_AGENT'', ''PUBLIC_KEY_NOT_FOUND'', ''INVALID_SIGNATURE'']"

definition coded :: "verification_result \<Rightarrow> bool" where
  "coded r = (vr_success r \<or> (\<exists>code \<in> set VERIFICATION_CODES. r = verification_failure code))"

lemma coded_failure: "code \<in> set VERIFICATION_CODES \<Longrightarrow> coded (verification_failure code)"
  by (auto simp: coded_def)

lemma coded_results:
  "coded (verification_failure ''STRUCTURAL_SCHEMA_INVALID'')" "coded (verification_failure ''SESSION_ID_MISMATCH'')"
  "coded (verification_failure ''PAYLOAD_CANONICALIZATION_FAILED'')" "coded (verification_failure ''CONTENT_HASH_MISMATCH'')"
  "coded (verification_failure ''UNAUTHORIZED_ACTOR'')" "coded (verification_failure ''UNAUTHORIZED_AGENT'')"
  "coded (verification_failure ''PUBLIC_KEY_NOT_FOUND'')" "coded (verification_failure ''INVALID_SIGNATURE'')"
  "coded \<lparr>vr_success = True, vr_verified_envelope = v, vr_error_code = c\<rparr>"
  by (rule coded_failure, simp add: VERIFICATION_CODES_def)+ (simp add: coded_def)

lemma verify_and_build_failure:
  assumes "\<not> vr_success (verify_and_build_envelope C raw get_pk sid pmap)"
  shows "\<exists>code \<in> set VERIFICATION_CODES.
    verify_and_build_envelope C raw get_pk sid pmap = verification_failure code"
proof -
  have "coded (verify_and_build_envelope C raw get_pk sid pmap)"
    unfolding verify_and_build_envelope_def by (simp add: coded_results split: sum.split option.split)
  then show ?thesis using assms by (simp add: coded_def)
qed

section \<open>Properties\<close>

text \<open>
  Envelope round trip: \<open>SessionEnvelope.model_validate\<close> accepts what \<open>model_dump\<close> wrote and
  gives the same envelope back exactly when the envelope is well formed (versions 1.1, sequence at
  least one, timestamp and hash in their formats, JSON payload).
\<close>

theorem envelope_dump_roundtrip:
  "session_envelope_validate (envelope_dump e) = Inr e \<longleftrightarrow> wf_envelope e"
  using session_envelope_validate_dump session_envelope_validate_wf by blast

text \<open>
  C34. An honest envelope is accepted: a participant that fills in the content hash of its payload
  and signs the envelope with its own key produces a dictionary that the six-stage pipeline of the
  peer accepts, with the signed envelope as the result. The hypotheses on the cryptography are that
  canonicalisation succeeds on the envelope and that the Ed25519 signature just made is non-empty
  and verifies under the matching public key.
\<close>

theorem honest_envelope_verifies:
  assumes "wf_envelope e"
    and "compute_content_hash C (env_payload e) = Inr (env_content_hash e)"
    and "c_jcs C (unsigned_part (envelope_dump e)) = Some b"
    and "c_ed_verify C (c_ed_public C sk) (c_ed_sign C sk b) b"
    and "c_ed_sign C sk b \<noteq> []"
    and "map_of pmap (env_actor_username e) = Some (env_actor_agent_id e)"
    and "get_pk (env_actor_username e) = Some (c_ed_public C sk)"
  shows "\<exists>s. sign_envelope C (envelope_dump e) sk = Inr s
    \<and> vr_success (verify_and_build_envelope C (envelope_dump (e\<lparr>env_signature := Some s\<rparr>)) get_pk
          (env_session_id e) pmap)
    \<and> vr_verified_envelope (verify_and_build_envelope C (envelope_dump (e\<lparr>env_signature := Some s\<rparr>))
          get_pk (env_session_id e) pmap)
        = Some \<lparr>ve_envelope = e\<lparr>env_signature := Some s\<rparr>, ve_actor_public_key = c_ed_public C sk,
                 ve_verified_at = env_timestamp e\<rparr>"
proof -
  let ?s = "base64url_encode (c_ed_sign C sk b)"
  let ?e = "e\<lparr>env_signature := Some ?s\<rparr>"
  have sv: "sign_envelope C (envelope_dump e) sk = Inr ?s
      \<and> verify_envelope_signature C (envelope_dump ?e) (c_ed_public C sk)"
    unfolding envelope_dump_signed by (rule sign_then_verify [OF assms(3-5)])
  moreover from sv have "?s \<noteq> []"
    by (auto simp: verify_envelope_signature_def envelope_dump_def dget_def)
  moreover have "session_envelope_validate (envelope_dump ?e) = Inr ?e"
    using assms(1) by (simp add: session_envelope_validate_dump)
  ultimately show ?thesis
    using assms(2,6,7) by (simp add: verify_and_build_envelope_def otruthy_def)
qed

definition demo_crypto :: crypto where
  "demo_crypto =
     \<lparr>c_jcs = (\<lambda>d. Some (concat (map (\<lambda>(k, v). map of_char k) d))),
      c_sha256 = (\<lambda>b. replicate 32 (of_nat (length b))),
      c_ed_public = (\<lambda>sk. sk),
      c_ed_sign = (\<lambda>sk m. sk @ m),
      c_ed_verify = (\<lambda>pk sig m. sig = pk @ m),
      c_lax_int = (\<lambda>v. case v of PInt i \<Rightarrow> Some i | _ \<Rightarrow> None),
      c_lax_bool = (\<lambda>v. case v of PBool b \<Rightarrow> Some b | _ \<Rightarrow> None)\<rparr>"

definition demo_envelope :: session_envelope where
  "demo_envelope =
     \<lparr>env_schema_version = ''1.1'', env_protocol_version = ''1.1'', env_session_id = ''s1'',
      env_sequence = 1, env_actor_username = ''alice'', env_actor_agent_id = ''a1'',
      env_timestamp = ''2026-01-02T03:04:05Z'', env_kind = TASK_REQUEST,
      env_content_hash = base64url_encode (replicate 32 4),
      env_payload = [(''goal'', PStr ''x'')], env_signature = None\<rparr>"

lemma demo_envelope_ok:
  "wf_envelope demo_envelope"
  "compute_content_hash demo_crypto (env_payload demo_envelope) = Inr (env_content_hash demo_envelope)"
  by code_simp+

theorem honest_envelope_verifies_witness:
  "\<exists>s. sign_envelope demo_crypto (envelope_dump demo_envelope) [5] = Inr s
    \<and> vr_success (verify_and_build_envelope demo_crypto
         (envelope_dump (demo_envelope\<lparr>env_signature := Some s\<rparr>))
         [''alice'' \<mapsto> [5]] ''s1'' [(''alice'', ''a1'')])"
proof -
  have "c_jcs demo_crypto (unsigned_part (envelope_dump demo_envelope))
      = Some (concat (map (\<lambda>(k, v). map of_char k) (unsigned_part (envelope_dump demo_envelope))))"
    by (simp add: demo_crypto_def)
  from honest_envelope_verifies [OF demo_envelope_ok this,
      of "[5]" "[(''alice'', ''a1'')]" "[''alice'' \<mapsto> [5]]"]
  show ?thesis by (auto simp: demo_crypto_def demo_envelope_def)
qed


definition demo_signed :: pydict where
  "demo_signed = envelope_dump (demo_envelope\<lparr>env_signature :=
     Some (base64url_encode ([5] @ the (c_jcs demo_crypto (unsigned_part (envelope_dump demo_envelope)))))\<rparr>)"

lemma demo_signed_verifies:
  "verify_and_build_envelope demo_crypto demo_signed [''alice'' \<mapsto> [5]] ''s1'' [(''alice'', ''a1'')]
   = \<lparr>vr_success = True,
      vr_verified_envelope = Some \<lparr>ve_envelope = demo_envelope\<lparr>env_signature :=
          Some (base64url_encode ([5] @ the (c_jcs demo_crypto (unsigned_part (envelope_dump demo_envelope)))))\<rparr>,
        ve_actor_public_key = [5], ve_verified_at = ''2026-01-02T03:04:05Z''\<rparr>,
      vr_error_code = None\<rparr>"
  by code_simp


end
