(* ===== verification/Kin_Reducer.thy ===== *)
theory Kin_Reducer
  imports Kin_Lifecycle Kin_Schemas
begin

text \<open>
  The session state machine of \<open>kin-node/kin/session/reducer.py\<close>: participants, the session
  state, and the three processors (verified peer envelopes, node commands, owner commands), each a
  function from a state to a result that carries the next state or an error code and the state
  unchanged. A Python exception that escapes a processor is the left summand.

  The locale \<open>session_processor\<close> is the contract the three processors share; it is interpreted
  for each of them and for the combined command of a whole session, and the invariants of a
  session run are proved by rule induction on \<open>session_step\<close>.
\<close>

section \<open>State\<close>

record participant_info =
  pi_agent_id :: string
  pi_role :: string

record session_state =
  ss_session_id :: string
  ss_initiator_username :: string
  ss_receiver_username :: string
  ss_status :: string
  ss_current_turn :: int
  ss_max_turns :: int
  ss_actor_sequences :: "(string \<times> int) list"
  ss_participants :: "(string \<times> participant_info) list"
  ss_last_resumable_status :: "string option"
  ss_events :: "pydict list"

definition owner_usernames :: "session_state \<Rightarrow> string list" where
  "owner_usernames state =
     [ss_initiator_username state, ss_receiver_username state]
     @ map fst (filter (\<lambda>(un, p). pi_role p = ''owner'') (ss_participants state))"

record reducer_result =
  rr_success :: bool
  rr_new_state :: session_state
  rr_error_code :: "string option"

definition reducer_failure :: "session_state \<Rightarrow> string \<Rightarrow> reducer_result" where
  "reducer_failure state code =
     \<lparr>rr_success = False, rr_new_state = state, rr_error_code = Some code\<rparr>"

definition reducer_success :: "session_state \<Rightarrow> reducer_result" where
  "reducer_success state = \<lparr>rr_success = True, rr_new_state = state, rr_error_code = None\<rparr>"

section \<open>Tables\<close>

fun PEER_KIND_TRANSITION_MAP :: "message_kind \<Rightarrow> string option" where
  "PEER_KIND_TRANSITION_MAP TASK_REQUEST = Some ''sent''"
| "PEER_KIND_TRANSITION_MAP ACCEPTANCE = Some ''accepted''"
| "PEER_KIND_TRANSITION_MAP DECLINE = Some ''declined''"
| "PEER_KIND_TRANSITION_MAP CLARIFICATION = Some ''needs_clarification''"
| "PEER_KIND_TRANSITION_MAP PROPOSAL = Some ''active''"
| "PEER_KIND_TRANSITION_MAP COUNTERPROPOSAL = Some ''active''"
| "PEER_KIND_TRANSITION_MAP FINDING = Some ''active''"
| "PEER_KIND_TRANSITION_MAP QUESTION = Some ''active''"
| "PEER_KIND_TRANSITION_MAP ANSWER = Some ''active''"
| "PEER_KIND_TRANSITION_MAP ARTIFACT_OFFER = Some ''active''"
| "PEER_KIND_TRANSITION_MAP ARTIFACT_ACCEPT = Some ''active''"
| "PEER_KIND_TRANSITION_MAP APPROVAL_REQUEST = Some ''awaiting_owner_approval''"
| "PEER_KIND_TRANSITION_MAP FINAL_RESULT = Some ''completed''"
| "PEER_KIND_TRANSITION_MAP CANCEL = Some ''cancelled''"
| "PEER_KIND_TRANSITION_MAP STATUS_EVENT = None"
| "PEER_KIND_TRANSITION_MAP PLAN = Some ''active''"
| "PEER_KIND_TRANSITION_MAP PARTICIPANT_CHANGED = None"
| "PEER_KIND_TRANSITION_MAP APPROVAL_DECISION = None"

definition TURN_CONSUMING_KINDS :: "message_kind list" where
  "TURN_CONSUMING_KINDS =
     [TASK_REQUEST, PROPOSAL, COUNTERPROPOSAL, FINDING, QUESTION, ANSWER, ARTIFACT_OFFER,
      ARTIFACT_ACCEPT]"

definition OWNER_ONLY_KINDS :: "message_kind list" where
  "OWNER_ONLY_KINDS = [CANCEL, APPROVAL_DECISION]"

section \<open>Peer envelopes\<close>

text \<open>
  The guards of \<open>process_peer_envelope\<close>, in the order the function has them. The flag
  \<open>is_unaccepted_receiver_accept\<close> is a local variable that is only assigned when the session has
  participants; reading it otherwise raises \<open>UnboundLocalError\<close>.
\<close>

definition is_unaccepted_receiver_accept :: "session_state \<Rightarrow> session_envelope \<Rightarrow> bool" where
  "is_unaccepted_receiver_accept state envelope =
     (env_kind envelope = ACCEPTANCE
      \<and> env_actor_username envelope = ss_receiver_username state
      \<and> ss_status state \<in> set [''draft'', ''sent'', ''queued'', ''delivered'', ''peer_review''])"

definition participant_gate :: "session_state \<Rightarrow> session_envelope \<Rightarrow> string option" where
  "participant_gate state envelope =
     (if ss_participants state = [] then None
      else case map_of (ss_participants state) (env_actor_username envelope) of
        None \<Rightarrow> Some ''UNAUTHORIZED_ACTOR''
      | Some participant \<Rightarrow>
          if env_actor_agent_id envelope \<noteq> pi_agent_id participant
             \<and> \<not> is_unaccepted_receiver_accept state envelope
          then Some ''UNAUTHORIZED_AGENT''
          else if env_kind envelope \<in> set OWNER_ONLY_KINDS \<and> pi_role participant \<noteq> ''owner''
          then Some ''UNAUTHORIZED_ROLE_ACTION''
          else None)"

definition sequence_gate :: "session_state \<Rightarrow> session_envelope \<Rightarrow> string option" where
  "sequence_gate state envelope =
     (let last_seq = iget (ss_actor_sequences state) (env_actor_username envelope) in
      if env_sequence envelope = last_seq then Some ''DUPLICATE_SEQUENCE''
      else if env_sequence envelope \<noteq> last_seq + 1 then Some ''OUT_OF_ORDER_SEQUENCE''
      else None)"

definition target_status :: "session_state \<Rightarrow> session_envelope \<Rightarrow> string" where
  "target_status state envelope =
     (case PEER_KIND_TRANSITION_MAP (env_kind envelope) of
        None \<Rightarrow> ss_status state
      | Some mapped_target \<Rightarrow> mapped_target)"

definition transition_gate :: "session_state \<Rightarrow> session_envelope \<Rightarrow> string option result" where
  "transition_gate state envelope =
     (if target_status state envelope \<noteq> ss_status state
         \<and> \<not> is_valid_transition (ss_status state) (target_status state envelope)
      then (if ss_participants state = [] then Inl UnboundLocalError
            else if is_unaccepted_receiver_accept state envelope then Inr None
            else Inr (Some ''INVALID_STATE_TRANSITION''))
      else Inr None)"

definition turn_gate :: "session_state \<Rightarrow> session_envelope \<Rightarrow> string option" where
  "turn_gate state envelope =
     (if env_kind envelope \<in> set TURN_CONSUMING_KINDS
         \<and> ss_max_turns state \<le> ss_current_turn state
         \<and> target_status state envelope \<notin> set TERMINAL_STATES
      then Some ''TURN_LIMIT_EXCEEDED''
      else None)"

definition next_turn :: "session_state \<Rightarrow> session_envelope \<Rightarrow> int" where
  "next_turn state envelope =
     (if env_kind envelope \<in> set TURN_CONSUMING_KINDS then ss_current_turn state + 1
      else ss_current_turn state)"

definition peer_checkpoint :: "session_state \<Rightarrow> string \<Rightarrow> string option" where
  "peer_checkpoint state target =
     (if target \<in> set RESUMABLE_STATES \<and> ss_status state \<notin> set RESUMABLE_STATES
      then Some (ss_status state)
      else ss_last_resumable_status state)"

text \<open>
  An acceptance names the agent that will take part; \<open>ParticipantInfo\<close> is a strict model, so an
  agent id that is not a string raises.
\<close>

definition accepting_agent :: "session_envelope \<Rightarrow> pyval" where
  "accepting_agent envelope =
     py_or (py_or (dget (env_payload envelope) ''accepting_agent_id'')
                  (dget (env_payload envelope) ''receiver_agent_id''))
           (PStr (env_actor_agent_id envelope))"

definition accepted_participants ::
  "session_state \<Rightarrow> session_envelope \<Rightarrow> (string \<times> participant_info) list result" where
  "accepted_participants state envelope =
     (if env_kind envelope = ACCEPTANCE
      then (case accepting_agent envelope of
              PStr acc_ag_id \<Rightarrow>
                Inr (AList.update (env_actor_username envelope)
                  \<lparr>pi_agent_id = acc_ag_id,
                   pi_role = (if env_actor_username envelope = ss_receiver_username state
                              then ''receiver'' else ''owner'')\<rparr>
                  (ss_participants state))
            | _ \<Rightarrow> Inl ValidationError)
      else Inr (ss_participants state))"

definition peer_updated_state ::
  "session_state \<Rightarrow> session_envelope \<Rightarrow> (string \<times> participant_info) list \<Rightarrow> session_state" where
  "peer_updated_state state envelope participants =
     \<lparr>ss_session_id = ss_session_id state,
      ss_initiator_username = ss_initiator_username state,
      ss_receiver_username = ss_receiver_username state,
      ss_status = target_status state envelope,
      ss_current_turn = next_turn state envelope,
      ss_max_turns = ss_max_turns state,
      ss_actor_sequences =
        AList.update (env_actor_username envelope) (env_sequence envelope) (ss_actor_sequences state),
      ss_participants = participants,
      ss_last_resumable_status = peer_checkpoint state (target_status state envelope),
      ss_events = ss_events state @ [envelope_dump envelope]\<rparr>"

definition process_peer_envelope :: "session_state \<Rightarrow> session_envelope \<Rightarrow> reducer_result result" where
  "process_peer_envelope state envelope =
     (if ss_status state \<in> set TERMINAL_STATES
      then Inr (reducer_failure state ''TERMINAL_STATE_IMMUTABLE'')
      else if env_session_id envelope \<noteq> ss_session_id state
      then Inr (reducer_failure state ''SESSION_ID_MISMATCH'')
      else case participant_gate state envelope of
        Some code \<Rightarrow> Inr (reducer_failure state code)
      | None \<Rightarrow>
          (case sequence_gate state envelope of
             Some code \<Rightarrow> Inr (reducer_failure state code)
           | None \<Rightarrow>
               (case transition_gate state envelope of
                  Inl exn \<Rightarrow> Inl exn
                | Inr (Some code) \<Rightarrow> Inr (reducer_failure state code)
                | Inr None \<Rightarrow>
                    (case turn_gate state envelope of
                       Some code \<Rightarrow> Inr (reducer_failure state code)
                     | None \<Rightarrow>
                         (case accepted_participants state envelope of
                            Inl exn \<Rightarrow> Inl exn
                          | Inr participants \<Rightarrow>
                              Inr (reducer_success (peer_updated_state state envelope participants)))))))"

section \<open>Node commands\<close>

definition NODE_COMMAND_MAP :: "(string \<times> string) list" where
  "NODE_COMMAND_MAP =
    [(''mark_queued'', ''queued''),
     (''mark_delivered'', ''delivered''),
     (''mark_peer_review'', ''peer_review''),
     (''mark_active'', ''active''),
     (''mark_expired'', ''expired''),
     (''mark_failed'', ''failed''),
     (''mark_awaiting_peer'', ''awaiting_peer''),
     (''mark_awaiting_owner_approval'', ''awaiting_owner_approval'')]"

definition process_node_command :: "session_state \<Rightarrow> string \<Rightarrow> reducer_result" where
  "process_node_command state command =
     (if ss_status state \<in> set TERMINAL_STATES
      then reducer_failure state ''TERMINAL_STATE_IMMUTABLE''
      else case map_of NODE_COMMAND_MAP command of
        None \<Rightarrow> reducer_failure state ''UNKNOWN_NODE_COMMAND''
      | Some target \<Rightarrow>
          if \<not> is_valid_transition (ss_status state) target
          then reducer_failure state ''INVALID_STATE_TRANSITION''
          else reducer_success (state\<lparr>ss_status := target\<rparr>))"

section \<open>Owner commands\<close>

definition owner_target :: "string \<Rightarrow> pydict option \<Rightarrow> string + string" where
  "owner_target action payload =
     (if action = ''owner_pause'' then Inr ''paused''
      else if action = ''owner_resume'' then Inr ''active''
      else if action = ''owner_cancel'' then Inr ''cancelled''
      else if action = ''owner_approval_decision'' then
        (let decision = dget (case payload of None \<Rightarrow> [] | Some d \<Rightarrow> d) ''decision'' in
         if decision \<in> set (map PStr [''approve_once'', ''always_allow_bounded'', ''edit_constraints''])
         then Inr ''active''
         else if decision = PStr ''deny'' then Inr ''paused''
         else Inl ''INVALID_APPROVAL_DECISION'')
      else Inl ''UNKNOWN_OWNER_ACTION'')"

definition process_owner_command ::
  "session_state \<Rightarrow> string \<Rightarrow> string \<Rightarrow> pydict option \<Rightarrow> reducer_result" where
  "process_owner_command state owner_username action payload =
     (if owner_username \<notin> set (owner_usernames state)
      then reducer_failure state ''UNAUTHORIZED_OWNER''
      else if ss_status state \<in> set TERMINAL_STATES
      then reducer_failure state ''TERMINAL_STATE_IMMUTABLE''
      else case owner_target action payload of
        Inl code \<Rightarrow> reducer_failure state code
      | Inr target \<Rightarrow>
          if target \<noteq> ss_status state \<and> \<not> is_valid_transition (ss_status state) target
          then reducer_failure state ''INVALID_STATE_TRANSITION''
          else reducer_success (state\<lparr>ss_status := target,
                 ss_last_resumable_status :=
                   (if target \<in> set RESUMABLE_STATES then Some (ss_status state)
                    else ss_last_resumable_status state)\<rparr>))"

section \<open>A whole session\<close>

datatype session_command =
    PeerEnvelope session_envelope
  | NodeCommand string
  | OwnerCommand string string "pydict option"

fun process_command :: "session_state \<Rightarrow> session_command \<Rightarrow> reducer_result result" where
  "process_command state (PeerEnvelope envelope) = process_peer_envelope state envelope"
| "process_command state (NodeCommand command) = Inr (process_node_command state command)"
| "process_command state (OwnerCommand owner action payload) =
     Inr (process_owner_command state owner action payload)"

text \<open>The state \<open>SessionState(...)\<close> builds from its defaults.\<close>

definition initial_session ::
  "string \<Rightarrow> string \<Rightarrow> string \<Rightarrow> int \<Rightarrow> (string \<times> participant_info) list \<Rightarrow> session_state" where
  "initial_session sid initiator receiver max_turns participants =
     \<lparr>ss_session_id = sid, ss_initiator_username = initiator, ss_receiver_username = receiver,
      ss_status = ''draft'', ss_current_turn = 0, ss_max_turns = max_turns,
      ss_actor_sequences = [], ss_participants = participants,
      ss_last_resumable_status = None, ss_events = []\<rparr>"

inductive session_step :: "session_state \<Rightarrow> session_command \<Rightarrow> session_state \<Rightarrow> bool" where
  accepted: "process_command s c = Inr r \<Longrightarrow> rr_success r \<Longrightarrow> session_step s c (rr_new_state r)"

inductive session_run :: "session_state \<Rightarrow> session_command list \<Rightarrow> session_state \<Rightarrow> bool" where
  start: "session_run s [] s"
| more: "session_run s cs t \<Longrightarrow> session_step t c u \<Longrightarrow> session_run s (cs @ [c]) u"

code_pred session_step .

inductive_cases session_stepE: "session_step s c t"
inductive_cases session_run_NilE: "session_run s [] t"

section \<open>The contract of a processor\<close>

text \<open>
  The edges a processor may take: those of the matrix, and the receiver's acceptance of a draft,
  which the peer processor lets through.
\<close>

definition reducer_edge :: "string \<Rightarrow> string \<Rightarrow> bool" where
  "reducer_edge s t = (is_valid_transition s t \<or> (s = ''draft'' \<and> t = ''accepted''))"

definition accepted_by ::
  "(session_state \<Rightarrow> 'c \<Rightarrow> reducer_result result) \<Rightarrow> session_state \<Rightarrow> session_state \<Rightarrow> bool" where
  "accepted_by process s t = (\<exists>c r. process s c = Inr r \<and> rr_success r \<and> rr_new_state r = t)"

text \<open>What no processor ever changes.\<close>

definition same_session :: "session_state \<Rightarrow> session_state \<Rightarrow> bool" where
  "same_session s t =
     (ss_session_id t = ss_session_id s \<and> ss_initiator_username t = ss_initiator_username s
      \<and> ss_receiver_username t = ss_receiver_username s \<and> ss_max_turns t = ss_max_turns s)"

lemma reducer_result_simps [simp]:
  "rr_success (reducer_success s)" "rr_new_state (reducer_success s) = s"
  "rr_error_code (reducer_success s) = None"
  "\<not> rr_success (reducer_failure s code)" "rr_new_state (reducer_failure s code) = s"
  "rr_error_code (reducer_failure s code) = Some code"
  by (simp_all add: reducer_success_def reducer_failure_def)

locale session_processor =
  fixes process :: "session_state \<Rightarrow> 'c \<Rightarrow> reducer_result result"
  assumes reject_keeps: "process s c = Inr r \<Longrightarrow> \<not> rr_success r \<Longrightarrow> rr_new_state r = s"
    and terminal_rejects:
      "is_terminal_state (ss_status s) \<Longrightarrow> \<exists>code. process s c = Inr (reducer_failure s code)"
    and success_edge: "accepted_by process s t \<Longrightarrow>
      ss_status t = ss_status s \<or> reducer_edge (ss_status s) (ss_status t)"
    and success_same: "accepted_by process s t \<Longrightarrow> same_session s t"
    and success_turn: "accepted_by process s t \<Longrightarrow>
      ss_current_turn s \<le> ss_current_turn t
      \<and> ss_current_turn t \<le> max (ss_current_turn s) (ss_max_turns s)"
    and success_log: "accepted_by process s t \<Longrightarrow> \<exists>es. ss_events t = ss_events s @ es"
begin

lemma terminal_not_accepted: "is_terminal_state (ss_status s) \<Longrightarrow> \<not> accepted_by process s t"
proof
  assume final: "is_terminal_state (ss_status s)" and "accepted_by process s t"
  then obtain c r where "process s c = Inr r" and "rr_success r" by (auto simp: accepted_by_def)
  with terminal_rejects [OF final, of c] show False by auto
qed

lemma terminal_frozen:
  assumes "(accepted_by process)\<^sup>*\<^sup>* s t" and "is_terminal_state (ss_status s)"
  shows "t = s"
  using assms by (induction rule: converse_rtranclp_induct) (auto dest: terminal_not_accepted)

lemma run_edges:
  assumes "(accepted_by process)\<^sup>*\<^sup>* s t"
  shows "reducer_edge\<^sup>*\<^sup>* (ss_status s) (ss_status t)"
  using assms
proof (induction rule: rtranclp_induct)
  case (step t u)
  from success_edge [OF step.hyps(2)] step.IH show ?case
    by (auto intro: rtranclp.rtrancl_into_rtrancl)
qed simp

lemma run_same:
  assumes "(accepted_by process)\<^sup>*\<^sup>* s t"
  shows "same_session s t"
  using assms
proof (induction rule: rtranclp_induct)
  case (step t u)
  from success_same [OF step.hyps(2)] step.IH show ?case by (simp add: same_session_def)
qed (simp add: same_session_def)

lemma run_turn:
  assumes "(accepted_by process)\<^sup>*\<^sup>* s t"
  shows "ss_current_turn s \<le> ss_current_turn t
    \<and> ss_current_turn t \<le> max (ss_current_turn s) (ss_max_turns s)"
  using assms
proof (induction rule: rtranclp_induct)
  case (step t u)
  have "ss_max_turns t = ss_max_turns s"
    using run_same [OF step.hyps(1)] by (simp add: same_session_def)
  with success_turn [OF step.hyps(2)] step.IH show ?case by auto
qed simp

lemma run_log:
  assumes "(accepted_by process)\<^sup>*\<^sup>* s t"
  shows "\<exists>es. ss_events t = ss_events s @ es"
  using assms
proof (induction rule: rtranclp_induct)
  case (step t u)
  from step.IH success_log [OF step.hyps(2)] show ?case by auto
qed simp

end

section \<open>The processors meet the contract\<close>

lemma peer_success_iff:
  "process_peer_envelope s e = Inr r \<and> rr_success r \<longleftrightarrow>
   (\<exists>ps. ss_status s \<notin> set TERMINAL_STATES \<and> env_session_id e = ss_session_id s
      \<and> participant_gate s e = None \<and> sequence_gate s e = None
      \<and> transition_gate s e = Inr None \<and> turn_gate s e = None
      \<and> accepted_participants s e = Inr ps
      \<and> r = reducer_success (peer_updated_state s e ps))"
  (is "?l \<longleftrightarrow> ?r")
proof
  assume ?l
  then show ?r
    by (auto simp: process_peer_envelope_def split: if_splits option.splits sum.splits)
next
  assume ?r
  then show ?l by (auto simp: process_peer_envelope_def)
qed

lemma peer_accepted_iff:
  "accepted_by process_peer_envelope s t \<longleftrightarrow>
   (\<exists>e ps. ss_status s \<notin> set TERMINAL_STATES \<and> env_session_id e = ss_session_id s
      \<and> participant_gate s e = None \<and> sequence_gate s e = None
      \<and> transition_gate s e = Inr None \<and> turn_gate s e = None
      \<and> accepted_participants s e = Inr ps \<and> t = peer_updated_state s e ps)"
  using peer_success_iff [of s] by (auto simp: accepted_by_def) (metis reducer_result_simps(2))+

lemma peer_updated_simps [simp]:
  "ss_session_id (peer_updated_state s e ps) = ss_session_id s"
  "ss_initiator_username (peer_updated_state s e ps) = ss_initiator_username s"
  "ss_receiver_username (peer_updated_state s e ps) = ss_receiver_username s"
  "ss_status (peer_updated_state s e ps) = target_status s e"
  "ss_current_turn (peer_updated_state s e ps) = next_turn s e"
  "ss_max_turns (peer_updated_state s e ps) = ss_max_turns s"
  "ss_participants (peer_updated_state s e ps) = ps"
  "ss_events (peer_updated_state s e ps) = ss_events s @ [envelope_dump e]"
  "ss_actor_sequences (peer_updated_state s e ps) =
     AList.update (env_actor_username e) (env_sequence e) (ss_actor_sequences s)"
  by (simp_all add: peer_updated_state_def)

lemma turn_kinds_stay_live:
  assumes "env_kind e \<in> set TURN_CONSUMING_KINDS"
  shows "target_status s e \<notin> set TERMINAL_STATES"
  using assms by (auto simp: TURN_CONSUMING_KINDS_def target_status_def TERMINAL_STATES_def)

lemma peer_turn_bound:
  assumes "turn_gate s e = None"
  shows "ss_current_turn s \<le> next_turn s e
    \<and> next_turn s e \<le> max (ss_current_turn s) (ss_max_turns s)"
  using assms turn_kinds_stay_live [of e s]
  by (auto simp: turn_gate_def next_turn_def split: if_splits)

lemma unaccepted_receiver_edge:
  assumes "is_unaccepted_receiver_accept s e"
  shows "reducer_edge (ss_status s) (target_status s e)"
proof -
  from assms have t: "target_status s e = ''accepted''"
    and m: "ss_status s \<in> set [''draft'', ''sent'', ''queued'', ''delivered'', ''peer_review'']"
    by (auto simp: is_unaccepted_receiver_accept_def target_status_def)
  have "list_all (\<lambda>s. reducer_edge s ''accepted'')
      [''draft'', ''sent'', ''queued'', ''delivered'', ''peer_review'']"
    by code_simp
  with m t show ?thesis by (auto simp: list_all_iff)
qed

lemma peer_edge:
  assumes "transition_gate s e = Inr None"
  shows "target_status s e = ss_status s \<or> reducer_edge (ss_status s) (target_status s e)"
  using assms unaccepted_receiver_edge [of s e]
  by (auto simp: transition_gate_def reducer_edge_def split: if_splits)

lemma peer_reject:
  "process_peer_envelope s e = Inr r \<Longrightarrow> \<not> rr_success r \<Longrightarrow> rr_new_state r = s"
  by (auto simp: process_peer_envelope_def split: if_splits option.splits sum.splits)

interpretation peer: session_processor process_peer_envelope
  by unfold_locales
    (auto simp: peer_accepted_iff same_session_def peer_turn_bound is_terminal_state_def
      dest: peer_edge intro: peer_reject, auto simp: process_peer_envelope_def)

text \<open>The node and owner processors.\<close>

definition owner_next :: "session_state \<Rightarrow> string \<Rightarrow> session_state" where
  "owner_next s target = s\<lparr>ss_status := target,
     ss_last_resumable_status := (if target \<in> set RESUMABLE_STATES then Some (ss_status s)
       else ss_last_resumable_status s)\<rparr>"

lemma owner_next_simps [simp]:
  "ss_session_id (owner_next s t) = ss_session_id s"
  "ss_initiator_username (owner_next s t) = ss_initiator_username s"
  "ss_receiver_username (owner_next s t) = ss_receiver_username s"
  "ss_status (owner_next s t) = t"
  "ss_current_turn (owner_next s t) = ss_current_turn s"
  "ss_max_turns (owner_next s t) = ss_max_turns s"
  "ss_participants (owner_next s t) = ss_participants s"
  "ss_events (owner_next s t) = ss_events s"
  "ss_actor_sequences (owner_next s t) = ss_actor_sequences s"
  by (simp_all add: owner_next_def)

lemma owner_success:
  assumes "rr_success (process_owner_command s u a p)"
  shows "u \<in> set (owner_usernames s) \<and> ss_status s \<notin> set TERMINAL_STATES
    \<and> (\<exists>target. owner_target a p = Inr target
         \<and> (target = ss_status s \<or> is_valid_transition (ss_status s) target)
         \<and> process_owner_command s u a p = reducer_success (owner_next s target))"
  using assms unfolding process_owner_command_def owner_next_def
  by (cases "owner_target a p") (simp_all split: if_splits)

lemma owner_reject:
  "\<not> rr_success (process_owner_command s u a p) \<Longrightarrow> rr_new_state (process_owner_command s u a p) = s"
  by (cases "owner_target a p") (auto simp: process_owner_command_def split: if_splits)

lemma node_success:
  assumes "rr_success (process_node_command s c)"
  shows "ss_status s \<notin> set TERMINAL_STATES
    \<and> (\<exists>target. map_of NODE_COMMAND_MAP c = Some target \<and> is_valid_transition (ss_status s) target
         \<and> process_node_command s c = reducer_success (s\<lparr>ss_status := target\<rparr>))"
  using assms unfolding process_node_command_def
  by (cases "map_of NODE_COMMAND_MAP c") (simp_all split: if_splits)

lemma node_reject:
  "\<not> rr_success (process_node_command s c) \<Longrightarrow> rr_new_state (process_node_command s c) = s"
  by (cases "map_of NODE_COMMAND_MAP c") (auto simp: process_node_command_def split: if_splits)

lemma node_accepted_cases:
  assumes "accepted_by (\<lambda>s c. Inr (process_node_command s c)) s t"
  obtains target where "is_valid_transition (ss_status s) target" and "t = s\<lparr>ss_status := target\<rparr>"
  using assms by (force simp: accepted_by_def dest: node_success)

lemma owner_accepted_cases:
  assumes "accepted_by (\<lambda>s (u, a, p). Inr (process_owner_command s u a p)) s t"
  obtains target where "target = ss_status s \<or> is_valid_transition (ss_status s) target"
    and "t = owner_next s target"
proof -
  from assms obtain u a p where ok: "rr_success (process_owner_command s u a p)"
    and t: "t = rr_new_state (process_owner_command s u a p)"
    by (auto simp: accepted_by_def)
  from owner_success [OF ok] obtain target where
    1: "target = ss_status s \<or> is_valid_transition (ss_status s) target"
    and 2: "process_owner_command s u a p = reducer_success (owner_next s target)"
    by blast
  show thesis by (rule that [OF 1]) (simp add: t 2)
qed

lemma node_terminal:
  "is_terminal_state (ss_status s) \<Longrightarrow>
   process_node_command s c = reducer_failure s ''TERMINAL_STATE_IMMUTABLE''"
  by (simp add: process_node_command_def is_terminal_state_def)

lemma owner_terminal:
  "is_terminal_state (ss_status s) \<Longrightarrow> \<exists>code. process_owner_command s u a p = reducer_failure s code"
  by (auto simp: process_owner_command_def is_terminal_state_def)

interpretation node: session_processor "\<lambda>s c. Inr (process_node_command s c)"
  by unfold_locales
    (auto simp: same_session_def reducer_edge_def node_reject node_terminal elim!: node_accepted_cases)

interpretation owner: session_processor "\<lambda>s (u, a, p). Inr (process_owner_command s u a p)"
  by unfold_locales
    (auto simp: same_session_def reducer_edge_def owner_reject owner_terminal elim!: owner_accepted_cases)

text \<open>A command of a session is one of the three, so the contract holds for the whole.\<close>

lemma command_accepted_cases:
  assumes "accepted_by process_command s t"
  obtains "accepted_by process_peer_envelope s t"
  | "accepted_by (\<lambda>s c. Inr (process_node_command s c)) s t"
  | "accepted_by (\<lambda>s (u, a, p). Inr (process_owner_command s u a p)) s t"
proof -
  from assms obtain c r where c: "process_command s c = Inr r" "rr_success r" "rr_new_state r = t"
    by (auto simp: accepted_by_def)
  show thesis
  proof (cases c)
    case (PeerEnvelope e)
    with c have "accepted_by process_peer_envelope s t" by (auto simp: accepted_by_def)
    then show thesis by (rule that)
  next
    case (NodeCommand x)
    with c have "accepted_by (\<lambda>s c. Inr (process_node_command s c)) s t"
      by (auto simp: accepted_by_def)
    then show thesis by (rule that)
  next
    case (OwnerCommand u a p)
    with c have "accepted_by (\<lambda>s (u, a, p). Inr (process_owner_command s u a p)) s t"
      by (auto simp: accepted_by_def)
    then show thesis by (rule that)
  qed
qed

lemma command_reject: "process_command s c = Inr r \<Longrightarrow> \<not> rr_success r \<Longrightarrow> rr_new_state r = s"
  by (cases c) (auto dest: peer_reject node_reject owner_reject)

lemma command_terminal:
  assumes "is_terminal_state (ss_status s)"
  shows "\<exists>code. process_command s c = Inr (reducer_failure s code)"
  using assms by (cases c) (auto simp: node_terminal owner_terminal peer.terminal_rejects)

interpretation session: session_processor process_command
proof
  fix s t
  assume a: "accepted_by process_command s t"
  show "ss_status t = ss_status s \<or> reducer_edge (ss_status s) (ss_status t)"
    using a by (rule command_accepted_cases) (rule peer.success_edge node.success_edge owner.success_edge, assumption)+
  show "same_session s t"
    using a by (rule command_accepted_cases) (rule peer.success_same node.success_same owner.success_same, assumption)+
  show "ss_current_turn s \<le> ss_current_turn t \<and> ss_current_turn t \<le> max (ss_current_turn s) (ss_max_turns s)"
    using a by (rule command_accepted_cases) (rule peer.success_turn node.success_turn owner.success_turn, assumption)+
  show "\<exists>es. ss_events t = ss_events s @ es"
    using a by (rule command_accepted_cases) (rule peer.success_log node.success_log owner.success_log, assumption)+
qed (auto intro: command_reject command_terminal)

lemma step_accepted: "session_step s c t \<Longrightarrow> accepted_by process_command s t"
  by (auto simp: accepted_by_def elim!: session_stepE)

lemma run_accepted: "session_run s cs t \<Longrightarrow> (accepted_by process_command)\<^sup>*\<^sup>* s t"
  by (induction rule: session_run.induct) (auto intro: rtranclp.rtrancl_into_rtrancl step_accepted)

lemma reducer_edge_phase: "reducer_edge s t \<Longrightarrow> phase s \<le> phase t"
  by (auto simp: reducer_edge_def phase_mono) (simp add: phase_def)

interpretation reducer_matrix: lifecycle_matrix reducer_edge is_terminal_state phase
  by unfold_locales
    (auto simp: reducer_edge_phase,
     auto simp: reducer_edge_def is_terminal_state_def terminal_has_no_exit TERMINAL_STATES_def)

section \<open>The log of a session\<close>

definition actor_log :: "session_state \<Rightarrow> string \<Rightarrow> pyval list" where
  "actor_log s u =
     map (\<lambda>d. dget d ''sequence'') (filter (\<lambda>d. dget d ''actor_username'' = PStr u) (ss_events s))"

definition turn_events :: "session_state \<Rightarrow> pydict list" where
  "turn_events s =
     filter (\<lambda>d. dget d ''kind'' \<in> set (map (PStr \<circ> message_kind_value) TURN_CONSUMING_KINDS)) (ss_events s)"

definition log_invariant :: "session_state \<Rightarrow> bool" where
  "log_invariant s =
     ((\<forall>u. 0 \<le> iget (ss_actor_sequences s) u
          \<and> actor_log s u = map PInt [1..iget (ss_actor_sequences s) u])
      \<and> ss_current_turn s = int (length (turn_events s)))"

lemma envelope_dump_get [simp]:
  "dget (envelope_dump e) ''sequence'' = PInt (env_sequence e)"
  "dget (envelope_dump e) ''actor_username'' = PStr (env_actor_username e)"
  "dget (envelope_dump e) ''kind'' = PStr (message_kind_value (env_kind e))"
  by (simp_all add: envelope_dump_def dget_def)

lemma actor_log_peer:
  "actor_log (peer_updated_state s e ps) u =
     actor_log s u @ (if env_actor_username e = u then [PInt (env_sequence e)] else [])"
  by (simp add: actor_log_def)

lemma turn_events_peer:
  "length (turn_events (peer_updated_state s e ps)) =
     length (turn_events s) + (if env_kind e \<in> set TURN_CONSUMING_KINDS then 1 else 0)"
  by (auto simp: turn_events_def)

lemma log_invariant_peer:
  assumes "log_invariant s" and "sequence_gate s e = None"
  shows "log_invariant (peer_updated_state s e ps)"
  using assms
  by (auto simp: log_invariant_def actor_log_peer turn_events_peer sequence_gate_def next_turn_def
      Let_def upto_rec2 split: if_splits)

lemma log_invariant_frame:
  assumes "log_invariant s" and "ss_events t = ss_events s"
    and "ss_actor_sequences t = ss_actor_sequences s" and "ss_current_turn t = ss_current_turn s"
  shows "log_invariant t"
  using assms by (simp add: log_invariant_def actor_log_def turn_events_def)

lemma log_invariant_step:
  assumes "accepted_by process_command s t" and "log_invariant s"
  shows "log_invariant t"
  using assms(1)
proof (rule command_accepted_cases)
  assume "accepted_by process_peer_envelope s t"
  with assms(2) show ?thesis by (auto simp: peer_accepted_iff log_invariant_peer)
next
  assume "accepted_by (\<lambda>s c. Inr (process_node_command s c)) s t"
  with assms(2) show ?thesis by (auto elim!: node_accepted_cases intro: log_invariant_frame)
next
  assume "accepted_by (\<lambda>s (u, a, p). Inr (process_owner_command s u a p)) s t"
  with assms(2) show ?thesis by (auto elim!: owner_accepted_cases intro: log_invariant_frame)
qed

lemma log_invariant_run: "session_run s cs t \<Longrightarrow> log_invariant s \<Longrightarrow> log_invariant t"
  by (induction rule: session_run.induct) (auto intro: log_invariant_step step_accepted)

lemma log_invariant_initial: "log_invariant (initial_session sid i r m ps)"
  by (simp add: log_invariant_def initial_session_def actor_log_def turn_events_def)

subsection \<open>Exceptions and authority\<close>

lemma participant_gate_authority:
  assumes "participant_gate s e = None" and "env_kind e \<in> set OWNER_ONLY_KINDS"
    and "ss_participants s \<noteq> []"
  shows "\<exists>p. map_of (ss_participants s) (env_actor_username e) = Some p \<and> pi_role p = ''owner''
    \<and> pi_agent_id p = env_actor_agent_id e"
proof -
  from assms(2) have "\<not> is_unaccepted_receiver_accept s e"
    by (auto simp: OWNER_ONLY_KINDS_def is_unaccepted_receiver_accept_def)
  with assms show ?thesis
    by (auto simp: participant_gate_def split: option.splits if_splits)
qed

lemma transition_gate_no_raise:
  "ss_participants s \<noteq> [] \<Longrightarrow> \<exists>x. transition_gate s e = Inr x"
  by (auto simp: transition_gate_def)

lemma accepted_participants_no_raise:
  "env_kind e = ACCEPTANCE \<Longrightarrow> accepting_agent e = PStr a \<Longrightarrow> \<exists>ps. accepted_participants s e = Inr ps"
  "env_kind e \<noteq> ACCEPTANCE \<Longrightarrow> accepted_participants s e = Inr (ss_participants s)"
  by (auto simp: accepted_participants_def)

section \<open>Properties\<close>

text \<open>
  C2. Session log invariant: in every state a session reaches by accepted commands from its draft,
  the envelopes each actor has in the event log carry exactly the sequence numbers 1, 2, ..., n
  in that order (no gap, no repeat, no reordering), the turn counter is the number of
  turn-consuming envelopes in the log, and it never exceeds the session's turn limit.
\<close>

theorem session_log_exact:
  assumes "session_run (initial_session sid initiator receiver max_turns participants) cs s"
    and "1 \<le> max_turns"
  shows "actor_log s u = map PInt [1..iget (ss_actor_sequences s) u]
    \<and> ss_current_turn s = int (length (turn_events s))
    \<and> ss_current_turn s \<le> max_turns"
proof -
  have "log_invariant s"
    using log_invariant_run [OF assms(1)] by (simp add: log_invariant_initial)
  moreover have "ss_current_turn s \<le> max_turns"
    using session.run_turn [OF run_accepted [OF assms(1)]] assms(2)
    by (simp add: initial_session_def)
  ultimately show ?thesis by (simp add: log_invariant_def)
qed

definition demo_session :: session_state where
  "demo_session = initial_session ''s1'' ''alice'' ''bob'' 12
     [(''alice'', \<lparr>pi_agent_id = ''a1'', pi_role = ''owner''\<rparr>),
      (''bob'', \<lparr>pi_agent_id = ''b1'', pi_role = ''owner''\<rparr>)]"

lemma demo_step:
  "session_step demo_session (PeerEnvelope demo_envelope)
     (peer_updated_state demo_session demo_envelope (ss_participants demo_session))"
proof -
  let ?t = "peer_updated_state demo_session demo_envelope (ss_participants demo_session)"
  have "process_command demo_session (PeerEnvelope demo_envelope) = Inr (reducer_success ?t)"
    by code_simp
  from session_step.accepted [OF this] show ?thesis by simp
qed

theorem session_log_exact_witness:
  "\<exists>s. session_run (initial_session ''s1'' ''alice'' ''bob'' 12 (ss_participants demo_session))
         [PeerEnvelope demo_envelope] s
     \<and> actor_log s ''alice'' = [PInt 1] \<and> ss_current_turn s = 1"
proof -
  let ?t = "peer_updated_state demo_session demo_envelope (ss_participants demo_session)"
  have "session_run demo_session ([] @ [PeerEnvelope demo_envelope]) ?t"
    by (rule session_run.more [OF session_run.start demo_step])
  then have r: "session_run (initial_session ''s1'' ''alice'' ''bob'' 12 (ss_participants demo_session))
      [PeerEnvelope demo_envelope] ?t"
    by (simp add: demo_session_def initial_session_def)
  from session_log_exact [OF r, of "''alice''"]
  have "actor_log ?t ''alice'' = [PInt 1] \<and> ss_current_turn ?t = 1"
    by (simp add: actor_log_def turn_events_def demo_session_def initial_session_def demo_envelope_def
        dget_def envelope_dump_def TURN_CONSUMING_KINDS_def)
  with r show ?thesis by blast
qed

text \<open>
  Terminal states are immutable: whatever command (peer envelope, node command or owner action)
  a session in a terminal state receives, it is rejected as a value, never by an exception, with the
  state unchanged; so no run of accepted commands leaves that state.
\<close>

theorem terminal_session_immutable:
  assumes "is_terminal_state (ss_status s)"
  shows "(\<exists>code. process_command s c = Inr (reducer_failure s code))
    \<and> (session_run s cs t \<longrightarrow> t = s)"
  using command_terminal [OF assms] session.terminal_frozen [OF run_accepted assms] by blast

theorem terminal_session_immutable_witness:
  "is_terminal_state (ss_status (demo_session\<lparr>ss_status := ''declined''\<rparr>))
   \<and> (\<exists>code. process_command (demo_session\<lparr>ss_status := ''declined''\<rparr>) (NodeCommand ''mark_active'')
        = Inr (reducer_failure (demo_session\<lparr>ss_status := ''declined''\<rparr>) code))"
proof -
  have "is_terminal_state (ss_status (demo_session\<lparr>ss_status := ''declined''\<rparr>))"
    by (simp add: is_terminal_state_def TERMINAL_STATES_def)
  with terminal_session_immutable [OF this] show ?thesis by blast
qed

text \<open>
  A run only moves forward and never rewrites history: along any run of accepted commands the
  phase of the session does not decrease, the session id, both usernames and the turn limit stay
  what they were, and the event log only grows at its end.
\<close>

theorem session_run_forward:
  assumes "session_run s cs t"
  shows "phase (ss_status s) \<le> phase (ss_status t) \<and> same_session s t
    \<and> (\<exists>es. ss_events t = ss_events s @ es)"
  using run_accepted [OF assms] session.run_edges session.run_same session.run_log
    reducer_matrix.rank_reach by blast

theorem session_run_forward_witness:
  "\<exists>t. session_run demo_session [PeerEnvelope demo_envelope] t
     \<and> phase (ss_status demo_session) \<le> phase (ss_status t)"
proof -
  have r: "session_run demo_session ([] @ [PeerEnvelope demo_envelope])
      (peer_updated_state demo_session demo_envelope (ss_participants demo_session))"
    by (rule session_run.more [OF session_run.start demo_step])
  from session_run_forward [OF r] r show ?thesis by auto
qed

text \<open>
  Replay protection: an envelope that a session has accepted is rejected when it arrives
  again, with the state unchanged and without an exception.
\<close>

theorem replayed_envelope_rejected:
  assumes "process_peer_envelope s e = Inr r" and "rr_success r"
  shows "\<exists>code. process_peer_envelope (rr_new_state r) e = Inr (reducer_failure (rr_new_state r) code)"
proof -
  from assms obtain ps where r: "r = reducer_success (peer_updated_state s e ps)"
    using peer_success_iff [of s e r] by blast
  have "sequence_gate (peer_updated_state s e ps) e = Some ''DUPLICATE_SEQUENCE''"
    by (simp add: sequence_gate_def)
  then show ?thesis
    by (auto simp: process_peer_envelope_def r split: option.splits)
qed

theorem replayed_envelope_rejected_witness:
  "\<exists>r code. process_peer_envelope demo_session demo_envelope = Inr r \<and> rr_success r
     \<and> process_peer_envelope (rr_new_state r) demo_envelope
         = Inr (reducer_failure (rr_new_state r) code)"
proof -
  let ?r = "reducer_success (peer_updated_state demo_session demo_envelope (ss_participants demo_session))"
  have r: "process_peer_envelope demo_session demo_envelope = Inr ?r" by code_simp
  from replayed_envelope_rejected [OF r] r show ?thesis by auto
qed

text \<open>
  Owner authority: in a session with participants, a cancellation or an approval decision is
  accepted only from a registered participant whose role is owner and who acts through its
  registered agent.
\<close>

theorem owner_only_kinds_need_owner:
  assumes "process_peer_envelope s e = Inr r" and "rr_success r"
    and "env_kind e \<in> set OWNER_ONLY_KINDS" and "ss_participants s \<noteq> []"
  shows "\<exists>p. map_of (ss_participants s) (env_actor_username e) = Some p \<and> pi_role p = ''owner''
    \<and> pi_agent_id p = env_actor_agent_id e"
  using assms peer_success_iff [of s e r] participant_gate_authority by blast

theorem owner_only_kinds_need_owner_witness:
  "\<exists>r. process_peer_envelope (demo_session\<lparr>ss_status := ''active''\<rparr>) (demo_envelope\<lparr>env_kind := CANCEL\<rparr>) = Inr r
     \<and> rr_success r
     \<and> (\<exists>p. map_of (ss_participants demo_session) ''alice'' = Some p \<and> pi_role p = ''owner'')"
proof -
  let ?s = "demo_session\<lparr>ss_status := ''active''\<rparr>"
  let ?e = "demo_envelope\<lparr>env_kind := CANCEL\<rparr>"
  have r: "process_peer_envelope ?s ?e = Inr (reducer_success (peer_updated_state ?s ?e (ss_participants ?s)))"
    by code_simp
  have "env_kind ?e \<in> set OWNER_ONLY_KINDS" and "ss_participants ?s \<noteq> []"
    by (simp_all add: OWNER_ONLY_KINDS_def demo_session_def initial_session_def)
  from owner_only_kinds_need_owner [OF r _ this] r show ?thesis
    by (auto simp: demo_envelope_def)
qed

text \<open>
  C36. Exception freedom of the reducer: on a session with participants, a peer envelope that is not
  an acceptance naming a non-string agent is answered by a result, never by a Python exception.
\<close>

theorem peer_reducer_total:
  assumes "ss_participants s \<noteq> []"
    and "env_kind e = ACCEPTANCE \<longrightarrow> (\<exists>a. accepting_agent e = PStr a)"
  shows "\<exists>r. process_peer_envelope s e = Inr r"
proof -
  obtain x where x: "transition_gate s e = Inr x" using transition_gate_no_raise [OF assms(1)] by blast
  obtain ps where ps: "accepted_participants s e = Inr ps"
    using assms(2) accepted_participants_no_raise by blast
  show ?thesis
    by (auto simp: process_peer_envelope_def x ps split: option.splits)
qed

theorem peer_reducer_total_witness:
  "\<exists>r. process_peer_envelope demo_session demo_envelope = Inr r"
proof -
  have "ss_participants demo_session \<noteq> []" by (simp add: demo_session_def initial_session_def)
  moreover have "env_kind demo_envelope = ACCEPTANCE \<longrightarrow> (\<exists>a. accepting_agent demo_envelope = PStr a)"
    by (simp add: demo_envelope_def)
  ultimately show ?thesis by (rule peer_reducer_total)
qed

text \<open>
  Acceptance is not tied to the receiver: while the receiver is still reviewing a request, an
  acceptance signed by the initiator itself (in its own next sequence number and through its own
  registered agent) is accepted by the reducer and moves the session to \<open>accepted\<close>.
\<close>

theorem initiator_can_accept_own_request:
  assumes "ss_status s \<in> set [''sent'', ''queued'', ''delivered'', ''peer_review'']"
    and "env_kind e = ACCEPTANCE" and "env_session_id e = ss_session_id s"
    and "env_actor_username e = ss_initiator_username s"
    and "map_of (ss_participants s) (ss_initiator_username s) = Some p"
    and "pi_agent_id p = env_actor_agent_id e"
    and "env_sequence e = iget (ss_actor_sequences s) (ss_initiator_username s) + 1"
    and "accepting_agent e = PStr a"
  shows "\<exists>r. process_peer_envelope s e = Inr r \<and> rr_success r
    \<and> ss_status (rr_new_state r) = ''accepted''"
proof -
  have t: "target_status s e = ''accepted''" using assms(2) by (simp add: target_status_def)
  have "list_all (\<lambda>x. is_valid_transition x ''accepted'' \<and> x \<notin> set TERMINAL_STATES)
      [''sent'', ''queued'', ''delivered'', ''peer_review'']"
    by code_simp
  with assms(1) have v: "is_valid_transition (ss_status s) ''accepted''"
    and n: "ss_status s \<notin> set TERMINAL_STATES"
    by (auto simp: list_all_iff)
  have "participant_gate s e = None"
    using assms by (auto simp: participant_gate_def OWNER_ONLY_KINDS_def)
  moreover have "sequence_gate s e = None" using assms(4,7) by (simp add: sequence_gate_def)
  moreover have "transition_gate s e = Inr None" using v t by (simp add: transition_gate_def)
  moreover have "turn_gate s e = None" using assms(2) by (simp add: turn_gate_def TURN_CONSUMING_KINDS_def)
  moreover obtain ps where "accepted_participants s e = Inr ps"
    using accepted_participants_no_raise(1) [OF assms(2,8)] by blast
  ultimately show ?thesis using n assms(3) by (simp add: process_peer_envelope_def t)
qed

theorem initiator_can_accept_own_request_witness:
  "\<exists>r. process_peer_envelope (demo_session\<lparr>ss_status := ''peer_review''\<rparr>)
         (demo_envelope\<lparr>env_kind := ACCEPTANCE\<rparr>) = Inr r
     \<and> rr_success r \<and> ss_status (rr_new_state r) = ''accepted''"
  by (rule initiator_can_accept_own_request [where a = "''a1''"
        and p = "\<lparr>pi_agent_id = ''a1'', pi_role = ''owner''\<rparr>"])
    (simp_all add: demo_session_def initial_session_def demo_envelope_def accepting_agent_def
      dget_def py_or_def)

end
