(* ===== verification/Kin_Cards.thy ===== *)
theory Kin_Cards
  imports Kin_Schemas
begin

text \<open>
  Agent cards of \<open>kin-node/kin/schemas.py\<close>: the four adapter configurations with their validators,
  capabilities, boundaries, autonomy, the local card and its published projection.
  \<open>model_validate\<close> on a dictionary is a function to an option, \<open>None\<close> being the one
  \<open>ValidationError\<close> pydantic raises for any number of field errors. Paths are POSIX paths:
  \<open>Path(v).as_posix()\<close> drops empty and dot segments and keeps the root.
\<close>

section \<open>Text helpers\<close>

text \<open>\<open>str.split(sep)\<close> for a one-character separator.\<close>

fun split_on :: "char \<Rightarrow> string \<Rightarrow> string list" where
  "split_on sep [] = [[]]"
| "split_on sep (ch # s) =
     (if ch = sep then [] # split_on sep s
      else (case split_on sep s of [] \<Rightarrow> [[ch]] | w # ws \<Rightarrow> (ch # w) # ws))"

fun join_with :: "char \<Rightarrow> string list \<Rightarrow> string" where
  "join_with sep [] = []"
| "join_with sep [w] = w"
| "join_with sep (w # ws) = w @ sep # join_with sep ws"

definition to_lower :: "char \<Rightarrow> char" where
  "to_lower ch = (if is_upper ch then char_of (char_code ch + 32) else ch)"

definition starts_with :: "string \<Rightarrow> string \<Rightarrow> bool" where
  "starts_with pre s = (take (length pre) s = pre)"

text \<open>\<open>if sub in s\<close>.\<close>

fun occurs_in :: "string \<Rightarrow> string \<Rightarrow> bool" where
  "occurs_in pat [] = (pat = [])"
| "occurs_in pat (ch # s) = (starts_with pat (ch # s) \<or> occurs_in pat s)"

definition strip :: "string \<Rightarrow> string" where
  "strip s = rev (dropWhile is_space (rev (dropWhile is_space s)))"

section \<open>Patterns\<close>

definition url_rest :: "string \<Rightarrow> bool" where
  "url_rest s = (case s of
      c1 # c2 # rest \<Rightarrow>
        \<not> is_space c1 \<and> c1 \<notin> set ''/$.?#'' \<and> c2 \<noteq> NEWLINE \<and> list_all (\<lambda>ch. \<not> is_space ch) rest
    | _ \<Rightarrow> False)"

definition url_body :: "string \<Rightarrow> bool" where
  "url_body s =
     ((map to_lower (take 7 s) = ''http://'' \<and> url_rest (drop 7 s))
      \<or> (map to_lower (take 8 s) = ''https://'' \<and> url_rest (drop 8 s)))"

definition URL_HTTP_HTTPS_REGEX :: "string \<Rightarrow> bool" where
  "URL_HTTP_HTTPS_REGEX = at_dollar url_body"

definition is_identifier :: "string \<Rightarrow> bool" where
  "is_identifier s = (case s of
      [] \<Rightarrow> False
    | ch # rest \<Rightarrow> (is_lower ch \<or> is_upper ch \<or> ch = CHR ''_'')
                   \<and> list_all (\<lambda>x. is_alnum x \<or> x = CHR ''_'') rest)"

definition SDK_ENTRY_POINT_REGEX :: "string \<Rightarrow> bool" where
  "SDK_ENTRY_POINT_REGEX = at_dollar (\<lambda>s. case split_on (CHR '':'') s of
      [modpath, callable] \<Rightarrow> list_all is_identifier (split_on (CHR ''.'') modpath) \<and> is_identifier callable
    | _ \<Rightarrow> False)"

definition mime_token :: "string \<Rightarrow> bool" where
  "mime_token s = (case s of
      [] \<Rightarrow> False
    | ch # rest \<Rightarrow> is_alnum ch \<and> list_all (\<lambda>x. is_alnum x \<or> x \<in> set ''!#$&-^_.+'') rest)"

definition MIME_PATTERN :: "string \<Rightarrow> bool" where
  "MIME_PATTERN = at_dollar (\<lambda>s. case split_on (CHR ''/'') s of
      [maintype, subtype] \<Rightarrow> mime_token maintype \<and> mime_token subtype
    | _ \<Rightarrow> False)"

section \<open>Adapter configurations\<close>

datatype adapter_config =
    EmbeddedAdapterConfig (emb_provider: string) (emb_model: string)
  | WebhookAdapterConfig (wh_url: string) (wh_credential_ref: string)
  | LocalCommandAdapterConfig (lc_command: string) (lc_working_directory: string)
  | SdkAdapterConfig (sdk_entry_point: string)

definition validate_url :: "string \<Rightarrow> string option" where
  "validate_url v =
     (if v = [] \<or> 2048 < length v then None
      else if \<not> URL_HTTP_HTTPS_REGEX v then None
      else Some v)"

definition NUL :: char where
  "NUL = CHR 0x00"

definition BACKSLASH :: char where
  "BACKSLASH = CHR 0x5C"

definition validate_command :: "string \<Rightarrow> string option" where
  "validate_command v =
     (if v = [] \<or> 4096 < length v then None
      else if NUL \<in> set v then None
      else Some v)"

text \<open>
  \<open>pathlib.PurePosixPath\<close>: the root is \<open>//\<close> for exactly two leading slashes and \<open>/\<close> for one or
  more than two; the parts are the segments that are neither empty nor a single dot.
\<close>

definition path_root :: "string \<Rightarrow> string" where
  "path_root v =
     (if \<not> starts_with ''/'' v then []
      else if starts_with ''//'' v \<and> \<not> starts_with ''///'' v then ''//''
      else ''/'')"

definition path_segments :: "string \<Rightarrow> string list" where
  "path_segments v = filter (\<lambda>w. w \<noteq> [] \<and> w \<noteq> ''.'') (split_on (CHR ''/'') v)"

definition path_parts :: "string \<Rightarrow> string list" where
  "path_parts v = (if path_root v = [] then path_segments v else path_root v # path_segments v)"

definition as_posix :: "string \<Rightarrow> string" where
  "as_posix v =
     (if path_root v = [] \<and> path_segments v = [] then ''.''
      else path_root v @ join_with (CHR ''/'') (path_segments v))"

definition is_absolute_path :: "string \<Rightarrow> bool" where
  "is_absolute_path v =
     (starts_with ''/'' v \<or> starts_with [BACKSLASH] v
      \<or> (case v of
           ch # c2 # c3 # rest \<Rightarrow> (is_lower ch \<or> is_upper ch) \<and> c2 = CHR '':'' \<and> c3 \<in> {CHR ''/'', BACKSLASH}
         | _ \<Rightarrow> False))"

definition unbackslash :: "string \<Rightarrow> string" where
  "unbackslash v = map (\<lambda>ch. if ch = BACKSLASH then CHR ''/'' else ch) v"

definition validate_working_directory :: "string \<Rightarrow> string option" where
  "validate_working_directory v =
     (if v = [] \<or> 4096 < length v then None
      else if NUL \<in> set v then None
      else if \<not> is_absolute_path v then None
      else if ''..'' \<in> set (path_parts v) \<or> ''..'' \<in> set (split_on (CHR ''/'') (unbackslash v)) then None
      else Some (as_posix v))"

definition validate_entry_point :: "string \<Rightarrow> string option" where
  "validate_entry_point v = (if SDK_ENTRY_POINT_REGEX v then Some v else None)"

definition only_keys :: "string list \<Rightarrow> pydict \<Rightarrow> bool" where
  "only_keys ks raw = (set (map fst raw) \<subseteq> set ks)"

definition str_field :: "pydict \<Rightarrow> string \<Rightarrow> string option" where
  "str_field raw k = Option.bind (map_of raw k) as_str"

definition adapter_validate :: "pydict \<Rightarrow> adapter_config option" where
  "adapter_validate raw =
     (if map_of raw ''type'' = Some (PStr ''embedded'') then
        (if \<not> only_keys [''type'', ''provider'', ''model''] raw then None
         else do { p \<leftarrow> str_field raw ''provider''; m \<leftarrow> str_field raw ''model'';
                   Some (EmbeddedAdapterConfig p m) })
      else if map_of raw ''type'' = Some (PStr ''webhook'') then
        (if \<not> only_keys [''type'', ''webhook_url'', ''credential_ref''] raw then None
         else do { u \<leftarrow> Option.bind (str_field raw ''webhook_url'') validate_url;
                   r \<leftarrow> str_field raw ''credential_ref'';
                   Some (WebhookAdapterConfig u r) })
      else if map_of raw ''type'' = Some (PStr ''local_command'') then
        (if \<not> only_keys [''type'', ''command'', ''working_directory''] raw then None
         else do { c \<leftarrow> Option.bind (str_field raw ''command'') validate_command;
                   w \<leftarrow> Option.bind (str_field raw ''working_directory'') validate_working_directory;
                   Some (LocalCommandAdapterConfig c w) })
      else if map_of raw ''type'' = Some (PStr ''sdk'') then
        (if \<not> only_keys [''type'', ''entry_point''] raw then None
         else do { e \<leftarrow> Option.bind (str_field raw ''entry_point'') validate_entry_point;
                   Some (SdkAdapterConfig e) })
      else None)"

section \<open>Capabilities, boundaries, autonomy\<close>

record agent_capabilities =
  cap_tags :: "string list"
  cap_accepts :: "string list"
  cap_produces :: "string list"

fun as_str_list :: "pyval list \<Rightarrow> string list option" where
  "as_str_list [] = Some []"
| "as_str_list (v # vs) =
     (case (as_str v, as_str_list vs) of (Some s, Some ss) \<Rightarrow> Some (s # ss) | _ \<Rightarrow> None)"

text \<open>\<open>list[str] = Field(default_factory=list, max_length=32)\<close>.\<close>

definition str_list_field :: "pydict \<Rightarrow> string \<Rightarrow> string list option" where
  "str_list_field raw k =
     (case map_of raw k of
        None \<Rightarrow> Some []
      | Some (PList vs) \<Rightarrow>
          (case as_str_list vs of
             None \<Rightarrow> None
           | Some ss \<Rightarrow> if 32 < length ss then None else Some ss)
      | Some _ \<Rightarrow> None)"

definition validate_tags :: "string list \<Rightarrow> string list option" where
  "validate_tags v = (if list_all (\<lambda>item. length item \<le> 64 \<and> TAG_PATTERN item) v then Some v else None)"

definition validate_accepts :: "string list \<Rightarrow> string list option" where
  "validate_accepts v = (if list_all (\<lambda>item. length item \<le> 64 \<and> MIME_PATTERN item) v then Some v else None)"

definition validate_produces :: "string list \<Rightarrow> string list option" where
  "validate_produces v = (if list_all (\<lambda>item. length item \<le> 64 \<and> MIME_PATTERN item) v then Some v else None)"

definition capabilities_validate :: "pydict \<Rightarrow> agent_capabilities option" where
  "capabilities_validate raw =
     (if \<not> only_keys [''tags'', ''accepts'', ''produces''] raw then None
      else do { t \<leftarrow> Option.bind (str_list_field raw ''tags'') validate_tags;
                a \<leftarrow> Option.bind (str_list_field raw ''accepts'') validate_accepts;
                p \<leftarrow> Option.bind (str_list_field raw ''produces'') validate_produces;
                Some \<lparr>cap_tags = t, cap_accepts = a, cap_produces = p\<rparr> })"

record agent_boundaries =
  bnd_network_access :: string
  bnd_filesystem :: string
  bnd_shell :: string
  bnd_max_runtime_seconds :: int
  bnd_max_artifact_bytes :: int

definition literal_field :: "pydict \<Rightarrow> string \<Rightarrow> string list \<Rightarrow> string \<Rightarrow> string option" where
  "literal_field raw k allowed dflt =
     (case map_of raw k of
        None \<Rightarrow> Some dflt
      | Some (PStr s) \<Rightarrow> if s \<in> set allowed then Some s else None
      | Some _ \<Rightarrow> None)"

definition int_field :: "crypto \<Rightarrow> pydict \<Rightarrow> string \<Rightarrow> int \<Rightarrow> int \<Rightarrow> int option" where
  "int_field C raw k lo hi =
     (case Option.bind (map_of raw k) (c_lax_int C) of
        None \<Rightarrow> None
      | Some i \<Rightarrow> if lo \<le> i \<and> i \<le> hi then Some i else None)"

definition boundaries_validate :: "crypto \<Rightarrow> pydict \<Rightarrow> agent_boundaries option" where
  "boundaries_validate C raw =
     (if \<not> only_keys [''network_access'', ''filesystem'', ''shell'', ''max_runtime_seconds'',
                       ''max_artifact_bytes''] raw then None
      else do { n \<leftarrow> literal_field raw ''network_access'' [''deny'', ''allow''] ''deny'';
                f \<leftarrow> literal_field raw ''filesystem''
                       [''none'', ''workspace_read'', ''workspace_read_write_with_approval''] ''none'';
                s \<leftarrow> literal_field raw ''shell'' [''deny'', ''approval_required''] ''deny'';
                r \<leftarrow> int_field C raw ''max_runtime_seconds'' 1 3600;
                b \<leftarrow> int_field C raw ''max_artifact_bytes'' 1 52428800;
                Some \<lparr>bnd_network_access = n, bnd_filesystem = f, bnd_shell = s,
                      bnd_max_runtime_seconds = r, bnd_max_artifact_bytes = b\<rparr> })"

record agent_autonomy =
  aut_relay_information :: autonomy_level
  aut_propose_actions :: autonomy_level
  aut_execute_local_actions :: autonomy_level

definition autonomy_field :: "pydict \<Rightarrow> string \<Rightarrow> autonomy_level option" where
  "autonomy_field raw k =
     (case map_of raw k of None \<Rightarrow> Some ALWAYS_ASK | Some v \<Rightarrow> Option.bind (as_str v) autonomy_of)"

definition autonomy_validate :: "pydict \<Rightarrow> agent_autonomy option" where
  "autonomy_validate raw =
     (if \<not> only_keys [''relay_information'', ''propose_actions'', ''execute_local_actions''] raw then None
      else do { r \<leftarrow> autonomy_field raw ''relay_information'';
                p \<leftarrow> autonomy_field raw ''propose_actions'';
                x \<leftarrow> autonomy_field raw ''execute_local_actions'';
                Some \<lparr>aut_relay_information = r, aut_propose_actions = p,
                      aut_execute_local_actions = x\<rparr> })"

section \<open>Cards\<close>

record agent_card =
  card_schema_version :: string
  card_id :: string
  card_name :: string
  card_description :: string
  card_adapter :: adapter_config
  card_capabilities :: agent_capabilities
  card_boundaries :: agent_boundaries
  card_autonomy :: agent_autonomy
  card_presentation :: "pydict option"

definition validate_id :: "string \<Rightarrow> string option" where
  "validate_id v = (if SAFE_ID_REGEX v then Some v else None)"

definition validate_name :: "string \<Rightarrow> string option" where
  "validate_name v = (if v = [] \<or> 128 < length v then None else Some v)"

definition validate_description :: "string \<Rightarrow> string option" where
  "validate_description v = (if v = [] \<or> 1024 < length v then None else Some v)"

definition dict_field :: "pydict \<Rightarrow> string \<Rightarrow> pydict option" where
  "dict_field raw k = Option.bind (map_of raw k) as_str_dict"

definition optional_dict_field :: "pydict \<Rightarrow> string \<Rightarrow> pydict option option" where
  "optional_dict_field raw k =
     (case map_of raw k of
        None \<Rightarrow> Some None
      | Some PNone \<Rightarrow> Some None
      | Some v \<Rightarrow> map_option Some (as_str_dict v))"

definition AGENT_CARD_FIELDS :: "string list" where
  "AGENT_CARD_FIELDS = [''schema_version'', ''id'', ''name'', ''description'', ''adapter'',
     ''capabilities'', ''boundaries'', ''autonomy'', ''presentation'']"

definition agent_card_validate :: "crypto \<Rightarrow> pydict \<Rightarrow> agent_card option" where
  "agent_card_validate C raw =
     (if \<not> only_keys AGENT_CARD_FIELDS raw then None
      else do { sv \<leftarrow> Option.bind (map_of raw ''schema_version'') (validate_literal ''1.1'');
                i \<leftarrow> Option.bind (str_field raw ''id'') validate_id;
                n \<leftarrow> Option.bind (str_field raw ''name'') validate_name;
                d \<leftarrow> Option.bind (str_field raw ''description'') validate_description;
                ad \<leftarrow> Option.bind (dict_field raw ''adapter'') adapter_validate;
                cp \<leftarrow> Option.bind (dict_field raw ''capabilities'') capabilities_validate;
                bd \<leftarrow> Option.bind (dict_field raw ''boundaries'') (boundaries_validate C);
                au \<leftarrow> Option.bind (dict_field raw ''autonomy'') autonomy_validate;
                pr \<leftarrow> optional_dict_field raw ''presentation'';
                Some \<lparr>card_schema_version = sv, card_id = i, card_name = n, card_description = d,
                      card_adapter = ad, card_capabilities = cp, card_boundaries = bd,
                      card_autonomy = au, card_presentation = pr\<rparr> })"

record published_card =
  pub_schema_version :: string
  pub_agent_id :: string
  pub_name :: string
  pub_description :: string
  pub_capabilities :: agent_capabilities
  pub_availability :: agent_availability
  pub_requires_owner_acceptance :: bool
  pub_protocol_version :: string

definition PUBLISHED_CARD_FIELDS :: "string list" where
  "PUBLISHED_CARD_FIELDS = [''schema_version'', ''agent_id'', ''name'', ''description'',
     ''capabilities'', ''availability'', ''requires_owner_acceptance'', ''protocol_version'']"

definition published_card_validate :: "crypto \<Rightarrow> pydict \<Rightarrow> published_card option" where
  "published_card_validate C raw =
     (if \<not> only_keys PUBLISHED_CARD_FIELDS raw then None
      else do { sv \<leftarrow> Option.bind (map_of raw ''schema_version'') (validate_literal ''1.1'');
                i \<leftarrow> str_field raw ''agent_id'';
                n \<leftarrow> str_field raw ''name'';
                d \<leftarrow> str_field raw ''description'';
                cp \<leftarrow> Option.bind (dict_field raw ''capabilities'') capabilities_validate;
                av \<leftarrow> Option.bind (str_field raw ''availability'') availability_of;
                ro \<leftarrow> Option.bind (map_of raw ''requires_owner_acceptance'') (c_lax_bool C);
                pv \<leftarrow> Option.bind (map_of raw ''protocol_version'') (validate_literal ''1.1'');
                Some \<lparr>pub_schema_version = sv, pub_agent_id = i, pub_name = n, pub_description = d,
                      pub_capabilities = cp, pub_availability = av,
                      pub_requires_owner_acceptance = ro, pub_protocol_version = pv\<rparr> })"

definition capabilities_dump :: "agent_capabilities \<Rightarrow> pydict" where
  "capabilities_dump c =
     [(''tags'', PList (map PStr (cap_tags c))),
      (''accepts'', PList (map PStr (cap_accepts c))),
      (''produces'', PList (map PStr (cap_produces c)))]"

definition published_card_dump :: "published_card \<Rightarrow> pydict" where
  "published_card_dump p =
     [(''schema_version'', PStr (pub_schema_version p)),
      (''agent_id'', PStr (pub_agent_id p)),
      (''name'', PStr (pub_name p)),
      (''description'', PStr (pub_description p)),
      (''capabilities'', of_dict (capabilities_dump (pub_capabilities p))),
      (''availability'', PStr (availability_value (pub_availability p))),
      (''requires_owner_acceptance'', PBool (pub_requires_owner_acceptance p)),
      (''protocol_version'', PStr (pub_protocol_version p))]"

section \<open>Splitting and joining\<close>

lemma split_on_nonempty [simp]: "split_on sep s \<noteq> []"
  by (induction s) (auto split: list.splits)

lemma split_on_append_sep: "split_on sep (xs @ sep # ys) = split_on sep xs @ split_on sep ys"
  by (induction xs) (auto split: list.splits)

lemma join_split: "join_with sep (split_on sep s) = s"
proof (induction s)
  case (Cons ch s)
  obtain w ws where w: "split_on sep s = w # ws" by (cases "split_on sep s") auto
  with Cons show ?case by (cases ws) auto
qed simp

lemma split_on_no_sep: "w \<in> set (split_on sep s) \<Longrightarrow> sep \<notin> set w"
proof (induction s arbitrary: w)
  case (Cons ch s)
  then show ?case by (auto split: list.splits if_splits)
qed simp

lemma split_on_single: "sep \<notin> set s \<Longrightarrow> split_on sep s = [s]"
  by (induction s) auto

lemma split_join_concat:
  "ws \<noteq> [] \<Longrightarrow> split_on sep (join_with sep ws) = concat (map (split_on sep) ws)"
  by (induction sep ws rule: join_with.induct) (auto simp: split_on_append_sep)

lemma split_join:
  assumes "ws \<noteq> []" and "\<forall>w \<in> set ws. sep \<notin> set w"
  shows "split_on sep (join_with sep ws) = ws"
proof -
  have "concat (map (split_on sep) ws) = ws"
    using assms(2) by (induction ws) (auto simp: split_on_single)
  with assms(1) show ?thesis by (simp add: split_join_concat)
qed

lemma map_join: "f sep = sep \<Longrightarrow> map f (join_with sep ws) = join_with sep (map (map f) ws)"
  by (induction sep ws rule: join_with.induct) auto

lemma length_join_Cons: "length (join_with sep ws) \<le> length (join_with sep (w # ws))"
  by (cases ws) auto

lemma length_join_filter: "length (join_with sep (filter P ws)) \<le> length (join_with sep ws)"
proof (induction ws)
  case (Cons w ws)
  have "length (join_with sep (w # filter P ws)) \<le> length (join_with sep (w # ws))"
    using Cons by (cases ws; cases "filter P ws") auto
  moreover have "length (join_with sep (filter P ws)) \<le> length (join_with sep (w # ws))"
    using Cons length_join_Cons [of sep ws w] by linarith
  ultimately show ?case by simp
qed simp

lemma set_join: "set (join_with sep ws) \<subseteq> insert sep (\<Union> (set (map set ws)))"
  by (induction sep ws rule: join_with.induct) auto

lemma set_split_on: "w \<in> set (split_on sep s) \<Longrightarrow> set w \<subseteq> set s"
  by (induction s arbitrary: w) (fastforce split: list.splits if_splits)+

section \<open>Normalised paths\<close>

lemma path_segments_ok:
  "w \<in> set (path_segments v) \<Longrightarrow> CHR ''/'' \<notin> set w \<and> w \<noteq> [] \<and> w \<noteq> ''.''"
  by (auto simp: path_segments_def dest: split_on_no_sep)

lemma split_slash_Cons: "split_on (CHR ''/'') (CHR ''/'' # s) = [] # split_on (CHR ''/'') s"
  by simp

lemma path_segments_slash [simp]: "path_segments (CHR ''/'' # s) = path_segments s"
  by (simp add: path_segments_def)

lemma split_join_segments:
  "split_on (CHR ''/'') (join_with (CHR ''/'') (path_segments v)) =
     (if path_segments v = [] then [[]] else path_segments v)"
  using path_segments_ok [of _ v] by (auto intro!: split_join)

lemma path_segments_join [simp]:
  "path_segments (join_with (CHR ''/'') (path_segments v)) = path_segments v"
proof -
  have "filter (\<lambda>w. w \<noteq> [] \<and> w \<noteq> ''.'') (path_segments v) = path_segments v"
    by (simp add: path_segments_def)
  then show ?thesis
    by (subst path_segments_def) (simp add: split_join_segments)
qed

lemma unbackslash_split:
  "split_on (CHR ''/'') (unbackslash v) =
     concat (map (\<lambda>w. split_on (CHR ''/'') (unbackslash w)) (split_on (CHR ''/'') v))"
proof -
  let ?f = "\<lambda>ch. if ch = BACKSLASH then CHR ''/'' else ch"
  have "unbackslash v = join_with (CHR ''/'') (map (map ?f) (split_on (CHR ''/'') v))"
    using map_join [of ?f "CHR ''/''" "split_on (CHR ''/'') v"]
    by (simp add: unbackslash_def join_split BACKSLASH_def)
  then show ?thesis
    by (simp add: split_join_concat comp_def unbackslash_def)
qed

lemma path_root_cases: "path_root v \<in> {[], ''/'', ''//''}"
  by (simp add: path_root_def)

lemma posix_segments_split:
  assumes "starts_with ''/'' v"
  shows "set (split_on (CHR ''/'') (as_posix v)) \<subseteq> insert [] (set (path_segments v))"
    and "path_segments (as_posix v) = path_segments v"
proof -
  have "path_root v = ''/'' \<or> path_root v = ''//''" using assms by (auto simp: path_root_def)
  then show "set (split_on (CHR ''/'') (as_posix v)) \<subseteq> insert [] (set (path_segments v))"
    and "path_segments (as_posix v) = path_segments v"
    by (auto simp: as_posix_def split_join_segments split: if_splits)
qed

lemma path_root_posix:
  assumes "starts_with ''/'' v"
  shows "path_root (as_posix v) = path_root v"
proof -
  have r: "path_root v = ''/'' \<or> path_root v = ''//''" using assms by (auto simp: path_root_def)
  show ?thesis
  proof (cases "path_segments v")
    case Nil
    with r show ?thesis by (auto simp: as_posix_def path_root_def starts_with_def)
  next
    case (Cons w ws)
    with path_segments_ok [of w v] obtain c w' where w: "w = c # w'" "c \<noteq> CHR ''/''"
      by (cases w) auto
    have "join_with (CHR ''/'') (path_segments v) = c # w' @ (if ws = [] then [] else CHR ''/'' # join_with (CHR ''/'') ws)"
      using Cons w by (cases ws) auto
    with r w(2) show ?thesis by (auto simp: as_posix_def path_root_def starts_with_def)
  qed
qed

lemma as_posix_idem: "starts_with ''/'' v \<Longrightarrow> as_posix (as_posix v) = as_posix v"
  by (simp add: as_posix_def [of "as_posix v"] path_root_posix posix_segments_split(2))
    (auto simp: as_posix_def path_root_def)

lemma as_posix_length: "starts_with ''/'' v \<Longrightarrow> length (as_posix v) \<le> length v"
proof -
  assume "starts_with ''/'' v"
  then obtain u where v: "v = CHR ''/'' # u" by (cases v) (auto simp: starts_with_def)
  have len: "length (join_with (CHR ''/'') (path_segments x)) \<le> length x" for x
    using length_join_filter [of "CHR ''/''" "\<lambda>w. w \<noteq> [] \<and> w \<noteq> ''.''" "split_on (CHR ''/'') x"]
    by (simp add: path_segments_def join_split)
  show ?thesis
  proof (cases "path_root v = ''//''")
    case True
    with v obtain t where "u = CHR ''/'' # t"
      by (cases u) (auto simp: path_root_def starts_with_def split: if_splits)
    with v True len [of t] show ?thesis by (simp add: as_posix_def)
  next
    case False
    with v have "path_root v = ''/''" by (auto simp: path_root_def starts_with_def split: if_splits)
    with v len [of u] show ?thesis by (simp add: as_posix_def)
  qed
qed

lemma as_posix_chars: "starts_with ''/'' v \<Longrightarrow> set (as_posix v) \<subseteq> set v"
proof -
  assume a: "starts_with ''/'' v"
  then have slash: "CHR ''/'' \<in> set v" by (cases v) (auto simp: starts_with_def)
  have "\<Union> (set (map set (path_segments v))) \<subseteq> set v"
    using set_split_on by (fastforce simp: path_segments_def)
  then have "set (join_with (CHR ''/'') (path_segments v)) \<subseteq> set v"
    using set_join [of "CHR ''/''" "path_segments v"] slash by blast
  then show ?thesis using slash path_root_cases [of v] by (auto simp: as_posix_def a path_root_def)
qed

lemma unbackslash_Nil [simp]: "unbackslash [] = []"
  by (simp add: unbackslash_def)

lemma posix_traversal_free:
  assumes "starts_with ''/'' v" and "''..'' \<notin> set (split_on (CHR ''/'') (unbackslash v))"
  shows "''..'' \<notin> set (split_on (CHR ''/'') (unbackslash (as_posix v)))"
proof
  assume "''..'' \<in> set (split_on (CHR ''/'') (unbackslash (as_posix v)))"
  then obtain w where w: "w \<in> set (split_on (CHR ''/'') (as_posix v))"
    "''..'' \<in> set (split_on (CHR ''/'') (unbackslash w))"
    by (auto simp: unbackslash_split [of "as_posix v"])
  then have "w \<in> set (path_segments v)"
    using posix_segments_split(1) [OF assms(1)] by auto
  with w(2) have "''..'' \<in> set (split_on (CHR ''/'') (unbackslash v))"
    by (auto simp: unbackslash_split [of v] path_segments_def)
  with assms(2) show False by simp
qed

lemma path_parts_posix: "starts_with ''/'' v \<Longrightarrow> path_parts (as_posix v) = path_parts v"
  by (simp add: path_parts_def path_root_posix posix_segments_split(2))

lemma as_posix_root: "starts_with ''/'' v \<Longrightarrow> starts_with ''/'' (as_posix v)"
  by (auto simp: as_posix_def path_root_def starts_with_def)

section \<open>Validated cards\<close>

lemma as_posix_rooted:
  assumes "starts_with ''/'' (as_posix v)"
  shows "starts_with ''/'' v"
proof (rule ccontr)
  assume "\<not> starts_with ''/'' v"
  then have root: "path_root v = []" by (simp add: path_root_def)
  show False
  proof (cases "path_segments v")
    case Nil
    with root assms show False by (simp add: as_posix_def starts_with_def)
  next
    case (Cons w ws)
    then have "w \<in> set (path_segments v)" by simp
    then have "w \<noteq> []" and "CHR ''/'' \<notin> set w" using path_segments_ok by auto
    with root Cons assms show False by (cases w; cases ws) (auto simp: as_posix_def starts_with_def)
  qed
qed

lemma validate_working_directory_idem:
  assumes v: "validate_working_directory v = Some w" and root: "starts_with ''/'' w"
  shows "validate_working_directory w = Some w"
proof -
  from v have w: "w = as_posix v" and len: "length v \<le> 4096" and nul: "NUL \<notin> set v"
    and parts: "''..'' \<notin> set (path_parts v)"
    and trav: "''..'' \<notin> set (split_on (CHR ''/'') (unbackslash v))"
    by (auto simp: validate_working_directory_def split: if_splits)
  have r: "starts_with ''/'' v" using root as_posix_rooted unfolding w by blast
  note facts = as_posix_root [OF r] posix_traversal_free [OF r trav] as_posix_length [OF r]
  show ?thesis
    using facts as_posix_chars [OF r] nul parts len
    by (auto simp: validate_working_directory_def w path_parts_posix [OF r]
        as_posix_idem [OF r] is_absolute_path_def)
      (auto simp: starts_with_def)
qed

lemma int_field_bounds: "int_field C raw k lo hi = Some i \<Longrightarrow> lo \<le> i \<and> i \<le> hi"
  by (auto simp: int_field_def split: option.splits if_splits)

lemma literal_field_allowed:
  "literal_field raw k allowed dflt = Some s \<Longrightarrow> s \<in> set (dflt # allowed)"
  by (auto simp: literal_field_def split: option.splits pyval.splits if_splits)

definition wf_boundaries :: "agent_boundaries \<Rightarrow> bool" where
  "wf_boundaries b =
     (bnd_network_access b \<in> set [''deny'', ''allow'']
      \<and> bnd_filesystem b \<in> set [''none'', ''workspace_read'', ''workspace_read_write_with_approval'']
      \<and> bnd_shell b \<in> set [''deny'', ''approval_required'']
      \<and> 1 \<le> bnd_max_runtime_seconds b \<and> bnd_max_runtime_seconds b \<le> 3600
      \<and> 1 \<le> bnd_max_artifact_bytes b \<and> bnd_max_artifact_bytes b \<le> 52428800)"

lemma boundaries_validate_wf: "boundaries_validate C raw = Some b \<Longrightarrow> wf_boundaries b"
  unfolding boundaries_validate_def wf_boundaries_def
  by (clarsimp simp: bind_eq_Some_conv split: if_splits)
    (auto dest!: int_field_bounds literal_field_allowed)

lemma as_str_list_map [simp]: "as_str_list (map PStr ss) = Some ss"
  by (induction ss) (auto simp: as_str_def)

lemma availability_of_value [simp]: "availability_of (availability_value a) = Some a"
  by (cases a) (simp_all add: availability_of_def AVAILABILITIES_def)

definition wf_capabilities :: "agent_capabilities \<Rightarrow> bool" where
  "wf_capabilities c =
     (length (cap_tags c) \<le> 32 \<and> length (cap_accepts c) \<le> 32 \<and> length (cap_produces c) \<le> 32
      \<and> list_all (\<lambda>t. length t \<le> 64 \<and> TAG_PATTERN t) (cap_tags c)
      \<and> list_all (\<lambda>t. length t \<le> 64 \<and> MIME_PATTERN t) (cap_accepts c)
      \<and> list_all (\<lambda>t. length t \<le> 64 \<and> MIME_PATTERN t) (cap_produces c))"

lemma capabilities_roundtrip:
  "wf_capabilities c \<Longrightarrow> capabilities_validate (capabilities_dump c) = Some c"
  by (simp add: wf_capabilities_def capabilities_validate_def capabilities_dump_def only_keys_def
      str_list_field_def validate_tags_def validate_accepts_def validate_produces_def)

lemma published_card_roundtrip:
  assumes "wf_capabilities (pub_capabilities p)" and "pub_schema_version p = ''1.1''"
    and "pub_protocol_version p = ''1.1''" and "\<And>b. c_lax_bool C (PBool b) = Some b"
  shows "published_card_validate C (published_card_dump p) = Some p"
  using assms
  by (simp add: published_card_validate_def published_card_dump_def only_keys_def
      PUBLISHED_CARD_FIELDS_def str_field_def dict_field_def as_str_def validate_literal_def
      capabilities_roundtrip)

section \<open>Properties\<close>

text \<open>
  Working directories: a directory that starts with a slash and passes
  \<open>validate_working_directory\<close> is stored in a normal form that is still rooted, has the same
  segments as the input, has no parent segment under either separator, is no longer than the input,
  and passes the validator again unchanged.
\<close>

theorem working_directory_normalised:
  assumes "validate_working_directory v = Some w" and "starts_with ''/'' v"
  shows "starts_with ''/'' w \<and> path_segments w = path_segments v
    \<and> ''..'' \<notin> set (split_on (CHR ''/'') w) \<and> ''..'' \<notin> set (split_on (CHR ''/'') (unbackslash w))
    \<and> length w \<le> length v \<and> validate_working_directory w = Some w"
proof -
  from assms(1) have w: "w = as_posix v" and parts: "''..'' \<notin> set (path_parts v)"
    and trav: "''..'' \<notin> set (split_on (CHR ''/'') (unbackslash v))"
    by (auto simp: validate_working_directory_def split: if_splits)
  note facts = as_posix_root [OF assms(2)] posix_segments_split [OF assms(2)]
    posix_traversal_free [OF assms(2) trav] as_posix_length [OF assms(2)]
  have "''..'' \<notin> set (split_on (CHR ''/'') w)"
    using facts(2) parts w by (auto simp: path_parts_def split: if_splits)
  moreover have "validate_working_directory w = Some w"
    using validate_working_directory_idem [OF assms(1)] facts(1) w by simp
  ultimately show ?thesis using facts w by simp
qed

theorem working_directory_normalised_witness:
  "validate_working_directory ''/srv/./kin//work/'' = Some ''/srv/kin/work''
   \<and> validate_working_directory ''/srv/kin/work'' = Some ''/srv/kin/work''"
proof -
  have v: "validate_working_directory ''/srv/./kin//work/'' = Some ''/srv/kin/work''" by code_simp
  have "starts_with ''/'' ''/srv/./kin//work/''" by code_simp
  from working_directory_normalised [OF v this] v show ?thesis by blast
qed

text \<open>
  Boundaries of a validated card: every agent card that passes validation has boundaries within
  the documented ranges (a known network, filesystem and shell mode, a runtime of 1 to 3600
  seconds, an artifact limit of 1 to 52428800 bytes) and an identifier in the safe-id format.
\<close>

theorem validated_card_bounds:
  assumes "agent_card_validate C raw = Some k"
  shows "wf_boundaries (card_boundaries k) \<and> SAFE_ID_REGEX (card_id k)
    \<and> card_name k \<noteq> [] \<and> length (card_name k) \<le> 128"
  using assms unfolding agent_card_validate_def
  by (clarsimp simp: bind_eq_Some_conv split: if_splits)
    (auto dest: boundaries_validate_wf simp: validate_id_def validate_name_def split: if_splits)

definition demo_card_dict :: pydict where
  "demo_card_dict =
     [(''schema_version'', PStr ''1.1''), (''id'', PStr ''a1''), (''name'', PStr ''Ann''),
      (''description'', PStr ''helper''),
      (''adapter'', of_dict [(''type'', PStr ''embedded''), (''provider'', PStr ''p''), (''model'', PStr ''m'')]),
      (''capabilities'', of_dict [(''tags'', PList [PStr ''data''])]),
      (''boundaries'', of_dict [(''filesystem'', PStr ''workspace_read''),
         (''max_runtime_seconds'', PInt 60), (''max_artifact_bytes'', PInt 1000)]),
      (''autonomy'', of_dict [])]"

definition demo_card :: agent_card where
  "demo_card = \<lparr>card_schema_version = ''1.1'', card_id = ''a1'', card_name = ''Ann'',
     card_description = ''helper'', card_adapter = EmbeddedAdapterConfig ''p'' ''m'',
     card_capabilities = \<lparr>cap_tags = [''data''], cap_accepts = [], cap_produces = []\<rparr>,
     card_boundaries = \<lparr>bnd_network_access = ''deny'', bnd_filesystem = ''workspace_read'',
       bnd_shell = ''deny'', bnd_max_runtime_seconds = 60, bnd_max_artifact_bytes = 1000\<rparr>,
     card_autonomy = \<lparr>aut_relay_information = ALWAYS_ASK, aut_propose_actions = ALWAYS_ASK,
       aut_execute_local_actions = ALWAYS_ASK\<rparr>,
     card_presentation = None\<rparr>"

theorem validated_card_bounds_witness:
  "agent_card_validate demo_crypto demo_card_dict = Some demo_card
   \<and> wf_boundaries (card_boundaries demo_card)"
proof -
  have v: "agent_card_validate demo_crypto demo_card_dict = Some demo_card" by code_simp
  from validated_card_bounds [OF v] v show ?thesis by blast
qed

end
