(* ===== verification/Kin_Store.thy ===== *)
theory Kin_Store
  imports Kin_Reducer Kin_Cards
begin

text \<open>
  The profile database and the encryption of its fields: the world the node runs in (randomness,
  clock, AES-GCM, JSON, HTTP) as one record of parameters, the tables of
  \<open>kin-node/kin/storage/migrations.py\<close> that the modelled components use as lists of rows, and the
  field encryption of \<open>kin-node/kin/storage/vault.py\<close>.

  Every operation on the database takes the state of the connection (committed or not) and
  returns the new one with its result. Fresh identifiers, nonces and clock readings are drawn from
  the world at the index \<open>db_tick\<close>, which every draw advances. Identifiers made by \<open>uuid4\<close> are not
  checked against the primary key they are stored under.
\<close>

section \<open>The world\<close>

datatype http_reply =
    HttpResponse int "pyval option" string \<comment> \<open>status code, JSON body if it parses, text\<close>
  | RequestError string \<comment> \<open>\<open>str(exc)\<close>\<close>

record world =
  w_crypto :: crypto
  w_uuid :: "nat \<Rightarrow> string"
  w_clock :: "nat \<Rightarrow> int" \<comment> \<open>microseconds since the epoch\<close>
  w_urandom :: "nat \<Rightarrow> bytes"
  w_isoformat :: "int \<Rightarrow> string" \<comment> \<open>\<open>datetime.isoformat\<close> of an aware UTC time\<close>
  w_fromisoformat :: "string \<Rightarrow> int option" \<comment> \<open>\<open>fromisoformat\<close> read as UTC\<close>
  w_aware :: "string \<Rightarrow> int option" \<comment> \<open>\<open>fromisoformat\<close>, a naive time taken as UTC\<close>
  w_aes_encrypt :: "bytes \<Rightarrow> bytes \<Rightarrow> bytes \<Rightarrow> bytes"
  w_aes_decrypt :: "bytes \<Rightarrow> bytes \<Rightarrow> bytes \<Rightarrow> bytes option"
  w_x25519_public :: "bytes \<Rightarrow> bytes"
  w_x25519_exchange :: "bytes \<Rightarrow> bytes \<Rightarrow> bytes" \<comment> \<open>private key, public key\<close>
  w_hkdf :: "string \<Rightarrow> bytes \<Rightarrow> bytes" \<comment> \<open>info, input key material\<close>
  w_chacha_encrypt :: "bytes \<Rightarrow> bytes \<Rightarrow> bytes \<Rightarrow> bytes"
  w_chacha_decrypt :: "bytes \<Rightarrow> bytes \<Rightarrow> bytes \<Rightarrow> bytes option"
  w_dumps :: "pyval \<Rightarrow> string option" \<comment> \<open>\<open>json.dumps(v, sort_keys=True)\<close>\<close>
  w_dumps_plain :: "pyval \<Rightarrow> string option" \<comment> \<open>\<open>json.dumps(v)\<close>, keys in insertion order\<close>
  w_dumps_compact :: "pyval \<Rightarrow> string option" \<comment> \<open>sorted keys, no spaces, \<open>ensure_ascii=False\<close>\<close>
  w_dumps_tight :: "pyval \<Rightarrow> string option" \<comment> \<open>\<open>json.dumps(v, separators=(",", ":"))\<close>\<close>
  w_dumps_pretty :: "pyval \<Rightarrow> string option" \<comment> \<open>\<open>json.dumps(v, indent=2)\<close>\<close>
  w_loads :: "string \<Rightarrow> pyval option" \<comment> \<open>\<open>json.loads\<close>\<close>
  w_model_json :: "pydict \<Rightarrow> string" \<comment> \<open>pydantic's \<open>model_dump_json\<close>\<close>
  w_numeric :: "string \<Rightarrow> pyval option" \<comment> \<open>the number SQLite's numeric affinity makes of a text\<close>
  w_str :: "pyval \<Rightarrow> string" \<comment> \<open>\<open>str(v)\<close>\<close>
  w_keychain_ed25519 :: "string \<Rightarrow> bytes option" \<comment> \<open>\<open>load_private_key\<close>, \<open>None\<close> when it raises\<close>
  w_keychain_x25519 :: "string \<Rightarrow> bytes option"
  w_keyring :: "string \<Rightarrow> string \<Rightarrow> string option" \<comment> \<open>\<open>keyring.get_password(service, user)\<close>\<close>
  w_is_dir :: "string \<Rightarrow> bool" \<comment> \<open>\<open>Path(p).is_dir()\<close>\<close>
  w_http :: "nat \<Rightarrow> string \<Rightarrow> string \<Rightarrow> pyval \<Rightarrow> http_reply" \<comment> \<open>verb, URL, body\<close>

section \<open>Tables\<close>

record contact_row =
  ct_username :: string
  ct_endpoint :: "string option"
  ct_x25519_public_key :: "string option"
  ct_public_key :: "string option"
  ct_fingerprint_verified_at :: "string option"

record session_row =
  sr_session_id :: string
  sr_type :: string
  sr_initiator_username :: string
  sr_receiver_username :: string
  sr_status :: string
  sr_objective :: "string option"
  sr_sender_agent_id :: "string option"
  sr_receiver_agent_id :: "string option"
  sr_participant_snapshot_json :: "string option"
  sr_turn_limit :: int
  sr_runtime_budget_seconds :: pyval
  sr_artifact_bytes_budget :: pyval
  sr_cumulative_artifact_bytes :: int
  sr_cost_budget_estimate :: pyval
  sr_cumulative_cost_estimate :: int \<comment> \<open>a \<open>REAL\<close> column that only ever counts calls\<close>
  sr_created_at :: string
  sr_updated_at :: string
  sr_expires_at :: "string option"

record event_row =
  er_event_id :: string
  er_session_id :: string
  er_event_order :: int
  er_sequence :: "int option"
  er_actor_username :: string
  er_actor_agent_id :: "string option"
  er_kind :: string
  er_visibility :: string
  er_payload_json :: "string option"
  er_signature :: "string option"
  er_created_at :: string

record audit_row =
  au_audit_id :: string
  au_correlation_id :: string
  au_session_id :: "string option"
  au_category :: string
  au_actor_username :: "string option"
  au_payload_json :: "string option"
  au_created_at :: string

record approval_row =
  ap_approval_id :: string
  ap_session_id :: string
  ap_agent_id :: "string option"
  ap_action_class :: string
  ap_request_json :: "string option"
  ap_decision :: "string option"
  ap_decided_at :: "string option"
  ap_expires_at :: string
  ap_consumed_at :: "string option"

record artifact_row =
  ar_artifact_id :: string
  ar_session_id :: string
  ar_sha256 :: string
  ar_mime_type :: string
  ar_bytes_encrypted :: "bytes option"
  ar_metadata_json :: "string option"
  ar_offered_by :: string
  ar_created_at :: string

record agent_row =
  ag_agent_id :: string
  ag_name :: string
  ag_adapter_type :: string
  ag_local_card_json :: "string option"
  ag_published_card_json :: "string option"
  ag_enabled :: bool
  ag_availability :: string
  ag_created_at :: string
  ag_updated_at :: string
  ag_card_version :: int

record peer_card_row =
  pc_peer_username :: string
  pc_agent_id :: string
  pc_card_json :: string
  pc_content_hash :: string
  pc_status :: string
  pc_first_seen_at :: string
  pc_last_seen_at :: string

record queue_row =
  q_queue_id :: string
  q_session_id :: string
  q_sequence :: int
  q_recipient_username :: string
  q_envelope_kind :: string
  q_envelope_json_enc :: string
  q_delivery_state :: string
  q_attempt_count :: int
  q_next_retry_at :: string
  q_last_error :: "string option"
  q_created_at :: string
  q_updated_at :: string

record capability_row =
  cb_peer_username :: string
  cb_capability_json :: string
  cb_fetched_at :: string

record db =
  db_identity :: "string option list" \<comment> \<open>the \<open>username\<close> column of \<open>identity\<close>\<close>
  db_contacts :: "contact_row list"
  db_sessions :: "session_row list"
  db_events :: "event_row list"
  db_audit :: "audit_row list"
  db_approvals :: "approval_row list"
  db_artifacts :: "artifact_row list"
  db_agents :: "agent_row list"
  db_peer_cards :: "peer_card_row list"
  db_queue :: "queue_row list"
  db_capabilities :: "capability_row list"
  db_tick :: nat
  db_wire :: "(string \<times> string \<times> pyval) list" \<comment> \<open>requests sent, oldest first\<close>

definition empty_db :: "string \<Rightarrow> db" where
  "empty_db me = \<lparr>db_identity = [Some me], db_contacts = [], db_sessions = [], db_events = [],
     db_audit = [], db_approvals = [], db_artifacts = [], db_agents = [], db_peer_cards = [],
     db_queue = [], db_capabilities = [], db_tick = 0, db_wire = []\<rparr>"

definition tick :: "db \<Rightarrow> db" where
  "tick d = d\<lparr>db_tick := Suc (db_tick d)\<rparr>"

text \<open>\<open>SELECT ... FROM sessions WHERE session_id = ?\<close> with \<open>fetchone()\<close>.\<close>

definition find_session :: "db \<Rightarrow> string \<Rightarrow> session_row option" where
  "find_session d sid = find (\<lambda>r. sr_session_id r = sid) (db_sessions d)"

definition session_events_of :: "db \<Rightarrow> string \<Rightarrow> event_row list" where
  "session_events_of d sid = filter (\<lambda>r. er_session_id r = sid) (db_events d)"

text \<open>\<open>UPDATE sessions SET ... WHERE session_id = ?\<close>.\<close>

definition update_session :: "string \<Rightarrow> (session_row \<Rightarrow> session_row) \<Rightarrow> db \<Rightarrow> db" where
  "update_session sid f d =
     d\<lparr>db_sessions := map (\<lambda>r. if sr_session_id r = sid then f r else r) (db_sessions d)\<rparr>"

text \<open>One step after another, stopping at the first exception.\<close>

definition then_do :: "db \<times> 'a result \<Rightarrow> ('a \<Rightarrow> db \<Rightarrow> db \<times> 'b result) \<Rightarrow> db \<times> 'b result" where
  "then_do m f = (case m of (d, Inl e) \<Rightarrow> (d, Inl e) | (d, Inr x) \<Rightarrow> f x d)"

text \<open>A request to a peer or relay: the reply, and the state with the request logged.\<close>

definition http_call :: "world \<Rightarrow> string \<Rightarrow> string \<Rightarrow> pyval \<Rightarrow> db \<Rightarrow> http_reply \<times> db" where
  "http_call W verb url body d =
     (w_http W (db_tick d) verb url body, tick (d\<lparr>db_wire := db_wire d @ [(verb, url, body)]\<rparr>))"

text \<open>\<open>SELECT username FROM identity LIMIT 1\<close>; the empty string when there is no row.\<close>

definition my_username :: "db \<Rightarrow> string option" where
  "my_username d = (case db_identity d of [] \<Rightarrow> Some [] | u # us \<Rightarrow> u)"

section \<open>Text as bytes\<close>

text \<open>UTF-8 on the modelled code points, which are those below 256.\<close>

definition utf8_char :: "char \<Rightarrow> bytes" where
  "utf8_char ch = (let n = char_code ch in
     if n < 128 then [of_nat n] else [of_nat (192 + n div 64), of_nat (128 + n mod 64)])"

definition utf8_encode :: "string \<Rightarrow> bytes" where
  "utf8_encode s = concat (map utf8_char s)"

fun utf8_decode :: "bytes \<Rightarrow> string option" where
  "utf8_decode [] = Some []"
| "utf8_decode [b] = (if unat b < 128 then Some [char_of (unat b)] else None)"
| "utf8_decode (b # c # bs) =
     (if unat b < 128 then map_option (Cons (char_of (unat b))) (utf8_decode (c # bs))
      else if (unat b = 194 \<or> unat b = 195) \<and> 128 \<le> unat c \<and> unat c < 192
      then map_option (Cons (char_of ((unat b - 192) * 64 + (unat c - 128)))) (utf8_decode bs)
      else None)"

text \<open>Lower-case hexadecimal digests, \<open>hexdigest()\<close>.\<close>

definition hex_digit :: "nat \<Rightarrow> char" where
  "hex_digit n = ''0123456789abcdef'' ! n"

definition hexdigest :: "bytes \<Rightarrow> string" where
  "hexdigest bs = concat (map (\<lambda>b. [hex_digit (unat b div 16), hex_digit (unat b mod 16)]) bs)"

definition sha256_hex :: "world \<Rightarrow> bytes \<Rightarrow> string" where
  "sha256_hex W bs = hexdigest (c_sha256 (w_crypto W) bs)"

text \<open>\<open>base64.b64encode\<close> and the lenient \<open>base64.b64decode\<close> over the standard alphabet.\<close>

definition std_char :: "char \<Rightarrow> char" where
  "std_char ch = (if ch = CHR ''-'' then CHR ''+'' else if ch = CHR ''_'' then CHR ''/'' else ch)"

definition b64_std_encode :: "bytes \<Rightarrow> string" where
  "b64_std_encode bs = map std_char (b64encode (map unat bs))"

definition b64_std_decode :: "string \<Rightarrow> bytes option" where
  "b64_std_decode s =
     map_option (map of_nat)
       (a2b_base64 0 0 0 (filter (\<lambda>ch. ch \<noteq> CHR ''-'' \<and> ch \<noteq> CHR ''_'') s))"

section \<open>The vault\<close>

definition VERSION_PREFIX :: bytes where
  "VERSION_PREFIX = utf8_encode ''v1:''"

definition encrypt_field :: "world \<Rightarrow> bytes \<Rightarrow> nat \<Rightarrow> string option \<Rightarrow> string option" where
  "encrypt_field W key n plaintext =
     (case plaintext of
        None \<Rightarrow> None
      | Some s \<Rightarrow>
          (let nonce = w_urandom W n;
               ciphertext = w_aes_encrypt W key nonce (utf8_encode s)
           in Some (b64_std_encode (VERSION_PREFIX @ nonce @ ciphertext))))"

definition decrypt_field :: "world \<Rightarrow> bytes \<Rightarrow> string option \<Rightarrow> string option result" where
  "decrypt_field W key token =
     (case token of
        None \<Rightarrow> Inr None
      | Some t \<Rightarrow>
          (case b64_std_decode t of
             None \<Rightarrow> Inl ValueError
           | Some raw_token \<Rightarrow>
               if take (length VERSION_PREFIX) raw_token \<noteq> VERSION_PREFIX then Inl ValueError
               else (let payload = drop (length VERSION_PREFIX) raw_token in
                     case w_aes_decrypt W key (take 12 payload) (drop 12 payload) of
                       None \<Rightarrow> Inl (AppError ''InvalidTag'')
                     | Some pt \<Rightarrow>
                         (case utf8_decode pt of None \<Rightarrow> Inl ValueError | Some s \<Rightarrow> Inr (Some s)))))"

text \<open>
  \<open>base64.b64decode(value, validate=True)\<close> refuses characters outside the alphabet and padding that
  is not exactly what completes the last group.
\<close>

definition b64_strict :: "string \<Rightarrow> bool" where
  "b64_strict s =
     (let body = rstrip (CHR ''='') s in
      list_all (\<lambda>ch. is_alnum ch \<or> ch = CHR ''+'' \<or> ch = CHR ''/'') body
      \<and> length s mod 4 = 0 \<and> length s - length body \<le> 2)"

definition decrypt_field_or_plaintext :: "world \<Rightarrow> bytes \<Rightarrow> string option \<Rightarrow> string option result" where
  "decrypt_field_or_plaintext W key stored =
     (case stored of
        None \<Rightarrow> Inr None
      | Some v \<Rightarrow>
          if \<not> b64_strict v then Inr (Some v)
          else (case b64_std_decode v of
                  None \<Rightarrow> Inr (Some v)
                | Some raw_token \<Rightarrow>
                    if take (length VERSION_PREFIX) raw_token \<noteq> VERSION_PREFIX then Inr (Some v)
                    else decrypt_field W key (Some v)))"

definition encrypt_bytes :: "world \<Rightarrow> bytes \<Rightarrow> nat \<Rightarrow> bytes option \<Rightarrow> bytes option" where
  "encrypt_bytes W key n data =
     (case data of
        None \<Rightarrow> None
      | Some bs \<Rightarrow> (let nonce = w_urandom W n in
                     Some (VERSION_PREFIX @ nonce @ w_aes_encrypt W key nonce bs)))"

definition decrypt_bytes :: "world \<Rightarrow> bytes \<Rightarrow> bytes option \<Rightarrow> bytes option result" where
  "decrypt_bytes W key token =
     (case token of
        None \<Rightarrow> Inr None
      | Some t \<Rightarrow>
          if take (length VERSION_PREFIX) t \<noteq> VERSION_PREFIX then Inl ValueError
          else (let payload = drop (length VERSION_PREFIX) t in
                case w_aes_decrypt W key (take 12 payload) (drop 12 payload) of
                  None \<Rightarrow> Inl (AppError ''InvalidTag'')
                | Some pt \<Rightarrow> Inr (Some pt)))"

section \<open>Timestamps\<close>

definition ends_with :: "string \<Rightarrow> string \<Rightarrow> bool" where
  "ends_with suf s = (length suf \<le> length s \<and> drop (length s - length suf) s = suf)"

definition iso_now :: "world \<Rightarrow> int \<Rightarrow> string" where
  "iso_now W t =
     (let res = w_isoformat W t in
      if ends_with ''+00:00'' res then take (length res - 6) res @ ''Z''
      else if \<not> ends_with ''Z'' res then res @ ''Z''
      else res)"

text \<open>\<open>fromisoformat(s.rstrip("Z")).replace(tzinfo=utc)\<close>.\<close>

definition parse_iso_z :: "world \<Rightarrow> string \<Rightarrow> int option" where
  "parse_iso_z W s = w_fromisoformat W (rstrip (CHR ''Z'') s)"

section \<open>Lemmas\<close>

lemma char_code_less: "char_code ch < 256"
  by (simp add: char_code_def)

lemma char_of_char_code [simp]: "char_of (char_code ch) = ch"
  by (simp add: char_code_def)

lemma unat_of_nat_byte: "n < 256 \<Longrightarrow> unat (of_nat n :: byte) = n"
  by (simp add: unat_of_nat)

lemma utf8_decode_encode [simp]: "utf8_decode (utf8_encode s) = Some s"
proof (induction s)
  case Nil
  then show ?case by (simp add: utf8_encode_def)
next
  case (Cons ch s)
  let ?n = "char_code ch"
  have enc: "utf8_encode (ch # s) = utf8_char ch @ utf8_encode s" by (simp add: utf8_encode_def)
  show ?case
  proof (cases "?n < 128")
    case True
    then have "utf8_char ch = [of_nat ?n]" by (simp add: utf8_char_def)
    with True Cons show ?thesis
      unfolding enc by (cases "utf8_encode s") (auto simp: unat_of_nat_byte)
  next
    case False
    have lt: "?n < 256" by (rule char_code_less)
    have u: "utf8_char ch = [of_nat (192 + ?n div 64), of_nat (128 + ?n mod 64)]"
      using False by (simp add: utf8_char_def Let_def)
    have "192 + ?n div 64 < 256" and "128 + ?n mod 64 < 192" using lt by auto
    moreover have "?n div 64 = 2 \<or> ?n div 64 = 3" using False lt by auto
    moreover have "?n div 64 * 64 + ?n mod 64 = ?n" by simp
    ultimately show ?thesis
      using Cons unfolding enc u
      by (auto simp: unat_of_nat_byte simp del: of_nat_add of_nat_mult)
  qed
qed

lemma b64encode_padded:
  "b64encode xs = b64encode_raw xs @ replicate (nat (- int (length (b64encode_raw xs)) mod 4)) (CHR ''='')"
proof (induction xs rule: b64encode.induct)
  case (4 a b c rest)
  have "- int (length (b64encode_raw (a # b # c # rest))) mod 4 = - int (length (b64encode_raw rest)) mod 4"
    by simp presburger
  with 4 show ?case by simp
qed (simp_all add: numeral_2_eq_2)

lemma a2b_b64encode: "list_all (\<lambda>n. n < 256) xs \<Longrightarrow> a2b_base64 0 0 0 (b64encode xs) = Some xs"
  unfolding b64encode_padded by (rule a2b_b64encode_raw)

lemma b64_value_std [simp]: "b64_value (std_char ch) = b64_value ch"
  by (simp add: std_char_def) code_simp

lemma std_char_pad [simp]: "std_char ch = CHR ''='' \<longleftrightarrow> ch = CHR ''=''"
  by (auto simp: std_char_def split: if_splits)

lemma std_char_range: "std_char ch \<noteq> CHR ''-'' \<and> std_char ch \<noteq> CHR ''_''"
  by (auto simp: std_char_def)

lemma a2b_std: "a2b_base64 q l p (map std_char s) = a2b_base64 q l p s"
  by (induction s arbitrary: q l p) (simp_all split: option.split)

lemma b64_std_roundtrip [simp]: "b64_std_decode (b64_std_encode bs) = Some bs"
proof -
  have "filter (\<lambda>ch. ch \<noteq> CHR ''-'' \<and> ch \<noteq> CHR ''_'') (b64_std_encode bs) = b64_std_encode bs"
    by (auto simp: b64_std_encode_def std_char_range intro!: filter_True)
  then show ?thesis
    by (simp add: b64_std_decode_def b64_std_encode_def a2b_std a2b_b64encode bytes_bounded comp_def)
qed

text \<open>AES-GCM decrypts what it encrypted under the same key and nonce; nonces have 12 bytes.\<close>

definition aes_correct :: "world \<Rightarrow> bytes \<Rightarrow> bool" where
  "aes_correct W key =
     ((\<forall>nonce pt. w_aes_decrypt W key nonce (w_aes_encrypt W key nonce pt) = Some pt)
      \<and> (\<forall>n. length (w_urandom W n) = 12))"

lemma decrypt_encrypt_field:
  assumes "aes_correct W key"
  shows "decrypt_field W key (encrypt_field W key n p) = Inr p"
  using assms
  by (cases p) (simp_all add: aes_correct_def encrypt_field_def decrypt_field_def Let_def)

lemma decrypt_encrypt_bytes:
  assumes "aes_correct W key"
  shows "decrypt_bytes W key (encrypt_bytes W key n p) = Inr p"
  using assms
  by (cases p) (simp_all add: aes_correct_def encrypt_bytes_def decrypt_bytes_def Let_def)

lemma encrypt_field_None_iff [simp]: "encrypt_field W key n p = None \<longleftrightarrow> p = None"
  by (auto simp: encrypt_field_def Let_def split: option.splits)

lemma encrypt_bytes_None_iff [simp]: "encrypt_bytes W key n p = None \<longleftrightarrow> p = None"
  by (auto simp: encrypt_bytes_def Let_def split: option.splits)

end
