(* ===== verification/Kin_Ledger.thy ===== *)
theory Kin_Ledger
  imports Kin_Store
begin

text \<open>
  The append-only ledgers of a profile: \<open>write_audit_event\<close>, \<open>check_sequence_conflict\<close> and
  \<open>append_session_event\<close> of \<open>kin-node/kin/audit/writer.py\<close>, the \<open>SessionEvent\<close> model of
  \<open>schemas.py\<close>, and \<open>reconstruct_session_state\<close> of \<open>session/reducer.py\<close>, which reads a session
  state back out of the ledger. The invariant of the event table is that the events of a session
  are numbered 0, 1, 2, ... in the order they were written and that no actor has two events with
  the same sequence number; the refinement lemma is that appending an envelope to the ledger and
  rebuilding the state is what the reducer does in memory.
\<close>

section \<open>Audit records\<close>

definition json_dumps :: "world \<Rightarrow> pyval \<Rightarrow> string result" where
  "json_dumps W v = (case w_dumps W v of None \<Rightarrow> Inl TypeError | Some s \<Rightarrow> Inr s)"

text \<open>A payload argument: nothing, text kept as it is, or a value serialised as sorted JSON.\<close>

definition payload_text :: "world \<Rightarrow> pyval \<Rightarrow> string option result" where
  "payload_text W payload =
     (case payload of
        PNone \<Rightarrow> Inr None
      | PStr s \<Rightarrow> Inr (Some s)
      | v \<Rightarrow> (case json_dumps W v of Inl e \<Rightarrow> Inl e | Inr s \<Rightarrow> Inr (Some s)))"

definition write_audit_event ::
  "world \<Rightarrow> bytes \<Rightarrow> string \<Rightarrow> string option \<Rightarrow> string option \<Rightarrow> pyval \<Rightarrow> string option \<Rightarrow> db
   \<Rightarrow> db \<times> string result" where
  "write_audit_event W vault_key category session_id actor_username payload correlation_id d =
     (let n = db_tick d;
          audit_id = w_uuid W n;
          cid = or_text correlation_id (or_text session_id audit_id);
          now_str = w_isoformat W (w_clock W n)
      in case payload_text W payload of
           Inl e \<Rightarrow> (tick d, Inl e)
         | Inr payload_str \<Rightarrow>
             (tick (d\<lparr>db_audit := db_audit d @
                [\<lparr>au_audit_id = audit_id, au_correlation_id = cid, au_session_id = session_id,
                  au_category = category, au_actor_username = actor_username,
                  au_payload_json = encrypt_field W vault_key n payload_str,
                  au_created_at = now_str\<rparr>]\<rparr>), Inr audit_id))"

section \<open>Sequence conflicts\<close>

definition canonical_payload_hash :: "world \<Rightarrow> pyval \<Rightarrow> string result" where
  "canonical_payload_hash W payload =
     (case payload of
        PNone \<Rightarrow> Inr []
      | PStr s \<Rightarrow>
          (case Option.bind (w_loads W s) (w_dumps W) of
             Some t \<Rightarrow> Inr (sha256_hex W (utf8_encode t))
           | None \<Rightarrow> Inr (sha256_hex W (utf8_encode s)))
      | v \<Rightarrow> (case json_dumps W v of Inl e \<Rightarrow> Inl e | Inr t \<Rightarrow> Inr (sha256_hex W (utf8_encode t))))"

datatype sequence_status = SeqNew | SeqDuplicate string | SeqConflict string

definition find_sequence :: "db \<Rightarrow> string \<Rightarrow> string \<Rightarrow> int \<Rightarrow> event_row option" where
  "find_sequence d session_id actor_username sq =
     find (\<lambda>r. er_session_id r = session_id \<and> er_actor_username r = actor_username
              \<and> er_sequence r = Some sq) (db_events d)"

text \<open>An integer bound to a statement must fit SQLite's 64-bit integers.\<close>

definition sqlite_int :: "int \<Rightarrow> bool" where
  "sqlite_int i = (- (2 ^ 63) \<le> i \<and> i < 2 ^ 63)"

definition check_sequence_conflict ::
  "world \<Rightarrow> bytes \<Rightarrow> string \<Rightarrow> string \<Rightarrow> int \<Rightarrow> pyval \<Rightarrow> db \<Rightarrow> db \<times> sequence_status result" where
  "check_sequence_conflict W vault_key session_id actor_username sq payload d =
     (if \<not> sqlite_int sq then (d, Inl (AppError ''OverflowError''))
      else case find_sequence d session_id actor_username sq of
        None \<Rightarrow> (d, Inr SeqNew)
      | Some row \<Rightarrow>
          (case decrypt_field W vault_key (er_payload_json row) of
             Inl e \<Rightarrow> (d, Inl e)
           | Inr existing \<Rightarrow>
               (case (canonical_payload_hash W payload,
                      canonical_payload_hash W (case existing of None \<Rightarrow> PNone | Some s \<Rightarrow> PStr s)) of
                  (Inl e, _) \<Rightarrow> (d, Inl e)
                | (_, Inl e) \<Rightarrow> (d, Inl e)
                | (Inr incoming_hash, Inr existing_hash) \<Rightarrow>
                    (let note = of_dict [(''sequence'', PInt sq), (''existing_event_id'', PStr (er_event_id row))];
                         same = (incoming_hash = existing_hash)
                     in case write_audit_event W vault_key
                               (if same then ''duplicate_delivery'' else ''security_rejection'')
                               (Some session_id) (Some actor_username) note (Some session_id) d of
                          (d', Inl e) \<Rightarrow> (d', Inl e)
                        | (d', Inr _) \<Rightarrow>
                            (d', Inr (if same then SeqDuplicate (er_event_id row)
                                      else SeqConflict (er_event_id row)))))))"

section \<open>Session events\<close>

datatype event_kind = PeerKind message_kind | InternalKind internal_event_kind

definition validate_event_kind :: "string \<Rightarrow> event_kind option" where
  "validate_event_kind v =
     (case message_kind_of v of
        Some k \<Rightarrow> Some (PeerKind k)
      | None \<Rightarrow> map_option InternalKind (internal_event_kind_of v))"

text \<open>
  \<open>SessionEvent.model_validate\<close> on the dictionary \<open>append_session_event\<close> builds; the identifiers,
  names and the signature are strings there by construction.
\<close>

definition session_event_ok ::
  "int \<Rightarrow> int option \<Rightarrow> string \<Rightarrow> string \<Rightarrow> pydict \<Rightarrow> string \<Rightarrow> bool" where
  "session_event_ok event_order sq kind visibility payload created_at =
     (0 \<le> event_order
      \<and> (case sq of None \<Rightarrow> True | Some i \<Rightarrow> 1 \<le> i)
      \<and> validate_event_kind kind \<noteq> None
      \<and> visibility \<in> set [''peer_visible'', ''local_only'']
      \<and> validate_json_primitives (of_dict payload) = Inr ()
      \<and> (TIMESTAMP_REGEX created_at \<or> CREATED_AT_REGEX created_at))"

text \<open>The dictionary view of a payload, for validation only.\<close>

definition payload_dict_view :: "world \<Rightarrow> pyval \<Rightarrow> pydict option" where
  "payload_dict_view W payload =
     (case payload of
        PNone \<Rightarrow> Some []
      | PStr s \<Rightarrow>
          (case w_loads W s of
             Some (PDict kvs) \<Rightarrow> as_str_dict (PDict kvs)
           | _ \<Rightarrow> Some [(''content'', PStr s)])
      | PDict kvs \<Rightarrow> as_str_dict (PDict kvs)
      | v \<Rightarrow> Some [(''content'', PStr (w_str W v))])"

datatype append_result =
    Appended string int
  | DuplicateEvent string
  | RejectedEvent string

definition next_event_order :: "db \<Rightarrow> string \<Rightarrow> int" where
  "next_event_order d session_id =
     coalesce (sql_max (map (Some \<circ> er_event_order) (session_events_of d session_id))) (- 1) + 1"

definition new_event_row ::
  "world \<Rightarrow> bytes \<Rightarrow> string \<Rightarrow> string \<Rightarrow> string option \<Rightarrow> string \<Rightarrow> string \<Rightarrow> string option
   \<Rightarrow> string option \<Rightarrow> int option \<Rightarrow> db \<Rightarrow> event_row" where
  "new_event_row W vault_key session_id actor_username actor_agent_id kind visibility payload_str
     signature sq d =
     \<lparr>er_event_id = w_uuid W (db_tick d), er_session_id = session_id,
      er_event_order = next_event_order d session_id, er_sequence = sq,
      er_actor_username = actor_username, er_actor_agent_id = actor_agent_id,
      er_kind = kind, er_visibility = visibility,
      er_payload_json = encrypt_field W vault_key (db_tick d) payload_str,
      er_signature = signature, er_created_at = w_isoformat W (w_clock W (db_tick d))\<rparr>"

definition insert_session_event ::
  "world \<Rightarrow> bytes \<Rightarrow> string \<Rightarrow> string \<Rightarrow> string option \<Rightarrow> string \<Rightarrow> string \<Rightarrow> pyval
   \<Rightarrow> string option \<Rightarrow> int option \<Rightarrow> db \<Rightarrow> db \<times> append_result result" where
  "insert_session_event W vault_key session_id actor_username actor_agent_id kind visibility payload
     signature sq d =
     (let next_order = next_event_order d session_id;
          event_id = w_uuid W (db_tick d);
          now_str = w_isoformat W (w_clock W (db_tick d))
      in case (payload_text W payload, payload_dict_view W payload) of
           (Inl e, _) \<Rightarrow> (tick d, Inl e)
         | (_, None) \<Rightarrow> (tick d, Inl ValidationError)
         | (Inr payload_str, Some payload_dict) \<Rightarrow>
             if \<not> session_event_ok next_order sq kind visibility payload_dict now_str
             then (tick d, Inl ValidationError)
             else if find_session d session_id = None then (tick d, Inl IntegrityError)
             else (case write_audit_event W vault_key (''session_event_'' @ kind) (Some session_id)
                          (Some actor_username) payload (Some session_id)
                          (tick (d\<lparr>db_events := db_events d @
                             [new_event_row W vault_key session_id actor_username actor_agent_id kind
                                visibility payload_str signature sq d]\<rparr>)) of
                     (d', Inl e) \<Rightarrow> (d', Inl e)
                   | (d', Inr _) \<Rightarrow> (d', Inr (Appended event_id next_order))))"

definition append_session_event ::
  "world \<Rightarrow> bytes \<Rightarrow> string \<Rightarrow> string \<Rightarrow> string option \<Rightarrow> string \<Rightarrow> string \<Rightarrow> pyval
   \<Rightarrow> string option \<Rightarrow> int option \<Rightarrow> db \<Rightarrow> db \<times> append_result result" where
  "append_session_event W vault_key session_id actor_username actor_agent_id kind visibility payload
     signature sq d =
     (case sq of
        None \<Rightarrow> insert_session_event W vault_key session_id actor_username actor_agent_id kind
                  visibility payload signature sq d
      | Some i \<Rightarrow>
          (case check_sequence_conflict W vault_key session_id actor_username i payload d of
             (d', Inl e) \<Rightarrow> (d', Inl e)
           | (d', Inr (SeqDuplicate existing_id)) \<Rightarrow> (d', Inr (DuplicateEvent existing_id))
           | (d', Inr (SeqConflict existing_id)) \<Rightarrow>
               (d', Inr (RejectedEvent ''SEQUENCE_REUSE_MISMATCH''))
           | (d', Inr SeqNew) \<Rightarrow>
               insert_session_event W vault_key session_id actor_username actor_agent_id kind
                 visibility payload signature sq d'))"

section \<open>Reconstruction\<close>

definition owner_participant :: "string option \<Rightarrow> string \<Rightarrow> participant_info" where
  "owner_participant agent_id un = \<lparr>pi_agent_id = or_text agent_id un, pi_role = ''owner''\<rparr>"

definition reconstruct_participants :: "session_row \<Rightarrow> (string \<times> participant_info) list" where
  "reconstruct_participants row =
     (let p1 = (if sr_initiator_username row \<noteq> []
                then [(sr_initiator_username row,
                       owner_participant (sr_sender_agent_id row) (sr_initiator_username row))]
                else [])
      in if sr_receiver_username row \<noteq> []
         then AList.update (sr_receiver_username row)
                (owner_participant (sr_receiver_agent_id row) (sr_receiver_username row)) p1
         else p1)"

text \<open>\<open>MAX(sequence) ... GROUP BY actor_username\<close> over the rows with a sequence number.\<close>

definition actor_max :: "event_row list \<Rightarrow> string \<Rightarrow> int option" where
  "actor_max rows un = sql_max (map er_sequence (filter (\<lambda>r. er_actor_username r = un) rows))"

definition reconstruct_sequences :: "event_row list \<Rightarrow> (string \<times> int) list" where
  "reconstruct_sequences rows =
     concat (map (\<lambda>un. case actor_max rows un of None \<Rightarrow> [] | Some m \<Rightarrow> [(un, m)])
       (filter (\<lambda>un. un \<noteq> []) (remdups (map er_actor_username rows))))"

definition reconstruct_turns :: "event_row list \<Rightarrow> int" where
  "reconstruct_turns rows =
     int (length (filter (\<lambda>r. er_kind r \<in> set (map message_kind_value TURN_CONSUMING_KINDS)) rows))"

definition reconstruct_event :: "world \<Rightarrow> bytes \<Rightarrow> event_row \<Rightarrow> pydict" where
  "reconstruct_event W vault_key r =
     (let payload =
        (case er_payload_json r of
           None \<Rightarrow> PDict []
         | Some enc \<Rightarrow>
             if enc = [] then PDict []
             else (case decrypt_field W vault_key (Some enc) of
                     Inr (Some dec) \<Rightarrow>
                       (case w_loads W dec of Some v \<Rightarrow> v | None \<Rightarrow> of_dict [(''raw'', PStr enc)])
                   | _ \<Rightarrow> of_dict [(''raw'', PStr enc)]))
      in [(''event_id'', PStr (er_event_id r)),
          (''sequence'', (case er_sequence r of None \<Rightarrow> PNone | Some i \<Rightarrow> PInt i)),
          (''actor_username'', PStr (er_actor_username r)),
          (''kind'', PStr (er_kind r)),
          (''visibility'', PStr (er_visibility r)),
          (''payload'', payload),
          (''created_at'', PStr (er_created_at r))])"

definition reconstruct_session_state :: "world \<Rightarrow> bytes \<Rightarrow> string \<Rightarrow> db \<Rightarrow> session_state option result" where
  "reconstruct_session_state W vault_key session_id d =
     (case find_session d session_id of
        None \<Rightarrow> Inr None
      | Some row \<Rightarrow>
          (let rows = session_events_of d session_id;
               max_turns = (if sr_turn_limit row = 0 then 12 else sr_turn_limit row)
           in if max_turns < 1 then Inl ValidationError
              else Inr (Some
                \<lparr>ss_session_id = sr_session_id row,
                 ss_initiator_username = sr_initiator_username row,
                 ss_receiver_username = sr_receiver_username row,
                 ss_status = sr_status row,
                 ss_current_turn = reconstruct_turns rows,
                 ss_max_turns = max_turns,
                 ss_actor_sequences = reconstruct_sequences rows,
                 ss_participants = reconstruct_participants row,
                 ss_last_resumable_status = None,
                 ss_events = map (reconstruct_event W vault_key) (sort_key er_event_order rows)\<rparr>)))"

section \<open>Frame lemmas\<close>

lemma tick_simps [simp]:
  "db_identity (tick d) = db_identity d" "db_contacts (tick d) = db_contacts d"
  "db_sessions (tick d) = db_sessions d" "db_events (tick d) = db_events d"
  "db_audit (tick d) = db_audit d" "db_approvals (tick d) = db_approvals d"
  "db_artifacts (tick d) = db_artifacts d" "db_agents (tick d) = db_agents d"
  "db_peer_cards (tick d) = db_peer_cards d" "db_queue (tick d) = db_queue d"
  "db_capabilities (tick d) = db_capabilities d" "db_wire (tick d) = db_wire d"
  by (simp_all add: tick_def)

text \<open>Two database states that differ in the audit trail and the clock only.\<close>

definition same_tables :: "db \<Rightarrow> db \<Rightarrow> bool" where
  "same_tables d d' =
     (db_identity d' = db_identity d \<and> db_contacts d' = db_contacts d
      \<and> db_sessions d' = db_sessions d \<and> db_events d' = db_events d
      \<and> db_approvals d' = db_approvals d \<and> db_artifacts d' = db_artifacts d
      \<and> db_agents d' = db_agents d \<and> db_peer_cards d' = db_peer_cards d
      \<and> db_queue d' = db_queue d \<and> db_capabilities d' = db_capabilities d
      \<and> db_wire d' = db_wire d \<and> (\<exists>xs. db_audit d' = db_audit d @ xs))"

lemma same_tables_refl [simp]: "same_tables d d"
  by (simp add: same_tables_def)

lemma same_tables_trans: "same_tables a b \<Longrightarrow> same_tables b c \<Longrightarrow> same_tables a c"
  by (auto simp: same_tables_def)

lemma same_tables_tick [simp]: "same_tables d (tick d)"
  by (simp add: same_tables_def)

lemma same_tables_find [simp]:
  "same_tables d d' \<Longrightarrow> find_session d' sid = find_session d sid"
  "same_tables d d' \<Longrightarrow> session_events_of d' sid = session_events_of d sid"
  "same_tables d d' \<Longrightarrow> find_sequence d' sid un sq = find_sequence d sid un sq"
  "same_tables d d' \<Longrightarrow> next_event_order d' sid = next_event_order d sid"
  by (simp_all add: same_tables_def find_session_def session_events_of_def find_sequence_def
      next_event_order_def)

lemma write_audit_same: "write_audit_event W k c sid un p cor d = (d', r) \<Longrightarrow> same_tables d d'"
  by (auto simp: write_audit_event_def Let_def same_tables_def split: sum.splits)

lemma write_audit_events [simp]:
  "db_events (fst (write_audit_event W k c sid un p cor d)) = db_events d"
  "db_sessions (fst (write_audit_event W k c sid un p cor d)) = db_sessions d"
  using write_audit_same [of W k c sid un p cor d "fst (write_audit_event W k c sid un p cor d)"
      "snd (write_audit_event W k c sid un p cor d)"]
  by (auto simp: same_tables_def)

lemma check_sequence_same:
  "check_sequence_conflict W k sid un sq p d = (d', r) \<Longrightarrow> same_tables d d'"
  by (auto simp: check_sequence_conflict_def Let_def split: if_splits option.splits sum.splits prod.splits
      dest: write_audit_same)

lemma check_sequence_new:
  assumes "check_sequence_conflict W k sid un sq p d = (d', Inr SeqNew)"
  shows "d' = d \<and> find_sequence d sid un sq = None \<and> sqlite_int sq"
  using assms
  by (auto simp: check_sequence_conflict_def Let_def split: if_splits option.splits sum.splits prod.splits)

section \<open>The invariant of the event table\<close>

definition sequence_keys :: "event_row list \<Rightarrow> (string \<times> string \<times> int option) list" where
  "sequence_keys rows =
     map (\<lambda>r. (er_session_id r, er_actor_username r, er_sequence r))
       (filter (\<lambda>r. er_sequence r \<noteq> None) rows)"

definition ledger_inv :: "db \<Rightarrow> bool" where
  "ledger_inv d =
     ((\<forall>sid. map er_event_order (session_events_of d sid)
             = map int [0..<length (session_events_of d sid)])
      \<and> distinct (sequence_keys (db_events d))
      \<and> (\<forall>r \<in> set (db_events d). find_session d (er_session_id r) \<noteq> None)
      \<and> (\<forall>r \<in> set (db_events d). \<forall>i. er_sequence r = Some i \<longrightarrow> 1 \<le> i))"

lemma sql_max_from_zero:
  "sql_max (map (Some \<circ> int) [0..<n]) = (if n = 0 then None else Some (int n - 1))"
  by (induction n) (auto simp: sql_max_append)

lemma next_event_order_dense:
  assumes "map er_event_order (session_events_of d sid) = map int [0..<length (session_events_of d sid)]"
  shows "next_event_order d sid = int (length (session_events_of d sid))"
proof -
  have "map (Some \<circ> er_event_order) (session_events_of d sid)
      = map (Some \<circ> int) [0..<length (session_events_of d sid)]"
    using assms by (simp flip: map_map)
  then show ?thesis
    by (simp only: next_event_order_def sql_max_from_zero) (auto simp: coalesce_def)
qed

lemma find_sequence_None:
  "find_sequence d sid un sq = None \<longleftrightarrow> (sid, un, Some sq) \<notin> set (sequence_keys (db_events d))"
  by (auto simp: find_sequence_def sequence_keys_def find_None_iff)

lemma ledger_inv_same: "same_tables d d' \<Longrightarrow> ledger_inv d' = ledger_inv d"
  by (simp add: ledger_inv_def) (simp add: same_tables_def)

lemma new_event_row_simps [simp]:
  "er_event_id (new_event_row W k sid un ag kind vis p sg sq d) = w_uuid W (db_tick d)"
  "er_session_id (new_event_row W k sid un ag kind vis p sg sq d) = sid"
  "er_event_order (new_event_row W k sid un ag kind vis p sg sq d) = next_event_order d sid"
  "er_actor_username (new_event_row W k sid un ag kind vis p sg sq d) = un"
  "er_sequence (new_event_row W k sid un ag kind vis p sg sq d) = sq"
  "er_kind (new_event_row W k sid un ag kind vis p sg sq d) = kind"
  "er_payload_json (new_event_row W k sid un ag kind vis p sg sq d) = encrypt_field W k (db_tick d) p"
  by (simp_all add: new_event_row_def)

lemma write_audit_ok:
  assumes "payload_text W p = Inr s"
  shows "\<exists>d' i. write_audit_event W k c sid un p cor d = (d', Inr i) \<and> same_tables d d'"
  using assms by (auto simp: write_audit_event_def Let_def same_tables_def)

text \<open>A successful insertion appends exactly one row, with the next order number.\<close>

lemma insert_session_event_cases:
  assumes "insert_session_event W k sid un ag kind vis p sg sq d = (d', r)"
  shows "(\<exists>e. r = Inl e \<and> same_tables d d') \<or>
    (\<exists>s pd. payload_text W p = Inr s \<and> find_session d sid \<noteq> None
       \<and> session_event_ok (next_event_order d sid) sq kind vis pd
            (w_isoformat W (w_clock W (db_tick d)))
       \<and> same_tables (d\<lparr>db_events := db_events d @ [new_event_row W k sid un ag kind vis s sg sq d]\<rparr>) d'
       \<and> r = Inr (Appended (w_uuid W (db_tick d)) (next_event_order d sid)))"
proof (cases "payload_text W p")
  case (Inl e)
  with assms show ?thesis by (auto simp: insert_session_event_def)
next
  case (Inr s)
  show ?thesis
  proof (cases "payload_dict_view W p")
    case None
    with assms Inr show ?thesis by (auto simp: insert_session_event_def)
  next
    case (Some pd)
    let ?d = "d\<lparr>db_events := db_events d @ [new_event_row W k sid un ag kind vis s sg sq d]\<rparr>"
    obtain d1 i where w: "write_audit_event W k (''session_event_'' @ kind) (Some sid) (Some un) p (Some sid) (tick ?d)
        = (d1, Inr i)" and same: "same_tables (tick ?d) d1"
      using write_audit_ok [OF Inr] by blast
    have "same_tables ?d d1" using same same_tables_trans same_tables_tick by blast
    with assms Inr Some w show ?thesis
      by (auto simp: insert_session_event_def Let_def split: if_splits)
  qed
qed

lemma session_events_of_snoc:
  "session_events_of (d\<lparr>db_events := db_events d @ [row]\<rparr>) sid =
     session_events_of d sid @ (if er_session_id row = sid then [row] else [])"
  by (simp add: session_events_of_def)

lemma ledger_inv_snoc:
  assumes "ledger_inv d" and "er_event_order row = next_event_order d (er_session_id row)"
    and "find_session d (er_session_id row) \<noteq> None"
    and "\<And>i. er_sequence row = Some i \<Longrightarrow> 1 \<le> i \<and> find_sequence d (er_session_id row) (er_actor_username row) i = None"
  shows "ledger_inv (d\<lparr>db_events := db_events d @ [row]\<rparr>)"
proof -
  have dense: "map er_event_order (session_events_of d sid)
      = map int [0..<length (session_events_of d sid)]" for sid
    using assms(1) by (simp add: ledger_inv_def)
  have "distinct (sequence_keys (db_events d @ [row]))"
    using assms(1,4)
    by (cases "er_sequence row") (auto simp: ledger_inv_def sequence_keys_def find_sequence_def find_None_iff)
  then show ?thesis
    using assms dense next_event_order_dense [OF dense, of "er_session_id row"]
    by (auto simp: ledger_inv_def session_events_of_snoc find_session_def)
qed

section \<open>The contract of a ledger\<close>

text \<open>
  What the rest of the system relies on when it appends events: whatever is appended, earlier rows
  stay where they are, at most one row is added, the numbering invariant survives, and a row
  reported as appended is the last one, under the number reported.
\<close>

locale event_ledger =
  fixes append :: "'a \<Rightarrow> db \<Rightarrow> db \<times> append_result result"
  assumes append_extends: "append a d = (d', r) \<Longrightarrow> \<exists>es. db_events d' = db_events d @ es \<and> length es \<le> 1"
    and append_inv: "append a d = (d', r) \<Longrightarrow> ledger_inv d \<Longrightarrow> ledger_inv d'"
    and append_sessions: "append a d = (d', r) \<Longrightarrow> db_sessions d' = db_sessions d"
begin

lemma appends_inv: "ledger_inv d \<Longrightarrow> ledger_inv (fold (\<lambda>a d. fst (append a d)) as d)"
proof (induction as arbitrary: d)
  case (Cons a as)
  have "ledger_inv (fst (append a d))"
    using append_inv [of a d "fst (append a d)" "snd (append a d)"] Cons.prems by simp
  from Cons.IH [OF this] show ?case by simp
qed simp

lemma appends_extend: "\<exists>es. db_events (fold (\<lambda>a d. fst (append a d)) as d) = db_events d @ es"
proof (induction as arbitrary: d)
  case (Cons a as)
  obtain es where "db_events (fst (append a d)) = db_events d @ es"
    using append_extends [of a d "fst (append a d)" "snd (append a d)"] by auto
  with Cons.IH [of "fst (append a d)"] show ?case by auto
qed simp

end

lemma insert_session_event_extends:
  assumes "insert_session_event W k sid un ag kind vis p sg sq d = (d', r)"
  shows "(\<exists>es. db_events d' = db_events d @ es \<and> length es \<le> 1) \<and> db_sessions d' = db_sessions d"
  using insert_session_event_cases [OF assms] by (auto simp: same_tables_def)

lemma insert_session_event_inv:
  assumes "insert_session_event W k sid un ag kind vis p sg sq d = (d', r)" and "ledger_inv d"
    and "\<And>i. sq = Some i \<Longrightarrow> find_sequence d sid un i = None"
  shows "ledger_inv d'"
  using insert_session_event_cases [OF assms(1)]
proof
  assume "\<exists>e. r = Inl e \<and> same_tables d d'"
  with assms(2) show ?thesis by (auto simp: ledger_inv_same)
next
  assume "\<exists>s pd. payload_text W p = Inr s \<and> find_session d sid \<noteq> None
       \<and> session_event_ok (next_event_order d sid) sq kind vis pd
            (w_isoformat W (w_clock W (db_tick d)))
       \<and> same_tables (d\<lparr>db_events := db_events d @ [new_event_row W k sid un ag kind vis s sg sq d]\<rparr>) d'
       \<and> r = Inr (Appended (w_uuid W (db_tick d)) (next_event_order d sid))"
  then obtain s pd where f: "find_session d sid \<noteq> None"
    and ok: "session_event_ok (next_event_order d sid) sq kind vis pd (w_isoformat W (w_clock W (db_tick d)))"
    and same: "same_tables (d\<lparr>db_events := db_events d @ [new_event_row W k sid un ag kind vis s sg sq d]\<rparr>) d'"
    by blast
  have "ledger_inv (d\<lparr>db_events := db_events d @ [new_event_row W k sid un ag kind vis s sg sq d]\<rparr>)"
    using assms(2,3) f ok
    by (intro ledger_inv_snoc) (auto simp: session_event_ok_def)
  with same show ?thesis by (simp add: ledger_inv_same)
qed

lemma append_session_event_cases:
  assumes "append_session_event W k sid un ag kind vis p sg sq d = (d', r)"
  shows "(same_tables d d' \<and> (\<forall>i j. r \<noteq> Inr (Appended i j)))
    \<or> (insert_session_event W k sid un ag kind vis p sg sq d = (d', r)
        \<and> (\<forall>i. sq = Some i \<longrightarrow> find_sequence d sid un i = None))"
  using assms
  by (auto simp: append_session_event_def
      split: option.splits prod.splits sum.splits sequence_status.splits
      dest: check_sequence_same check_sequence_new)

interpretation ledger: event_ledger
  "\<lambda>(W, k, sid, un, ag, kind, vis, p, sg, sq) d. append_session_event W k sid un ag kind vis p sg sq d"
  by unfold_locales
    (auto dest!: append_session_event_cases
      dest: insert_session_event_inv insert_session_event_extends
      simp: ledger_inv_same, auto simp: same_tables_def)

section \<open>Reconstruction refines the reducer\<close>

lemma map_of_group:
  "map_of (concat (map (\<lambda>un. case f un of None \<Rightarrow> [] | Some m \<Rightarrow> [(un, m)]) us)) u =
     (if u \<in> set us then f u else None)"
  by (induction us) (auto split: option.splits)

lemma actor_max_absent: "u \<notin> er_actor_username ` set rows \<Longrightarrow> actor_max rows u = None"
  by (auto simp: actor_max_def sql_max_None_iff)

lemma reconstruct_sequences_lookup:
  "map_of (reconstruct_sequences rows) u = (if u = [] then None else actor_max rows u)"
  unfolding reconstruct_sequences_def map_of_group using actor_max_absent [of u rows] by auto

lemma actor_max_snoc:
  "actor_max (rows @ [r]) u =
     (if er_actor_username r \<noteq> u then actor_max rows u
      else case er_sequence r of
             None \<Rightarrow> actor_max rows u
           | Some i \<Rightarrow> (case actor_max rows u of None \<Rightarrow> Some i | Some m \<Rightarrow> Some (max m i)))"
  by (auto simp: actor_max_def sql_max_append split: option.splits)

lemma iget_reconstruct:
  "u \<noteq> [] \<Longrightarrow> iget (reconstruct_sequences rows) u = coalesce (actor_max rows u) 0"
  by (simp add: iget_def coalesce_def reconstruct_sequences_lookup)

text \<open>
  What the state rebuilt from the ledger has in common with the state the reducer keeps in memory:
  everything but the participants' roles, the resumable checkpoint and the form of the log entries.
\<close>

definition same_core :: "session_state \<Rightarrow> session_state \<Rightarrow> bool" where
  "same_core s t =
     (same_session s t \<and> ss_status t = ss_status s \<and> ss_current_turn t = ss_current_turn s
      \<and> (\<forall>u. u \<noteq> [] \<longrightarrow> iget (ss_actor_sequences t) u = iget (ss_actor_sequences s) u)
      \<and> length (ss_events t) = length (ss_events s))"

lemma find_map_session:
  assumes "\<And>r. sr_session_id (f r) = sr_session_id r"
  shows "find_session (update_session sid f d) sid' =
    (if sid' = sid then map_option f (find_session d sid) else find_session d sid')"
proof -
  have "find (\<lambda>r. sr_session_id r = sid') (map (\<lambda>r. if sr_session_id r = sid then f r else r) rs) =
      (if sid' = sid then map_option f (find (\<lambda>r. sr_session_id r = sid) rs)
       else find (\<lambda>r. sr_session_id r = sid') rs)" for rs
    by (induction rs) (auto simp: assms)
  then show ?thesis by (simp add: find_session_def update_session_def)
qed

lemma session_events_update [simp]:
  "session_events_of (update_session sid f d) sid' = session_events_of d sid'"
  by (simp add: session_events_of_def update_session_def)

lemma find_session_id: "find_session d sid = Some row \<Longrightarrow> sr_session_id row = sid"
  by (auto simp: find_session_def find_Some_iff)

lemma reconstruct_Some:
  assumes "reconstruct_session_state W k sid d = Inr (Some s)"
  obtains row where "find_session d sid = Some row"
    and "ss_session_id s = sid" and "ss_initiator_username s = sr_initiator_username row"
    and "ss_receiver_username s = sr_receiver_username row" and "ss_status s = sr_status row"
    and "ss_current_turn s = reconstruct_turns (session_events_of d sid)"
    and "ss_max_turns s = (if sr_turn_limit row = 0 then 12 else sr_turn_limit row)"
    and "1 \<le> ss_max_turns s"
    and "ss_actor_sequences s = reconstruct_sequences (session_events_of d sid)"
    and "ss_participants s = reconstruct_participants row"
    and "length (ss_events s) = length (session_events_of d sid)"
proof -
  from assms obtain row where row: "find_session d sid = Some row"
    by (auto simp: reconstruct_session_state_def split: option.splits)
  from assms row show thesis
    by (intro that [OF row])
      (auto simp: reconstruct_session_state_def Let_def find_session_id [OF row] split: if_splits)
qed

lemma append_appendedD:
  assumes "append_session_event W k sid un ag kind vis p sg sq d = (d', Inr (Appended i n))"
  shows "\<exists>s. payload_text W p = Inr s \<and> find_session d sid \<noteq> None
    \<and> same_tables (d\<lparr>db_events := db_events d @ [new_event_row W k sid un ag kind vis s sg sq d]\<rparr>) d'
    \<and> i = w_uuid W (db_tick d) \<and> n = next_event_order d sid"
  using append_session_event_cases [OF assms] insert_session_event_cases by blast

lemma session_events_after_append:
  assumes "append_session_event W k sid un ag kind vis p sg sq d = (d', Inr (Appended i n))"
  shows "\<exists>s. session_events_of d' sid
      = session_events_of d sid @ [new_event_row W k sid un ag kind vis s sg sq d]
    \<and> find_session d' sid' = find_session d sid'"
proof -
  obtain s where same: "same_tables (d\<lparr>db_events := db_events d @ [new_event_row W k sid un ag kind vis s sg sq d]\<rparr>) d'"
    using append_appendedD [OF assms] by blast
  have "find_session (d\<lparr>db_events := es\<rparr>) sid' = find_session d sid'" for es
    by (simp add: find_session_def)
  with same_tables_find(1,2) [OF same] show ?thesis by (auto simp: session_events_of_snoc)
qed

lemma turns_after_append:
  "reconstruct_turns (rows @ [new_event_row W k sid un ag (message_kind_value kd) vis s sg sq d]) =
     reconstruct_turns rows + (if kd \<in> set TURN_CONSUMING_KINDS then 1 else 0)"
  by (auto simp: reconstruct_turns_def)

lemma sequences_after_append:
  assumes "sequence_gate s e = None" and "ss_actor_sequences s = reconstruct_sequences rows"
    and "er_actor_username r = env_actor_username e" and "er_sequence r = Some (env_sequence e)"
    and "u \<noteq> []"
  shows "iget (reconstruct_sequences (rows @ [r])) u
    = iget (AList.update (env_actor_username e) (env_sequence e) (ss_actor_sequences s)) u"
  using assms
  by (auto simp: iget_reconstruct actor_max_snoc sequence_gate_def Let_def coalesce_def
      split: option.splits if_splits)

lemma reconstruct_exists:
  assumes "find_session d sid = Some row" and "0 \<le> sr_turn_limit row"
  shows "\<exists>s. reconstruct_session_state W k sid d = Inr (Some s)"
  using assms by (auto simp: reconstruct_session_state_def Let_def)

section \<open>Redelivery\<close>

text \<open>
  JSON values can be serialised, and serialising a parsed serialisation again gives the same text.
\<close>

definition json_stable :: "world \<Rightarrow> bool" where
  "json_stable W =
     ((\<forall>v s. w_dumps W v = Some s \<longrightarrow> Option.bind (w_loads W s) (w_dumps W) = Some s)
      \<and> (\<forall>v. validate_json_primitives v = Inr () \<longrightarrow> w_dumps W v \<noteq> None))"

lemma payload_hash_stable:
  assumes "json_stable W" and "payload_text W p = Inr s"
  shows "\<exists>h. canonical_payload_hash W p = Inr h
    \<and> canonical_payload_hash W (case s of None \<Rightarrow> PNone | Some t \<Rightarrow> PStr t) = Inr h"
proof (cases p)
  case PNone
  with assms(2) show ?thesis by (auto simp: payload_text_def canonical_payload_hash_def)
next
  case (PStr t)
  with assms(2) show ?thesis
    by (auto simp: payload_text_def canonical_payload_hash_def split: option.splits)
qed (use assms in \<open>auto simp: payload_text_def canonical_payload_hash_def json_dumps_def json_stable_def
      split: option.splits sum.splits dest: sym\<close>)

lemma find_sequence_snoc:
  "find_sequence (d\<lparr>db_events := db_events d @ [row]\<rparr>) sid un sq =
     (case find_sequence d sid un sq of
        Some r \<Rightarrow> Some r
      | None \<Rightarrow> if er_session_id row = sid \<and> er_actor_username row = un \<and> er_sequence row = Some sq
                then Some row else None)"
  by (simp add: find_sequence_def find_snoc)

lemma payload_text_json:
  assumes "json_stable W" and "validate_json_primitives (of_dict v) = Inr ()"
  shows "\<exists>s. payload_text W (of_dict v) = Inr s"
proof -
  obtain s where "w_dumps W (of_dict v) = Some s" using assms by (auto simp: json_stable_def)
  then show ?thesis by (simp add: payload_text_def json_dumps_def of_dict_def)
qed

text \<open>The verdict on a sequence number that is already stored.\<close>

lemma check_sequence_stored:
  assumes json: "json_stable W" and "sqlite_int i"
    and row: "find_sequence d sid un i = Some row"
    and dec: "decrypt_field W k (er_payload_json row) = Inr x"
    and h: "canonical_payload_hash W p = Inr h"
    and h': "canonical_payload_hash W (case x of None \<Rightarrow> PNone | Some t \<Rightarrow> PStr t) = Inr h'"
  shows "\<exists>d'. check_sequence_conflict W k sid un i p d =
      (d', Inr (if h = h' then SeqDuplicate (er_event_id row) else SeqConflict (er_event_id row)))
    \<and> same_tables d d'"
proof -
  let ?note = "of_dict [(''sequence'', PInt i), (''existing_event_id'', PStr (er_event_id row))]"
  have "validate_json_primitives ?note = Inr ()" by (simp add: of_dict_def)
  from payload_text_json [OF json this] obtain s where "payload_text W ?note = Inr s" ..
  from write_audit_ok [OF this] obtain d' j where
    w: "write_audit_event W k (if h = h' then ''duplicate_delivery'' else ''security_rejection'')
          (Some sid) (Some un) ?note (Some sid) d = (d', Inr j)" and "same_tables d d'"
    by blast
  then show ?thesis
    using assms by (simp add: check_sequence_conflict_def)
qed

section \<open>Properties\<close>

text \<open>
  C37. The event ledger is append-only and densely numbered: starting from a ledger that satisfies
  the invariant (the events of every session numbered 0, 1, 2, ... in the order written, no actor
  with two events of the same sequence number, every event of an existing session), any series of
  calls of \<open>append_session_event\<close>, with whatever arguments and outcomes, keeps every earlier row in
  place and keeps the invariant.
\<close>

theorem event_ledger_append_only:
  assumes "ledger_inv d"
  shows "ledger_inv (fold (\<lambda>(sid, un, ag, kind, vis, p, sg, sq) d.
             fst (append_session_event W k sid un ag kind vis p sg sq d)) calls d)
    \<and> (\<exists>es. db_events (fold (\<lambda>(sid, un, ag, kind, vis, p, sg, sq) d.
             fst (append_session_event W k sid un ag kind vis p sg sq d)) calls d) = db_events d @ es)"
proof -
  have "fold (\<lambda>(sid, un, ag, kind, vis, p, sg, sq) d.
             fst (append_session_event W k sid un ag kind vis p sg sq d)) calls d =
        fold (\<lambda>a d. fst ((\<lambda>(W, k, sid, un, ag, kind, vis, p, sg, sq) d.
             append_session_event W k sid un ag kind vis p sg sq d) a d))
          (map (\<lambda>(sid, un, ag, kind, vis, p, sg, sq). (W, k, sid, un, ag, kind, vis, p, sg, sq)) calls) d"
    by (induction calls arbitrary: d) auto
  then show ?thesis
    using ledger.appends_inv [OF assms] ledger.appends_extend by simp
qed

text \<open>
  C38. Rebuilding from the ledger agrees with the reducer: let \<open>s\<close> be the state rebuilt from the
  ledger, and let the reducer accept an envelope in \<open>s\<close>. If the envelope is appended to the ledger
  and the new status is written to the session row, then the state rebuilt afterwards agrees with
  the reducer's new state on the session's identity, status, turn counter, turn limit, every actor's
  last sequence number and the number of events.
\<close>

theorem ledger_refines_reducer:
  assumes s: "reconstruct_session_state W k sid d = Inr (Some s)"
    and red: "process_peer_envelope s e = Inr r" "rr_success r"
    and app: "append_session_event W k sid (env_actor_username e) ag
        (message_kind_value (env_kind e)) vis p sg (Some (env_sequence e)) d
      = (d1, Inr (Appended i n))"
  shows "\<exists>s'. reconstruct_session_state W k sid
      (update_session sid (\<lambda>row. row\<lparr>sr_status := ss_status (rr_new_state r), sr_updated_at := t\<rparr>) d1)
        = Inr (Some s')
    \<and> same_core (rr_new_state r) s'"
proof -
  let ?d2 = "update_session sid (\<lambda>row. row\<lparr>sr_status := ss_status (rr_new_state r), sr_updated_at := t\<rparr>) d1"
  obtain row where row: "find_session d sid = Some row"
    and id: "ss_session_id s = sid" and ini: "ss_initiator_username s = sr_initiator_username row"
    and rec: "ss_receiver_username s = sr_receiver_username row" and st: "ss_status s = sr_status row"
    and turn: "ss_current_turn s = reconstruct_turns (session_events_of d sid)"
    and mx: "ss_max_turns s = (if sr_turn_limit row = 0 then 12 else sr_turn_limit row)" "1 \<le> ss_max_turns s"
    and sq: "ss_actor_sequences s = reconstruct_sequences (session_events_of d sid)"
    and ln: "length (ss_events s) = length (session_events_of d sid)"
    using reconstruct_Some [OF s] by blast
  from red obtain ps where gate: "sequence_gate s e = None"
    and r: "r = reducer_success (peer_updated_state s e ps)"
    using peer_success_iff [of s e r] by blast
  obtain x where ev: "session_events_of d1 sid = session_events_of d sid
      @ [new_event_row W k sid (env_actor_username e) ag (message_kind_value (env_kind e)) vis x sg
           (Some (env_sequence e)) d]"
    and f1: "find_session d1 sid = find_session d sid"
    using session_events_after_append [OF app] by blast
  have f2: "find_session ?d2 sid = Some (row\<lparr>sr_status := ss_status (rr_new_state r), sr_updated_at := t\<rparr>)"
    using row f1 by (simp add: find_map_session)
  obtain s' where s': "reconstruct_session_state W k sid ?d2 = Inr (Some s')"
    using reconstruct_exists [OF f2] mx by (auto split: if_splits)
  moreover have "same_core (rr_new_state r) s'"
  proof (rule reconstruct_Some [OF s'])
    fix row'
    assume "find_session ?d2 sid = Some row'"
    then have row': "row' = row\<lparr>sr_status := ss_status (rr_new_state r), sr_updated_at := t\<rparr>"
      using f2 by simp
    assume a: "ss_session_id s' = sid" "ss_initiator_username s' = sr_initiator_username row'"
      "ss_receiver_username s' = sr_receiver_username row'" "ss_status s' = sr_status row'"
      "ss_current_turn s' = reconstruct_turns (session_events_of ?d2 sid)"
      "ss_max_turns s' = (if sr_turn_limit row' = 0 then 12 else sr_turn_limit row')"
      "ss_actor_sequences s' = reconstruct_sequences (session_events_of ?d2 sid)"
      "length (ss_events s') = length (session_events_of ?d2 sid)"
    show ?thesis
      using id ini rec mx turn ln
      by (simp add: same_core_def same_session_def a row' r ev turns_after_append next_turn_def
          sequences_after_append [OF gate sq])
  qed
  ultimately show ?thesis by blast
qed

text \<open>
  Redelivery is decided by content: once an envelope is appended under an actor's sequence
  number, a later append under the same number is answered as a duplicate that names the stored
  event when the content hash is the same, and as a sequence-reuse rejection when it differs; in
  both cases no table but the audit trail changes. The cryptographic hypothesis is that AES-GCM
  decrypts what it encrypted; the JSON hypothesis is that serialisation is stable.
\<close>

theorem redelivery_decided_by_content:
  assumes "aes_correct W k" and "json_stable W"
    and app: "append_session_event W k sid un ag kind vis p sg (Some i) d = (d1, Inr (Appended j n))"
    and p: "canonical_payload_hash W p = Inr h" and p': "canonical_payload_hash W p' = Inr h'"
  shows "\<exists>d2. append_session_event W k sid un ag' kind' vis' p' sg' (Some i) d1 =
      (d2, Inr (if h' = h then DuplicateEvent j else RejectedEvent ''SEQUENCE_REUSE_MISMATCH''))
    \<and> same_tables d1 d2"
proof -
  obtain x where x: "payload_text W p = Inr x"
    and same: "same_tables (d\<lparr>db_events := db_events d @ [new_event_row W k sid un ag kind vis x sg (Some i) d]\<rparr>) d1"
    and j: "j = w_uuid W (db_tick d)"
    using append_appendedD [OF app] by blast
  have fresh: "find_sequence d sid un i = None" and "sqlite_int i"
    using app by (auto simp: append_session_event_def
        split: prod.splits sum.splits sequence_status.splits dest: check_sequence_new)
  let ?row = "new_event_row W k sid un ag kind vis x sg (Some i) d"
  have row: "find_sequence d1 sid un i = Some ?row"
    using same_tables_find(3) [OF same] fresh by (simp add: find_sequence_snoc)
  have dec: "decrypt_field W k (er_payload_json ?row) = Inr x"
    using decrypt_encrypt_field [OF assms(1)] by simp
  have hx: "canonical_payload_hash W (case x of None \<Rightarrow> PNone | Some t \<Rightarrow> PStr t) = Inr h"
    using payload_hash_stable [OF assms(2) x] p by auto
  obtain d2 where c: "check_sequence_conflict W k sid un i p' d1 =
      (d2, Inr (if h' = h then SeqDuplicate (er_event_id ?row) else SeqConflict (er_event_id ?row)))"
    and "same_tables d1 d2"
    using check_sequence_stored [OF assms(2) \<open>sqlite_int i\<close> row dec p' hx] by blast
  then show ?thesis by (auto simp: append_session_event_def j)
qed

section \<open>A concrete world\<close>

text \<open>Used to show that the hypotheses of the properties can hold together.\<close>

definition demo_world :: world where
  "demo_world =
     \<lparr>w_crypto = demo_crypto,
      w_uuid = (\<lambda>n. CHR ''u'' # replicate n (CHR ''i'')),
      w_clock = int,
      w_urandom = (\<lambda>n. replicate 12 (of_nat n)),
      w_isoformat = (\<lambda>t. ''2026-01-02T03:04:05+00:00''),
      w_fromisoformat = (\<lambda>s. Some 0),
      w_aware = (\<lambda>s. Some 0),
      w_aes_encrypt = (\<lambda>key nonce pt. key @ pt),
      w_aes_decrypt = (\<lambda>key nonce ct. if take (length key) ct = key then Some (drop (length key) ct) else None),
      w_x25519_public = (\<lambda>sk. sk),
      w_x25519_exchange = (\<lambda>sk pk. map2 (+) sk pk),
      w_hkdf = (\<lambda>info s. s),
      w_chacha_encrypt = (\<lambda>key nonce pt. key @ pt),
      w_chacha_decrypt = (\<lambda>key nonce ct. if take (length key) ct = key then Some (drop (length key) ct) else None),
      w_dumps = (\<lambda>v. Some (case v of PDict [] \<Rightarrow> ''{}'' | _ \<Rightarrow> ''0'')),
      w_dumps_plain = (\<lambda>v. Some ''{}''),
      w_dumps_compact = (\<lambda>v. Some ''[]''),
      w_dumps_tight = (\<lambda>v. Some ''{}''), w_dumps_pretty = (\<lambda>v. Some ''{}''),
      w_loads = (\<lambda>s. if s = ''{}'' then Some (PDict []) else Some (PInt 0)),
      w_model_json = (\<lambda>m. ''{}''),
      w_numeric = (\<lambda>s. None), w_str = (\<lambda>v. []),
      w_keychain_ed25519 = (\<lambda>u. None),
      w_keychain_x25519 = (\<lambda>u. None),
      w_keyring = (\<lambda>service user. None),
      w_is_dir = (\<lambda>path. False),
      w_http = (\<lambda>n m u b. RequestError [])\<rparr>"

lemma demo_world_aes: "aes_correct demo_world k"
  by (simp add: aes_correct_def demo_world_def)

lemma demo_world_json: "json_stable demo_world"
  by (auto simp: json_stable_def demo_world_def split: pyval.splits list.splits)

definition demo_row :: session_row where
  "demo_row = \<lparr>sr_session_id = ''s1'', sr_type = ''ask'', sr_initiator_username = ''alice'',
     sr_receiver_username = ''bob'', sr_status = ''draft'', sr_objective = None,
     sr_sender_agent_id = Some ''a1'', sr_receiver_agent_id = None,
     sr_participant_snapshot_json = None, sr_turn_limit = 12,
     sr_runtime_budget_seconds = PNone, sr_artifact_bytes_budget = PNone,
     sr_cumulative_artifact_bytes = 0, sr_cost_budget_estimate = PNone, sr_cumulative_cost_estimate = 0,
     sr_created_at = ''2026-01-02T03:04:05Z'', sr_updated_at = ''2026-01-02T03:04:05Z'',
     sr_expires_at = None\<rparr>"

definition demo_db :: db where
  "demo_db = (empty_db ''alice'')\<lparr>db_sessions := [demo_row]\<rparr>"

lemma demo_db_inv: "ledger_inv demo_db"
  by (simp add: ledger_inv_def demo_db_def empty_db_def session_events_of_def sequence_keys_def)

definition demo_append :: "pyval \<Rightarrow> db \<Rightarrow> db \<times> append_result result" where
  "demo_append p = append_session_event demo_world [9] ''s1'' ''alice'' (Some ''a1'') ''task_request''
     ''peer_visible'' p None (Some 1)"

lemma demo_append_result: "snd (demo_append (PDict []) demo_db) = Inr (Appended ''u'' 0)"
  by code_simp

theorem event_ledger_append_only_witness:
  "ledger_inv (fold (\<lambda>(sid, un, ag, kind, vis, p, sg, sq) d.
       fst (append_session_event demo_world [9] sid un ag kind vis p sg sq d))
     [(''s1'', ''alice'', Some ''a1'', ''task_request'', ''peer_visible'', PDict [], None, Some 1)] demo_db)"
  using event_ledger_append_only [OF demo_db_inv] by blast

theorem ledger_refines_reducer_witness:
  "\<exists>s s' r. reconstruct_session_state demo_world [9] ''s1'' demo_db = Inr (Some s)
     \<and> process_peer_envelope s demo_envelope = Inr r \<and> rr_success r
     \<and> reconstruct_session_state demo_world [9] ''s1''
         (update_session ''s1'' (\<lambda>row. row\<lparr>sr_status := ss_status (rr_new_state r),
             sr_updated_at := ''t''\<rparr>) (fst (demo_append (PDict []) demo_db))) = Inr (Some s')
     \<and> same_core (rr_new_state r) s'"
proof -
  let ?s = "\<lparr>ss_session_id = ''s1'', ss_initiator_username = ''alice'', ss_receiver_username = ''bob'',
     ss_status = ''draft'', ss_current_turn = 0, ss_max_turns = 12, ss_actor_sequences = [],
     ss_participants = [(''alice'', \<lparr>pi_agent_id = ''a1'', pi_role = ''owner''\<rparr>),
       (''bob'', \<lparr>pi_agent_id = ''bob'', pi_role = ''owner''\<rparr>)],
     ss_last_resumable_status = None, ss_events = []\<rparr>"
  let ?r = "reducer_success (peer_updated_state ?s demo_envelope (ss_participants ?s))"
  have s: "reconstruct_session_state demo_world [9] ''s1'' demo_db = Inr (Some ?s)" by code_simp
  have r: "process_peer_envelope ?s demo_envelope = Inr ?r" by code_simp
  have "append_session_event demo_world [9] ''s1'' (env_actor_username demo_envelope) (Some ''a1'')
      (message_kind_value (env_kind demo_envelope)) ''peer_visible'' (PDict []) None
      (Some (env_sequence demo_envelope)) demo_db = (fst (demo_append (PDict []) demo_db), Inr (Appended ''u'' 0))"
    using demo_append_result by (simp add: demo_append_def demo_envelope_def prod_eq_iff)
  from ledger_refines_reducer [OF s r _ this, of "''t''"] s r show ?thesis by auto
qed

theorem redelivery_decided_by_content_witness:
  "\<exists>d1 d2. demo_append (PDict []) demo_db = (d1, Inr (Appended ''u'' 0))
     \<and> demo_append (PDict []) d1 = (d2, Inr (DuplicateEvent ''u''))"
proof -
  obtain d1 where a: "append_session_event demo_world [9] ''s1'' ''alice'' (Some ''a1'') ''task_request''
      ''peer_visible'' (PDict []) None (Some 1) demo_db = (d1, Inr (Appended ''u'' 0))"
    using demo_append_result unfolding demo_append_def by (metis prod.collapse)
  have "\<exists>h. canonical_payload_hash demo_world (PDict []) = Inr h"
    by (simp add: canonical_payload_hash_def json_dumps_def demo_world_def)
  then obtain h where h: "canonical_payload_hash demo_world (PDict []) = Inr h" ..
  obtain d2 where "append_session_event demo_world [9] ''s1'' ''alice'' (Some ''a1'') ''task_request''
      ''peer_visible'' (PDict []) None (Some 1) d1 = (d2, Inr (DuplicateEvent ''u''))"
    using redelivery_decided_by_content [OF demo_world_aes demo_world_json a h h,
        of "Some ''a1''" "''task_request''" "''peer_visible''" None]
    unfolding if_P [OF refl] by blast
  with a show ?thesis unfolding demo_append_def by blast
qed

text \<open>
  Vault round trip: a field or a byte string encrypted under a vault key is decrypted to itself
  under the same key, with \<open>None\<close> kept as \<open>None\<close>, for every text and every byte string; the
  hypothesis is the correctness of AES-GCM.
\<close>

theorem vault_roundtrip:
  assumes "aes_correct W key"
  shows "decrypt_field W key (encrypt_field W key n p) = Inr p
    \<and> decrypt_bytes W key (encrypt_bytes W key n bs) = Inr bs"
  using decrypt_encrypt_field [OF assms] decrypt_encrypt_bytes [OF assms] by blast

theorem vault_roundtrip_witness:
  "decrypt_field demo_world [9] (encrypt_field demo_world [9] 0 (Some ''goal'')) = Inr (Some ''goal'')
   \<and> decrypt_bytes demo_world [9] (encrypt_bytes demo_world [9] 0 (Some [1])) = Inr (Some [1])"
  using vault_roundtrip [OF demo_world_aes] by blast

end
