(* ===== verification/Kin_Transitions.thy ===== *)
theory Kin_Transitions
  imports Kin_Ledger
begin

text \<open>
  Persisted state transitions of \<open>kin-node/kin/transport/v11.py\<close>: a node command or an owner
  action is run by the reducer on the state rebuilt from the database; on success the new status is
  written to the session row and audited, otherwise only a rejection is audited. The locale
  \<open>status_transition\<close> is the contract the two share.
\<close>

section \<open>Definitions\<close>

text \<open>The common tail: persist the outcome of the reducer and log it.\<close>

definition persist_transition ::
  "world \<Rightarrow> bytes \<Rightarrow> string \<Rightarrow> int \<Rightarrow> session_state \<Rightarrow> reducer_result \<Rightarrow> string \<Rightarrow> string \<Rightarrow> db
   \<Rightarrow> db \<times> session_state option result" where
  "persist_transition W vault_key session_id now state res tag cmd d =
     (if \<not> rr_success res
      then (case write_audit_event W vault_key ''session_status_rejected'' (Some session_id) None
                   PNone None d of
              (d', Inl e) \<Rightarrow> (d', Inl e)
            | (d', Inr _) \<Rightarrow> (d', Inr None))
      else (let new_state = rr_new_state res;
                d1 = update_session session_id
                       (\<lambda>r. r\<lparr>sr_status := ss_status new_state, sr_updated_at := iso_now W now\<rparr>) d
            in case write_audit_event W vault_key ''session_status_updated'' (Some session_id) None
                      (of_dict [(''previous_status'', PStr (ss_status state)),
                                (''new_status'', PStr (ss_status new_state)), (tag, PStr cmd)])
                      (Some session_id) d1 of
                 (d', Inl e) \<Rightarrow> (d', Inl e)
               | (d', Inr _) \<Rightarrow> (d', Inr (Some new_state))))"

definition apply_node_command_transition ::
  "world \<Rightarrow> bytes \<Rightarrow> string \<Rightarrow> string \<Rightarrow> int \<Rightarrow> db \<Rightarrow> db \<times> session_state option result" where
  "apply_node_command_transition W vault_key session_id command_name now d =
     (case reconstruct_session_state W vault_key session_id d of
        Inl e \<Rightarrow> (d, Inl e)
      | Inr None \<Rightarrow> (d, Inr None)
      | Inr (Some state) \<Rightarrow>
          persist_transition W vault_key session_id now state
            (process_node_command state command_name) ''command'' command_name d)"

definition apply_owner_command_transition ::
  "world \<Rightarrow> bytes \<Rightarrow> string \<Rightarrow> string \<Rightarrow> string \<Rightarrow> pydict option \<Rightarrow> int \<Rightarrow> db
   \<Rightarrow> db \<times> session_state option result" where
  "apply_owner_command_transition W vault_key session_id owner_username action payload now d =
     (case reconstruct_session_state W vault_key session_id d of
        Inl e \<Rightarrow> (d, Inl e)
      | Inr None \<Rightarrow> (d, Inr None)
      | Inr (Some state) \<Rightarrow>
          persist_transition W vault_key session_id now state
            (process_owner_command state owner_username action payload) ''action'' action d)"

section \<open>The contract of a persisted transition\<close>

definition row_status :: "db \<Rightarrow> string \<Rightarrow> string option" where
  "row_status d sid = map_option sr_status (find_session d sid)"

definition erase_status :: "session_row \<Rightarrow> session_row" where
  "erase_status r = r\<lparr>sr_status := [], sr_updated_at := []\<rparr>"

text \<open>Everything but the sessions' status and time stamp, the audit trail and the clock.\<close>

definition status_only :: "db \<Rightarrow> db \<Rightarrow> bool" where
  "status_only d d' =
     (db_identity d' = db_identity d \<and> db_contacts d' = db_contacts d \<and> db_events d' = db_events d
      \<and> db_approvals d' = db_approvals d \<and> db_artifacts d' = db_artifacts d
      \<and> db_agents d' = db_agents d \<and> db_peer_cards d' = db_peer_cards d \<and> db_queue d' = db_queue d
      \<and> db_capabilities d' = db_capabilities d \<and> db_wire d' = db_wire d
      \<and> (\<exists>xs. db_audit d' = db_audit d @ xs)
      \<and> map erase_status (db_sessions d') = map erase_status (db_sessions d))"

text \<open>Every session keeps its status or moves along an edge of the reducer.\<close>

definition statuses_follow :: "db \<Rightarrow> db \<Rightarrow> bool" where
  "statuses_follow d d' =
     (\<forall>sid. row_status d' sid = row_status d sid
        \<or> (\<exists>s t. row_status d sid = Some s \<and> row_status d' sid = Some t \<and> reducer_edge s t))"

lemma statuses_followD:
  "statuses_follow d d' \<Longrightarrow> row_status d' sid = row_status d sid
     \<or> (\<exists>s t. row_status d sid = Some s \<and> row_status d' sid = Some t \<and> reducer_edge s t)"
  by (simp add: statuses_follow_def)

lemma status_only_refl [simp]: "status_only d d"
  by (simp add: status_only_def)

lemma same_tables_status_only: "same_tables d d' \<Longrightarrow> status_only d d'"
  by (auto simp: same_tables_def status_only_def)

lemma status_only_trans: "status_only a b \<Longrightarrow> status_only b c \<Longrightarrow> status_only a c"
  by (auto simp: status_only_def)

lemma same_tables_row_status [simp]: "same_tables d d' \<Longrightarrow> row_status d' sid = row_status d sid"
  by (simp add: row_status_def)

lemma statuses_follow_same: "same_tables d d' \<Longrightarrow> statuses_follow d d'"
  by (simp add: statuses_follow_def)

lemma status_update_only:
  "status_only d (update_session sid (\<lambda>r. r\<lparr>sr_status := s, sr_updated_at := t\<rparr>) d)"
  by (simp add: status_only_def update_session_def erase_status_def)

lemma erase_status_simps [simp]:
  "sr_session_id (erase_status r) = sr_session_id r"
  "sr_initiator_username (erase_status r) = sr_initiator_username r"
  "sr_receiver_username (erase_status r) = sr_receiver_username r"
  by (simp_all add: erase_status_def)

lemma find_erase_status:
  "find (\<lambda>r. sr_session_id r = sid) (map erase_status rs)
     = map_option erase_status (find (\<lambda>r. sr_session_id r = sid) rs)"
  by (induction rs) auto

lemma status_only_find:
  assumes "status_only d d'"
  shows "map_option erase_status (find_session d' sid) = map_option erase_status (find_session d sid)"
proof -
  have "map erase_status (db_sessions d') = map erase_status (db_sessions d)"
    using assms by (simp add: status_only_def)
  from arg_cong [OF this, of "find (\<lambda>r. sr_session_id r = sid)"] show ?thesis
    by (simp only: find_erase_status find_session_def)
qed

lemma row_status_update:
  "row_status (update_session sid (\<lambda>r. r\<lparr>sr_status := s, sr_updated_at := t\<rparr>) d) sid' =
     (if sid' = sid \<and> find_session d sid \<noteq> None then Some s else row_status d sid')"
  by (auto simp: row_status_def find_map_session)

locale status_transition =
  fixes apply_to :: "'c \<Rightarrow> db \<Rightarrow> db \<times> session_state option result"
  assumes only_status: "apply_to c d = (d', r) \<Longrightarrow> status_only d d'"
    and follows: "apply_to c d = (d', r) \<Longrightarrow> statuses_follow d d'"
begin

lemma terminal_row_kept:
  assumes "apply_to c d = (d', r)" and "row_status d sid = Some s" and "is_terminal_state s"
  shows "row_status d' sid = Some s"
  using statuses_followD [OF follows [OF assms(1)], of sid] assms(2,3) reducer_matrix.terminal_no_exit
  by auto

lemma phase_of_row:
  assumes "apply_to c d = (d', r)" and "row_status d sid = Some s" and "row_status d' sid = Some t"
  shows "phase s \<le> phase t"
  using statuses_followD [OF follows [OF assms(1)], of sid] assms(2,3) by (auto intro: reducer_edge_phase)

end

lemma persist_transition_cases:
  assumes "persist_transition W k sid now s res tag cmd d = (d', r)"
  shows "(same_tables d d' \<and> (\<exists>x. r = Inl x \<or> r = Inr None))
    \<or> (rr_success res
        \<and> same_tables (update_session sid
            (\<lambda>r. r\<lparr>sr_status := ss_status (rr_new_state res), sr_updated_at := iso_now W now\<rparr>) d) d'
        \<and> (r = Inr (Some (rr_new_state res)) \<or> (\<exists>x. r = Inl x)))"
  using assms
  by (auto simp: persist_transition_def Let_def split: if_splits prod.splits sum.splits
      dest: write_audit_same)

lemma persist_transition_ok:
  assumes p: "persist_transition W k sid now s res tag cmd d = (d', r)"
    and s: "reconstruct_session_state W k sid d = Inr (Some s)"
    and edge: "rr_success res \<Longrightarrow> ss_status (rr_new_state res) = ss_status s
      \<or> reducer_edge (ss_status s) (ss_status (rr_new_state res))"
  shows "status_only d d' \<and> statuses_follow d d'"
  using persist_transition_cases [OF p]
proof
  assume "same_tables d d' \<and> (\<exists>x. r = Inl x \<or> r = Inr None)"
  then show ?thesis by (simp add: same_tables_status_only statuses_follow_same)
next
  let ?d = "update_session sid
      (\<lambda>r. r\<lparr>sr_status := ss_status (rr_new_state res), sr_updated_at := iso_now W now\<rparr>) d"
  assume a: "rr_success res \<and> same_tables ?d d' \<and> (r = Inr (Some (rr_new_state res)) \<or> (\<exists>x. r = Inl x))"
  obtain row where row: "find_session d sid = Some row" and "ss_status s = sr_status row"
    by (rule reconstruct_Some [OF s])
  with a edge have "statuses_follow d d'"
    by (auto simp: statuses_follow_def row_status_update) (auto simp: row_status_def)
  moreover have "status_only d d'"
    using a status_only_trans [OF status_update_only same_tables_status_only] by blast
  ultimately show ?thesis by simp
qed

lemma node_edge:
  "rr_success (process_node_command s c) \<Longrightarrow> ss_status (rr_new_state (process_node_command s c)) = ss_status s
    \<or> reducer_edge (ss_status s) (ss_status (rr_new_state (process_node_command s c)))"
  using node.success_edge [of s "rr_new_state (process_node_command s c)"] by (auto simp: accepted_by_def)

lemma owner_edge:
  "rr_success (process_owner_command s u a p) \<Longrightarrow>
   ss_status (rr_new_state (process_owner_command s u a p)) = ss_status s
    \<or> reducer_edge (ss_status s) (ss_status (rr_new_state (process_owner_command s u a p)))"
  using owner.success_edge [of s "rr_new_state (process_owner_command s u a p)"]
  by (auto simp: accepted_by_def)

lemma apply_node_ok:
  "apply_node_command_transition W k sid c now d = (d', r) \<Longrightarrow> status_only d d' \<and> statuses_follow d d'"
  by (auto simp: apply_node_command_transition_def statuses_follow_same
      split: sum.splits option.splits dest!: persist_transition_ok [OF _ _ node_edge])

lemma apply_owner_ok:
  "apply_owner_command_transition W k sid u a p now d = (d', r) \<Longrightarrow>
   status_only d d' \<and> statuses_follow d d'"
  by (auto simp: apply_owner_command_transition_def statuses_follow_same
      split: sum.splits option.splits dest!: persist_transition_ok [OF _ _ owner_edge])

interpretation node_transition: status_transition
  "\<lambda>(W, k, sid, c, now) d. apply_node_command_transition W k sid c now d"
  by unfold_locales (auto dest: apply_node_ok)

interpretation owner_transition: status_transition
  "\<lambda>(W, k, sid, u, a, p, now) d. apply_owner_command_transition W k sid u a p now d"
  by unfold_locales (auto dest: apply_owner_ok)

lemma owner_transition_authorised:
  assumes "apply_owner_command_transition W k sid u a p now d = (d', Inr (Some t))"
  shows "\<exists>s. reconstruct_session_state W k sid d = Inr (Some s) \<and> u \<in> set (owner_usernames s)
    \<and> \<not> is_terminal_state (ss_status s) \<and> row_status d' sid = Some (ss_status t)"
proof -
  from assms obtain s where s: "reconstruct_session_state W k sid d = Inr (Some s)"
    and p: "persist_transition W k sid now s (process_owner_command s u a p) ''action'' a d = (d', Inr (Some t))"
    by (auto simp: apply_owner_command_transition_def split: sum.splits option.splits)
  from persist_transition_cases [OF p] have ok: "rr_success (process_owner_command s u a p)"
    and t: "t = rr_new_state (process_owner_command s u a p)"
    and same: "same_tables (update_session sid (\<lambda>r. r\<lparr>sr_status := ss_status t, sr_updated_at := iso_now W now\<rparr>) d) d'"
    by auto
  obtain row where "find_session d sid = Some row" by (rule reconstruct_Some [OF s])
  with same have "row_status d' sid = Some (ss_status t)" by (simp add: row_status_update)
  with s owner_success [OF ok] show ?thesis by (auto simp: is_terminal_state_def)
qed

section \<open>Properties\<close>

text \<open>
  C39. Persisted transitions respect the state machine: whatever node command or owner action is
  applied to whatever session, every session row keeps its status or moves along an edge of the
  reducer, rows in a terminal status keep it, and apart from status and time stamp of session rows
  only the audit trail grows.
\<close>

theorem persisted_transitions_sound:
  assumes "apply_node_command_transition W k sid c now d = (d', r)
    \<or> apply_owner_command_transition W k sid u a p now d = (d', r)"
  shows "status_only d d' \<and> statuses_follow d d'
    \<and> (\<forall>sid' s. row_status d sid' = Some s \<and> is_terminal_state s \<longrightarrow> row_status d' sid' = Some s)"
  using assms
proof
  assume a: "apply_node_command_transition W k sid c now d = (d', r)"
  then show ?thesis
    using apply_node_ok [OF a] node_transition.terminal_row_kept [of "(W, k, sid, c, now)" d d' r] by auto
next
  assume a: "apply_owner_command_transition W k sid u a p now d = (d', r)"
  then show ?thesis
    using apply_owner_ok [OF a] owner_transition.terminal_row_kept [of "(W, k, sid, u, a, p, now)" d d' r]
    by auto
qed

theorem persisted_transitions_sound_witness:
  "statuses_follow demo_db (fst (apply_node_command_transition demo_world [9] ''s1'' ''mark_expired'' 0 demo_db))
   \<and> row_status (fst (apply_node_command_transition demo_world [9] ''s1'' ''mark_expired'' 0 demo_db)) ''s1''
       = Some ''expired''"
proof -
  let ?x = "apply_node_command_transition demo_world [9] ''s1'' ''mark_expired'' 0 demo_db"
  have "statuses_follow demo_db (fst ?x)"
    using persisted_transitions_sound [of demo_world "[9]" "''s1''" "''mark_expired''" 0 demo_db "fst ?x" "snd ?x"]
    by simp
  moreover have "row_status (fst ?x) ''s1'' = Some ''expired''" by code_simp
  ultimately show ?thesis by blast
qed

end
