(* ===== verification/Kin_Policy.thy ===== *)
theory Kin_Policy
  imports Kin_Transitions
begin

text \<open>
  Action policy and owner approvals: the pure evaluator of \<open>kin-node/kin/policy/evaluator.py\<close> and the
  approval table operations of \<open>kin-node/kin/policy/persistence.py\<close>. Time stamps are compared as
  strings, as both the evaluator and SQLite do. In SQLite a NULL sorts before every value, and a
  comparison with NULL is not true; the queries below are written out with that meaning.
\<close>

section \<open>The evaluator\<close>

datatype policy_decision = PolicyAllow | PolicyDeny | PolicyRequiresApproval

record approval_request =
  arq_approval_id :: string
  arq_session_id :: string
  arq_agent_id :: string
  arq_action_class :: action_class
  arq_risk_label :: risk_label
  arq_requested_scope :: pydict
  arq_expires_at :: string

record approval_decision =
  adc_approval_id :: string
  adc_session_id :: string
  adc_decision :: decision_kind
  adc_decided_by :: string
  adc_decided_at :: string
  adc_constraints :: "pydict option"

record policy_result =
  pr_decision :: policy_decision
  pr_approval_request :: "approval_request option"

definition policy :: "policy_decision \<Rightarrow> policy_result" where
  "policy x = \<lparr>pr_decision = x, pr_approval_request = None\<rparr>"

fun ACTION_CLASS_TO_AUTONOMY_FIELD :: "action_class \<Rightarrow> (agent_autonomy \<Rightarrow> autonomy_level) option" where
  "ACTION_CLASS_TO_AUTONOMY_FIELD INFORMATIONAL_RELAY = Some aut_relay_information"
| "ACTION_CLASS_TO_AUTONOMY_FIELD SESSION_PARTICIPATION = None"
| "ACTION_CLASS_TO_AUTONOMY_FIELD ARTIFACT_RECEIPT = None"
| "ACTION_CLASS_TO_AUTONOMY_FIELD WORKSPACE_READ = None"
| "ACTION_CLASS_TO_AUTONOMY_FIELD WORKSPACE_WRITE = None"
| "ACTION_CLASS_TO_AUTONOMY_FIELD SHELL_NETWORK_EXTERNAL = None"

fun ACTION_CLASS_RISK_MAP :: "action_class \<Rightarrow> risk_label" where
  "ACTION_CLASS_RISK_MAP INFORMATIONAL_RELAY = LOW"
| "ACTION_CLASS_RISK_MAP SESSION_PARTICIPATION = MEDIUM"
| "ACTION_CLASS_RISK_MAP ARTIFACT_RECEIPT = LOW"
| "ACTION_CLASS_RISK_MAP WORKSPACE_READ = MEDIUM"
| "ACTION_CLASS_RISK_MAP WORKSPACE_WRITE = HIGH"
| "ACTION_CLASS_RISK_MAP SHELL_NETWORK_EXTERNAL = CRITICAL"

definition boundary_denies :: "agent_boundaries \<Rightarrow> action_class \<Rightarrow> bool" where
  "boundary_denies b ac =
     (if ac = SHELL_NETWORK_EXTERNAL then bnd_shell b = ''deny'' \<and> bnd_network_access b = ''deny''
      else if ac = WORKSPACE_WRITE then bnd_filesystem b \<in> set [''none'', ''workspace_read'']
      else if ac = WORKSPACE_READ then bnd_filesystem b = ''none''
      else False)"

text \<open>The second step: \<open>None\<close> when the prior approval does not settle the matter.\<close>

definition prior_verdict ::
  "string \<Rightarrow> approval_decision option \<Rightarrow> string option \<Rightarrow> policy_decision option" where
  "prior_verdict now prior prior_expires_at =
     (case prior of
        None \<Rightarrow> None
      | Some pa \<Rightarrow>
          if adc_decision pa \<in> set [ALWAYS_ALLOW_BOUNDED, APPROVE_ONCE]
          then (case prior_expires_at of
                  None \<Rightarrow> Some PolicyAllow
                | Some x \<Rightarrow> if now < x then Some PolicyAllow else None)
          else if adc_decision pa = DENY then Some PolicyDeny
          else None)"

definition autonomy_verdict :: "agent_card \<Rightarrow> action_class \<Rightarrow> policy_decision option" where
  "autonomy_verdict c ac =
     (case ACTION_CLASS_TO_AUTONOMY_FIELD ac of
        None \<Rightarrow> None
      | Some field \<Rightarrow>
          (case field (card_autonomy c) of
             ALWAYS_ALLOW \<Rightarrow> Some PolicyAllow
           | NEVER \<Rightarrow> Some PolicyDeny
           | ALWAYS_ASK \<Rightarrow> None))"

definition DEFAULT_REQUEST_TIMESTAMP :: string where
  "DEFAULT_REQUEST_TIMESTAMP = ''2026-07-23T12:00:00.000Z''"

definition request_id :: "string \<Rightarrow> action_class \<Rightarrow> string" where
  "request_id sid ac = ''req-'' @ sid @ ''-'' @ action_class_value ac"

definition build_request ::
  "agent_card \<Rightarrow> action_class \<Rightarrow> pydict \<Rightarrow> string \<Rightarrow> approval_request result" where
  "build_request c ac session_context now =
     (case dget_default session_context ''session_id'' (PStr ''sess-unknown'') of
        PStr sid \<Rightarrow>
          Inr \<lparr>arq_approval_id = request_id sid ac, arq_session_id = sid, arq_agent_id = card_id c,
               arq_action_class = ac, arq_risk_label = ACTION_CLASS_RISK_MAP ac,
               arq_requested_scope = [(''session_context'', of_dict session_context)],
               arq_expires_at = (if TIMESTAMP_REGEX now then now else DEFAULT_REQUEST_TIMESTAMP)\<rparr>
      | _ \<Rightarrow> Inl ValidationError)"

definition evaluate_action ::
  "agent_card \<Rightarrow> action_class \<Rightarrow> pydict \<Rightarrow> string \<Rightarrow> approval_decision option \<Rightarrow> string option
   \<Rightarrow> policy_result result" where
  "evaluate_action c ac session_context now prior prior_expires_at =
     (if boundary_denies (card_boundaries c) ac then Inr (policy PolicyDeny)
      else case prior_verdict now prior prior_expires_at of
        Some v \<Rightarrow> Inr (policy v)
      | None \<Rightarrow>
          (case autonomy_verdict c ac of
             Some v \<Rightarrow> Inr (policy v)
           | None \<Rightarrow>
               (case build_request c ac session_context now of
                  Inl e \<Rightarrow> Inl e
                | Inr rq \<Rightarrow> Inr \<lparr>pr_decision = PolicyRequiresApproval, pr_approval_request = Some rq\<rparr>)))"

section \<open>Approvals in the database\<close>

text \<open>\<open>ApprovalDecision(...)\<close>: the decision must be a known one and the time a UTC time stamp.\<close>

definition make_approval_decision ::
  "string \<Rightarrow> string \<Rightarrow> decision_kind option \<Rightarrow> string \<Rightarrow> string \<Rightarrow> pydict option
   \<Rightarrow> approval_decision result" where
  "make_approval_decision aid sid dk decided_by decided_at constraints =
     (case dk of
        None \<Rightarrow> Inl ValidationError
      | Some k \<Rightarrow>
          if \<not> TIMESTAMP_REGEX decided_at then Inl ValidationError
          else Inr \<lparr>adc_approval_id = aid, adc_session_id = sid, adc_decision = k,
                    adc_decided_by = decided_by, adc_decided_at = decided_at,
                    adc_constraints = constraints\<rparr>)"

definition eligible_approval :: "string \<Rightarrow> string \<Rightarrow> string \<Rightarrow> string \<Rightarrow> approval_row \<Rightarrow> bool" where
  "eligible_approval session_id agent_id ac now r =
     (ap_session_id r = session_id \<and> ap_agent_id r = Some agent_id \<and> ap_action_class r = ac
      \<and> now < ap_expires_at r
      \<and> ((case ap_decision r of None \<Rightarrow> False | Some x \<Rightarrow> x \<noteq> ''approve_once'')
         \<or> ap_consumed_at r = None))"

definition decided_after :: "approval_row \<Rightarrow> approval_row \<Rightarrow> bool" where
  "decided_after a b =
     (case (ap_decided_at a, ap_decided_at b) of
        (None, _) \<Rightarrow> False
      | (Some _, None) \<Rightarrow> True
      | (Some x, Some y) \<Rightarrow> y < x)"

text \<open>\<open>ORDER BY decided_at DESC LIMIT 1\<close>, earlier rows first among equals.\<close>

fun latest_approval :: "approval_row list \<Rightarrow> approval_row option" where
  "latest_approval [] = None"
| "latest_approval (r # rs) =
     (case latest_approval rs of
        None \<Rightarrow> Some r
      | Some b \<Rightarrow> if decided_after b r then Some b else Some r)"

definition consume_approval :: "string \<Rightarrow> string \<Rightarrow> db \<Rightarrow> db" where
  "consume_approval aid now d =
     d\<lparr>db_approvals := map (\<lambda>r. if ap_approval_id r = aid then r\<lparr>ap_consumed_at := Some now\<rparr> else r)
        (db_approvals d)\<rparr>"

definition evaluate_action_for_session ::
  "agent_card \<Rightarrow> action_class \<Rightarrow> pydict \<Rightarrow> string \<Rightarrow> string \<Rightarrow> db \<Rightarrow> db \<times> policy_result result" where
  "evaluate_action_for_session c ac session_context session_id now d =
     (case latest_approval (filter (eligible_approval session_id (card_id c) (action_class_value ac) now)
              (db_approvals d)) of
        None \<Rightarrow> (d, evaluate_action c ac session_context now None None)
      | Some row \<Rightarrow>
          (let dk = Option.bind (ap_decision row) decision_kind_of in
           case make_approval_decision (ap_approval_id row) (ap_session_id row) dk ''owner''
                  (or_text (ap_decided_at row) now) None of
             Inl e \<Rightarrow> (d, Inl e)
           | Inr prior \<Rightarrow>
               (case evaluate_action c ac session_context now (Some prior) (Some (ap_expires_at row)) of
                  Inl e \<Rightarrow> (d, Inl e)
                | Inr res \<Rightarrow>
                    (if pr_decision res = PolicyAllow \<and> dk = Some APPROVE_ONCE
                     then (consume_approval (ap_approval_id row) now d, Inr res)
                     else (d, Inr res)))))"

definition find_approval :: "db \<Rightarrow> string \<Rightarrow> approval_row option" where
  "find_approval d aid = find (\<lambda>r. ap_approval_id r = aid) (db_approvals d)"

definition record_approval_decision ::
  "world \<Rightarrow> bytes \<Rightarrow> approval_decision \<Rightarrow> string option \<Rightarrow> action_class \<Rightarrow> string \<Rightarrow> string option \<Rightarrow> db
   \<Rightarrow> db \<times> unit result" where
  "record_approval_decision W vault_key ad agent_id ac expires_at request_json d =
     (let n = db_tick d;
          decision_str = decision_kind_value (adc_decision ad);
          enc = encrypt_field W vault_key n request_json;
          note = of_dict [(''approval_id'', PStr (adc_approval_id ad)),
                          (''agent_id'', (case agent_id of None \<Rightarrow> PNone | Some a \<Rightarrow> PStr a)),
                          (''action_class'', PStr (action_class_value ac)),
                          (''decision'', PStr decision_str), (''expires_at'', PStr expires_at)]
      in if find_approval d (adc_approval_id ad) = None \<and> find_session d (adc_session_id ad) = None
         then (tick d, Inl IntegrityError)
         else (let rows = (if find_approval d (adc_approval_id ad) \<noteq> None
                   then map (\<lambda>r. if ap_approval_id r = adc_approval_id ad
                               then r\<lparr>ap_decision := Some decision_str,
                                      ap_decided_at := Some (adc_decided_at ad),
                                      ap_request_json := (if enc = None then ap_request_json r else enc)\<rparr>
                               else r) (db_approvals d)
                   else db_approvals d @
                        [\<lparr>ap_approval_id = adc_approval_id ad, ap_session_id = adc_session_id ad,
                          ap_agent_id = agent_id, ap_action_class = action_class_value ac,
                          ap_request_json = enc, ap_decision = Some decision_str,
                          ap_decided_at = Some (adc_decided_at ad), ap_expires_at = expires_at,
                          ap_consumed_at = None\<rparr>])
               in case write_audit_event W vault_key ''approval_decision'' (Some (adc_session_id ad))
                         (Some (adc_decided_by ad)) note (Some (adc_session_id ad))
                         (tick (d\<lparr>db_approvals := rows\<rparr>)) of
                    (d', Inl e) \<Rightarrow> (d', Inl e)
                  | (d', Inr _) \<Rightarrow> (d', Inr ())))"

definition approval_request_dump :: "approval_request \<Rightarrow> pydict" where
  "approval_request_dump rq =
     [(''schema_version'', PStr ''1.1''), (''approval_id'', PStr (arq_approval_id rq)),
      (''session_id'', PStr (arq_session_id rq)), (''agent_id'', PStr (arq_agent_id rq)),
      (''action_class'', PStr (action_class_value (arq_action_class rq))),
      (''risk_label'', PStr (risk_label_value (arq_risk_label rq))),
      (''requested_scope'', of_dict (arq_requested_scope rq)),
      (''expires_at'', PStr (arq_expires_at rq))]"

definition create_pending_approval ::
  "world \<Rightarrow> bytes \<Rightarrow> approval_request \<Rightarrow> string \<Rightarrow> action_class \<Rightarrow> string \<Rightarrow> db \<Rightarrow> db \<times> string result" where
  "create_pending_approval W vault_key rq agent_id ac expires_at d =
     (if find_approval d (arq_approval_id rq) \<noteq> None \<or> find_session d (arq_session_id rq) = None
      then (tick d, Inl IntegrityError)
      else (let row = \<lparr>ap_approval_id = arq_approval_id rq, ap_session_id = arq_session_id rq,
                   ap_agent_id = Some agent_id, ap_action_class = action_class_value ac,
                   ap_request_json = encrypt_field W vault_key (db_tick d)
                     (Some (w_model_json W (approval_request_dump rq))),
                   ap_decision = None, ap_decided_at = None, ap_expires_at = expires_at,
                   ap_consumed_at = None\<rparr>;
                note = of_dict [(''approval_id'', PStr (arq_approval_id rq)), (''agent_id'', PStr agent_id),
                   (''action_class'', PStr (action_class_value ac)), (''expires_at'', PStr expires_at)]
            in case write_audit_event W vault_key ''approval_request'' (Some (arq_session_id rq))
                      (Some agent_id) note (Some (arq_session_id rq))
                      (tick (d\<lparr>db_approvals := db_approvals d @ [row]\<rparr>)) of
                 (d', Inl e) \<Rightarrow> (d', Inl e)
               | (d', Inr _) \<Rightarrow> (d', Inr (arq_approval_id rq))))"

definition decision_constraints ::
  "decision_kind \<Rightarrow> string option \<Rightarrow> pydict option \<Rightarrow> pydict option result" where
  "decision_constraints dk reason constraints =
     (if dk = DENY
      then (case reason of
              None \<Rightarrow> Inl (AppError ''InvalidDecisionValueError'')
            | Some r \<Rightarrow> if strip r = [] then Inl (AppError ''InvalidDecisionValueError'')
                        else Inr (Some [(''reason'', PStr (strip r))]))
      else if dk = EDIT_CONSTRAINTS
      then (case constraints of
              None \<Rightarrow> Inl (AppError ''InvalidDecisionValueError'')
            | Some [] \<Rightarrow> Inl (AppError ''InvalidDecisionValueError'')
            | Some cs \<Rightarrow> Inr (Some cs))
      else Inr constraints)"

definition decide_approval ::
  "world \<Rightarrow> bytes \<Rightarrow> string \<Rightarrow> string \<Rightarrow> string \<Rightarrow> string \<Rightarrow> string \<Rightarrow> string option \<Rightarrow> pydict option \<Rightarrow> db
   \<Rightarrow> db \<times> approval_decision result" where
  "decide_approval W vault_key approval_id session_id decision owner_username now reason constraints d =
     (case decision_kind_of decision of
        None \<Rightarrow> (d, Inl ValueError)
      | Some dk \<Rightarrow>
        (case find_approval d approval_id of
           None \<Rightarrow> (d, Inl (AppError ''ApprovalNotFoundError''))
         | Some row \<Rightarrow>
           if ap_session_id row \<noteq> session_id then (d, Inl (AppError ''ApprovalNotFoundError''))
           else if ap_decision row \<noteq> None then (d, Inl (AppError ''ApprovalAlreadyDecidedError''))
           else if ap_expires_at row \<le> now then (d, Inl (AppError ''ApprovalExpiredError''))
           else (case decision_constraints dk reason constraints of
             Inl e \<Rightarrow> (d, Inl e)
           | Inr final_constraints \<Rightarrow>
             (case reconstruct_session_state W vault_key session_id d of
                Inl e \<Rightarrow> (d, Inl e)
              | Inr None \<Rightarrow> (d, Inl (AppError ''ApprovalNotFoundError''))
              | Inr (Some state) \<Rightarrow>
                let payload = [(''decision'', PStr (decision_kind_value dk))] in
                if \<not> rr_success (process_owner_command state owner_username
                          ''owner_approval_decision'' (Some payload))
                then (d, Inl RuntimeError)
                else (case make_approval_decision approval_id session_id (Some dk) owner_username now
                             final_constraints of
                  Inl e \<Rightarrow> (d, Inl e)
                | Inr ad \<Rightarrow>
                  (case apply_owner_command_transition W vault_key session_id owner_username
                          ''owner_approval_decision'' (Some payload) (w_clock W (db_tick d)) d of
                     (d1, Inl e) \<Rightarrow> (d1, Inl e)
                   | (d1, Inr None) \<Rightarrow> (d1, Inl RuntimeError)
                   | (d1, Inr (Some _)) \<Rightarrow>
                     (case action_class_of (ap_action_class row) of
                        None \<Rightarrow> (d1, Inl ValueError)
                      | Some ac \<Rightarrow>
                        (case record_approval_decision W vault_key ad (ap_agent_id row) ac
                                (ap_expires_at row) None d1 of
                           (d2, Inl e) \<Rightarrow> (d2, Inl e)
                         | (d2, Inr _) \<Rightarrow> (d2, Inr ad)))))))))"

section \<open>Lemmas\<close>

lemma policy_simps [simp]: "pr_decision (policy x) = x" "pr_approval_request (policy x) = None"
  by (simp_all add: policy_def)

lemma prior_verdict_allow:
  "prior_verdict now prior x = Some PolicyAllow \<longleftrightarrow>
   (\<exists>pa. prior = Some pa \<and> adc_decision pa \<in> set [ALWAYS_ALLOW_BOUNDED, APPROVE_ONCE]
      \<and> (case x of None \<Rightarrow> True | Some t \<Rightarrow> now < t))"
  by (auto simp: prior_verdict_def split: option.splits if_splits)

lemma autonomy_verdict_allow:
  "autonomy_verdict c ac = Some PolicyAllow \<longleftrightarrow>
   ac = INFORMATIONAL_RELAY \<and> aut_relay_information (card_autonomy c) = ALWAYS_ALLOW"
  by (cases ac) (auto simp: autonomy_verdict_def split: autonomy_level.splits)

lemma verdict_not_requires:
  "prior_verdict now prior x \<noteq> Some PolicyRequiresApproval"
  "autonomy_verdict c ac \<noteq> Some PolicyRequiresApproval"
  by (auto simp: prior_verdict_def autonomy_verdict_def split: option.splits autonomy_level.splits)

lemma evaluate_allowD:
  assumes "evaluate_action c ac ctx now prior x = Inr res" and "pr_decision res = PolicyAllow"
  shows "\<not> boundary_denies (card_boundaries c) ac
    \<and> (prior_verdict now prior x = Some PolicyAllow \<or> autonomy_verdict c ac = Some PolicyAllow)"
  using assms
  by (auto simp: evaluate_action_def split: if_splits option.splits sum.splits)

lemma latest_approval_in: "latest_approval rs = Some r \<Longrightarrow> r \<in> set rs"
  by (induction rs arbitrary: r) (auto split: option.splits if_splits)

lemma latest_approval_None [simp]: "latest_approval rs = None \<longleftrightarrow> rs = []"
  by (induction rs) (auto split: option.splits if_splits)

lemma latest_approval_latest:
  "latest_approval rs = Some r \<Longrightarrow> q \<in> set rs \<Longrightarrow> \<not> decided_after q r"
proof (induction rs arbitrary: r)
  case (Cons a rs)
  have irr: "\<not> decided_after x x" for x by (auto simp: decided_after_def split: option.splits)
  have trans: "decided_after x y \<Longrightarrow> decided_after y z \<Longrightarrow> decided_after x z" for x y z
    by (auto simp: decided_after_def split: option.splits)
  have neg: "\<not> decided_after x y \<Longrightarrow> \<not> decided_after y z \<Longrightarrow> \<not> decided_after x z" for x y z
    by (auto simp: decided_after_def split: option.splits)
  show ?case
  proof (cases "latest_approval rs")
    case None
    with Cons.prems irr show ?thesis by auto
  next
    case (Some b)
    note ih = Cons.IH [OF Some]
    show ?thesis
    proof (cases "decided_after b a")
      case True
      with Some Cons.prems have "r = b" by simp
      with True Cons.prems(2) ih irr trans show ?thesis by auto
    next
      case False
      with Some Cons.prems have "r = a" by simp
      with False Cons.prems(2) ih irr neg show ?thesis by auto
    qed
  qed
qed simp

lemma consumed_not_eligible:
  "ap_decision r = Some ''approve_once'' \<Longrightarrow> ap_consumed_at r \<noteq> None \<Longrightarrow> \<not> eligible_approval s a c t r"
  by (simp add: eligible_approval_def)

lemma make_decision_simps:
  "make_approval_decision aid sid dk who at cs = Inr ad \<longleftrightarrow>
   (\<exists>k. dk = Some k \<and> TIMESTAMP_REGEX at \<and>
      ad = \<lparr>adc_approval_id = aid, adc_session_id = sid, adc_decision = k, adc_decided_by = who,
            adc_decided_at = at, adc_constraints = cs\<rparr>)"
  by (auto simp: make_approval_decision_def split: option.splits)

lemma decision_kind_of_SomeD: "decision_kind_of v = Some k \<Longrightarrow> decision_kind_value k = v"
  by (auto simp: decision_kind_of_def find_Some_iff)

lemma evaluate_session_allow:
  assumes "evaluate_action_for_session c ac ctx sid now d = (d', Inr r)" and "pr_decision r = PolicyAllow"
    and "autonomy_verdict c ac \<noteq> Some PolicyAllow"
  shows "\<exists>row \<in> set (db_approvals d).
      eligible_approval sid (card_id c) (action_class_value ac) now row
      \<and> (ap_decision row = Some ''always_allow_bounded''
         \<or> (ap_decision row = Some ''approve_once'' \<and> d' = consume_approval (ap_approval_id row) now d))"
proof -
  let ?rows = "filter (eligible_approval sid (card_id c) (action_class_value ac) now) (db_approvals d)"
  show ?thesis
  proof (cases "latest_approval ?rows")
    case None
    with assms have "evaluate_action c ac ctx now None None = Inr r"
      by (simp add: evaluate_action_for_session_def del: latest_approval_None)
    from evaluate_allowD [OF this assms(2)] assms(3) show ?thesis by (simp add: prior_verdict_def)
  next
    case (Some row)
    then have row: "row \<in> set ?rows" by (rule latest_approval_in)
    let ?dk = "Option.bind (ap_decision row) decision_kind_of"
    from assms(1) Some obtain prior where
      prior: "make_approval_decision (ap_approval_id row) (ap_session_id row) ?dk ''owner''
          (or_text (ap_decided_at row) now) None = Inr prior"
      and ev: "evaluate_action c ac ctx now (Some prior) (Some (ap_expires_at row)) = Inr r"
      and d': "d' = (if ?dk = Some APPROVE_ONCE then consume_approval (ap_approval_id row) now d else d)"
      using assms(2)
      by (auto simp: evaluate_action_for_session_def Let_def split: sum.splits if_splits)
    from prior obtain k where k: "?dk = Some k" "adc_decision prior = k"
      by (auto simp: make_decision_simps)
    from evaluate_allowD [OF ev assms(2)] assms(3) k
    have "k = ALWAYS_ALLOW_BOUNDED \<or> k = APPROVE_ONCE" by (auto simp: prior_verdict_allow)
    moreover from k(1) have "ap_decision row = Some (decision_kind_value k)"
      by (auto simp: bind_eq_Some_conv dest: decision_kind_of_SomeD)
    ultimately show ?thesis using row d' k by (auto intro!: bexI [of _ row])
  qed
qed

lemma find_approval_status_only:
  "status_only d d' \<Longrightarrow> find_approval d' aid = find_approval d aid"
  by (simp add: find_approval_def status_only_def)

lemma find_approval_map:
  assumes "\<And>r. ap_approval_id (f r) = ap_approval_id r"
  shows "find_approval (d\<lparr>db_approvals := map (\<lambda>r. if ap_approval_id r = aid then f r else r) (db_approvals d)\<rparr>) aid
    = map_option f (find_approval d aid)"
proof -
  have "find (\<lambda>r. ap_approval_id r = aid) (map (\<lambda>r. if ap_approval_id r = aid then f r else r) rs) =
      map_option f (find (\<lambda>r. ap_approval_id r = aid) rs)" for rs
    by (induction rs) (auto simp: assms)
  then show ?thesis by (simp add: find_approval_def)
qed

lemma record_decision_existing:
  assumes "record_approval_decision W k ad ag ac ex rj d = (d', Inr ())"
    and "find_approval d (adc_approval_id ad) = Some row"
  shows "\<exists>row'. find_approval d' (adc_approval_id ad) = Some row'
    \<and> ap_decision row' = Some (decision_kind_value (adc_decision ad))
    \<and> ap_decided_at row' = Some (adc_decided_at ad) \<and> ap_session_id row' = ap_session_id row
    \<and> db_sessions d' = db_sessions d"
proof -
  let ?f = "\<lambda>r. r\<lparr>ap_decision := Some (decision_kind_value (adc_decision ad)),
      ap_decided_at := Some (adc_decided_at ad),
      ap_request_json := (if encrypt_field W k (db_tick d) rj = None then ap_request_json r
        else encrypt_field W k (db_tick d) rj)\<rparr>"
  let ?d = "d\<lparr>db_approvals := map (\<lambda>r. if ap_approval_id r = adc_approval_id ad then ?f r else r) (db_approvals d)\<rparr>"
  from assms have same: "same_tables (tick ?d) d'"
    by (auto simp: record_approval_decision_def Let_def split: prod.splits sum.splits dest!: write_audit_same)
  then have "find_approval d' (adc_approval_id ad) = find_approval ?d (adc_approval_id ad)"
    by (simp add: same_tables_def find_approval_def)
  also have "\<dots> = Some (?f row)"
    using find_approval_map [of ?f "adc_approval_id ad" d] assms(2) by simp
  finally show ?thesis using same by (simp add: same_tables_def)
qed

lemma decide_approval_success:
  assumes "decide_approval W k aid sid decision u now reason cs d = (d', Inr ad)"
  obtains dk row state d1 t ac where "decision_kind_of decision = Some dk"
    and "find_approval d aid = Some row" and "ap_session_id row = sid"
    and "ap_decision row = None" and "now < ap_expires_at row"
    and "reconstruct_session_state W k sid d = Inr (Some state)"
    and "apply_owner_command_transition W k sid u ''owner_approval_decision''
          (Some [(''decision'', PStr (decision_kind_value dk))]) (w_clock W (db_tick d)) d = (d1, Inr (Some t))"
    and "record_approval_decision W k ad (ap_agent_id row) ac (ap_expires_at row) None d1 = (d', Inr ())"
    and "adc_approval_id ad = aid" and "adc_decision ad = dk" and "adc_decided_at ad = now"
proof -
  from assms obtain dk row where 1: "decision_kind_of decision = Some dk" "find_approval d aid = Some row"
    "ap_session_id row = sid" "ap_decision row = None" "now < ap_expires_at row"
    by (auto simp: decide_approval_def not_le split: option.splits if_splits)
  from assms 1 obtain fc state where 2: "decision_constraints dk reason cs = Inr fc"
    "reconstruct_session_state W k sid d = Inr (Some state)"
    by (auto simp: decide_approval_def split: option.splits if_splits sum.splits)
  from assms 1 2 obtain x where 3: "make_approval_decision aid sid (Some dk) u now fc = Inr x"
    by (auto simp: decide_approval_def Let_def split: if_splits sum.splits)
  from assms 1 2 3 obtain d1 t where 4: "apply_owner_command_transition W k sid u ''owner_approval_decision''
      (Some [(''decision'', PStr (decision_kind_value dk))]) (w_clock W (db_tick d)) d = (d1, Inr (Some t))"
    by (auto simp: decide_approval_def Let_def split: if_splits sum.splits prod.splits option.splits)
  from assms 1 2 3 4 obtain ac where 5: "action_class_of (ap_action_class row) = Some ac"
    by (auto simp: decide_approval_def Let_def split: if_splits option.splits)
  from assms 1 2 3 4 5 have 6: "record_approval_decision W k x (ap_agent_id row) ac (ap_expires_at row) None d1
      = (d', Inr ())" and 7: "x = ad"
    by (auto simp: decide_approval_def Let_def split: if_splits sum.splits prod.splits)
  from 3 7 have "adc_approval_id ad = aid" "adc_decision ad = dk" "adc_decided_at ad = now"
    by (auto simp: make_decision_simps)
  with 1 2 4 6 7 that show thesis by blast
qed

section \<open>Properties\<close>

text \<open>
  C40. Nothing is allowed without a grant: when the evaluator answers ALLOW, no hard boundary of the
  card forbids the action class, and either the owner's prior decision is an unexpired
  \<open>approve_once\<close> or \<open>always_allow_bounded\<close>, or the action is an informational relay that the card's
  autonomy setting always allows.
\<close>

theorem allow_needs_grant:
  assumes "evaluate_action c ac ctx now prior expires = Inr res" and "pr_decision res = PolicyAllow"
  shows "\<not> boundary_denies (card_boundaries c) ac
    \<and> ((\<exists>pa. prior = Some pa \<and> adc_decision pa \<in> {ALWAYS_ALLOW_BOUNDED, APPROVE_ONCE}
          \<and> (case expires of None \<Rightarrow> True | Some t \<Rightarrow> now < t))
       \<or> (ac = INFORMATIONAL_RELAY \<and> aut_relay_information (card_autonomy c) = ALWAYS_ALLOW))"
  using evaluate_allowD [OF assms] by (auto simp: prior_verdict_allow autonomy_verdict_allow)

definition demo_grant :: approval_decision where
  "demo_grant = \<lparr>adc_approval_id = ''p1'', adc_session_id = ''s1'', adc_decision = APPROVE_ONCE,
     adc_decided_by = ''alice'', adc_decided_at = ''2026-01-02T03:04:05Z'', adc_constraints = None\<rparr>"

theorem allow_needs_grant_witness:
  "evaluate_action demo_card WORKSPACE_READ [] ''2026-01-02T03:04:05Z'' (Some demo_grant)
      (Some ''2026-01-03T03:04:05Z'') = Inr (policy PolicyAllow)
   \<and> \<not> boundary_denies (card_boundaries demo_card) WORKSPACE_READ"
proof -
  have r: "evaluate_action demo_card WORKSPACE_READ [] ''2026-01-02T03:04:05Z'' (Some demo_grant)
      (Some ''2026-01-03T03:04:05Z'') = Inr (policy PolicyAllow)" by code_simp
  from allow_needs_grant [OF r] r show ?thesis by simp
qed

text \<open>
  Boundary denials are final: when a card's hard boundaries forbid an action class, the
  evaluator denies it whatever the context, the time and the prior approval are, and an evaluation
  against the database never allows it and never consumes an approval.
\<close>

theorem boundary_denial_final:
  assumes "boundary_denies (card_boundaries c) ac"
  shows "evaluate_action c ac ctx now prior expires = Inr (policy PolicyDeny)
    \<and> fst (evaluate_action_for_session c ac ctx sid now d) = d
    \<and> (\<forall>r. snd (evaluate_action_for_session c ac ctx sid now d) = Inr r \<longrightarrow> pr_decision r = PolicyDeny)"
  using assms
  by (auto simp: evaluate_action_def evaluate_action_for_session_def Let_def
      split: option.splits sum.splits)

theorem boundary_denial_final_witness:
  "boundary_denies (card_boundaries demo_card) WORKSPACE_WRITE
   \<and> evaluate_action demo_card WORKSPACE_WRITE [] ''2026-01-02T03:04:05Z'' (Some demo_grant) None
       = Inr (policy PolicyDeny)"
proof -
  have b: "boundary_denies (card_boundaries demo_card) WORKSPACE_WRITE" by code_simp
  from boundary_denial_final [OF b] b show ?thesis by blast
qed

text \<open>
  An \<open>approve_once\<close> grant is used once: when an action that the card's autonomy does not allow is
  allowed against the database, there is an eligible owner grant for exactly this session, agent and
  action class; and if that grant was an \<open>approve_once\<close>, no row with its identifier that carries an
  \<open>approve_once\<close> decision is eligible for any evaluation afterwards.
\<close>

theorem approve_once_single_use:
  assumes "evaluate_action_for_session c ac ctx sid now d = (d', Inr r)"
    and "pr_decision r = PolicyAllow" and "autonomy_verdict c ac \<noteq> Some PolicyAllow"
  shows "\<exists>row \<in> set (db_approvals d).
      eligible_approval sid (card_id c) (action_class_value ac) now row
      \<and> (ap_decision row = Some ''always_allow_bounded''
         \<or> (ap_decision row = Some ''approve_once''
            \<and> (\<forall>q \<in> set (db_approvals d'). ap_approval_id q = ap_approval_id row
                 \<and> ap_decision q = Some ''approve_once'' \<longrightarrow> \<not> eligible_approval sid' ag' ac' now' q)))"
proof -
  obtain row where row: "row \<in> set (db_approvals d)"
    and el: "eligible_approval sid (card_id c) (action_class_value ac) now row"
    and grant: "ap_decision row = Some ''always_allow_bounded''
       \<or> (ap_decision row = Some ''approve_once'' \<and> d' = consume_approval (ap_approval_id row) now d)"
    using evaluate_session_allow [OF assms] by blast
  have "\<not> eligible_approval sid' ag' ac' now' q"
    if "d' = consume_approval (ap_approval_id row) now d" "q \<in> set (db_approvals d')"
      "ap_approval_id q = ap_approval_id row" "ap_decision q = Some ''approve_once''" for q
    using that by (intro consumed_not_eligible) (auto simp: consume_approval_def split: if_splits)
  with row el grant show ?thesis by blast
qed

definition demo_approval :: approval_row where
  "demo_approval = \<lparr>ap_approval_id = ''p1'', ap_session_id = ''s1'', ap_agent_id = Some ''a1'',
     ap_action_class = ''workspace_read'', ap_request_json = None, ap_decision = Some ''approve_once'',
     ap_decided_at = Some ''2026-01-02T03:04:05Z'', ap_expires_at = ''2026-01-03T03:04:05Z'',
     ap_consumed_at = None\<rparr>"

theorem approve_once_single_use_witness:
  "\<exists>d'. evaluate_action_for_session demo_card WORKSPACE_READ [] ''s1'' ''2026-01-02T04:00:00Z''
        (demo_db\<lparr>db_approvals := [demo_approval]\<rparr>) = (d', Inr (policy PolicyAllow))
     \<and> \<not> eligible_approval ''s1'' ''a1'' ''workspace_read'' ''2026-01-02T05:00:00Z'' (hd (db_approvals d'))"
proof -
  let ?d = "demo_db\<lparr>db_approvals := [demo_approval]\<rparr>"
  let ?d' = "consume_approval ''p1'' ''2026-01-02T04:00:00Z'' ?d"
  have e: "evaluate_action_for_session demo_card WORKSPACE_READ [] ''s1'' ''2026-01-02T04:00:00Z'' ?d
      = (?d', Inr (policy PolicyAllow))" by code_simp
  have "autonomy_verdict demo_card WORKSPACE_READ \<noteq> Some PolicyAllow" by (simp add: autonomy_verdict_allow)
  from approve_once_single_use [OF e _ this, of "''s1''" "''a1''" "''workspace_read''" "''2026-01-02T05:00:00Z''"]
  have "\<not> eligible_approval ''s1'' ''a1'' ''workspace_read'' ''2026-01-02T05:00:00Z'' (hd (db_approvals ?d'))"
    by (auto simp: demo_approval_def consume_approval_def)
  with e show ?thesis by blast
qed

text \<open>
  An approval is decided once, by an owner, and moves the session: when \<open>decide_approval\<close>
  succeeds, the approval was pending and unexpired, the user is an owner of a live session, the
  stored row carries the decision and its time, the session row is \<open>paused\<close> after a denial and
  \<open>active\<close> otherwise, and every later attempt to decide the same approval for the session raises
  \<open>ApprovalAlreadyDecidedError\<close> and changes nothing.
\<close>

theorem approval_decided_once:
  assumes "decide_approval W k aid sid decision u now reason cs d = (d', Inr ad)"
  shows "\<exists>dk s row'. decision_kind_of decision = Some dk
    \<and> reconstruct_session_state W k sid d = Inr (Some s) \<and> u \<in> set (owner_usernames s)
    \<and> \<not> is_terminal_state (ss_status s)
    \<and> find_approval d' aid = Some row' \<and> ap_decision row' = Some decision \<and> ap_decided_at row' = Some now
    \<and> row_status d' sid = Some (if dk = DENY then ''paused'' else ''active'')
    \<and> (decision_kind_of decision' \<noteq> None \<longrightarrow>
         decide_approval W' k' aid sid decision' u' now' reason' cs' d'
           = (d', Inl (AppError ''ApprovalAlreadyDecidedError'')))"
proof -
  obtain dk row state d1 t ac where dk: "decision_kind_of decision = Some dk"
    and row: "find_approval d aid = Some row" and sid: "ap_session_id row = sid"
    and app: "apply_owner_command_transition W k sid u ''owner_approval_decision''
          (Some [(''decision'', PStr (decision_kind_value dk))]) (w_clock W (db_tick d)) d = (d1, Inr (Some t))"
    and rcd: "record_approval_decision W k ad (ap_agent_id row) ac (ap_expires_at row) None d1 = (d', Inr ())"
    and ad: "adc_approval_id ad = aid" "adc_decision ad = dk" "adc_decided_at ad = now"
    by (rule decide_approval_success [OF assms])
  obtain s where s: "reconstruct_session_state W k sid d = Inr (Some s)" "u \<in> set (owner_usernames s)"
    "\<not> is_terminal_state (ss_status s)" and st: "row_status d1 sid = Some (ss_status t)"
    using owner_transition_authorised [OF app] by blast
  have t: "ss_status t = (if dk = DENY then ''paused'' else ''active'')"
    using app s(1) by (cases dk)
      (auto simp: apply_owner_command_transition_def persist_transition_def owner_target_def dget_def Let_def
        dest!: owner_success split: if_splits prod.splits sum.splits)
  have "find_approval d1 aid = Some row"
    using find_approval_status_only apply_owner_ok [OF app] row by metis
  then obtain row' where row': "find_approval d' aid = Some row'" "ap_decision row' = Some decision"
    "ap_decided_at row' = Some now" "ap_session_id row' = sid" and ses: "db_sessions d' = db_sessions d1"
    using record_decision_existing [OF rcd] ad decision_kind_of_SomeD [OF dk] sid by auto
  have "row_status d' sid = row_status d1 sid" by (simp add: row_status_def find_session_def ses)
  moreover have "decision_kind_of decision' \<noteq> None \<longrightarrow>
      decide_approval W' k' aid sid decision' u' now' reason' cs' d'
        = (d', Inl (AppError ''ApprovalAlreadyDecidedError''))"
    using row' by (auto simp: decide_approval_def)
  ultimately show ?thesis using dk s st t row' by auto
qed

definition demo_pending_db :: db where
  "demo_pending_db = demo_db\<lparr>db_sessions := [demo_row\<lparr>sr_status := ''awaiting_owner_approval''\<rparr>],
     db_approvals := [demo_approval\<lparr>ap_decision := None, ap_decided_at := None\<rparr>]\<rparr>"

theorem approval_decided_once_witness:
  "\<exists>d' ad. decide_approval demo_world [9] ''p1'' ''s1'' ''deny'' ''alice'' ''2026-01-02T04:00:00Z''
        (Some ''no'') None demo_pending_db = (d', Inr ad)
     \<and> row_status d' ''s1'' = Some ''paused''
     \<and> decide_approval demo_world [9] ''p1'' ''s1'' ''deny'' ''bob'' ''2026-01-02T05:00:00Z'' None None d'
         = (d', Inl (AppError ''ApprovalAlreadyDecidedError''))"
proof -
  let ?x = "decide_approval demo_world [9] ''p1'' ''s1'' ''deny'' ''alice'' ''2026-01-02T04:00:00Z''
        (Some ''no'') None demo_pending_db"
  have "snd ?x = Inr \<lparr>adc_approval_id = ''p1'', adc_session_id = ''s1'', adc_decision = DENY,
      adc_decided_by = ''alice'', adc_decided_at = ''2026-01-02T04:00:00Z'',
      adc_constraints = Some [(''reason'', PStr ''no'')]\<rparr>"
    by code_simp
  then obtain d' ad where x: "?x = (d', Inr ad)" by (cases ?x) auto
  have "decision_kind_of ''deny'' = Some DENY" by code_simp
  with approval_decided_once [OF x, of "''deny''" demo_world "[9]" "''bob''" "''2026-01-02T05:00:00Z''" None None] x
  show ?thesis by auto
qed

text \<open>
  A pending request blocks evaluation: when the only approval on record for a session, agent and
  action class is a request that has not been decided and has not expired, evaluating that action
  against the database raises a \<open>ValidationError\<close> instead of asking for approval.
\<close>

theorem pending_request_blocks_evaluation:
  assumes "filter (eligible_approval sid (card_id c) (action_class_value ac) now) (db_approvals d) = [row]"
    and "ap_decision row = None"
  shows "evaluate_action_for_session c ac ctx sid now d = (d, Inl ValidationError)"
  using assms by (simp add: evaluate_action_for_session_def make_approval_decision_def)

theorem pending_request_blocks_evaluation_witness:
  "evaluate_action_for_session demo_card WORKSPACE_READ [] ''s1'' ''2026-01-02T04:00:00Z'' demo_pending_db
     = (demo_pending_db, Inl ValidationError)"
proof (rule pending_request_blocks_evaluation)
  show "filter (eligible_approval ''s1'' (card_id demo_card) (action_class_value WORKSPACE_READ)
      ''2026-01-02T04:00:00Z'') (db_approvals demo_pending_db)
    = [demo_approval\<lparr>ap_decision := None, ap_decided_at := None\<rparr>]"
    by code_simp
qed simp

end
