(* ===== verification/Kin_Registry.thy ===== *)
theory Kin_Registry
  imports Kin_Ledger
begin

text \<open>
  The local agent registry: availability of an agent (\<open>agent_registry/availability.py\<close>), the loader of
  card files (\<open>agent_registry/loader.py\<close>) and the registry itself (\<open>agent_registry/registry.py\<close>): the
  published projection of a card, the scan of a directory, registration with version tracking, listing,
  lookup, and enabling. A directory is the list of its YAML files in the order the scan sorts them,
  each with its name, its stem and the value \<open>yaml.safe_load\<close> gives (\<open>None\<close> when it raises). The
  keychain and the file system test are fields of the world.
\<close>

section \<open>Availability\<close>

definition get_agent_credential_service :: "string \<Rightarrow> string \<Rightarrow> string \<Rightarrow> string" where
  "get_agent_credential_service profile agent_id purpose =
     ''kin-'' @ profile @ ''-agent-'' @ agent_id @ ''-'' @ purpose"

definition compute_availability ::
  "world \<Rightarrow> agent_card \<Rightarrow> string \<Rightarrow> agent_availability \<Rightarrow> bool \<Rightarrow> agent_availability" where
  "compute_availability W k profile stored_availability enabled =
     (if \<not> enabled then POLICY_BLOCKED
      else case card_adapter k of
        WebhookAdapterConfig url ref \<Rightarrow>
          if w_keyring W (get_agent_credential_service profile (card_id k) ''webhook_secret'')
               ''webhook_secret'' = None
          then NEEDS_KEY else stored_availability
      | LocalCommandAdapterConfig command working_directory \<Rightarrow>
          if \<not> w_is_dir W working_directory then NEEDS_WORKSPACE else stored_availability
      | _ \<Rightarrow> stored_availability)"

section \<open>Card files\<close>

record card_file =
  cf_name :: string
  cf_stem :: string
  cf_yaml :: "pyval option"

definition is_v11_card_file :: "pyval \<Rightarrow> bool" where
  "is_v11_card_file raw =
     (case raw of PDict kvs \<Rightarrow> map_of kvs (PStr ''schema_version'') = Some (PStr ''1.1'') | _ \<Rightarrow> False)"

definition load_card_file ::
  "world \<Rightarrow> card_file \<Rightarrow> string option \<Rightarrow> string option \<Rightarrow> agent_card result" where
  "load_card_file W f expected_agent_id profile_name =
     (case cf_yaml f of
        None \<Rightarrow> Inl (AppError ''CardLoadError'')
      | Some raw \<Rightarrow>
          if \<not> is_v11_card_file raw then Inl (AppError ''CardLoadError'')
          else case Option.bind (as_str_dict raw) (agent_card_validate (w_crypto W)) of
            None \<Rightarrow> Inl (AppError ''CardLoadError'')
          | Some k \<Rightarrow>
              if expected_agent_id \<noteq> None \<and> expected_agent_id \<noteq> Some (card_id k)
              then Inl (AppError ''CardLoadError'')
              else (case (profile_name, card_adapter k) of
                      (Some profile, WebhookAdapterConfig url ref) \<Rightarrow>
                        if ref \<noteq> get_agent_credential_service profile (card_id k) ''webhook_secret''
                        then Inl (AppError ''CardLoadError'') else Inr k
                    | _ \<Rightarrow> Inr k))"

record scan_result =
  sc_valid_cards :: "agent_card list"
  sc_per_file_errors :: "py_error list"
  sc_legacy_skipped :: "string list"

text \<open>One file of the scan; \<open>seen_ids\<close> are the identifiers of the valid cards so far.\<close>

definition scan_file :: "world \<Rightarrow> string option \<Rightarrow> card_file \<Rightarrow> scan_result \<Rightarrow> scan_result" where
  "scan_file W profile_name f r =
     (if \<not> (case cf_yaml f of None \<Rightarrow> False | Some raw \<Rightarrow> is_v11_card_file raw)
      then r\<lparr>sc_legacy_skipped := sc_legacy_skipped r @ [cf_name f]\<rparr>
      else case load_card_file W f (Some (cf_stem f)) profile_name of
        Inl e \<Rightarrow> r\<lparr>sc_per_file_errors := sc_per_file_errors r @ [e]\<rparr>
      | Inr k \<Rightarrow>
          if card_id k \<in> set (map card_id (sc_valid_cards r))
          then r\<lparr>sc_per_file_errors := sc_per_file_errors r @ [AppError ''CardLoadError'']\<rparr>
          else r\<lparr>sc_valid_cards := sc_valid_cards r @ [k]\<rparr>)"

definition scan_local_cards :: "world \<Rightarrow> card_file list \<Rightarrow> string option \<Rightarrow> scan_result" where
  "scan_local_cards W yaml_files profile_name =
     fold (scan_file W profile_name) yaml_files
       \<lparr>sc_valid_cards = [], sc_per_file_errors = [], sc_legacy_skipped = []\<rparr>"

section \<open>The registry\<close>

definition publish_card :: "agent_card \<Rightarrow> published_card" where
  "publish_card k =
     \<lparr>pub_schema_version = ''1.1'', pub_agent_id = card_id k, pub_name = card_name k,
      pub_description = card_description k, pub_capabilities = card_capabilities k,
      pub_availability = READY, pub_requires_owner_acceptance = True, pub_protocol_version = ''1.1''\<rparr>"

fun adapter_type :: "adapter_config \<Rightarrow> string" where
  "adapter_type (EmbeddedAdapterConfig p m) = ''embedded''"
| "adapter_type (WebhookAdapterConfig u r) = ''webhook''"
| "adapter_type (LocalCommandAdapterConfig c w) = ''local_command''"
| "adapter_type (SdkAdapterConfig e) = ''sdk''"

fun adapter_dump :: "adapter_config \<Rightarrow> pydict" where
  "adapter_dump (EmbeddedAdapterConfig p m) =
     [(''type'', PStr ''embedded''), (''provider'', PStr p), (''model'', PStr m)]"
| "adapter_dump (WebhookAdapterConfig u r) =
     [(''type'', PStr ''webhook''), (''webhook_url'', PStr u), (''credential_ref'', PStr r)]"
| "adapter_dump (LocalCommandAdapterConfig c w) =
     [(''type'', PStr ''local_command''), (''command'', PStr c), (''working_directory'', PStr w)]"
| "adapter_dump (SdkAdapterConfig e) = [(''type'', PStr ''sdk''), (''entry_point'', PStr e)]"

definition agent_card_dump :: "agent_card \<Rightarrow> pydict" where
  "agent_card_dump k =
     [(''schema_version'', PStr (card_schema_version k)), (''id'', PStr (card_id k)),
      (''name'', PStr (card_name k)), (''description'', PStr (card_description k)),
      (''adapter'', of_dict (adapter_dump (card_adapter k))),
      (''capabilities'', of_dict (capabilities_dump (card_capabilities k))),
      (''boundaries'', of_dict
         [(''network_access'', PStr (bnd_network_access (card_boundaries k))),
          (''filesystem'', PStr (bnd_filesystem (card_boundaries k))),
          (''shell'', PStr (bnd_shell (card_boundaries k))),
          (''max_runtime_seconds'', PInt (bnd_max_runtime_seconds (card_boundaries k))),
          (''max_artifact_bytes'', PInt (bnd_max_artifact_bytes (card_boundaries k)))]),
      (''autonomy'', of_dict
         [(''relay_information'', PStr (autonomy_value (aut_relay_information (card_autonomy k)))),
          (''propose_actions'', PStr (autonomy_value (aut_propose_actions (card_autonomy k)))),
          (''execute_local_actions'', PStr (autonomy_value (aut_execute_local_actions (card_autonomy k))))]),
      (''presentation'', (case card_presentation k of None \<Rightarrow> PNone | Some p \<Rightarrow> of_dict p))]"

definition get_card :: "string \<Rightarrow> db \<Rightarrow> agent_row option" where
  "get_card agent_id d = find (\<lambda>r. ag_agent_id r = agent_id) (db_agents d)"

definition update_agent :: "string \<Rightarrow> (agent_row \<Rightarrow> agent_row) \<Rightarrow> db \<Rightarrow> db" where
  "update_agent agent_id f d =
     d\<lparr>db_agents := map (\<lambda>r. if ag_agent_id r = agent_id then f r else r) (db_agents d)\<rparr>"

definition target_enabled :: "bool option \<Rightarrow> agent_row option \<Rightarrow> bool" where
  "target_enabled enabled row =
     (case enabled of Some b \<Rightarrow> b | None \<Rightarrow> (case row of None \<Rightarrow> True | Some r \<Rightarrow> ag_enabled r))"

definition registered_pub :: "world \<Rightarrow> agent_card \<Rightarrow> string option \<Rightarrow> bool \<Rightarrow> published_card" where
  "registered_pub W k profile_name en =
     (publish_card k)\<lparr>pub_availability :=
        (case profile_name of
           None \<Rightarrow> pub_availability (publish_card k)
         | Some profile \<Rightarrow> compute_availability W k profile READY en)\<rparr>"

definition register_card ::
  "world \<Rightarrow> bytes \<Rightarrow> agent_card \<Rightarrow> bool option \<Rightarrow> string option \<Rightarrow> db \<Rightarrow> db" where
  "register_card W vault_key k enabled profile_name d =
     (let now_str = w_isoformat W (w_clock W (db_tick d));
          local_card_json = encrypt_field W vault_key (db_tick d) (Some (w_model_json W (agent_card_dump k)));
          row = get_card (card_id k) d;
          en = target_enabled enabled row;
          pub = registered_pub W k profile_name en;
          published_card_json = w_model_json W (published_card_dump pub);
          avail = availability_value (pub_availability pub)
      in tick (case row of
           Some r0 \<Rightarrow>
             update_agent (card_id k)
               (\<lambda>r. r\<lparr>ag_name := card_name k, ag_adapter_type := adapter_type (card_adapter k),
                     ag_local_card_json := local_card_json,
                     ag_published_card_json := Some published_card_json, ag_enabled := en,
                     ag_availability := avail, ag_updated_at := now_str,
                     ag_card_version := ag_card_version r0 + 1\<rparr>) d
         | None \<Rightarrow>
             d\<lparr>db_agents := db_agents d @
               [\<lparr>ag_agent_id = card_id k, ag_name = card_name k,
                 ag_adapter_type = adapter_type (card_adapter k), ag_local_card_json = local_card_json,
                 ag_published_card_json = Some published_card_json, ag_enabled = en,
                 ag_availability = avail, ag_created_at = now_str, ag_updated_at = now_str,
                 ag_card_version = 1\<rparr>]\<rparr>))"

record listed_card =
  lc_agent_id :: string
  lc_name :: string
  lc_adapter_type :: string
  lc_enabled :: bool
  lc_availability :: string
  lc_card_version :: int
  lc_updated_at :: string
  lc_published_card :: pyval
  lc_published_card_json :: "string option"

definition parsed_published :: "world \<Rightarrow> string option \<Rightarrow> pyval" where
  "parsed_published W published_json =
     (if \<not> otruthy published_json then PNone
      else case w_loads W (the published_json) of
        None \<Rightarrow> PStr (the published_json)
      | Some v \<Rightarrow> v)"

definition list_cards :: "world \<Rightarrow> bool \<Rightarrow> db \<Rightarrow> listed_card list" where
  "list_cards W include_disabled d =
     map (\<lambda>r. \<lparr>lc_agent_id = ag_agent_id r, lc_name = ag_name r, lc_adapter_type = ag_adapter_type r,
               lc_enabled = ag_enabled r, lc_availability = ag_availability r,
               lc_card_version = ag_card_version r, lc_updated_at = ag_updated_at r,
               lc_published_card = parsed_published W (ag_published_card_json r),
               lc_published_card_json = ag_published_card_json r\<rparr>)
       (sort_key ag_agent_id (filter (\<lambda>r. include_disabled \<or> ag_enabled r) (db_agents d)))"

text \<open>\<open>AgentCard.model_validate_json\<close>.\<close>

definition agent_card_validate_json :: "world \<Rightarrow> string \<Rightarrow> agent_card option" where
  "agent_card_validate_json W s =
     Option.bind (Option.bind (w_loads W s) as_str_dict) (agent_card_validate (w_crypto W))"

definition set_enabled ::
  "world \<Rightarrow> string \<Rightarrow> bool \<Rightarrow> string option \<Rightarrow> bytes option \<Rightarrow> db \<Rightarrow> db \<times> unit result" where
  "set_enabled W agent_id enabled profile_name vault_key d =
     (let now_str = w_isoformat W (w_clock W (db_tick d));
          base = (if enabled then READY else POLICY_BLOCKED);
          store = (\<lambda>avail. (tick (update_agent agent_id
            (\<lambda>r. r\<lparr>ag_enabled := enabled, ag_availability := availability_value avail,
                  ag_updated_at := now_str\<rparr>) d), Inr ()))
      in case get_card agent_id d of
           None \<Rightarrow> (tick d, Inl ValueError)
         | Some r \<Rightarrow>
             (case (enabled, profile_name, vault_key, ag_local_card_json r) of
                (True, Some profile, Some key, Some enc) \<Rightarrow>
                  (case decrypt_field W key (Some enc) of
                     Inl e \<Rightarrow> (tick d, Inl e)
                   | Inr decrypted \<Rightarrow>
                       if \<not> otruthy decrypted then store base
                       else (case agent_card_validate_json W (the decrypted) of
                               None \<Rightarrow> (tick d, Inl ValidationError)
                             | Some k \<Rightarrow> store (compute_availability W k profile READY True)))
              | _ \<Rightarrow> store base))"

section \<open>Lemmas\<close>

text \<open>A validated card is read back unchanged from its own dump.\<close>

definition rooted_adapter :: "adapter_config \<Rightarrow> bool" where
  "rooted_adapter a = (case a of LocalCommandAdapterConfig c w \<Rightarrow> starts_with ''/'' w | _ \<Rightarrow> True)"

fun wf_adapter :: "adapter_config \<Rightarrow> bool" where
  "wf_adapter (EmbeddedAdapterConfig p m) = True"
| "wf_adapter (WebhookAdapterConfig u r) = (validate_url u = Some u)"
| "wf_adapter (LocalCommandAdapterConfig c w) =
     (validate_command c = Some c \<and> (starts_with ''/'' w \<longrightarrow> validate_working_directory w = Some w))"
| "wf_adapter (SdkAdapterConfig e) = (validate_entry_point e = Some e)"

lemma validate_url_same: "validate_url v = Some w \<Longrightarrow> w = v"
  by (simp add: validate_url_def split: if_splits)

lemma validate_command_same: "validate_command v = Some w \<Longrightarrow> w = v"
  by (simp add: validate_command_def split: if_splits)

lemma validate_entry_point_same: "validate_entry_point v = Some w \<Longrightarrow> w = v"
  by (simp add: validate_entry_point_def split: if_splits)

lemma adapter_validate_wf: "adapter_validate raw = Some a \<Longrightarrow> wf_adapter a"
  unfolding adapter_validate_def
  by (simp only: bind_eq_Some_conv option.distinct option.inject split: if_splits; elim conjE exE)
    (use validate_url_same validate_command_same validate_entry_point_same validate_working_directory_idem
      in \<open>force+\<close>)

lemma adapter_dump_roundtrip:
  assumes "wf_adapter a" and "rooted_adapter a"
  shows "adapter_validate (adapter_dump a) = Some a"
  using assms
  by (cases a) (simp_all add: adapter_validate_def only_keys_def str_field_def as_str_def rooted_adapter_def)

lemma str_list_field_length: "str_list_field raw k = Some ss \<Longrightarrow> length ss \<le> 32"
  by (auto simp: str_list_field_def split: option.splits pyval.splits if_splits)

lemma capabilities_validate_wf: "capabilities_validate raw = Some c \<Longrightarrow> wf_capabilities c"
  by (auto simp: capabilities_validate_def wf_capabilities_def bind_eq_Some_conv validate_tags_def
      validate_accepts_def validate_produces_def dest: str_list_field_length split: if_splits)

lemma autonomy_of_value [simp]: "autonomy_of (autonomy_value a) = Some a"
  by (cases a) (simp_all add: autonomy_of_def AUTONOMY_LEVELS_def)

lemma boundaries_dump_roundtrip:
  assumes "wf_boundaries b" and "\<And>i. c_lax_int C (PInt i) = Some i"
  shows "boundaries_validate C
    [(''network_access'', PStr (bnd_network_access b)), (''filesystem'', PStr (bnd_filesystem b)),
     (''shell'', PStr (bnd_shell b)), (''max_runtime_seconds'', PInt (bnd_max_runtime_seconds b)),
     (''max_artifact_bytes'', PInt (bnd_max_artifact_bytes b))] = Some b"
  using assms
  by (simp add: boundaries_validate_def only_keys_def literal_field_def int_field_def wf_boundaries_def)

lemma autonomy_dump_roundtrip:
  "autonomy_validate
    [(''relay_information'', PStr (autonomy_value (aut_relay_information a))),
     (''propose_actions'', PStr (autonomy_value (aut_propose_actions a))),
     (''execute_local_actions'', PStr (autonomy_value (aut_execute_local_actions a)))] = Some a"
  by (simp add: autonomy_validate_def only_keys_def autonomy_field_def as_str_def)

lemma card_dump_roundtrip:
  assumes k: "agent_card_validate C raw = Some k" and ad: "rooted_adapter (card_adapter k)"
    and lax: "\<And>i. c_lax_int C (PInt i) = Some i"
  shows "agent_card_validate C (agent_card_dump k) = Some k"
proof -
  from k obtain rad rcp rbd where
    parts: "card_schema_version k = ''1.1''" "validate_id (card_id k) = Some (card_id k)"
      "validate_name (card_name k) = Some (card_name k)"
      "validate_description (card_description k) = Some (card_description k)"
      "adapter_validate rad = Some (card_adapter k)"
      "capabilities_validate rcp = Some (card_capabilities k)"
      "boundaries_validate C rbd = Some (card_boundaries k)"
    unfolding agent_card_validate_def
    by (auto simp: bind_eq_Some_conv validate_id_def validate_name_def validate_description_def
        validate_literal_def split: if_splits)
  note rt = adapter_dump_roundtrip [OF adapter_validate_wf [OF parts(5)] ad]
    capabilities_roundtrip [OF capabilities_validate_wf [OF parts(6)]]
    boundaries_dump_roundtrip [OF boundaries_validate_wf [OF parts(7)] lax] autonomy_dump_roundtrip
  have pr: "optional_dict_field (agent_card_dump k) ''presentation'' = Some (card_presentation k)"
    by (cases "card_presentation k") (simp_all add: optional_dict_field_def agent_card_dump_def of_dict_def
        as_str_dict_def)
  show ?thesis
    unfolding agent_card_validate_def pr
    by (simp add: agent_card_dump_def only_keys_def AGENT_CARD_FIELDS_def str_field_def as_str_def
        dict_field_def validate_literal_def parts rt)
qed

lemma get_card_update_agent:
  assumes "\<And>r. ag_agent_id (f r) = ag_agent_id r"
  shows "get_card a (update_agent b f d) = (if a = b then map_option f (get_card a d) else get_card a d)"
proof -
  have "find (\<lambda>r. ag_agent_id r = a) (map (\<lambda>r. if ag_agent_id r = b then f r else r) rs) =
      (if a = b then map_option f (find (\<lambda>r. ag_agent_id r = a) rs) else find (\<lambda>r. ag_agent_id r = a) rs)"
    for rs by (induction rs) (auto simp: assms)
  then show ?thesis by (simp add: get_card_def update_agent_def)
qed

lemma get_card_tick [simp]: "get_card a (tick d) = get_card a d"
  by (simp add: get_card_def tick_def)

lemma get_card_snoc:
  "get_card a (d\<lparr>db_agents := db_agents d @ [r]\<rparr>) =
     (case get_card a d of Some q \<Rightarrow> Some q | None \<Rightarrow> if ag_agent_id r = a then Some r else None)"
  by (simp add: get_card_def find_snoc)

lemma register_card_row:
  "\<exists>row. get_card (card_id k) (register_card W key k enabled profile d) = Some row
    \<and> ag_local_card_json row = encrypt_field W key (db_tick d) (Some (w_model_json W (agent_card_dump k)))
    \<and> ag_published_card_json row = Some (w_model_json W (published_card_dump
        (registered_pub W k profile (target_enabled enabled (get_card (card_id k) d)))))
    \<and> ag_card_version row = (case get_card (card_id k) d of None \<Rightarrow> 1 | Some r \<Rightarrow> ag_card_version r + 1)
    \<and> ag_enabled row = target_enabled enabled (get_card (card_id k) d)"
  by (cases "get_card (card_id k) d")
    (simp_all add: register_card_def Let_def get_card_snoc get_card_update_agent)

lemma register_card_others:
  "a \<noteq> card_id k \<Longrightarrow> get_card a (register_card W key k enabled profile d) = get_card a d"
  by (simp add: register_card_def Let_def get_card_update_agent get_card_snoc split: option.split)

lemma insort_key_map: "insort_key f (g x) (map g xs) = map g (insort_key (f \<circ> g) x xs)"
  by (induction xs) simp_all

lemma sort_key_map: "sort_key f (map g xs) = map g (sort_key (f \<circ> g) xs)"
  by (induction xs) (simp_all add: insort_key_map comp_def)

text \<open>A listing does not read the encrypted card.\<close>

definition listed :: "world \<Rightarrow> agent_row \<Rightarrow> listed_card" where
  "listed W r = \<lparr>lc_agent_id = ag_agent_id r, lc_name = ag_name r, lc_adapter_type = ag_adapter_type r,
     lc_enabled = ag_enabled r, lc_availability = ag_availability r, lc_card_version = ag_card_version r,
     lc_updated_at = ag_updated_at r, lc_published_card = parsed_published W (ag_published_card_json r),
     lc_published_card_json = ag_published_card_json r\<rparr>"

lemma list_cards_listed:
  "list_cards W inc d =
     sort_key lc_agent_id (filter (\<lambda>c. inc \<or> lc_enabled c) (map (listed W) (db_agents d)))"
proof -
  have "sort_key lc_agent_id (filter (\<lambda>c. inc \<or> lc_enabled c) (map (listed W) rs)) =
      map (listed W) (sort_key ag_agent_id (filter (\<lambda>r. inc \<or> ag_enabled r) rs))" for rs
    by (simp add: filter_map sort_key_map comp_def listed_def)
  then show ?thesis by (simp add: list_cards_def listed_def)
qed

text \<open>What a scan accounts for.\<close>

definition scan_total :: "scan_result \<Rightarrow> nat" where
  "scan_total r = length (sc_valid_cards r) + length (sc_per_file_errors r) + length (sc_legacy_skipped r)"

definition scan_inv :: "world \<Rightarrow> string option \<Rightarrow> card_file list \<Rightarrow> scan_result \<Rightarrow> bool" where
  "scan_inv W profile_name fs r =
     (distinct (map card_id (sc_valid_cards r)) \<and> scan_total r = length fs
      \<and> (\<forall>k \<in> set (sc_valid_cards r). \<exists>f \<in> set fs. cf_stem f = card_id k
            \<and> load_card_file W f (Some (card_id k)) profile_name = Inr k))"

lemma load_card_file_id: "load_card_file W f (Some a) p = Inr k \<Longrightarrow> card_id k = a"
  by (auto simp: load_card_file_def split: option.splits if_splits adapter_config.splits)

lemma scan_file_inv:
  assumes "scan_inv W p fs r"
  shows "scan_inv W p (fs @ [f]) (scan_file W p f r)"
proof (cases "case cf_yaml f of None \<Rightarrow> False | Some raw \<Rightarrow> is_v11_card_file raw")
  case False
  with assms show ?thesis by (auto simp: scan_inv_def scan_file_def scan_total_def)
next
  case True
  show ?thesis
  proof (cases "load_card_file W f (Some (cf_stem f)) p")
    case (Inl e)
    with True assms show ?thesis by (auto simp: scan_inv_def scan_file_def scan_total_def)
  next
    case (Inr k)
    with True assms load_card_file_id [OF Inr] show ?thesis
      by (cases "card_id k \<in> set (map card_id (sc_valid_cards r))")
        (fastforce simp: scan_inv_def scan_file_def scan_total_def)+
  qed
qed

lemma scan_fold_inv:
  "scan_inv W p gs r \<Longrightarrow> scan_inv W p (gs @ fs) (fold (scan_file W p) fs r)"
proof (induction fs arbitrary: gs r)
  case (Cons f fs)
  from Cons.IH [OF scan_file_inv [OF Cons.prems]] show ?case by simp
qed simp

section \<open>Properties\<close>

text \<open>
  Registration round trip: registering a validated card stores it encrypted so that the vault key
  reads back exactly the card, publishes exactly the public projection of the card with its computed
  availability, counts the version up by one from 1, keeps the owner's enabled flag unless one is
  given, and leaves every other agent alone. The hypotheses are the correctness of AES-GCM, that JSON
  text parses to what was dumped, and that pydantic accepts integers and Booleans as themselves.
\<close>

theorem registered_card_roundtrip:
  assumes aes: "aes_correct W key" and k: "agent_card_validate (w_crypto W) raw = Some k"
    and root: "rooted_adapter (card_adapter k)"
    and lax: "\<And>i. c_lax_int (w_crypto W) (PInt i) = Some i" "\<And>b. c_lax_bool (w_crypto W) (PBool b) = Some b"
    and json: "w_loads W (w_model_json W (agent_card_dump k)) = Some (of_dict (agent_card_dump k))"
      "\<And>a p. p = (publish_card k)\<lparr>pub_availability := a\<rparr> \<Longrightarrow>
         w_loads W (w_model_json W (published_card_dump p)) = Some (of_dict (published_card_dump p))"
    and d': "d' = register_card W key k enabled profile d"
  shows "\<exists>row s t. get_card (card_id k) d' = Some row
    \<and> decrypt_field W key (ag_local_card_json row) = Inr (Some s) \<and> agent_card_validate_json W s = Some k
    \<and> ag_published_card_json row = Some t
    \<and> Option.bind (Option.bind (w_loads W t) as_str_dict) (published_card_validate (w_crypto W))
        = Some ((publish_card k)\<lparr>pub_availability :=
            (case profile of None \<Rightarrow> READY
             | Some p \<Rightarrow> compute_availability W k p READY (ag_enabled row))\<rparr>)
    \<and> ag_card_version row = (case get_card (card_id k) d of None \<Rightarrow> 1 | Some r \<Rightarrow> ag_card_version r + 1)
    \<and> ag_enabled row = (case (enabled, get_card (card_id k) d) of
          (Some b, _) \<Rightarrow> b | (None, None) \<Rightarrow> True | (None, Some r) \<Rightarrow> ag_enabled r)
    \<and> (\<forall>a. a \<noteq> card_id k \<longrightarrow> get_card a d' = get_card a d)"
proof -
  let ?en = "target_enabled enabled (get_card (card_id k) d)"
  let ?pub = "registered_pub W k profile ?en"
  obtain row where row: "get_card (card_id k) d' = Some row"
      "ag_local_card_json row = encrypt_field W key (db_tick d) (Some (w_model_json W (agent_card_dump k)))"
      "ag_published_card_json row = Some (w_model_json W (published_card_dump ?pub))"
      "ag_card_version row = (case get_card (card_id k) d of None \<Rightarrow> 1 | Some r \<Rightarrow> ag_card_version r + 1)"
      "ag_enabled row = ?en"
    using register_card_row unfolding d' by blast
  have "wf_capabilities (card_capabilities k)"
    using k capabilities_validate_wf unfolding agent_card_validate_def
    by (auto simp: bind_eq_Some_conv split: if_splits)
  then have "published_card_validate (w_crypto W) (published_card_dump ?pub) = Some ?pub"
    by (intro published_card_roundtrip) (simp_all add: publish_card_def registered_pub_def lax)
  moreover have "?pub = (publish_card k)\<lparr>pub_availability := (case profile of None \<Rightarrow> READY
      | Some p \<Rightarrow> compute_availability W k p READY (ag_enabled row))\<rparr>"
    by (cases profile) (simp_all add: registered_pub_def row(5) publish_card_def)
  ultimately have pub: "Option.bind (Option.bind (w_loads W (w_model_json W (published_card_dump ?pub))) as_str_dict)
      (published_card_validate (w_crypto W)) = Some ((publish_card k)\<lparr>pub_availability :=
        (case profile of None \<Rightarrow> READY | Some p \<Rightarrow> compute_availability W k p READY (ag_enabled row))\<rparr>)"
    using json(2) [OF registered_pub_def [of W k profile ?en]]
    by (simp only: as_str_dict_of_dict bind.simps)
  have "agent_card_validate_json W (w_model_json W (agent_card_dump k)) = Some k"
    by (simp add: agent_card_validate_json_def json(1) card_dump_roundtrip [OF k root lax(1)])
  moreover have "ag_enabled row = (case (enabled, get_card (card_id k) d) of
          (Some b, _) \<Rightarrow> b | (None, None) \<Rightarrow> True | (None, Some r) \<Rightarrow> ag_enabled r)"
    using row(5) by (simp add: target_enabled_def split: option.split)
  ultimately show ?thesis
    using row(1,3,4) pub register_card_others decrypt_encrypt_field [OF aes]
    by (intro exI [of _ row] exI [of _ "w_model_json W (agent_card_dump k)"] exI conjI) (simp_all add: row(2) d')
qed

definition demo_registry_world :: world where
  "demo_registry_world = demo_world
     \<lparr>w_model_json := (\<lambda>m. if map_of m ''id'' \<noteq> None then ''card''
         else case dget m ''availability'' of PStr s \<Rightarrow> s | _ \<Rightarrow> []),
      w_loads := (\<lambda>s. Some (of_dict (if s = ''card'' then agent_card_dump demo_card
         else published_card_dump ((publish_card demo_card)\<lparr>pub_availability := the (availability_of s)\<rparr>))))\<rparr>"

lemma demo_registry_json:
  "w_loads demo_registry_world (w_model_json demo_registry_world (agent_card_dump demo_card))
     = Some (of_dict (agent_card_dump demo_card))"
  "p = (publish_card demo_card)\<lparr>pub_availability := a\<rparr> \<Longrightarrow>
     w_loads demo_registry_world (w_model_json demo_registry_world (published_card_dump p))
       = Some (of_dict (published_card_dump p))"
proof -
  show "w_loads demo_registry_world (w_model_json demo_registry_world (agent_card_dump demo_card))
      = Some (of_dict (agent_card_dump demo_card))"
    by (simp add: demo_registry_world_def agent_card_dump_def)
  have "availability_value a \<noteq> ''card''" by (cases a) simp_all
  then show "p = (publish_card demo_card)\<lparr>pub_availability := a\<rparr> \<Longrightarrow>
     w_loads demo_registry_world (w_model_json demo_registry_world (published_card_dump p))
       = Some (of_dict (published_card_dump p))"
    by (simp add: demo_registry_world_def published_card_dump_def dget_def publish_card_def)
qed

theorem registered_card_roundtrip_witness:
  "\<exists>row. get_card ''a1'' (register_card demo_registry_world [9] demo_card None (Some ''me'') (empty_db ''me''))
       = Some row \<and> ag_card_version row = 1 \<and> ag_enabled row"
proof -
  let ?d = "register_card demo_registry_world [9] demo_card None (Some ''me'') (empty_db ''me'')"
  have aes: "aes_correct demo_registry_world [9]"
    using demo_world_aes by (simp add: aes_correct_def demo_registry_world_def)
  have c: "w_crypto demo_registry_world = demo_crypto" by (simp add: demo_registry_world_def demo_world_def)
  have v: "agent_card_validate (w_crypto demo_registry_world) demo_card_dict = Some demo_card"
    unfolding c by code_simp
  have lax: "c_lax_int (w_crypto demo_registry_world) (PInt i) = Some i"
      "c_lax_bool (w_crypto demo_registry_world) (PBool b) = Some b" for i b
    by (simp_all add: c demo_crypto_def)
  have ad: "rooted_adapter (card_adapter demo_card)" and id: "card_id demo_card = ''a1''"
    by (simp_all add: rooted_adapter_def demo_card_def)
  have g: "get_card ''a1'' (empty_db ''me'') = None" by (simp add: get_card_def empty_db_def)
  from registered_card_roundtrip [OF aes v ad lax demo_registry_json(1) _ refl,
      where enabled = None and profile = "Some ''me''" and d = "empty_db ''me''"] demo_registry_json(2)
  obtain row where "get_card (card_id demo_card) ?d = Some row"
      "ag_card_version row = (case get_card (card_id demo_card) (empty_db ''me'') of None \<Rightarrow> 1 | Some r \<Rightarrow> ag_card_version r + 1)"
      "ag_enabled row = (case (None, get_card (card_id demo_card) (empty_db ''me'')) of
          (Some b, _) \<Rightarrow> b | (None, None) \<Rightarrow> True | (None, Some r) \<Rightarrow> ag_enabled r)"
    by blast
  then show ?thesis by (simp add: id g)
qed

text \<open>
  Listings show no private field: two cards with the same identifier, name, description,
  capabilities and adapter type, and the same availability, give the same listing of the registry after
  registration, whatever their adapter details, boundaries, autonomy and presentation are.
\<close>

theorem listing_hides_private_fields:
  assumes "card_id k' = card_id k" and "card_name k' = card_name k"
    and "card_description k' = card_description k" and "card_capabilities k' = card_capabilities k"
    and "adapter_type (card_adapter k') = adapter_type (card_adapter k)"
    and "\<And>p en. compute_availability W k' p READY en = compute_availability W k p READY en"
  shows "list_cards W inc (register_card W key k' enabled profile d) =
         list_cards W inc (register_card W key k enabled profile d)"
proof -
  have "publish_card k' = publish_card k" using assms by (simp add: publish_card_def)
  then have "map (listed W) (db_agents (register_card W key k' enabled profile d)) =
      map (listed W) (db_agents (register_card W key k enabled profile d))"
    using assms by (simp add: register_card_def registered_pub_def Let_def update_agent_def tick_def listed_def split: option.split)
  then show ?thesis by (simp add: list_cards_listed)
qed

theorem listing_hides_private_fields_witness:
  "list_cards demo_world True (register_card demo_world [9]
       (demo_card\<lparr>card_boundaries := (card_boundaries demo_card)\<lparr>bnd_shell := ''approval_required''\<rparr>\<rparr>)
       None None (empty_db ''me''))
   = list_cards demo_world True (register_card demo_world [9] demo_card None None (empty_db ''me''))"
  by (rule listing_hides_private_fields) (simp_all add: demo_card_def compute_availability_def)

text \<open>
  A scan accounts for every file: the valid cards of a scan have distinct identifiers, each is loaded
  from a file whose stem is its identifier, and every file is counted once, as a card, an error or a
  skipped legacy file.
\<close>

theorem scan_accounts_for_every_file:
  "scan_inv W profile files (scan_local_cards W files profile)"
proof -
  let ?r = "\<lparr>sc_valid_cards = [], sc_per_file_errors = [], sc_legacy_skipped = []\<rparr>"
  have "scan_inv W profile [] ?r" by (simp add: scan_inv_def scan_total_def)
  from scan_fold_inv [OF this, of files] show ?thesis by (simp add: scan_local_cards_def)
qed

end
