(* ===== verification/Kin_Adapters.thy ===== *)
theory Kin_Adapters
  imports Kin_Policy Kin_Registry
begin

text \<open>
  What an agent adapter is given and may return, and the security validation of its output:
  \<open>kin-node/kin/adapters/base.py\<close>. An adapter itself (a model call, a webhook, a process) is a parameter of
  the orchestrator. The regular expression for secrets is written out as a search for one of its six
  alternatives at some position; the dump of a response is walked for the names of scratchpad
  fields at any depth.
\<close>

section \<open>Requests and responses\<close>

record input_item =
  in_kind :: string
  in_content :: "string option"
  in_ref :: "string option"

record history_item =
  hi_kind :: string
  hi_actor :: string
  hi_content :: string

record adapter_request =
  rq_session_id :: string
  rq_session_type :: string
  rq_turn :: int
  rq_self_agent_id :: string
  rq_self_card :: agent_card
  rq_peer_person :: string
  rq_peer_agent_id :: string
  rq_objective :: string
  rq_inputs :: "input_item list"
  rq_history :: "history_item list"
  rq_local_policy :: "(string \<times> string) list"

datatype adapter_event =
    AdapterActivityEvent (ev_label: string)
  | AdapterApprovalEvent (ev_approval_request: approval_request)
  | AdapterErrorEvent (ev_code: string) (ev_message: string)

datatype artifact_body = TextBody string | BytesBody bytes

record adapter_artifact_item =
  ai_path_or_bytes :: artifact_body
  ai_mime_type :: string

record adapter_message =
  am_kind :: message_kind
  am_content :: string

record adapter_error_info =
  ae_code :: string
  ae_message :: string

record adapter_response =
  rsp_events :: "adapter_event list"
  rsp_message :: "adapter_message option"
  rsp_artifacts :: "adapter_artifact_item list"
  rsp_terminal :: bool
  rsp_error :: "adapter_error_info option"

fun event_kind_of :: "adapter_event \<Rightarrow> string" where
  "event_kind_of (AdapterActivityEvent label) = ''activity''"
| "event_kind_of (AdapterApprovalEvent req) = ''approval_request''"
| "event_kind_of (AdapterErrorEvent code msg) = ''error''"

section \<open>Capability declarations\<close>

fun allowed_action_classes :: "adapter_config \<Rightarrow> action_class list" where
  "allowed_action_classes (EmbeddedAdapterConfig p m) =
     [INFORMATIONAL_RELAY, SESSION_PARTICIPATION, ARTIFACT_RECEIPT]"
| "allowed_action_classes (WebhookAdapterConfig u r) =
     [INFORMATIONAL_RELAY, SESSION_PARTICIPATION, ARTIFACT_RECEIPT]"
| "allowed_action_classes (LocalCommandAdapterConfig c w) =
     [INFORMATIONAL_RELAY, SESSION_PARTICIPATION, ARTIFACT_RECEIPT, WORKSPACE_READ, WORKSPACE_WRITE,
      SHELL_NETWORK_EXTERNAL]"
| "allowed_action_classes (SdkAdapterConfig e) =
     [INFORMATIONAL_RELAY, SESSION_PARTICIPATION, ARTIFACT_RECEIPT]"

definition allowed_event_kinds :: "string list" where
  "allowed_event_kinds = [''activity'', ''approval_request'', ''error'']"

text \<open>The first event the declaration of the adapter type does not cover, as the audit payload that names it.\<close>

fun capability_violation :: "adapter_config \<Rightarrow> adapter_event list \<Rightarrow> pydict option" where
  "capability_violation a [] = None"
| "capability_violation a (ev # evs) =
     (if event_kind_of ev \<notin> set allowed_event_kinds
      then Some [(''adapter_type'', PStr (adapter_type a)), (''disallowed_event'', PStr (event_kind_of ev))]
      else case ev of
        AdapterApprovalEvent req \<Rightarrow>
          if arq_action_class req \<notin> set (allowed_action_classes a)
          then Some [(''adapter_type'', PStr (adapter_type a)),
                     (''disallowed_action_class'', PStr (action_class_value (arq_action_class req)))]
          else capability_violation a evs
      | _ \<Rightarrow> capability_violation a evs)"

section \<open>Scratchpad fields\<close>

definition FORBIDDEN_REASONING_KEYS :: "string list" where
  "FORBIDDEN_REASONING_KEYS =
     [''reasoning'', ''thinking'', ''chain_of_thought'', ''scratchpad'', ''internal_notes'']"

text \<open>\<open>_check_keys\<close>: the first forbidden key; a key that is not a string has no \<open>lower\<close>.\<close>

fun check_keys :: "pyval \<Rightarrow> string option result"
  and check_entries :: "(pyval \<times> pyval) list \<Rightarrow> string option result"
  and check_items :: "pyval list \<Rightarrow> string option result" where
  "check_keys (PDict kvs) = check_entries kvs"
| "check_keys (PList xs) = check_items xs"
| "check_keys PNone = Inr None"
| "check_keys (PBool b) = Inr None"
| "check_keys (PInt i) = Inr None"
| "check_keys (PFloat f) = Inr None"
| "check_keys (PStr s) = Inr None"
| "check_keys (PObj c) = Inr None"
| "check_entries [] = Inr None"
| "check_entries ((k, v) # kvs) =
     (case k of
        PStr s \<Rightarrow>
          if map to_lower s \<in> set FORBIDDEN_REASONING_KEYS then Inr (Some s)
          else (case check_keys v of Inr None \<Rightarrow> check_entries kvs | r \<Rightarrow> r)
      | _ \<Rightarrow> Inl (AppError ''AttributeError''))"
| "check_items [] = Inr None"
| "check_items (x # xs) = (case check_keys x of Inr None \<Rightarrow> check_items xs | r \<Rightarrow> r)"

definition scratchpad_reason :: "string \<Rightarrow> string" where
  "scratchpad_reason key =
     ''Response contains forbidden scratchpad/chain-of-thought key '' @ CHR 0x27 # key @ [CHR 0x27, CHR ''.'']"

text \<open>\<open>response.model_dump(mode="python")\<close>; values that are neither containers nor text are objects.\<close>

definition request_dump :: "approval_request \<Rightarrow> pydict" where
  "request_dump rq =
     [(''schema_version'', PStr ''1.1''), (''approval_id'', PStr (arq_approval_id rq)),
      (''session_id'', PStr (arq_session_id rq)), (''agent_id'', PStr (arq_agent_id rq)),
      (''action_class'', PObj ''ActionClass''), (''summary'', PObj ''str''), (''reason'', PObj ''str''),
      (''risk_label'', PObj ''RiskLabel''), (''requested_scope'', of_dict (arq_requested_scope rq)),
      (''expires_at'', PStr (arq_expires_at rq))]"

fun event_dump :: "adapter_event \<Rightarrow> pydict" where
  "event_dump (AdapterActivityEvent label) = [(''event_kind'', PStr ''activity''), (''label'', PStr label)]"
| "event_dump (AdapterApprovalEvent req) =
     [(''event_kind'', PStr ''approval_request''), (''approval_request'', of_dict (request_dump req))]"
| "event_dump (AdapterErrorEvent code msg) =
     [(''event_kind'', PStr ''error''), (''code'', PStr code), (''message'', PStr msg)]"

definition response_dump :: "adapter_response \<Rightarrow> pydict" where
  "response_dump r =
     [(''schema_version'', PStr ''1.1''), (''protocol_version'', PStr ''1.1''),
      (''events'', PList (map (of_dict \<circ> event_dump) (rsp_events r))),
      (''message'', (case rsp_message r of None \<Rightarrow> PNone
         | Some m \<Rightarrow> of_dict [(''kind'', PObj ''MessageKind''), (''content'', PStr (am_content m))])),
      (''artifacts'', PList (map (\<lambda>a. of_dict
         [(''path_or_bytes'', (case ai_path_or_bytes a of TextBody s \<Rightarrow> PStr s | BytesBody bs \<Rightarrow> PObj ''bytes'')),
          (''mime_type'', PStr (ai_mime_type a))]) (rsp_artifacts r))),
      (''terminal'', PBool (rsp_terminal r)),
      (''error'', (case rsp_error r of None \<Rightarrow> PNone
         | Some e \<Rightarrow> of_dict [(''code'', PStr (ae_code e)), (''message'', PStr (ae_message e))]))]"

section \<open>Secrets\<close>

text \<open>The six alternatives of \<open>SECRET_PATTERN_REGEX\<close> on text in lower case, at the start of a string.\<close>

definition skip_separator :: "string \<Rightarrow> string" where
  "skip_separator s = (case s of ch # rest \<Rightarrow> if ch \<in> set ''_-'' then rest else s | [] \<Rightarrow> [])"

definition word_pair :: "string \<Rightarrow> string \<Rightarrow> string \<Rightarrow> bool" where
  "word_pair a b s = (starts_with a s \<and> starts_with b (skip_separator (drop (length a) s)))"

definition at_least_run :: "nat \<Rightarrow> (char \<Rightarrow> bool) \<Rightarrow> string \<Rightarrow> bool" where
  "at_least_run n P s = (length s \<ge> n \<and> list_all P (take n s))"

definition bearer_token :: "string \<Rightarrow> bool" where
  "bearer_token s =
     (starts_with ''bearer'' s
      \<and> (let rest = drop 6 s in
         rest \<noteq> [] \<and> is_space (hd rest)
         \<and> at_least_run 20 (\<lambda>ch. is_alnum ch \<or> ch \<in> set ''_-.'') (dropWhile is_space rest)))"

definition live_key :: "string \<Rightarrow> bool" where
  "live_key s = (case s of
      c1 # c2 # c3 # rest \<Rightarrow>
        c1 = CHR ''s'' \<and> c2 = CHR ''k'' \<and> c3 \<in> set ''_-'' \<and> starts_with ''live'' rest
        \<and> (case drop 4 rest of c4 # tail \<Rightarrow> c4 \<in> set ''_-'' \<and> at_least_run 24 is_alnum tail | [] \<Rightarrow> False)
    | _ \<Rightarrow> False)"

definition secret_at :: "string \<Rightarrow> bool" where
  "secret_at s =
     (word_pair ''api'' ''key'' s \<or> word_pair ''secret'' ''key'' s \<or> word_pair ''access'' ''token'' s
      \<or> bearer_token s \<or> live_key s
      \<or> (starts_with ''ghp_'' s \<and> at_least_run 36 is_alnum (drop 4 s)))"

fun search_from :: "(string \<Rightarrow> bool) \<Rightarrow> string \<Rightarrow> bool" where
  "search_from p [] = p []"
| "search_from p (ch # s) = (p (ch # s) \<or> search_from p s)"

definition contains_secret :: "string \<Rightarrow> bool" where
  "contains_secret s = search_from secret_at (map to_lower s)"

definition output_text :: "adapter_response \<Rightarrow> string" where
  "output_text r =
     (case rsp_message r of None \<Rightarrow> [] | Some m \<Rightarrow> am_content m)
     @ concat (map (\<lambda>ev. case ev of AdapterActivityEvent label \<Rightarrow> CHR '' '' # label | _ \<Rightarrow> []) (rsp_events r))"

section \<open>Validation\<close>

definition reject_output :: "world \<Rightarrow> bytes \<Rightarrow> string \<Rightarrow> string \<Rightarrow> pydict \<Rightarrow> db \<Rightarrow> db \<times> bool result" where
  "reject_output W vault_key session_id actor note d =
     (if vault_key \<noteq> [] \<and> session_id \<noteq> []
      then then_do (write_audit_event W vault_key ''security_rejection'' (Some session_id) (Some actor)
                      (of_dict note) None d) (\<lambda>_ d. (d, Inr False))
      else (d, Inr False))"

definition validate_adapter_output ::
  "world \<Rightarrow> bytes \<Rightarrow> string \<Rightarrow> adapter_response \<Rightarrow> agent_card \<Rightarrow> db \<Rightarrow> db \<times> bool result" where
  "validate_adapter_output W vault_key session_id response c d =
     (case capability_violation (card_adapter c) (rsp_events response) of
        Some note \<Rightarrow> reject_output W vault_key session_id (card_id c) note d
      | None \<Rightarrow>
        (case check_keys (of_dict (response_dump response)) of
           Inl e \<Rightarrow> (d, Inl e)
         | Inr (Some key) \<Rightarrow>
             reject_output W vault_key session_id (card_id c) [(''reason'', PStr (scratchpad_reason key))] d
         | Inr None \<Rightarrow>
             if contains_secret (output_text response)
             then reject_output W vault_key session_id (card_id c)
                    [(''reason'', PStr ''secret_leakage_detected'')] d
             else (case rsp_message response of
                     None \<Rightarrow> (d, Inr True)
                   | Some m \<Rightarrow>
                       if am_kind m \<in> set [CANCEL, APPROVAL_DECISION]
                       then reject_output W vault_key session_id (card_id c)
                              [(''kind'', PStr (message_kind_value (am_kind m)))] d
                       else (d, Inr True))))"

section \<open>Lemmas\<close>

lemma starts_with_length: "starts_with pre s \<Longrightarrow> length pre \<le> length s"
  by (metis starts_with_def length_take min.cobounded1)

lemma starts_with_append: "starts_with pre s \<Longrightarrow> starts_with pre (s @ b)"
  using starts_with_length [of pre s] by (simp add: starts_with_def)

lemma at_least_run_append: "at_least_run n P s \<Longrightarrow> at_least_run n P (s @ b)"
  by (simp add: at_least_run_def)

lemma word_pair_append:
  assumes "word_pair x y s" "y \<noteq> []"
  shows "word_pair x y (s @ b)"
proof -
  have n: "length x \<le> length s" using assms(1) by (auto simp: word_pair_def dest: starts_with_length)
  have "skip_separator (drop (length x) s) \<noteq> []"
    using assms by (auto simp: word_pair_def starts_with_def)
  then have "skip_separator (drop (length x) s @ b) = skip_separator (drop (length x) s) @ b"
    by (auto simp: skip_separator_def split: list.splits)
  with assms n show ?thesis by (simp add: word_pair_def starts_with_append)
qed

lemma bearer_append: "bearer_token s \<Longrightarrow> bearer_token (s @ b)"
proof -
  assume h: "bearer_token s"
  let ?rest = "drop 6 s"
  have "length ''bearer'' \<le> length s" using h by (auto simp: bearer_token_def dest: starts_with_length)
  then have d: "drop 6 (s @ b) = ?rest @ b" by simp
  have "20 \<le> length (dropWhile is_space ?rest)"
    using h by (simp add: bearer_token_def at_least_run_def Let_def)
  then have "dropWhile is_space ?rest \<noteq> []" by (metis list.size(3) not_numeral_le_zero)
  then have "dropWhile is_space (?rest @ b) = dropWhile is_space ?rest @ b"
    by (metis dropWhile_append1 dropWhile_eq_Nil_conv)
  with h d show ?thesis
    by (auto simp: bearer_token_def Let_def starts_with_append at_least_run_append)
qed

lemma live_key_append:
  assumes "live_key s"
  shows "live_key (s @ b)"
proof -
  obtain c1 c2 c3 rest c4 t where s: "s = c1 # c2 # c3 # rest" and t: "drop 4 rest = c4 # t"
    and r: "c1 = CHR ''s''" "c2 = CHR ''k''" "c3 \<in> set ''_-''" "starts_with ''live'' rest" "c4 \<in> set ''_-''"
      "at_least_run 24 is_alnum t"
    using assms by (auto simp: live_key_def split: list.splits)
  have "drop 4 (rest @ b) = c4 # t @ b" using t by (cases "4 \<le> length rest") auto
  with r s show ?thesis by (auto simp: live_key_def starts_with_append at_least_run_append)
qed

lemma secret_at_append: "secret_at s \<Longrightarrow> secret_at (s @ b)"
proof -
  have "starts_with ''ghp_'' s \<Longrightarrow> drop 4 (s @ b) = drop 4 s @ b" by (auto dest: starts_with_length)
  then show "secret_at s \<Longrightarrow> secret_at (s @ b)"
    by (auto simp: secret_at_def word_pair_append bearer_append live_key_append starts_with_append at_least_run_append)
qed

lemma search_from_iff: "search_from p s \<longleftrightarrow> (\<exists>i \<le> length s. p (drop i s))"
proof (induction s)
  case (Cons ch s)
  have "(\<exists>i \<le> length (ch # s). p (drop i (ch # s))) \<longleftrightarrow> p (ch # s) \<or> (\<exists>i \<le> length s. p (drop i s))"
    by (metis Suc_le_mono drop0 drop_Suc_Cons length_Cons not0_implies_Suc zero_le)
  with Cons show ?case by simp
qed simp

text \<open>A text without a secret has none in any of its parts.\<close>

lemma secret_part:
  assumes "contains_secret s"
  shows "contains_secret (a @ s @ b)"
proof -
  obtain i where i: "i \<le> length s" "secret_at (drop i (map to_lower s))"
    using assms by (auto simp: contains_secret_def search_from_iff)
  then have "secret_at (drop (length a + i) (map to_lower (a @ s @ b)))"
    using secret_at_append [of "drop i (map to_lower s)" "map to_lower b"] by simp
  with i(1) show ?thesis unfolding contains_secret_def search_from_iff
    by (intro exI [of _ "length a + i"]) simp
qed

text \<open>The string keys of a value, at any depth.\<close>

fun value_keys :: "pyval \<Rightarrow> string list" where
  "value_keys (PDict kvs) =
     concat (map (\<lambda>(k, v). (case k of PStr s \<Rightarrow> [s] | _ \<Rightarrow> []) @ value_keys v) kvs)"
| "value_keys (PList xs) = concat (map value_keys xs)"
| "value_keys v = []"

lemma check_keys_none:
  "check_keys v = Inr None \<Longrightarrow> k \<in> set (value_keys v) \<Longrightarrow> map to_lower k \<notin> set FORBIDDEN_REASONING_KEYS"
  "check_entries kvs = Inr None \<Longrightarrow> k \<in> set (value_keys (PDict kvs)) \<Longrightarrow> map to_lower k \<notin> set FORBIDDEN_REASONING_KEYS"
  "check_items xs = Inr None \<Longrightarrow> k \<in> set (value_keys (PList xs)) \<Longrightarrow> map to_lower k \<notin> set FORBIDDEN_REASONING_KEYS"
proof (induction v and kvs and xs rule: check_keys_check_entries_check_items.induct)
  case (10 key v kvs)
  from "10.prems"(1) obtain s where s: "key = PStr s" "map to_lower s \<notin> set FORBIDDEN_REASONING_KEYS"
    "check_keys v = Inr None" "check_entries kvs = Inr None"
    by (auto split: pyval.splits if_splits sum.splits option.splits)
  note ih = "10.IH"(1) [OF s(1,2,3)] "10.IH"(2) [OF s(1,2,3) refl s(4)]
  from "10.prems"(2) s(1) have "k = s \<or> k \<in> set (value_keys v) \<or> k \<in> set (value_keys (PDict kvs))" by auto
  with s(2) ih show ?case by blast
next
  case (12 x xs)
  then show ?case by (auto split: sum.splits option.splits)
qed simp_all

lemma keys_of_dict:
  "(k, v) \<in> set m \<Longrightarrow> k \<in> set (value_keys (of_dict m))"
  "(k, v) \<in> set m \<Longrightarrow> key \<in> set (value_keys v) \<Longrightarrow> key \<in> set (value_keys (of_dict m))"
  by (force simp: of_dict_def)+

lemma scope_keys_dumped:
  assumes "AdapterApprovalEvent rq \<in> set (rsp_events r)" "key \<in> set (value_keys (of_dict (arq_requested_scope rq)))"
  shows "key \<in> set (value_keys (of_dict (response_dump r)))"
proof -
  have "key \<in> set (value_keys (of_dict (request_dump rq)))"
    by (rule keys_of_dict(2) [OF _ assms(2), of "''requested_scope''"]) (simp add: request_dump_def)
  then have "key \<in> set (value_keys (of_dict (event_dump (AdapterApprovalEvent rq))))"
    by (rule keys_of_dict(2) [of "''approval_request''", rotated]) simp
  with assms(1) have "key \<in> set (value_keys (PList (map (of_dict \<circ> event_dump) (rsp_events r))))" by force
  then show ?thesis
    by (rule keys_of_dict(2) [of "''events''", rotated]) (simp add: response_dump_def)
qed

lemma capability_covered:
  "capability_violation a evs = None \<Longrightarrow> AdapterApprovalEvent rq \<in> set evs \<Longrightarrow> arq_action_class rq \<in> set (allowed_action_classes a)"
  by (induction evs) (auto split: if_splits adapter_event.splits)

lemma reject_not_valid: "reject_output W k sid actor note d \<noteq> (d', Inr True)"
  by (auto simp: reject_output_def then_do_def split: prod.splits sum.splits)

lemma output_text_parts:
  "rsp_message r = Some m \<Longrightarrow> \<exists>b. output_text r = am_content m @ b"
  "AdapterActivityEvent label \<in> set (rsp_events r) \<Longrightarrow> \<exists>a b. output_text r = a @ label @ b"
proof -
  assume "AdapterActivityEvent label \<in> set (rsp_events r)"
  then obtain xs ys where "rsp_events r = xs @ AdapterActivityEvent label # ys" by (meson split_list)
  then have "output_text r = ((case rsp_message r of None \<Rightarrow> [] | Some m \<Rightarrow> am_content m)
      @ concat (map (\<lambda>ev. case ev of AdapterActivityEvent l \<Rightarrow> CHR '' '' # l | _ \<Rightarrow> []) xs) @ [CHR '' ''])
      @ label @ concat (map (\<lambda>ev. case ev of AdapterActivityEvent l \<Rightarrow> CHR '' '' # l | _ \<Rightarrow> []) ys)"
    by (simp add: output_text_def)
  then show "\<exists>a b. output_text r = a @ label @ b" by blast
qed (auto simp: output_text_def)

lemma validated_output:
  assumes "validate_adapter_output W k sid r c d = (d', Inr True)"
  shows "d' = d \<and> capability_violation (card_adapter c) (rsp_events r) = None
    \<and> check_keys (of_dict (response_dump r)) = Inr None \<and> \<not> contains_secret (output_text r)
    \<and> (\<forall>m. rsp_message r = Some m \<longrightarrow> am_kind m \<notin> {CANCEL, APPROVAL_DECISION})"
  using assms reject_not_valid
  by (auto simp: validate_adapter_output_def split: option.splits sum.splits if_splits)

section \<open>Properties\<close>

text \<open>
  Validated output is clean: when \<open>validate_adapter_output\<close> lets a response pass, it wrote nothing,
  every approval the adapter asks for is of an action class its type declares, no scope it
  requests has a scratchpad field at any depth, neither its message nor any activity label has an API
  key or token anywhere, and the message is not of a kind reserved to owners.
\<close>

theorem validated_output_clean:
  assumes "validate_adapter_output W k sid r c d = (d', Inr True)"
  shows "d' = d
    \<and> (\<forall>rq. AdapterApprovalEvent rq \<in> set (rsp_events r) \<longrightarrow>
         arq_action_class rq \<in> set (allowed_action_classes (card_adapter c))
         \<and> (\<forall>key \<in> set (value_keys (of_dict (arq_requested_scope rq))).
              map to_lower key \<notin> set FORBIDDEN_REASONING_KEYS))
    \<and> (\<forall>m. rsp_message r = Some m \<longrightarrow>
         \<not> contains_secret (am_content m) \<and> am_kind m \<notin> {CANCEL, APPROVAL_DECISION})
    \<and> (\<forall>label. AdapterActivityEvent label \<in> set (rsp_events r) \<longrightarrow> \<not> contains_secret label)"
proof -
  note v = validated_output [OF assms]
  have "\<not> contains_secret (am_content m)" if "rsp_message r = Some m" for m
    using v output_text_parts(1) [OF that] secret_part [of "am_content m" "[]"] by auto
  moreover have "\<not> contains_secret label" if "AdapterActivityEvent label \<in> set (rsp_events r)" for label
    using v output_text_parts(2) [OF that] secret_part [of label] by metis
  ultimately show ?thesis
    using v capability_covered check_keys_none(1) [OF _ scope_keys_dumped] by fastforce
qed

definition demo_response :: adapter_response where
  "demo_response = \<lparr>rsp_events = [AdapterActivityEvent ''reading''],
     rsp_message = Some \<lparr>am_kind = PROPOSAL, am_content = ''done''\<rparr>, rsp_artifacts = [],
     rsp_terminal = False, rsp_error = None\<rparr>"

theorem validated_output_clean_witness:
  "validate_adapter_output demo_world [9] ''s1'' demo_response demo_card demo_db = (demo_db, Inr True)
   \<and> \<not> contains_secret ''done''"
proof -
  have c: "capability_violation (card_adapter demo_card) (rsp_events demo_response) = None"
    "check_keys (of_dict (response_dump demo_response)) = Inr None"
    "contains_secret (output_text demo_response) = False" by code_simp+
  then have v: "validate_adapter_output demo_world [9] ''s1'' demo_response demo_card demo_db = (demo_db, Inr True)"
    unfolding validate_adapter_output_def by (simp add: demo_response_def)
  from validated_output_clean [OF v] v show ?thesis by (simp add: demo_response_def)
qed

end
