(* ===== verification/Kin_History.thy ===== *)
theory Kin_History
  imports Kin_Transitions
begin

text \<open>
  Session history of \<open>kin-node/kin/session/history.py\<close>: checkpoints and decisions as local events of the
  append-only ledger, deterministic replay with a digest, the idempotent outcome card of a finished
  session, and fresh-authority reruns. JSON read back from the ledger is whatever the parser returns;
  subscripting it and building the pydantic records are written out with the exceptions they raise.
\<close>

section \<open>Reading events back\<close>

definition json_loads :: "world \<Rightarrow> string \<Rightarrow> pyval result" where
  "json_loads W s = (case w_loads W s of None \<Rightarrow> Inl ValueError | Some v \<Rightarrow> Inr v)"

text \<open>\<open>json.loads(decrypt_field(key, enc) or "{}")\<close>.\<close>

definition load_payload :: "world \<Rightarrow> bytes \<Rightarrow> string option \<Rightarrow> pyval result" where
  "load_payload W vault_key enc =
     (case decrypt_field W vault_key enc of
        Inl e \<Rightarrow> Inl e
      | Inr x \<Rightarrow> json_loads W (or_text x ''{}''))"

text \<open>\<open>payload[k]\<close> and \<open>payload.get(k)\<close> on a parsed JSON value.\<close>

definition subscript :: "pyval \<Rightarrow> string \<Rightarrow> pyval result" where
  "subscript v k =
     (case as_str_dict v of
        None \<Rightarrow> Inl TypeError
      | Some m \<Rightarrow> (case map_of m k of None \<Rightarrow> Inl KeyError | Some x \<Rightarrow> Inr x))"

definition get_attr :: "pyval \<Rightarrow> string \<Rightarrow> pyval result" where
  "get_attr v k =
     (case as_str_dict v of None \<Rightarrow> Inl (AppError ''AttributeError'') | Some m \<Rightarrow> Inr (dget m k))"

definition load_event :: "world \<Rightarrow> bytes \<Rightarrow> string \<Rightarrow> db \<Rightarrow> (int \<times> pyval \<times> string) result" where
  "load_event W vault_key event_id d =
     (case find (\<lambda>r. er_event_id r = event_id) (db_events d) of
        None \<Rightarrow> Inl RuntimeError
      | Some row \<Rightarrow>
          (case load_payload W vault_key (er_payload_json row) of
             Inl e \<Rightarrow> Inl e
           | Inr payload \<Rightarrow> Inr (er_event_order row, payload, er_created_at row)))"

section \<open>Checkpoints and decisions\<close>

record checkpoint_record =
  cp_checkpoint_id :: string
  cp_session_id :: string
  cp_event_order :: int
  cp_created_by :: string
  cp_label :: string
  cp_snapshot :: pydict
  cp_created_at :: string

text \<open>The append that the four operations share: a local event without a sequence number.\<close>

definition append_local_event ::
  "world \<Rightarrow> bytes \<Rightarrow> string \<Rightarrow> string \<Rightarrow> internal_event_kind \<Rightarrow> pydict \<Rightarrow> db \<Rightarrow> db \<times> string result" where
  "append_local_event W vault_key session_id actor kind payload d =
     (case append_session_event W vault_key session_id actor None (internal_event_kind_value kind)
             ''local_only'' (of_dict payload) None None d of
        (d', Inl e) \<Rightarrow> (d', Inl e)
      | (d', Inr (Appended event_id n)) \<Rightarrow> (d', Inr event_id)
      | (d', Inr (DuplicateEvent event_id)) \<Rightarrow> (d', Inr event_id)
      | (d', Inr (RejectedEvent code)) \<Rightarrow> (d', Inl KeyError))"

definition create_checkpoint ::
  "world \<Rightarrow> bytes \<Rightarrow> string \<Rightarrow> string \<Rightarrow> string \<Rightarrow> pydict option \<Rightarrow> db \<Rightarrow> db \<times> checkpoint_record result" where
  "create_checkpoint W vault_key session_id created_by label snapshot d =
     (if find_session d session_id = None then (d, Inl ValueError)
      else if strip label = [] then (d, Inl ValueError)
      else case append_local_event W vault_key session_id created_by CHECKPOINT
               [(''content'', PStr (strip label)), (''label'', PStr (strip label)),
                (''snapshot'', of_dict (case snapshot of None \<Rightarrow> [] | Some m \<Rightarrow> m))] d of
        (d', Inl e) \<Rightarrow> (d', Inl e)
      | (d', Inr event_id) \<Rightarrow>
          (d', case load_event W vault_key event_id d' of
                 Inl e \<Rightarrow> Inl e
               | Inr (order, payload, created_at) \<Rightarrow>
                   (case (subscript payload ''label'', get_attr payload ''snapshot'') of
                      (Inl e, _) \<Rightarrow> Inl e
                    | (_, Inl e) \<Rightarrow> Inl e
                    | (Inr lb, Inr sn) \<Rightarrow>
                        (case (as_str lb, as_str_dict (if truthy sn then sn else PDict [])) of
                           (Some l, Some m) \<Rightarrow>
                             if order < 0 then Inl ValidationError
                             else Inr \<lparr>cp_checkpoint_id = event_id, cp_session_id = session_id,
                                       cp_event_order = order, cp_created_by = created_by,
                                       cp_label = l, cp_snapshot = m, cp_created_at = created_at\<rparr>
                         | _ \<Rightarrow> Inl ValidationError))))"

record decision_record =
  dr_decision_id :: string
  dr_session_id :: string
  dr_event_order :: int
  dr_decided_by :: string
  dr_summary :: string
  dr_rationale :: string
  dr_checkpoint_id :: "string option"
  dr_created_at :: string

definition opt_str :: "string option \<Rightarrow> pyval" where
  "opt_str x = (case x of None \<Rightarrow> PNone | Some s \<Rightarrow> PStr s)"

definition checkpoint_belongs :: "db \<Rightarrow> string \<Rightarrow> string \<Rightarrow> bool" where
  "checkpoint_belongs d session_id cid =
     list_ex (\<lambda>r. er_event_id r = cid \<and> er_session_id r = session_id
        \<and> er_kind r = internal_event_kind_value CHECKPOINT) (db_events d)"

definition decision_from_payload ::
  "string \<Rightarrow> string \<Rightarrow> string \<Rightarrow> int \<Rightarrow> pyval \<Rightarrow> string \<Rightarrow> decision_record result" where
  "decision_from_payload event_id session_id decided_by order payload created_at =
     (case (subscript payload ''summary'', get_attr payload ''rationale'', get_attr payload ''checkpoint_id'') of
        (Inl e, _, _) \<Rightarrow> Inl e
      | (_, Inl e, _) \<Rightarrow> Inl e
      | (_, _, Inl e) \<Rightarrow> Inl e
      | (Inr sm, Inr ra, Inr ci) \<Rightarrow>
          (case (as_str sm, as_str (if truthy ra then ra else PStr []), validate_optional_str (Some ci)) of
             (Some s, Some r, Some c) \<Rightarrow>
               if order < 0 then Inl ValidationError
               else Inr \<lparr>dr_decision_id = event_id, dr_session_id = session_id, dr_event_order = order,
                         dr_decided_by = decided_by, dr_summary = s, dr_rationale = r,
                         dr_checkpoint_id = c, dr_created_at = created_at\<rparr>
           | _ \<Rightarrow> Inl ValidationError))"

definition create_decision ::
  "world \<Rightarrow> bytes \<Rightarrow> string \<Rightarrow> string \<Rightarrow> string \<Rightarrow> string \<Rightarrow> string option \<Rightarrow> db
   \<Rightarrow> db \<times> decision_record result" where
  "create_decision W vault_key session_id decided_by summary rationale checkpoint_id d =
     (if find_session d session_id = None then (d, Inl ValueError)
      else if strip summary = [] then (d, Inl ValueError)
      else if (case checkpoint_id of None \<Rightarrow> False | Some cid \<Rightarrow> \<not> checkpoint_belongs d session_id cid)
      then (d, Inl ValueError)
      else case append_local_event W vault_key session_id decided_by DECISION
               [(''content'', PStr (strip summary)), (''summary'', PStr (strip summary)),
                (''rationale'', PStr (strip rationale)), (''checkpoint_id'', opt_str checkpoint_id)] d of
        (d', Inl e) \<Rightarrow> (d', Inl e)
      | (d', Inr event_id) \<Rightarrow>
          (d', case load_event W vault_key event_id d' of
                 Inl e \<Rightarrow> Inl e
               | Inr (order, payload, created_at) \<Rightarrow>
                   decision_from_payload event_id session_id decided_by order payload created_at))"

section \<open>Replay\<close>

record replay_snapshot =
  rs_session_id :: string
  rs_through_event_order :: "int option"
  rs_event_count :: int
  rs_events :: "pydict list"
  rs_digest :: string

definition replayed :: "string \<Rightarrow> int option \<Rightarrow> event_row \<Rightarrow> bool" where
  "replayed session_id through r =
     (er_session_id r = session_id
      \<and> (case through of None \<Rightarrow> True | Some n \<Rightarrow> er_event_order r \<le> n)
      \<and> er_kind r \<noteq> internal_event_kind_value PRIVATE_NOTE
      \<and> (er_visibility r \<noteq> ''local_only''
         \<or> er_kind r \<in> set (map internal_event_kind_value [CHECKPOINT, DECISION, OUTCOME])))"

definition replay_event :: "world \<Rightarrow> bytes \<Rightarrow> event_row \<Rightarrow> pydict result" where
  "replay_event W vault_key r =
     (case (if otruthy (er_payload_json r) then load_payload W vault_key (er_payload_json r)
            else Inr (PDict [])) of
        Inl e \<Rightarrow> Inl e
      | Inr payload \<Rightarrow>
          Inr [(''event_order'', PInt (er_event_order r)),
               (''sequence'', (case er_sequence r of None \<Rightarrow> PNone | Some i \<Rightarrow> PInt i)),
               (''actor_username'', PStr (er_actor_username r)),
               (''actor_agent_id'', opt_str (er_actor_agent_id r)),
               (''kind'', PStr (er_kind r)), (''visibility'', PStr (er_visibility r)),
               (''payload'', payload), (''signature'', opt_str (er_signature r)),
               (''created_at'', PStr (er_created_at r))])"

fun replay_events :: "world \<Rightarrow> bytes \<Rightarrow> event_row list \<Rightarrow> pydict list result" where
  "replay_events W vault_key [] = Inr []"
| "replay_events W vault_key (r # rs) =
     (case replay_event W vault_key r of
        Inl e \<Rightarrow> Inl e
      | Inr ev \<Rightarrow> (case replay_events W vault_key rs of Inl e \<Rightarrow> Inl e | Inr evs \<Rightarrow> Inr (ev # evs)))"

definition replay_session :: "world \<Rightarrow> bytes \<Rightarrow> string \<Rightarrow> int option \<Rightarrow> db \<Rightarrow> replay_snapshot result" where
  "replay_session W vault_key session_id through d =
     (if find_session d session_id = None then Inl ValueError
      else case replay_events W vault_key
                  (sort_key er_event_order (filter (replayed session_id through) (db_events d))) of
        Inl e \<Rightarrow> Inl e
      | Inr events \<Rightarrow>
          (case w_dumps_compact W (PList (map of_dict events)) of
             None \<Rightarrow> Inl TypeError
           | Some canonical \<Rightarrow>
               Inr \<lparr>rs_session_id = session_id, rs_through_event_order = through,
                    rs_event_count = int (length events), rs_events = events,
                    rs_digest = sha256_hex W (utf8_encode canonical)\<rparr>))"

section \<open>Outcome cards\<close>

record outcome_card =
  oc_outcome_id :: string
  oc_session_id :: string
  oc_event_order :: int
  oc_status :: string
  oc_summary :: string
  oc_evidence_event_count :: int
  oc_replay_digest :: string
  oc_created_at :: string

definition outcome_from_payload ::
  "world \<Rightarrow> string \<Rightarrow> string \<Rightarrow> int \<Rightarrow> pyval \<Rightarrow> string \<Rightarrow> outcome_card result" where
  "outcome_from_payload W event_id session_id order payload created_at =
     (case (subscript payload ''status'', subscript payload ''summary'',
            subscript payload ''evidence_event_count'', subscript payload ''replay_digest'') of
        (Inr st, Inr sm, Inr ec, Inr dg) \<Rightarrow>
          (case (as_str st, as_str sm, c_lax_int (w_crypto W) ec, as_str dg) of
             (Some s, Some m, Some c, Some g) \<Rightarrow>
               if order < 0 \<or> c < 0 then Inl ValidationError
               else Inr \<lparr>oc_outcome_id = event_id, oc_session_id = session_id, oc_event_order = order,
                         oc_status = s, oc_summary = m, oc_evidence_event_count = c,
                         oc_replay_digest = g, oc_created_at = created_at\<rparr>
           | _ \<Rightarrow> Inl ValidationError)
      | (Inl e, _, _, _) \<Rightarrow> Inl e
      | (_, Inl e, _, _) \<Rightarrow> Inl e
      | (_, _, Inl e, _) \<Rightarrow> Inl e
      | (_, _, _, Inl e) \<Rightarrow> Inl e)"

text \<open>\<open>ORDER BY event_order DESC LIMIT 1\<close>.\<close>

definition last_outcome_row :: "db \<Rightarrow> string \<Rightarrow> event_row option" where
  "last_outcome_row d session_id =
     (case rev (sort_key er_event_order
        (filter (\<lambda>r. er_kind r = internal_event_kind_value OUTCOME) (session_events_of d session_id))) of
        [] \<Rightarrow> None | r # rs \<Rightarrow> Some r)"

definition get_outcome_card :: "world \<Rightarrow> bytes \<Rightarrow> string \<Rightarrow> db \<Rightarrow> outcome_card option result" where
  "get_outcome_card W vault_key session_id d =
     (case last_outcome_row d session_id of
        None \<Rightarrow> Inr None
      | Some row \<Rightarrow>
          (case load_payload W vault_key (er_payload_json row) of
             Inl e \<Rightarrow> Inl e
           | Inr payload \<Rightarrow>
               (case outcome_from_payload W (er_event_id row) session_id (er_event_order row) payload
                       (er_created_at row) of
                  Inl e \<Rightarrow> Inl e
                | Inr oc \<Rightarrow> Inr (Some oc))))"

definition outcome_text :: "string \<Rightarrow> string \<Rightarrow> string" where
  "outcome_text summary status =
     (if strip summary = [] then ''Session ended with status '' @ status @ ''.'' else strip summary)"

definition create_outcome_card ::
  "world \<Rightarrow> bytes \<Rightarrow> string \<Rightarrow> string \<Rightarrow> db \<Rightarrow> db \<times> outcome_card result" where
  "create_outcome_card W vault_key session_id summary d =
     (case get_outcome_card W vault_key session_id d of
        Inl e \<Rightarrow> (d, Inl e)
      | Inr (Some existing) \<Rightarrow> (d, Inr existing)
      | Inr None \<Rightarrow>
        (case find_session d session_id of
           None \<Rightarrow> (d, Inl ValueError)
         | Some row \<Rightarrow>
           if sr_status row \<notin> set TERMINAL_STATES then (d, Inl ValueError)
           else (case replay_session W vault_key session_id None d of
             Inl e \<Rightarrow> (d, Inl e)
           | Inr replay \<Rightarrow>
             (case append_local_event W vault_key session_id ''system'' OUTCOME
                     [(''content'', PStr (outcome_text summary (sr_status row))),
                      (''summary'', PStr (outcome_text summary (sr_status row))),
                      (''status'', PStr (sr_status row)),
                      (''evidence_event_count'', PInt (rs_event_count replay)),
                      (''replay_digest'', PStr (rs_digest replay))] d of
                (d', Inl e) \<Rightarrow> (d', Inl e)
              | (d', Inr event_id) \<Rightarrow>
                  (d', case load_event W vault_key event_id d' of
                         Inl e \<Rightarrow> Inl e
                       | Inr (order, payload, created_at) \<Rightarrow>
                           outcome_from_payload W event_id session_id order payload created_at)))))"

section \<open>Reruns\<close>

record rerun =
  rn_source_session_id :: string
  rn_rerun_session_id :: string
  rn_created_by :: string
  rn_created_at :: string

text \<open>\<open>_utc_now\<close>: \<open>isoformat().replace("+00:00", "Z")\<close> of a UTC time.\<close>

definition utc_now :: "world \<Rightarrow> int \<Rightarrow> string" where
  "utc_now W t = (let res = w_isoformat W t in
     if ends_with ''+00:00'' res then take (length res - 6) res @ ''Z'' else res)"

definition fresh_rerun_id :: "world \<Rightarrow> nat \<Rightarrow> string" where
  "fresh_rerun_id W n = ''sess_rerun_'' @ take 16 (filter (\<lambda>ch. ch \<noteq> CHR ''-'') (w_uuid W n))"

definition create_fresh_authority_rerun ::
  "world \<Rightarrow> bytes \<Rightarrow> string \<Rightarrow> string \<Rightarrow> string option \<Rightarrow> int \<Rightarrow> db \<Rightarrow> db \<times> rerun result" where
  "create_fresh_authority_rerun W vault_key source_session_id created_by rerun_session_id now d =
     (case find_session d source_session_id of
        None \<Rightarrow> (d, Inl ValueError)
      | Some row \<Rightarrow>
        (let new_id = or_text rerun_session_id (fresh_rerun_id W (db_tick d));
             created_at = utc_now W now
         in case decrypt_field_or_plaintext W vault_key (sr_objective row) of
              Inl e \<Rightarrow> (tick d, Inl e)
            | Inr objective \<Rightarrow>
              if find_session d new_id \<noteq> None then (tick d, Inl IntegrityError)
              else (let copy = row\<lparr>sr_session_id := new_id, sr_status := ''draft'',
                          sr_objective := encrypt_field W vault_key (db_tick d) objective,
                          sr_cumulative_artifact_bytes := 0, sr_cumulative_cost_estimate := 0, sr_created_at := created_at,
                          sr_updated_at := created_at, sr_expires_at := None\<rparr>;
                        d1 = tick (d\<lparr>db_sessions := db_sessions d @ [copy]\<rparr>)
                    in case append_local_event W vault_key new_id created_by RERUN_CREATED
                              [(''source_session_id'', PStr source_session_id),
                               (''fresh_authority'', PBool True)] d1 of
                         (d2, Inl e) \<Rightarrow> (d2, Inl e)
                       | (d2, Inr _) \<Rightarrow>
                           (case write_audit_event W vault_key ''fresh_authority_rerun'' (Some new_id)
                                   (Some created_by)
                                   (of_dict [(''source_session_id'', PStr source_session_id),
                                             (''carried_approval_count'', PInt 0)]) (Some new_id) d2 of
                              (d3, Inl e) \<Rightarrow> (d3, Inl e)
                            | (d3, Inr _) \<Rightarrow>
                                (d3, Inr \<lparr>rn_source_session_id = source_session_id,
                                          rn_rerun_session_id = new_id, rn_created_by = created_by,
                                          rn_created_at = created_at\<rparr>)))))"

section \<open>Lemmas\<close>

lemma append_local_event_cases:
  assumes "append_local_event W k sid actor kind p d = (d', r)"
  shows "(\<exists>e. r = Inl e \<and> same_tables d d') \<or>
    (\<exists>s. payload_text W (of_dict p) = Inr s \<and> find_session d sid \<noteq> None
       \<and> same_tables (d\<lparr>db_events := db_events d @ [new_event_row W k sid actor None
            (internal_event_kind_value kind) ''local_only'' s None None d]\<rparr>) d'
       \<and> r = Inr (w_uuid W (db_tick d)))"
proof -
  obtain q where q: "insert_session_event W k sid actor None (internal_event_kind_value kind)
      ''local_only'' (of_dict p) None None d = (d', q)"
    and r: "r = (case q of Inl e \<Rightarrow> Inl e | Inr (Appended i n) \<Rightarrow> Inr i | Inr (DuplicateEvent i) \<Rightarrow> Inr i
        | Inr (RejectedEvent c) \<Rightarrow> Inl KeyError)"
    using assms by (auto simp: append_local_event_def append_session_event_def
        split: prod.splits sum.splits append_result.splits)
  from insert_session_event_cases [OF q] show ?thesis
  proof
    assume "\<exists>e. q = Inl e \<and> same_tables d d'"
    with r show ?thesis by auto
  next
    assume "\<exists>s pd. payload_text W (of_dict p) = Inr s \<and> find_session d sid \<noteq> None
       \<and> session_event_ok (next_event_order d sid) None (internal_event_kind_value kind) ''local_only'' pd
            (w_isoformat W (w_clock W (db_tick d)))
       \<and> same_tables (d\<lparr>db_events := db_events d @ [new_event_row W k sid actor None
            (internal_event_kind_value kind) ''local_only'' s None None d]\<rparr>) d'
       \<and> q = Inr (Appended (w_uuid W (db_tick d)) (next_event_order d sid))"
    with r show ?thesis by auto
  qed
qed

lemma replay_session_same:
  assumes "db_sessions d' = db_sessions d"
    and "filter (replayed sid th) (db_events d') = filter (replayed sid th) (db_events d)"
  shows "replay_session W k sid th d' = replay_session W k sid th d"
  using assms by (simp add: replay_session_def find_session_def)

lemma same_tables_replay: "same_tables d d' \<Longrightarrow> replay_session W k sid th d' = replay_session W k sid th d"
  by (intro replay_session_same) (simp_all add: same_tables_def)

lemma last_outcome_None:
  "last_outcome_row d sid = None \<longleftrightarrow>
   filter (\<lambda>r. er_kind r = internal_event_kind_value OUTCOME) (session_events_of d sid) = []"
proof -
  have "sort_key f xs = [] \<longleftrightarrow> xs = []" for f :: "event_row \<Rightarrow> int" and xs
    by (metis length_0_conv length_sort)
  moreover have "(case zs of [] \<Rightarrow> None | r # rs \<Rightarrow> Some r) = None \<longleftrightarrow> zs = []" for zs :: "event_row list"
    by (cases zs) auto
  ultimately show ?thesis unfolding last_outcome_row_def by simp
qed

lemma last_outcome_single:
  "filter (\<lambda>r. er_kind r = internal_event_kind_value OUTCOME) (session_events_of d sid) = [row] \<Longrightarrow>
   last_outcome_row d sid = Some row"
  by (simp add: last_outcome_row_def)

lemma find_event_snoc:
  "\<forall>r \<in> set (db_events d). er_event_id r \<noteq> er_event_id row \<Longrightarrow>
   find (\<lambda>r. er_event_id r = er_event_id row) (db_events d @ [row]) = Some row"
proof -
  assume "\<forall>r \<in> set (db_events d). er_event_id r \<noteq> er_event_id row"
  then have "find (\<lambda>r. er_event_id r = er_event_id row) (db_events d) = None"
    by (simp add: find_None_iff)
  then show ?thesis by (simp add: find_snoc)
qed

text \<open>What a first outcome card leaves behind is what the next read returns.\<close>

lemma created_outcome_is_read:
  assumes fresh: "\<forall>r \<in> set (db_events d). er_event_id r \<noteq> w_uuid W (db_tick d)"
    and none: "get_outcome_card W k sid d = Inr None"
    and "create_outcome_card W k sid summary d = (d', Inr oc)"
  shows "get_outcome_card W k sid d' = Inr (Some oc)"
proof -
  have no: "filter (\<lambda>r. er_kind r = internal_event_kind_value OUTCOME) (session_events_of d sid) = []"
    using none last_outcome_None [of d sid]
    by (auto simp: get_outcome_card_def split: option.splits sum.splits)
  from assms(2,3) obtain p d1 i where app: "append_local_event W k sid ''system'' OUTCOME p d = (d1, Inr i)"
    and d1: "d' = d1"
    and oc: "(case load_event W k i d1 of Inl e \<Rightarrow> Inl e | Inr (order, payload, created_at) \<Rightarrow>
      outcome_from_payload W i sid order payload created_at) = Inr oc"
    by (auto simp: create_outcome_card_def split: option.splits if_splits sum.splits prod.splits)
  from append_local_event_cases [OF app] obtain s where i: "i = w_uuid W (db_tick d)"
    and same: "same_tables (d\<lparr>db_events := db_events d @ [new_event_row W k sid ''system'' None
            (internal_event_kind_value OUTCOME) ''local_only'' s None None d]\<rparr>) d1"
    by auto
  let ?row = "new_event_row W k sid ''system'' None (internal_event_kind_value OUTCOME) ''local_only'' s None None d"
  have ev: "db_events d1 = db_events d @ [?row]" using same by (simp add: same_tables_def)
  have "session_events_of d1 sid = session_events_of d sid @ [?row]"
    by (simp add: session_events_of_def ev)
  then have last: "last_outcome_row d' sid = Some ?row"
    using no d1 by (intro last_outcome_single) simp
  have "find (\<lambda>r. er_event_id r = i) (db_events d1) = Some ?row"
    using find_event_snoc [of d ?row] fresh by (simp add: ev i)
  with oc last i show ?thesis
    by (auto simp: load_event_def get_outcome_card_def split: sum.splits)
qed

section \<open>Properties\<close>

text \<open>
  Private notes stay out of the evidence: a replay, and with it the digest an outcome card records,
  is unchanged by appending a private note, or any local-only event that is not a checkpoint, decision
  or outcome, to the same or another session.
\<close>

theorem replay_ignores_private_events:
  assumes "append_session_event W k sid' un ag kind vis p sg sq d = (d', r)"
    and "kind = internal_event_kind_value PRIVATE_NOTE \<or> (vis = ''local_only''
          \<and> kind \<notin> set (map internal_event_kind_value [CHECKPOINT, DECISION, OUTCOME]))"
  shows "replay_session W k sid through d' = replay_session W k sid through d"
proof -
  have "replay_session W k sid through d' = replay_session W k sid through d"
    if ins: "insert_session_event W k sid' un ag kind vis p sg sq d = (d', r)"
    using insert_session_event_cases [OF ins]
  proof
    assume "\<exists>e. r = Inl e \<and> same_tables d d'"
    then show ?thesis by (auto simp: same_tables_replay)
  next
    assume "\<exists>s pd. payload_text W p = Inr s \<and> find_session d sid' \<noteq> None
       \<and> session_event_ok (next_event_order d sid') sq kind vis pd (w_isoformat W (w_clock W (db_tick d)))
       \<and> same_tables (d\<lparr>db_events := db_events d @ [new_event_row W k sid' un ag kind vis s sg sq d]\<rparr>) d'
       \<and> r = Inr (Appended (w_uuid W (db_tick d)) (next_event_order d sid'))"
    then obtain s where same: "same_tables (d\<lparr>db_events := db_events d
        @ [new_event_row W k sid' un ag kind vis s sg sq d]\<rparr>) d'" by blast
    have "\<not> replayed sid through (new_event_row W k sid' un ag kind vis s sg sq d)"
      using assms(2) by (auto simp: replayed_def new_event_row_def)
    with same show ?thesis by (intro replay_session_same) (simp_all add: same_tables_def)
  qed
  with append_session_event_cases [OF assms(1)] show ?thesis by (auto simp: same_tables_replay)
qed

theorem replay_ignores_private_events_witness:
  "replay_session demo_world [9] ''s1'' None
     (fst (append_session_event demo_world [9] ''s1'' ''alice'' None ''private_note'' ''local_only''
        (PStr ''secret'') None None demo_db))
   = replay_session demo_world [9] ''s1'' None demo_db"
proof -
  let ?x = "append_session_event demo_world [9] ''s1'' ''alice'' None ''private_note'' ''local_only''
      (PStr ''secret'') None None demo_db"
  have "?x = (fst ?x, snd ?x)" by simp
  from replay_ignores_private_events [OF this] show ?thesis by simp
qed

text \<open>
  One outcome per session: after \<open>create_outcome_card\<close> has returned a card, calling it again, with
  any summary, returns the same card and changes nothing. The hypothesis is that the identifier drawn
  for the event is not yet in use.
\<close>

theorem outcome_card_idempotent:
  assumes "\<forall>r \<in> set (db_events d). er_event_id r \<noteq> w_uuid W (db_tick d)"
    and "create_outcome_card W k sid summary d = (d', Inr oc)"
  shows "create_outcome_card W k sid summary' d' = (d', Inr oc)"
proof (cases "get_outcome_card W k sid d")
  case (Inl e)
  with assms(2) show ?thesis by (simp add: create_outcome_card_def)
next
  case (Inr x)
  show ?thesis
  proof (cases x)
    case None
    with Inr have "get_outcome_card W k sid d' = Inr (Some oc)"
      using created_outcome_is_read [OF assms(1) _ assms(2)] by simp
    then show ?thesis by (simp add: create_outcome_card_def)
  next
    case (Some y)
    with Inr assms(2) show ?thesis by (simp add: create_outcome_card_def)
  qed
qed

definition demo_done_db :: db where
  "demo_done_db = demo_db\<lparr>db_sessions := [demo_row\<lparr>sr_status := ''completed''\<rparr>]\<rparr>"

definition demo_json_world :: world where
  "demo_json_world = demo_world\<lparr>w_loads := (\<lambda>s. Some (of_dict [(''status'', PStr ''completed''),
     (''summary'', PStr ''done''), (''evidence_event_count'', PInt 0), (''replay_digest'', PStr ''h'')]))\<rparr>"

theorem outcome_card_idempotent_witness:
  "\<exists>d' oc. create_outcome_card demo_json_world [9] ''s1'' ''done'' demo_done_db = (d', Inr oc)
     \<and> create_outcome_card demo_json_world [9] ''s1'' ''other'' d' = (d', Inr oc)"
proof -
  let ?x = "create_outcome_card demo_json_world [9] ''s1'' ''done'' demo_done_db"
  have "snd ?x = Inr \<lparr>oc_outcome_id = ''u'', oc_session_id = ''s1'', oc_event_order = 0,
      oc_status = ''completed'', oc_summary = ''done'', oc_evidence_event_count = 0,
      oc_replay_digest = ''h'', oc_created_at = ''2026-01-02T03:04:05+00:00''\<rparr>"
    by code_simp
  then obtain d' oc where x: "?x = (d', Inr oc)" by (cases ?x) auto
  have "\<forall>r \<in> set (db_events demo_done_db). er_event_id r \<noteq> w_uuid demo_json_world (db_tick demo_done_db)"
    by (simp add: demo_done_db_def demo_db_def empty_db_def)
  from outcome_card_idempotent [OF this x] x show ?thesis by blast
qed

text \<open>
  A rerun carries no authority: a successful fresh-authority rerun adds one session row, a draft
  with no artifact bytes used and no expiry, under an identifier that was not in use; it leaves every
  existing session row, the approvals, the artifacts and the outbound queue exactly as they were.
\<close>

theorem rerun_carries_no_authority:
  assumes "create_fresh_authority_rerun W k src who new now d = (d', Inr rr)"
  shows "find_session d (rn_rerun_session_id rr) = None
    \<and> (\<exists>row. db_sessions d' = db_sessions d @ [row] \<and> sr_session_id row = rn_rerun_session_id rr
         \<and> sr_status row = ''draft'' \<and> sr_cumulative_artifact_bytes row = 0
         \<and> sr_cumulative_cost_estimate row = 0 \<and> sr_expires_at row = None)
    \<and> db_approvals d' = db_approvals d \<and> db_artifacts d' = db_artifacts d \<and> db_queue d' = db_queue d"
proof -
  have local: "db_sessions d2 = db_sessions d1 \<and> db_approvals d2 = db_approvals d1
      \<and> db_artifacts d2 = db_artifacts d1 \<and> db_queue d2 = db_queue d1"
    if "append_local_event W k sid un kd p d1 = (d2, q)" for sid un kd p d1 d2 q
    using append_local_event_cases [OF that] by (auto simp: same_tables_def)
  from assms show ?thesis
    by (auto simp: create_fresh_authority_rerun_def Let_def
        split: option.splits sum.splits if_splits prod.splits
        dest!: local write_audit_same simp: same_tables_def)
qed

theorem rerun_carries_no_authority_witness:
  "\<exists>d' rr row. create_fresh_authority_rerun demo_world [9] ''s1'' ''alice'' (Some ''s2'') 0 demo_done_db = (d', Inr rr)
     \<and> db_sessions d' = db_sessions demo_done_db @ [row] \<and> sr_status row = ''draft''"
proof -
  let ?x = "create_fresh_authority_rerun demo_world [9] ''s1'' ''alice'' (Some ''s2'') 0 demo_done_db"
  have "snd ?x = Inr \<lparr>rn_source_session_id = ''s1'', rn_rerun_session_id = ''s2'', rn_created_by = ''alice'',
      rn_created_at = ''2026-01-02T03:04:05Z''\<rparr>"
    by code_simp
  then obtain d' rr where x: "?x = (d', Inr rr)" by (cases ?x) auto
  from rerun_carries_no_authority [OF x] x show ?thesis by blast
qed

end
