(* ===== verification/Kin_Artifacts.thy ===== *)
theory Kin_Artifacts
  imports Kin_Ledger
begin

text \<open>
  The encrypted artifact vault of \<open>kin-node/kin/artifacts/vault.py\<close>: storing under a size limit with
  conflict detection by content hash, loading with an integrity check, and reading metadata. The four
  metadata fields kept as JSON come back as whatever JSON value was stored.
\<close>

section \<open>Definitions\<close>

record artifact_metadata =
  amd_artifact_id :: string
  amd_session_id :: string
  amd_sha256 :: string
  amd_mime_type :: string
  amd_size_bytes :: pyval
  amd_offered_by :: string
  amd_preview_policy :: pyval
  amd_created_at :: string
  amd_source :: pyval
  amd_relative_target_path :: pyval

definition find_artifact :: "db \<Rightarrow> string \<Rightarrow> artifact_row option" where
  "find_artifact d aid = find (\<lambda>r. ar_artifact_id r = aid) (db_artifacts d)"

definition metadata_fields :: "world \<Rightarrow> string option \<Rightarrow> (pyval \<times> pyval \<times> pyval \<times> pyval) result" where
  "metadata_fields W meta_json =
     (if \<not> otruthy meta_json then Inr (PInt 0, PStr ''none'', PStr ''adapter_output'', PNone)
      else case w_loads W (the meta_json) of
        None \<Rightarrow> Inr (PInt 0, PStr ''none'', PStr ''adapter_output'', PNone)
      | Some v \<Rightarrow>
          (case as_str_dict v of
             None \<Rightarrow> Inl (AppError ''AttributeError'')
           | Some m \<Rightarrow>
               Inr (dget_default m ''size_bytes'' (dget_default m ''size'' (PInt 0)),
                    dget_default m ''preview_policy'' (PStr ''none''),
                    dget_default m ''source'' (PStr ''adapter_output''),
                    dget m ''relative_target_path'')))"

definition get_artifact_metadata :: "world \<Rightarrow> string \<Rightarrow> db \<Rightarrow> artifact_metadata result" where
  "get_artifact_metadata W artifact_id d =
     (case find_artifact d artifact_id of
        None \<Rightarrow> Inl (AppError ''ArtifactNotFoundError'')
      | Some row \<Rightarrow>
          (case metadata_fields W (ar_metadata_json row) of
             Inl e \<Rightarrow> Inl e
           | Inr (sz, pp, src, rel) \<Rightarrow>
               Inr \<lparr>amd_artifact_id = ar_artifact_id row, amd_session_id = ar_session_id row,
                    amd_sha256 = ar_sha256 row, amd_mime_type = ar_mime_type row, amd_size_bytes = sz,
                    amd_offered_by = ar_offered_by row, amd_preview_policy = pp,
                    amd_created_at = ar_created_at row, amd_source = src,
                    amd_relative_target_path = rel\<rparr>))"

definition fresh_artifact_id :: "world \<Rightarrow> nat \<Rightarrow> string" where
  "fresh_artifact_id W n = ''art_'' @ take 12 (filter (\<lambda>ch. ch \<noteq> CHR ''-'') (w_uuid W n))"

definition insert_artifact ::
  "world \<Rightarrow> bytes \<Rightarrow> string \<Rightarrow> bytes \<Rightarrow> string \<Rightarrow> string \<Rightarrow> string \<Rightarrow> string \<Rightarrow> int \<Rightarrow> string
   \<Rightarrow> string option \<Rightarrow> db \<Rightarrow> db \<times> artifact_metadata result" where
  "insert_artifact W vault_key session_id raw_bytes mime_type offered_by preview_policy source now
     artifact_id rel d =
     (let sha = sha256_hex W raw_bytes;
          now_str = iso_now W now;
          meta = of_dict [(''size_bytes'', PInt (int (length raw_bytes))),
                          (''preview_policy'', PStr preview_policy), (''source'', PStr source),
                          (''relative_target_path'', (case rel of None \<Rightarrow> PNone | Some p \<Rightarrow> PStr p))]
      in case w_dumps_plain W meta of
           None \<Rightarrow> (tick d, Inl TypeError)
         | Some meta_json \<Rightarrow>
             if find_session d session_id = None then (tick d, Inl IntegrityError)
             else (tick (d\<lparr>db_artifacts := db_artifacts d @
                     [\<lparr>ar_artifact_id = artifact_id, ar_session_id = session_id, ar_sha256 = sha,
                       ar_mime_type = mime_type,
                       ar_bytes_encrypted = encrypt_bytes W vault_key (db_tick d) (Some raw_bytes),
                       ar_metadata_json = Some meta_json, ar_offered_by = offered_by,
                       ar_created_at = now_str\<rparr>]\<rparr>),
                   Inr \<lparr>amd_artifact_id = artifact_id, amd_session_id = session_id, amd_sha256 = sha,
                        amd_mime_type = mime_type, amd_size_bytes = PInt (int (length raw_bytes)),
                        amd_offered_by = offered_by, amd_preview_policy = PStr preview_policy,
                        amd_created_at = now_str, amd_source = PStr source,
                        amd_relative_target_path = PNone\<rparr>))"

definition store_artifact ::
  "world \<Rightarrow> bytes \<Rightarrow> string \<Rightarrow> bytes \<Rightarrow> string \<Rightarrow> string \<Rightarrow> string \<Rightarrow> int \<Rightarrow> string \<Rightarrow> int
   \<Rightarrow> string option \<Rightarrow> string option \<Rightarrow> db \<Rightarrow> db \<times> artifact_metadata result" where
  "store_artifact W vault_key session_id raw_bytes mime_type offered_by preview_policy max_bytes source
     now artifact_id rel d =
     (if int (length raw_bytes) > max_bytes then (d, Inl (AppError ''ArtifactTooLargeError''))
      else case artifact_id of
        None \<Rightarrow> insert_artifact W vault_key session_id raw_bytes mime_type offered_by preview_policy source
                  now (fresh_artifact_id W (db_tick d)) rel d
      | Some aid \<Rightarrow>
          (case find_artifact d aid of
             Some row \<Rightarrow>
               if ar_sha256 row = sha256_hex W raw_bytes then (d, get_artifact_metadata W aid d)
               else (d, Inl (AppError ''ArtifactIdConflictError''))
           | None \<Rightarrow> insert_artifact W vault_key session_id raw_bytes mime_type offered_by preview_policy
                       source now aid rel d))"

definition load_artifact_bytes :: "world \<Rightarrow> bytes \<Rightarrow> string \<Rightarrow> db \<Rightarrow> bytes result" where
  "load_artifact_bytes W vault_key artifact_id d =
     (case find_artifact d artifact_id of
        None \<Rightarrow> Inl (AppError ''ArtifactNotFoundError'')
      | Some row \<Rightarrow>
          (case decrypt_bytes W vault_key (ar_bytes_encrypted row) of
             Inr (Some decrypted) \<Rightarrow>
               if sha256_hex W decrypted \<noteq> ar_sha256 row then Inl (AppError ''ArtifactCorruptedError'')
               else Inr decrypted
           | _ \<Rightarrow> Inl (AppError ''ArtifactCorruptedError'')))"

section \<open>Lemmas\<close>

lemma find_artifact_snoc:
  "find_artifact (d\<lparr>db_artifacts := db_artifacts d @ [r]\<rparr>) aid =
     (case find_artifact d aid of Some q \<Rightarrow> Some q | None \<Rightarrow> if ar_artifact_id r = aid then Some r else None)"
  by (simp add: find_artifact_def find_snoc)

lemma find_artifact_tick [simp]: "find_artifact (tick d) aid = find_artifact d aid"
  by (simp add: find_artifact_def)

text \<open>The row an insertion leaves behind.\<close>

lemma insert_artifact_Inr:
  assumes "insert_artifact W k sid raw mt ob pp src now aid rel d = (d', Inr m)"
  shows "\<exists>row. d' = tick (d\<lparr>db_artifacts := db_artifacts d @ [row]\<rparr>) \<and> ar_artifact_id row = aid
    \<and> ar_session_id row = sid \<and> ar_sha256 row = sha256_hex W raw
    \<and> ar_bytes_encrypted row = encrypt_bytes W k (db_tick d) (Some raw)
    \<and> amd_artifact_id m = aid \<and> amd_sha256 m = sha256_hex W raw"
  using assms by (auto simp: insert_artifact_def Let_def split: option.splits if_splits)

lemma insert_artifact_Inl:
  "insert_artifact W k sid raw mt ob pp src now aid rel d = (d', Inl e) \<Longrightarrow> d' = tick d"
  by (auto simp: insert_artifact_def Let_def split: option.splits if_splits)

lemma get_metadata_id:
  assumes "get_artifact_metadata W aid d = Inr m" and "find_artifact d aid = Some row"
  shows "amd_artifact_id m = aid \<and> amd_sha256 m = ar_sha256 row"
proof -
  have "ar_artifact_id row = aid" using assms(2) by (auto simp: find_artifact_def find_Some_iff)
  with assms show ?thesis by (auto simp: get_artifact_metadata_def split: sum.splits prod.splits)
qed

text \<open>Storing never changes a row that is there, and stores nothing larger than the limit.\<close>

lemma store_artifact_extends:
  assumes "store_artifact W k sid raw mt ob pp mx src now aid rel d = (d', r)"
  shows "\<exists>rows. db_artifacts d' = db_artifacts d @ rows
    \<and> (rows \<noteq> [] \<longrightarrow> int (length raw) \<le> mx) \<and> db_sessions d' = db_sessions d"
proof -
  have "\<exists>rows. db_artifacts d' = db_artifacts d @ rows \<and> db_sessions d' = db_sessions d"
    if "insert_artifact W k sid raw mt ob pp src now a rel d = (d', r)" for a
    using that by (auto simp: insert_artifact_def Let_def split: option.splits if_splits)
  with assms show ?thesis
    by (auto simp: store_artifact_def not_less split: if_splits option.splits)
qed

section \<open>Properties\<close>

text \<open>
  Stored artifacts come back intact: when \<open>store_artifact\<close> succeeds, the bytes fit the limit and
  loading the artifact it names returns exactly the stored bytes, or, when that identifier was
  already taken by content with the same hash, whatever loading returned before. The hypothesis is the
  correctness of AES-GCM.
\<close>

theorem stored_artifact_loads:
  assumes "aes_correct W k"
    and "store_artifact W k sid raw mt ob pp mx src now (Some aid) rel d = (d', Inr m)"
  shows "int (length raw) \<le> mx \<and> amd_artifact_id m = aid \<and> amd_sha256 m = sha256_hex W raw
    \<and> load_artifact_bytes W k aid d' =
        (if find_artifact d aid = None then Inr raw else load_artifact_bytes W k aid d)"
proof (cases "find_artifact d aid")
  case None
  with assms(2) have mx: "int (length raw) \<le> mx"
    and ins: "insert_artifact W k sid raw mt ob pp src now aid rel d = (d', Inr m)"
    by (auto simp: store_artifact_def split: if_splits)
  obtain row where "d' = tick (d\<lparr>db_artifacts := db_artifacts d @ [row]\<rparr>)" "ar_artifact_id row = aid"
    "ar_sha256 row = sha256_hex W raw"
    "ar_bytes_encrypted row = encrypt_bytes W k (db_tick d) (Some raw)"
    "amd_artifact_id m = aid" "amd_sha256 m = sha256_hex W raw"
    using insert_artifact_Inr [OF ins] by blast
  with None mx decrypt_encrypt_bytes [OF assms(1)] show ?thesis
    by (simp add: load_artifact_bytes_def find_artifact_snoc)
next
  case (Some row)
  with assms(2) have "d' = d" "int (length raw) \<le> mx" "ar_sha256 row = sha256_hex W raw"
    "get_artifact_metadata W aid d = Inr m"
    by (auto simp: store_artifact_def split: if_splits)
  with get_metadata_id [OF _ Some] Some show ?thesis by auto
qed

definition demo_store :: "db \<times> artifact_metadata result" where
  "demo_store = store_artifact demo_world [9] ''s1'' [1, 2] ''text/plain'' ''alice'' ''none'' 10
     ''adapter_output'' 0 (Some ''art1'') None demo_db"

theorem stored_artifact_loads_witness:
  "\<exists>m. snd demo_store = Inr m \<and> load_artifact_bytes demo_world [9] ''art1'' (fst demo_store) = Inr [1, 2]"
proof -
  have "\<exists>m. snd demo_store = Inr m"
    by (simp add: demo_store_def store_artifact_def insert_artifact_def Let_def demo_db_def empty_db_def
        find_artifact_def find_session_def demo_row_def demo_world_def)
  then obtain m where m: "snd demo_store = Inr m" ..
  then have s: "store_artifact demo_world [9] ''s1'' [1, 2] ''text/plain'' ''alice'' ''none'' 10
     ''adapter_output'' 0 (Some ''art1'') None demo_db = (fst demo_store, Inr m)"
    by (simp add: demo_store_def prod_eq_iff)
  have "find_artifact demo_db ''art1'' = None" by (simp add: demo_db_def empty_db_def find_artifact_def)
  with stored_artifact_loads [OF demo_world_aes s] m show ?thesis by simp
qed

text \<open>
  No corrupted artifact is ever returned: whatever the database and the decryption do, bytes
  returned by \<open>load_artifact_bytes\<close> have the SHA-256 that was recorded for the artifact, and every
  other outcome is \<open>ArtifactNotFoundError\<close> or \<open>ArtifactCorruptedError\<close>.
\<close>

theorem loaded_artifact_matches_hash:
  "case load_artifact_bytes W k aid d of
     Inr bs \<Rightarrow> (\<exists>row. find_artifact d aid = Some row \<and> sha256_hex W bs = ar_sha256 row)
   | Inl e \<Rightarrow> e = AppError ''ArtifactNotFoundError'' \<or> e = AppError ''ArtifactCorruptedError''"
  by (auto simp: load_artifact_bytes_def split: option.splits sum.splits)

end
