(* ===== verification/Kin_Peers.thy ===== *)
theory Kin_Peers
  imports Kin_Ledger
begin

text \<open>
  What a node knows about its peers and how it talks to them: end-to-end encryption for a recipient
  (\<open>identity/keys.py\<close>), signed request headers (\<open>identity/auth.py\<close>), capability negotiation
  (\<open>session/compatibility.py\<close>) and the cache of capability advertisements
  (\<open>transport/v11.py\<close>), the cache of published agent cards with its staleness flag
  (\<open>agent_registry/peer_cards.py\<close>), and the resolution of a contact. X25519, HKDF, ChaCha20-Poly1305
  and Ed25519 are parameters.
\<close>

section \<open>Encryption for a recipient\<close>

definition MESSAGE_INFO :: string where
  "MESSAGE_INFO = ''kin-message-encryption''"

definition encrypt_for_recipient :: "world \<Rightarrow> bytes \<Rightarrow> bytes \<Rightarrow> nat \<Rightarrow> bytes \<Rightarrow> bytes" where
  "encrypt_for_recipient W sender_priv recipient_pub n plaintext =
     (let symmetric_key = w_hkdf W MESSAGE_INFO (w_x25519_exchange W sender_priv recipient_pub);
          nonce = w_urandom W n
      in nonce @ w_chacha_encrypt W symmetric_key nonce plaintext)"

definition decrypt_from_sender :: "world \<Rightarrow> bytes \<Rightarrow> bytes \<Rightarrow> bytes \<Rightarrow> bytes result" where
  "decrypt_from_sender W recipient_priv sender_pub ciphertext =
     (if length ciphertext < 12 then Inl ValueError
      else (let symmetric_key = w_hkdf W MESSAGE_INFO (w_x25519_exchange W recipient_priv sender_pub)
            in case w_chacha_decrypt W symmetric_key (take 12 ciphertext) (drop 12 ciphertext) of
                 None \<Rightarrow> Inl (AppError ''InvalidTag'')
               | Some pt \<Rightarrow> Inr pt))"

section \<open>Signed request headers\<close>

text \<open>\<open>ts_str.split("+")[0]\<close>.\<close>

definition before_plus :: "string \<Rightarrow> string" where
  "before_plus s = takeWhile (\<lambda>ch. ch \<noteq> CHR ''+'') s"

definition z_timestamp :: "world \<Rightarrow> int \<Rightarrow> string" where
  "z_timestamp W t =
     (let ts = w_isoformat W t in if ends_with ''Z'' ts then ts else before_plus ts @ ''Z'')"

definition auth_message :: "string \<Rightarrow> string \<Rightarrow> bytes" where
  "auth_message username timestamp = utf8_encode (username @ '':'' @ timestamp)"

definition create_signed_auth_headers :: "world \<Rightarrow> string \<Rightarrow> bytes \<Rightarrow> int \<Rightarrow> (string \<times> string) list" where
  "create_signed_auth_headers W username private_key now =
     (let ts_str = z_timestamp W now;
          sig = c_ed_sign (w_crypto W) private_key (auth_message username ts_str)
      in [(''X-Username'', username), (''X-Timestamp'', ts_str), (''X-Signature'', base64url_encode sig)])"

definition lower :: "string \<Rightarrow> string" where
  "lower s = map to_lower s"

text \<open>The outcome of verification: the authenticated user, or why not.\<close>

datatype auth_outcome =
    Authenticated string
  | MissingHeaders
  | BadTimestamp
  | OutOfWindow
  | UnknownUser
  | BadSignature

definition header_get :: "(string \<times> string) list \<Rightarrow> string \<Rightarrow> string option" where
  "header_get headers k = map_of (rev (map (\<lambda>(h, v). (lower h, v)) headers)) k"

definition verify_signed_auth_headers ::
  "world \<Rightarrow> (string \<times> string) list \<Rightarrow> (string \<Rightarrow> bytes option) \<Rightarrow> int \<Rightarrow> int \<Rightarrow> auth_outcome" where
  "verify_signed_auth_headers W headers get_public_key_fn now max_age_seconds =
     (let username = header_get headers ''x-username'';
          timestamp = header_get headers ''x-timestamp'';
          signature = header_get headers ''x-signature''
      in if \<not> otruthy username \<or> \<not> otruthy timestamp \<or> \<not> otruthy signature then MissingHeaders
         else (case parse_iso_z W (the timestamp) of
           None \<Rightarrow> BadTimestamp
         | Some ts_dt \<Rightarrow>
             if \<bar>now - ts_dt\<bar> > max_age_seconds * 1000000 then OutOfWindow
             else (case get_public_key_fn (the username) of
               None \<Rightarrow> UnknownUser
             | Some pub_key \<Rightarrow>
                 (case base64url_decode (the signature) of
                    Inl _ \<Rightarrow> BadSignature
                  | Inr sig \<Rightarrow>
                      if c_ed_verify (w_crypto W) pub_key sig (auth_message (the username) (the timestamp))
                      then Authenticated (the username) else BadSignature))))"

section \<open>Capabilities\<close>

record capability_ad =
  cad_protocol_version :: string
  cad_supported_features :: "string list"
  cad_max_turn_limit :: int

definition capability_ad_validate :: "crypto \<Rightarrow> pydict \<Rightarrow> capability_ad option" where
  "capability_ad_validate C raw =
     (if \<not> only_keys [''protocol_version'', ''supported_features'', ''max_turn_limit''] raw then None
      else do { pv \<leftarrow> str_field raw ''protocol_version'';
                sf \<leftarrow> (case map_of raw ''supported_features'' of
                         Some (PList vs) \<Rightarrow> as_str_list vs | _ \<Rightarrow> None);
                mt \<leftarrow> Option.bind (map_of raw ''max_turn_limit'') (c_lax_int C);
                (if mt < 1 then None
                 else Some \<lparr>cad_protocol_version = pv, cad_supported_features = sf,
                            cad_max_turn_limit = mt\<rparr>) })"

definition capability_ad_dump :: "capability_ad \<Rightarrow> pydict" where
  "capability_ad_dump ad =
     [(''protocol_version'', PStr (cad_protocol_version ad)),
      (''supported_features'', PList (map PStr (cad_supported_features ad))),
      (''max_turn_limit'', PInt (cad_max_turn_limit ad))]"

record negotiation =
  ng_compatible :: bool
  ng_missing_flags :: "string list"
  ng_fallback_mode :: string

definition negotiate_ad :: "capability_ad \<Rightarrow> string list \<Rightarrow> negotiation" where
  "negotiate_ad ad required_features =
     (if cad_protocol_version ad \<noteq> ''1.1''
      then \<lparr>ng_compatible = False, ng_missing_flags = [], ng_fallback_mode = ''v1_ask''\<rparr>
      else (let missing = sort (remdups (filter (\<lambda>f. f \<notin> set (cad_supported_features ad)) required_features))
            in if missing \<noteq> []
               then \<lparr>ng_compatible = False, ng_missing_flags = missing, ng_fallback_mode = ''v1_ask''\<rparr>
               else \<lparr>ng_compatible = True, ng_missing_flags = [], ng_fallback_mode = ''none''\<rparr>))"

definition negotiate_capability :: "crypto \<Rightarrow> pyval \<Rightarrow> string list \<Rightarrow> negotiation" where
  "negotiate_capability C advertisement required_features =
     (case Option.bind (as_str_dict advertisement) (capability_ad_validate C) of
        None \<Rightarrow> \<lparr>ng_compatible = False, ng_missing_flags = [], ng_fallback_mode = ''v1_ask''\<rparr>
      | Some ad \<Rightarrow> negotiate_ad ad required_features)"

definition cache_peer_capabilities :: "world \<Rightarrow> string \<Rightarrow> capability_ad \<Rightarrow> int \<Rightarrow> db \<Rightarrow> db" where
  "cache_peer_capabilities W peer_username ad now d =
     (let row = \<lparr>cb_peer_username = peer_username,
                 cb_capability_json = w_model_json W (capability_ad_dump ad),
                 cb_fetched_at = iso_now W now\<rparr>
      in if list_ex (\<lambda>r. cb_peer_username r = peer_username) (db_capabilities d)
         then d\<lparr>db_capabilities := map (\<lambda>r. if cb_peer_username r = peer_username then row else r)
                  (db_capabilities d)\<rparr>
         else d\<lparr>db_capabilities := db_capabilities d @ [row]\<rparr>)"

definition get_cached_peer_capabilities ::
  "world \<Rightarrow> string \<Rightarrow> int \<Rightarrow> int \<Rightarrow> db \<Rightarrow> capability_ad option result" where
  "get_cached_peer_capabilities W peer_username max_age_hours now d =
     (case find (\<lambda>r. cb_peer_username r = peer_username) (db_capabilities d) of
        None \<Rightarrow> Inr None
      | Some row \<Rightarrow>
          (case parse_iso_z W (cb_fetched_at row) of
             None \<Rightarrow> Inl ValueError
           | Some fetched \<Rightarrow>
               if now - fetched > max_age_hours * 3600 * 1000000 then Inr None
               else Inr (Option.bind (Option.bind (w_loads W (cb_capability_json row)) as_str_dict)
                           (capability_ad_validate (w_crypto W)))))"

section \<open>Published cards of peers\<close>

definition is_peer_card :: "string \<Rightarrow> string \<Rightarrow> peer_card_row \<Rightarrow> bool" where
  "is_peer_card peer_username agent_id r = (pc_peer_username r = peer_username \<and> pc_agent_id r = agent_id)"

definition find_peer_card :: "db \<Rightarrow> string \<Rightarrow> string \<Rightarrow> peer_card_row option" where
  "find_peer_card d peer_username agent_id = find (is_peer_card peer_username agent_id) (db_peer_cards d)"

definition update_peer_card :: "string \<Rightarrow> string \<Rightarrow> (peer_card_row \<Rightarrow> peer_card_row) \<Rightarrow> db \<Rightarrow> db" where
  "update_peer_card peer_username agent_id f d =
     d\<lparr>db_peer_cards := map (\<lambda>r. if is_peer_card peer_username agent_id r then f r else r) (db_peer_cards d)\<rparr>"

definition cache_peer_card :: "world \<Rightarrow> string \<Rightarrow> published_card \<Rightarrow> db \<Rightarrow> db \<times> string result" where
  "cache_peer_card W peer_username pc d =
     (let now_str = w_isoformat W (w_clock W (db_tick d));
          card_dict = published_card_dump pc
      in case compute_content_hash (w_crypto W) card_dict of
           Inl e \<Rightarrow> (d, Inl e)
         | Inr content_hash \<Rightarrow>
             (let card_json = w_model_json W card_dict in
              case find_peer_card d peer_username (pub_agent_id pc) of
                None \<Rightarrow>
                  (tick (d\<lparr>db_peer_cards := db_peer_cards d @
                     [\<lparr>pc_peer_username = peer_username, pc_agent_id = pub_agent_id pc,
                       pc_card_json = card_json, pc_content_hash = content_hash, pc_status = ''fresh'',
                       pc_first_seen_at = now_str, pc_last_seen_at = now_str\<rparr>]\<rparr>), Inr ''fresh'')
              | Some row \<Rightarrow>
                  if pc_content_hash row = content_hash
                  then (tick (update_peer_card peer_username (pub_agent_id pc)
                          (\<lambda>r. r\<lparr>pc_last_seen_at := now_str\<rparr>) d), Inr ''unchanged'')
                  else (tick (update_peer_card peer_username (pub_agent_id pc)
                          (\<lambda>r. r\<lparr>pc_card_json := card_json, pc_content_hash := content_hash,
                                pc_status := ''stale'', pc_last_seen_at := now_str\<rparr>) d), Inr ''stale'')))"

definition mark_reviewed :: "string \<Rightarrow> string \<Rightarrow> db \<Rightarrow> db" where
  "mark_reviewed peer_username agent_id d =
     update_peer_card peer_username agent_id (\<lambda>r. r\<lparr>pc_status := ''fresh''\<rparr>) d"

definition is_stale :: "string \<Rightarrow> string \<Rightarrow> db \<Rightarrow> bool" where
  "is_stale peer_username agent_id d =
     (case find_peer_card d peer_username agent_id of None \<Rightarrow> False | Some r \<Rightarrow> pc_status r = ''stale'')"

section \<open>Contacts\<close>

text \<open>\<open>bytes.fromhex\<close> on digit pairs, skipping ASCII white space between pairs.\<close>

definition hex_value :: "char \<Rightarrow> nat option" where
  "hex_value ch =
     (if is_digit ch then Some (char_code ch - 48)
      else if 97 \<le> char_code ch \<and> char_code ch \<le> 102 then Some (char_code ch - 87)
      else if 65 \<le> char_code ch \<and> char_code ch \<le> 70 then Some (char_code ch - 55)
      else None)"

definition ascii_space :: "char \<Rightarrow> bool" where
  "ascii_space ch = (char_code ch = 32 \<or> (9 \<le> char_code ch \<and> char_code ch \<le> 13))"

fun fromhex :: "string \<Rightarrow> bytes option" where
  "fromhex [] = Some []"
| "fromhex [a] = (if ascii_space a then Some [] else None)"
| "fromhex (a # b # s) =
     (if ascii_space a then fromhex (b # s)
      else case (hex_value a, hex_value b) of
        (Some h, Some l) \<Rightarrow> map_option (Cons (of_nat (h * 16 + l))) (fromhex s)
      | _ \<Rightarrow> None)"

definition hex_key :: "string option \<Rightarrow> bytes option result" where
  "hex_key x = (if \<not> otruthy x then Inr None
     else case fromhex (the x) of None \<Rightarrow> Inl ValueError | Some b \<Rightarrow> Inr (Some b))"

text \<open>An Ed25519 public key object exists for 32 bytes.\<close>

definition ed_key :: "string option \<Rightarrow> bytes option result" where
  "ed_key x = (case hex_key x of
      Inl e \<Rightarrow> Inl e
    | Inr None \<Rightarrow> Inr None
    | Inr (Some b) \<Rightarrow> if length b = 32 then Inr (Some b) else Inl ValueError)"

definition resolve_peer_contact_info ::
  "string \<Rightarrow> db \<Rightarrow> (string option \<times> bytes option \<times> bytes option) result" where
  "resolve_peer_contact_info peer_username d =
     (case find (\<lambda>r. ct_username r = peer_username) (db_contacts d) of
        None \<Rightarrow> Inr (None, None, None)
      | Some row \<Rightarrow>
          if \<not> otruthy (ct_fingerprint_verified_at row) then Inr (None, None, None)
          else (case hex_key (ct_x25519_public_key row) of
                  Inl e \<Rightarrow> Inl e
                | Inr x \<Rightarrow>
                    (case ed_key (ct_public_key row) of
                       Inl e \<Rightarrow> Inl e
                     | Inr ed \<Rightarrow> Inr (ct_endpoint row, x, ed))))"

section \<open>Lemmas\<close>

lemma set_missing_flags:
  "set (sort (remdups (filter (\<lambda>f. f \<notin> set supported) required))) = set required - set supported"
  by auto

lemma negotiate_ad_compatible:
  "ng_compatible (negotiate_ad ad req) \<longleftrightarrow>
   cad_protocol_version ad = ''1.1'' \<and> set req \<subseteq> set (cad_supported_features ad)"
proof -
  have "sort (remdups (filter (\<lambda>f. f \<notin> set (cad_supported_features ad)) req)) = []
      \<longleftrightarrow> set req \<subseteq> set (cad_supported_features ad)"
    using set_missing_flags [of "cad_supported_features ad" req] by (metis Diff_eq_empty_iff set_empty)
  then show ?thesis by (auto simp: negotiate_ad_def Let_def)
qed

lemma negotiate_ad_missing:
  "set (ng_missing_flags (negotiate_ad ad req)) =
     (if cad_protocol_version ad = ''1.1'' then set req - set (cad_supported_features ad) else {})"
proof -
  let ?m = "sort (remdups (filter (\<lambda>f. f \<notin> set (cad_supported_features ad)) req))"
  have "set (ng_missing_flags (negotiate_ad ad req)) = (if cad_protocol_version ad = ''1.1'' then set ?m else {})"
    by (cases "?m = []") (simp_all only: negotiate_ad_def Let_def if_True if_False not_True_eq_False
      not_False_eq_True negotiation.simps list.set split: if_split, simp_all)
  then show ?thesis by (simp only: set_missing_flags)
qed

lemma find_update_card:
  assumes "\<And>r. is_peer_card p a (f r) = is_peer_card p a r"
    and "\<And>r. is_peer_card p' a' (f r) = is_peer_card p' a' r"
  shows "find_peer_card (update_peer_card p a f d) p' a' =
    (if (p', a') = (p, a) then map_option f (find_peer_card d p' a') else find_peer_card d p' a')"
proof -
  have "find (is_peer_card p' a') (map (\<lambda>r. if is_peer_card p a r then f r else r) rs) =
      (if (p', a') = (p, a) then map_option f (find (is_peer_card p' a') rs)
       else find (is_peer_card p' a') rs)" for rs
  proof (induction rs)
    case (Cons r rs)
    show ?case
    proof (cases "(p', a') = (p, a)")
      case True
      with Cons.IH assms(1) [of r] show ?thesis by simp
    next
      case False
      then have "is_peer_card p a r \<Longrightarrow> \<not> is_peer_card p' a' r" by (auto simp: is_peer_card_def)
      with Cons.IH assms(2) [of r] show ?thesis
        unfolding if_not_P [OF False] by (cases "is_peer_card p a r") simp_all
    qed
  qed simp
  then show ?thesis by (simp add: find_peer_card_def update_peer_card_def)
qed

lemma find_peer_card_tick [simp]: "find_peer_card (tick d) p a = find_peer_card d p a"
  by (simp add: find_peer_card_def)

lemma find_peer_card_snoc:
  "find_peer_card (d\<lparr>db_peer_cards := db_peer_cards d @ [r]\<rparr>) p a =
     (case find_peer_card d p a of Some q \<Rightarrow> Some q | None \<Rightarrow> if is_peer_card p a r then Some r else None)"
  by (simp add: find_peer_card_def find_snoc)

lemma cache_peer_card_cases:
  assumes "cache_peer_card W p' pc d = (d', r)"
  obtains (failed) "d' = d"
  | (inserted) row where "find_peer_card d p' (pub_agent_id pc) = None"
      and "is_peer_card p' (pub_agent_id pc) row" and "d' = tick (d\<lparr>db_peer_cards := db_peer_cards d @ [row]\<rparr>)"
  | (updated) f where "d' = tick (update_peer_card p' (pub_agent_id pc) f d)"
      and "\<And>r x y. is_peer_card x y (f r) = is_peer_card x y r"
      and "\<And>r. pc_status (f r) = pc_status r \<or> pc_status (f r) = ''stale''"
proof (cases "compute_content_hash (w_crypto W) (published_card_dump pc)")
  case (Inl e)
  with assms show thesis by (intro failed) (simp add: cache_peer_card_def)
next
  case (Inr h)
  show thesis
  proof (cases "find_peer_card d p' (pub_agent_id pc)")
    case None
    with assms Inr show thesis
      by (intro inserted) (auto simp: cache_peer_card_def Let_def is_peer_card_def)
  next
    case (Some row)
    show thesis
    proof (cases "pc_content_hash row = h")
      case True
      with assms Inr Some have "d' = tick (update_peer_card p' (pub_agent_id pc)
          (\<lambda>r. r\<lparr>pc_last_seen_at := w_isoformat W (w_clock W (db_tick d))\<rparr>) d)"
        by (simp add: cache_peer_card_def Let_def)
      then show thesis by (rule updated) (simp_all add: is_peer_card_def)
    next
      case False
      with assms Inr Some have "d' = tick (update_peer_card p' (pub_agent_id pc)
          (\<lambda>r. r\<lparr>pc_card_json := w_model_json W (published_card_dump pc), pc_content_hash := h,
             pc_status := ''stale'', pc_last_seen_at := w_isoformat W (w_clock W (db_tick d))\<rparr>) d)"
        by (simp add: cache_peer_card_def Let_def)
      then show thesis by (rule updated) (simp_all add: is_peer_card_def)
    qed
  qed
qed

lemma cache_keeps_stale:
  assumes "is_stale p a d" and "cache_peer_card W p' pc d = (d', r)"
  shows "is_stale p a d'"
proof -
  obtain row where row: "find_peer_card d p a = Some row" "pc_status row = ''stale''"
    using assms(1) by (auto simp: is_stale_def split: option.splits)
  from assms(2) show ?thesis
  proof (cases rule: cache_peer_card_cases)
    case failed
    with assms(1) show ?thesis by simp
  next
    case (inserted q)
    with row show ?thesis by (simp add: is_stale_def find_peer_card_snoc)
  next
    case (updated f)
    have "pc_status (f row) = ''stale''" using updated(3) [of row] row(2) by auto
    with updated(1) row show ?thesis by (auto simp: is_stale_def find_update_card [OF updated(2,2)])
  qed
qed

lemma header_get_created [simp]:
  "header_get (create_signed_auth_headers W u sk t) ''x-username'' = Some u"
  "header_get (create_signed_auth_headers W u sk t) ''x-timestamp'' = Some (z_timestamp W t)"
  "header_get (create_signed_auth_headers W u sk t) ''x-signature'' =
     Some (base64url_encode (c_ed_sign (w_crypto W) sk (auth_message u (z_timestamp W t))))"
proof -
  have "lower ''X-Username'' = ''x-username''" "lower ''X-Timestamp'' = ''x-timestamp''"
    "lower ''X-Signature'' = ''x-signature''" by code_simp+
  then show "header_get (create_signed_auth_headers W u sk t) ''x-username'' = Some u"
    "header_get (create_signed_auth_headers W u sk t) ''x-timestamp'' = Some (z_timestamp W t)"
    "header_get (create_signed_auth_headers W u sk t) ''x-signature'' =
       Some (base64url_encode (c_ed_sign (w_crypto W) sk (auth_message u (z_timestamp W t))))"
    by (simp_all add: header_get_def create_signed_auth_headers_def Let_def)
qed

lemma base64url_encode_nonempty: "bs \<noteq> [] \<Longrightarrow> base64url_encode bs \<noteq> []"
  using length_base64url_encode [of bs] by (cases bs) auto

lemma z_timestamp_nonempty: "z_timestamp W t \<noteq> []"
  by (auto simp: z_timestamp_def ends_with_def Let_def)

section \<open>Properties\<close>

text \<open>
  End-to-end encryption round trip: what a sender encrypts for a recipient's public key, the
  recipient decrypts with its own private key and the sender's public key. The hypotheses are that
  the X25519 exchange is symmetric for the two key pairs, that ChaCha20-Poly1305 decrypts what it
  encrypted, and that nonces have 12 bytes.
\<close>

theorem recipient_encryption_roundtrip:
  assumes "w_x25519_exchange W a (w_x25519_public W b) = w_x25519_exchange W b (w_x25519_public W a)"
    and "\<And>key nonce pt. w_chacha_decrypt W key nonce (w_chacha_encrypt W key nonce pt) = Some pt"
    and "\<And>n. length (w_urandom W n) = 12"
  shows "decrypt_from_sender W b (w_x25519_public W a)
      (encrypt_for_recipient W a (w_x25519_public W b) n plaintext) = Inr plaintext"
  using assms by (simp add: decrypt_from_sender_def encrypt_for_recipient_def Let_def)

theorem recipient_encryption_roundtrip_witness:
  "decrypt_from_sender demo_world [2] (w_x25519_public demo_world [3])
     (encrypt_for_recipient demo_world [3] (w_x25519_public demo_world [2]) 0 [7, 8]) = Inr [7, 8]"
  by (rule recipient_encryption_roundtrip) (simp_all add: demo_world_def)

text \<open>
  Signed headers authenticate their author and only within the window: verification of headers
  answers \<open>Authenticated u\<close> only if the headers name \<open>u\<close>, their time stamp lies within the allowed
  age of the verifier's clock, and the signature verifies under the key on file for \<open>u\<close> over exactly
  that name and time; and headers made by \<open>create_signed_auth_headers\<close> with the user's key are accepted
  within the window.
\<close>

theorem signed_headers_sound_and_complete:
  assumes "username \<noteq> []" and "parse_iso_z W (z_timestamp W made_at) = Some made_at"
    and "get_pk username = Some (c_ed_public (w_crypto W) sk)"
    and "\<And>m. c_ed_verify (w_crypto W) (c_ed_public (w_crypto W) sk) (c_ed_sign (w_crypto W) sk m) m"
    and "\<And>m. c_ed_sign (w_crypto W) sk m \<noteq> []"
  shows "(verify_signed_auth_headers W (create_signed_auth_headers W username sk made_at) get_pk now max_age
            = Authenticated username \<longleftrightarrow> \<bar>now - made_at\<bar> \<le> max_age * 1000000)
    \<and> (verify_signed_auth_headers W hs get_pk now max_age = Authenticated u \<longrightarrow>
         (\<exists>ts t sig pk. header_get hs ''x-username'' = Some u \<and> header_get hs ''x-timestamp'' = Some ts
            \<and> parse_iso_z W ts = Some t \<and> \<bar>now - t\<bar> \<le> max_age * 1000000 \<and> get_pk u = Some pk
            \<and> c_ed_verify (w_crypto W) pk sig (auth_message u ts)))"
proof
  show "verify_signed_auth_headers W (create_signed_auth_headers W username sk made_at) get_pk now max_age
      = Authenticated username \<longleftrightarrow> \<bar>now - made_at\<bar> \<le> max_age * 1000000"
    using assms
    by (auto simp: verify_signed_auth_headers_def Let_def otruthy_def z_timestamp_nonempty
        base64url_encode_nonempty)
  show "verify_signed_auth_headers W hs get_pk now max_age = Authenticated u \<longrightarrow>
         (\<exists>ts t sig pk. header_get hs ''x-username'' = Some u \<and> header_get hs ''x-timestamp'' = Some ts
            \<and> parse_iso_z W ts = Some t \<and> \<bar>now - t\<bar> \<le> max_age * 1000000 \<and> get_pk u = Some pk
            \<and> c_ed_verify (w_crypto W) pk sig (auth_message u ts))"
    by (auto simp: verify_signed_auth_headers_def Let_def otruthy_def
        split: if_splits option.splits sum.splits)
qed

theorem signed_headers_sound_and_complete_witness:
  "verify_signed_auth_headers demo_world (create_signed_auth_headers demo_world ''alice'' [5] 0)
     [''alice'' \<mapsto> [5]] 100000000 300 = Authenticated ''alice''"
proof -
  have "''alice'' \<noteq> []" "parse_iso_z demo_world (z_timestamp demo_world 0) = Some 0"
    "[''alice'' \<mapsto> [5]] ''alice'' = Some (c_ed_public (w_crypto demo_world) [5])"
    "\<And>m. c_ed_verify (w_crypto demo_world) (c_ed_public (w_crypto demo_world) [5]) (c_ed_sign (w_crypto demo_world) [5] m) m"
    "\<And>m. c_ed_sign (w_crypto demo_world) [5] m \<noteq> []"
    by (simp_all add: demo_world_def demo_crypto_def parse_iso_z_def)
  from signed_headers_sound_and_complete [of "''alice''" demo_world 0 "[''alice'' \<mapsto> [5]]" "[5]" 100000000 300,
      OF this]
  show ?thesis by simp
qed

text \<open>
  Stale until reviewed: once a peer's cached card is stale, no further caching of cards, of this
  peer or another, makes it fresh again; the owner's review does. A card whose content hash differs
  from the cached one is always reported and stored as stale.
\<close>

theorem stale_until_reviewed:
  assumes "find_peer_card d p (pub_agent_id pc) = Some row"
    and "compute_content_hash (w_crypto W) (published_card_dump pc) = Inr h"
    and "pc_content_hash row \<noteq> h"
  shows "snd (cache_peer_card W p pc d) = Inr ''stale''
    \<and> is_stale p (pub_agent_id pc) (fold (\<lambda>(p', c) d. fst (cache_peer_card W p' c d)) later
         (fst (cache_peer_card W p pc d)))
    \<and> \<not> is_stale p a (mark_reviewed p a d')"
proof -
  let ?d = "fst (cache_peer_card W p pc d)"
  have r: "snd (cache_peer_card W p pc d) = Inr ''stale''" and s: "is_stale p (pub_agent_id pc) ?d"
    using assms
    by (auto simp: cache_peer_card_def Let_def is_stale_def find_update_card is_peer_card_def)
  have "is_stale p (pub_agent_id pc) (fold (\<lambda>(p', c) d. fst (cache_peer_card W p' c d)) later d0)"
    if "is_stale p (pub_agent_id pc) d0" for d0
    using that
  proof (induction later arbitrary: d0)
    case (Cons x xs)
    obtain p' c where "x = (p', c)" by (cases x)
    with Cons cache_keeps_stale [OF Cons.prems, of W p' c "fst (cache_peer_card W p' c d0)"
        "snd (cache_peer_card W p' c d0)"]
    show ?case by simp
  qed simp
  with r s show ?thesis
    by (auto simp: mark_reviewed_def is_stale_def find_update_card is_peer_card_def split: option.splits)
qed

definition demo_published :: published_card where
  "demo_published = \<lparr>pub_schema_version = ''1.1'', pub_agent_id = ''b1'', pub_name = ''Bea'',
     pub_description = ''d'', pub_capabilities = \<lparr>cap_tags = [], cap_accepts = [], cap_produces = []\<rparr>,
     pub_availability = READY, pub_requires_owner_acceptance = True, pub_protocol_version = ''1.1''\<rparr>"

theorem stale_until_reviewed_witness:
  "\<exists>d. is_stale ''bob'' ''b1'' (fst (cache_peer_card demo_world ''bob'' demo_published d))"
proof -
  let ?row = "\<lparr>pc_peer_username = ''bob'', pc_agent_id = ''b1'', pc_card_json = ''{}'', pc_content_hash = ''h'',
     pc_status = ''fresh'', pc_first_seen_at = ''t'', pc_last_seen_at = ''t''\<rparr>"
  let ?d = "demo_db\<lparr>db_peer_cards := [?row]\<rparr>"
  have f: "find_peer_card ?d ''bob'' (pub_agent_id demo_published) = Some ?row"
    by (simp add: find_peer_card_def is_peer_card_def demo_published_def)
  obtain h where h: "compute_content_hash (w_crypto demo_world) (published_card_dump demo_published) = Inr h"
    and ne: "length h = 43"
  proof -
    have "\<exists>h. compute_content_hash (w_crypto demo_world) (published_card_dump demo_published) = Inr h
      \<and> length h = 43"
      by (simp add: compute_content_hash_def canonical_jcs_def demo_world_def demo_crypto_def
          published_card_dump_def of_dict_def capabilities_dump_def demo_published_def
          length_base64url_encode)
    then show thesis using that by blast
  qed
  have "pc_content_hash ?row \<noteq> h" using ne by auto
  from stale_until_reviewed [OF f h this, of "[]"] show ?thesis by (auto simp: demo_published_def)
qed

text \<open>
  Capability negotiation: a peer is compatible exactly when its advertisement is well formed, its
  protocol version is 1.1 and it supports every required feature; the missing features reported are
  exactly the required ones it lacks.
\<close>

theorem negotiation_exact:
  "(ng_compatible (negotiate_capability C adv req) \<longleftrightarrow>
     (\<exists>raw ad. as_str_dict adv = Some raw \<and> capability_ad_validate C raw = Some ad
        \<and> cad_protocol_version ad = ''1.1'' \<and> set req \<subseteq> set (cad_supported_features ad)))
   \<and> set (ng_missing_flags (negotiate_capability C adv req)) =
       (case Option.bind (as_str_dict adv) (capability_ad_validate C) of
          None \<Rightarrow> {}
        | Some ad \<Rightarrow> if cad_protocol_version ad = ''1.1'' then set req - set (cad_supported_features ad) else {})"
proof
  show "ng_compatible (negotiate_capability C adv req) \<longleftrightarrow>
     (\<exists>raw ad. as_str_dict adv = Some raw \<and> capability_ad_validate C raw = Some ad
        \<and> cad_protocol_version ad = ''1.1'' \<and> set req \<subseteq> set (cad_supported_features ad))"
    by (auto simp: negotiate_capability_def negotiate_ad_compatible bind_eq_Some_conv split: option.splits)
qed (simp add: negotiate_capability_def negotiate_ad_missing split: option.split)

end
