(* ===== verification/Kin_Ingest.thy ===== *)
theory Kin_Ingest
  imports Kin_History Kin_Artifacts Kin_Peers
begin

text \<open>
  Envelope ingestion, \<open>ingest_envelope\<close> of \<open>kin-node/kin/transport/v11.py\<close>, in the stages the function
  has: session lookup with lazy expiry, the participant map, the verification pipeline, the sequence
  check, bootstrap or reconstruction of the session, the reducer, the ledger entry, the settled status,
  the outcome card, and the handling of an offered artifact with its acceptance sent back.

  The raw body is a dictionary of arbitrary Python values. A value bound to an SQL text parameter is
  converted as SQLite's text affinity does; lists and dictionaries cannot be bound. An early
  \<open>return TransportAcknowledgement(...)\<close> is a left value of the inner sum, and building the
  acknowledgement can itself raise a \<open>ValidationError\<close>.
\<close>

section \<open>Acknowledgements\<close>

record transport_ack =
  ta_session_id :: string
  ta_sequence :: int
  ta_status :: string
  ta_received_at :: string
  ta_verified_hash :: string
  ta_error_code :: "string option"

definition make_ack ::
  "crypto \<Rightarrow> pyval \<Rightarrow> pyval \<Rightarrow> string \<Rightarrow> string \<Rightarrow> pyval \<Rightarrow> string option \<Rightarrow> transport_ack result" where
  "make_ack C session_id sq status received_at verified_hash error_code =
     (case (as_str session_id, c_lax_int C sq, as_str verified_hash) of
        (Some s, Some n, Some h) \<Rightarrow>
          if n < 1 \<or> \<not> TIMESTAMP_REGEX received_at
             \<or> status \<notin> set [''delivered'', ''queued'', ''rejected''] then Inl ValidationError
          else Inr \<lparr>ta_session_id = s, ta_sequence = n, ta_status = status, ta_received_at = received_at,
                    ta_verified_hash = h, ta_error_code = error_code\<rparr>
      | _ \<Rightarrow> Inl ValidationError)"

text \<open>Return an acknowledgement now.\<close>

definition answer :: "transport_ack result \<Rightarrow> db \<Rightarrow> db \<times> (transport_ack + 'a) result" where
  "answer a d = (d, case a of Inl e \<Rightarrow> Inl e | Inr x \<Rightarrow> Inr (Inl x))"

section \<open>Values as SQL parameters\<close>

definition sql_text :: "world \<Rightarrow> pyval \<Rightarrow> string option result" where
  "sql_text W v =
     (case v of
        PNone \<Rightarrow> Inr None
      | PStr s \<Rightarrow> Inr (Some s)
      | PBool b \<Rightarrow> Inr (Some (if b then ''1'' else ''0''))
      | PInt i \<Rightarrow> if sqlite_int i then Inr (Some (w_str W v)) else Inl (AppError ''OverflowError'')
      | PFloat f \<Rightarrow> Inr (Some (w_str W v))
      | _ \<Rightarrow> Inl (AppError ''ProgrammingError''))"

definition sql_value :: "pyval \<Rightarrow> pyval result" where
  "sql_value v =
     (case v of
        PList _ \<Rightarrow> Inl (AppError ''ProgrammingError'')
      | PDict _ \<Rightarrow> Inl (AppError ''ProgrammingError'')
      | PObj _ \<Rightarrow> Inl (AppError ''ProgrammingError'')
      | PInt i \<Rightarrow> if sqlite_int i then Inr v else Inl (AppError ''OverflowError'')
      | _ \<Rightarrow> Inr v)"

section \<open>Stage 0: the session, expiry and the participant map\<close>

definition find_session_param :: "world \<Rightarrow> pyval \<Rightarrow> db \<Rightarrow> session_row option result" where
  "find_session_param W v d =
     (case sql_text W v of
        Inl e \<Rightarrow> Inl e
      | Inr None \<Rightarrow> Inr None
      | Inr (Some s) \<Rightarrow> Inr (find_session d s))"

definition lazy_expire ::
  "world \<Rightarrow> bytes \<Rightarrow> session_row \<Rightarrow> int \<Rightarrow> db \<Rightarrow> db \<times> unit result" where
  "lazy_expire W vault_key row now d =
     (if \<not> otruthy (sr_expires_at row) then (d, Inr ())
      else case parse_iso_z W (the (sr_expires_at row)) of
        None \<Rightarrow> (d, Inl ValueError)
      | Some exp \<Rightarrow>
          if exp \<le> now \<and> sr_status row \<notin> set TERMINAL_STATES
          then then_do (apply_node_command_transition W vault_key (sr_session_id row) ''mark_expired'' now d)
                 (\<lambda>_ d. (d, Inr ()))
          else (d, Inr ()))"

definition ingest_participant_map ::
  "session_row \<Rightarrow> pyval \<Rightarrow> pyval \<Rightarrow> pyval \<Rightarrow> (string \<times> string) list result" where
  "ingest_participant_map row kind_val actor agent =
     (let m0 = (if otruthy (sr_sender_agent_id row)
                then [(sr_initiator_username row, the (sr_sender_agent_id row))] else []);
          m1 = (if otruthy (sr_receiver_agent_id row)
                   \<and> (kind_val \<noteq> PStr (message_kind_value ACCEPTANCE)
                      \<or> actor = PStr (sr_initiator_username row))
                then AList.update (sr_receiver_username row) (the (sr_receiver_agent_id row)) m0 else m0)
      in case actor of
           PList _ \<Rightarrow> Inl TypeError
         | PDict _ \<Rightarrow> Inl TypeError
         | PStr u \<Rightarrow>
             (case agent of
                PStr a \<Rightarrow> Inr (if map_of m1 u = None then AList.update u a m1 else m1)
              | _ \<Rightarrow> Inr m1)
         | _ \<Rightarrow> Inr m1)"

section \<open>Stages 1 and 2: verification and sequence check\<close>

definition raw_get :: "pydict \<Rightarrow> string \<Rightarrow> pyval" where
  "raw_get raw k = dget_default raw k (PStr [])"

definition raw_sequence :: "pydict \<Rightarrow> pyval" where
  "raw_sequence raw = dget_default raw ''sequence'' (PInt 0)"

definition raw_session :: "pydict \<Rightarrow> string" where
  "raw_session raw = (case raw_get raw ''session_id'' of PStr s \<Rightarrow> s | _ \<Rightarrow> [])"

text \<open>The rejection that echoes the unverified body.\<close>

definition reject_raw :: "world \<Rightarrow> pydict \<Rightarrow> int \<Rightarrow> string option \<Rightarrow> transport_ack result" where
  "reject_raw W raw now code =
     make_ack (w_crypto W) (raw_get raw ''session_id'') (raw_sequence raw) ''rejected'' (iso_now W now)
       (raw_get raw ''content_hash'') code"

text \<open>Acknowledgements about a verified envelope.\<close>

definition ack_env ::
  "world \<Rightarrow> session_envelope \<Rightarrow> int \<Rightarrow> string \<Rightarrow> string option \<Rightarrow> transport_ack result" where
  "ack_env W env now status code =
     make_ack (w_crypto W) (PStr (env_session_id env)) (PInt (env_sequence env)) status (iso_now W now)
       (PStr (env_content_hash env)) code"

definition ingest_lookup ::
  "world \<Rightarrow> bytes \<Rightarrow> pydict \<Rightarrow> (string \<Rightarrow> bytes option) \<Rightarrow> int \<Rightarrow> db
   \<Rightarrow> db \<times> (transport_ack + session_row option \<times> (string \<times> string) list) result" where
  "ingest_lookup W vault_key raw get_pk now d =
     (case find_session_param W (raw_get raw ''session_id'') d of
        Inl e \<Rightarrow> (d, Inl e)
      | Inr None \<Rightarrow>
          if raw_get raw ''kind'' \<noteq> PStr (message_kind_value TASK_REQUEST)
          then answer (reject_raw W raw now (Some ''SESSION_NOT_FOUND'')) d
          else if (case raw_get raw ''actor_username'' of PStr u \<Rightarrow> get_pk u | _ \<Rightarrow> None) = None
          then answer (reject_raw W raw now (Some ''UNPAIRED_SENDER'')) d
          else (d, Inr (Inr (None,
                 (case (raw_get raw ''actor_username'', raw_get raw ''actor_agent_id'') of
                    (PStr u, PStr a) \<Rightarrow> [(u, a)] | _ \<Rightarrow> []))))
      | Inr (Some row) \<Rightarrow>
          then_do (lazy_expire W vault_key row now d)
            (\<lambda>_ d. (d, case ingest_participant_map row (raw_get raw ''kind'') (raw_get raw ''actor_username'')
                                (raw_get raw ''actor_agent_id'') of
                         Inl e \<Rightarrow> Inl e
                       | Inr m \<Rightarrow> Inr (Inr (Some row, m)))))"

definition ingest_verify ::
  "world \<Rightarrow> bytes \<Rightarrow> pydict \<Rightarrow> (string \<Rightarrow> bytes option) \<Rightarrow> int \<Rightarrow> db
   \<Rightarrow> db \<times> (transport_ack + session_row option \<times> session_envelope) result" where
  "ingest_verify W vault_key raw get_pk now d =
     then_do (ingest_lookup W vault_key raw get_pk now d) (\<lambda>x d.
       case x of
         Inl ack \<Rightarrow> (d, Inr (Inl ack))
       | Inr (sess_row, pmap) \<Rightarrow>
           (let ver = verify_and_build_envelope (w_crypto W) raw get_pk (raw_session raw) pmap in
            case vr_verified_envelope ver of
              None \<Rightarrow> answer (reject_raw W raw now (vr_error_code ver)) d
            | Some ve \<Rightarrow>
                (let env = ve_envelope ve in
                 then_do (check_sequence_conflict W vault_key (env_session_id env) (env_actor_username env)
                            (env_sequence env) (of_dict (env_payload env)) d)
                   (\<lambda>st d. case st of
                      SeqDuplicate _ \<Rightarrow> answer (ack_env W env now ''delivered'' None) d
                    | SeqConflict _ \<Rightarrow>
                        answer (ack_env W env now ''rejected'' (Some ''SEQUENCE_REUSE_MISMATCH'')) d
                    | SeqNew \<Rightarrow> (d, Inr (Inr (sess_row, env)))))))"

section \<open>Stage 3: bootstrap or reconstruct\<close>

definition DEFAULT_EXPIRY_TTL_SECONDS :: int where
  "DEFAULT_EXPIRY_TTL_SECONDS = 604800"

definition DEFAULT_BUILD_RUNTIME_BUDGET :: int where
  "DEFAULT_BUILD_RUNTIME_BUDGET = 86400"

definition DEFAULT_BUILD_ARTIFACT_BYTES_BUDGET :: int where
  "DEFAULT_BUILD_ARTIFACT_BYTES_BUDGET = 50000000"

definition DEFAULT_BUILD_COST_BUDGET_ESTIMATE :: pyval where
  "DEFAULT_BUILD_COST_BUDGET_ESTIMATE = PFloat (FFinite 100 0)"

text \<open>A Boolean is an integer in Python, so \<open>True\<close> is a turn limit of one.\<close>

definition bootstrap_turn_limit :: "pyval \<Rightarrow> int" where
  "bootstrap_turn_limit v =
     (case v of
        PInt i \<Rightarrow> if 1 \<le> i \<and> i \<le> 12 then i else 12
      | PBool b \<Rightarrow> if b then 1 else 12
      | _ \<Rightarrow> 12)"

definition bootstrap_budget :: "session_type \<Rightarrow> pydict \<Rightarrow> string \<Rightarrow> pyval \<Rightarrow> pyval" where
  "bootstrap_budget st payload k dflt =
     (if st \<in> set [BUILD_PIPELINE, DELEGATE_SUBTASK] then dget_default payload k dflt else dget payload k)"

definition goal_text :: "pyval \<Rightarrow> string option result" where
  "goal_text v = (case v of PNone \<Rightarrow> Inr None | PStr s \<Rightarrow> Inr (Some s) | _ \<Rightarrow> Inl (AppError ''AttributeError''))"

definition insert_bootstrap_row ::
  "world \<Rightarrow> bytes \<Rightarrow> session_envelope \<Rightarrow> session_type \<Rightarrow> pyval \<Rightarrow> int \<Rightarrow> db \<Rightarrow> db \<times> unit result" where
  "insert_bootstrap_row W vault_key env st receiver now d =
     (let p = env_payload env;
          requested = dget_default p ''requested_agent_id'' (PStr []);
          ra = (if truthy requested then requested else PNone);
          rb = bootstrap_budget st p ''runtime_budget_seconds'' (PInt DEFAULT_BUILD_RUNTIME_BUDGET);
          ab = bootstrap_budget st p ''artifact_bytes_budget'' (PInt DEFAULT_BUILD_ARTIFACT_BYTES_BUDGET);
          cb = bootstrap_budget st p ''cost_budget_estimate'' DEFAULT_BUILD_COST_BUDGET_ESTIMATE
      in case goal_text (dget_default p ''goal'' (PStr [])) of
           Inl e \<Rightarrow> (d, Inl e)
         | Inr goal \<Rightarrow>
           (case (sql_text W receiver, sql_text W ra, sql_value rb, sql_value ab, sql_value cb) of
              (Inr (Some rec), Inr req, Inr rbv, Inr abv, Inr cbv) \<Rightarrow>
                (tick (d\<lparr>db_sessions := db_sessions d @
                   [\<lparr>sr_session_id = env_session_id env, sr_type = session_type_value st,
                     sr_initiator_username = env_actor_username env, sr_receiver_username = rec,
                     sr_status = ''draft'', sr_objective = encrypt_field W vault_key (db_tick d) goal,
                     sr_sender_agent_id = Some (env_actor_agent_id env), sr_receiver_agent_id = req,
                     sr_participant_snapshot_json = None,
                     sr_turn_limit = bootstrap_turn_limit (dget_default p ''max_turns'' (PInt 12)),
                     sr_runtime_budget_seconds = rbv, sr_artifact_bytes_budget = abv,
                     sr_cumulative_artifact_bytes = 0, sr_cost_budget_estimate = cbv, sr_cumulative_cost_estimate = 0,
                     sr_created_at = iso_now W now, sr_updated_at = iso_now W now,
                     sr_expires_at = Some (z_timestamp W (now + DEFAULT_EXPIRY_TTL_SECONDS * 1000000))\<rparr>]\<rparr>),
                 Inr ())
            | (Inl e, _) \<Rightarrow> (tick d, Inl e)
            | (_, Inl e, _) \<Rightarrow> (tick d, Inl e)
            | (_, _, Inl e, _) \<Rightarrow> (tick d, Inl e)
            | (_, _, _, Inl e, _) \<Rightarrow> (tick d, Inl e)
            | (_, _, _, _, Inl e) \<Rightarrow> (tick d, Inl e)
            | (Inr None, _) \<Rightarrow> (tick d, Inl IntegrityError)))"

definition bootstrap_session ::
  "world \<Rightarrow> bytes \<Rightarrow> session_envelope \<Rightarrow> int \<Rightarrow> db \<Rightarrow> db \<times> (transport_ack + session_state) result" where
  "bootstrap_session W vault_key env now d =
     (let p = env_payload env;
          mode = dget_default p ''collaboration_mode'' (PStr ''ask'')
      in case Option.bind (as_str mode) session_type_of of
           None \<Rightarrow> answer (ack_env W env now ''rejected'' (Some ''INVALID_SESSION_TYPE'')) d
         | Some st \<Rightarrow>
           (let receiver = (if my_username d = Some (env_actor_username env)
                            then dget_default p ''peer_username'' (PStr [])
                            else opt_str (my_username d))
            in then_do (insert_bootstrap_row W vault_key env st receiver now d) (\<lambda>_ d.
                 (d, case receiver of
                       PStr rec \<Rightarrow>
                         Inr (Inr (initial_session (env_session_id env) (env_actor_username env) rec
                           (bootstrap_turn_limit (dget_default p ''max_turns'' (PInt 12)))
                           [(env_actor_username env,
                             \<lparr>pi_agent_id = env_actor_agent_id env, pi_role = ''owner''\<rparr>)]))
                     | _ \<Rightarrow> Inl ValidationError))))"

definition ingest_state ::
  "world \<Rightarrow> bytes \<Rightarrow> session_row option \<Rightarrow> session_envelope \<Rightarrow> int \<Rightarrow> db
   \<Rightarrow> db \<times> (transport_ack + session_state) result" where
  "ingest_state W vault_key sess_row env now d =
     (case sess_row of
        None \<Rightarrow> bootstrap_session W vault_key env now d
      | Some _ \<Rightarrow>
          (case reconstruct_session_state W vault_key (env_session_id env) d of
             Inl e \<Rightarrow> (d, Inl e)
           | Inr None \<Rightarrow> answer (ack_env W env now ''rejected'' (Some ''SESSION_STATE_LOAD_FAILED'')) d
           | Inr (Some state) \<Rightarrow> (d, Inr (Inr state))))"

section \<open>Stage 4: the reducer\<close>

text \<open>The state after a node command if it is accepted, the state as it was otherwise.\<close>

definition try_node :: "session_state \<Rightarrow> string \<Rightarrow> session_state" where
  "try_node state command = rr_new_state (process_node_command state command)"

definition advance_to_review :: "session_state \<Rightarrow> session_envelope \<Rightarrow> session_state" where
  "advance_to_review state env =
     (if ss_status state \<in> set [''queued'', ''delivered'']
         \<and> env_kind env \<in> set [ACCEPTANCE, DECLINE, CLARIFICATION]
      then (let s1 = (if ss_status state = ''queued'' then try_node state ''mark_delivered'' else state)
            in try_node s1 ''mark_peer_review'')
      else state)"

section \<open>Stage 5: the ledger and the settled status\<close>

definition accept_receiver_agent :: "session_envelope \<Rightarrow> db \<Rightarrow> db" where
  "accept_receiver_agent env d =
     (if env_kind env = ACCEPTANCE
      then (case accepting_agent env of
              PStr a \<Rightarrow> if a = [] then d
                        else update_session (env_session_id env) (\<lambda>r. r\<lparr>sr_receiver_agent_id := Some a\<rparr>) d
            | _ \<Rightarrow> d)
      else d)"

definition settle_status :: "session_state \<Rightarrow> session_envelope \<Rightarrow> string option \<Rightarrow> session_state" where
  "settle_status state env me =
     (let foreign = (me \<noteq> Some (env_actor_username env));
          s1 = (if ss_status state = ''sent'' \<and> foreign
                then (let r = process_node_command state ''mark_delivered'' in
                      if rr_success r
                      then (if env_kind env = TASK_REQUEST then try_node (rr_new_state r) ''mark_peer_review''
                            else rr_new_state r)
                      else state)
                else state)
      in if ss_status s1 = ''accepted'' \<and> foreign then try_node s1 ''mark_active'' else s1)"

definition str_of :: "world \<Rightarrow> pyval \<Rightarrow> string" where
  "str_of W v = (case v of PStr s \<Rightarrow> s | _ \<Rightarrow> w_str W v)"

definition outcome_summary :: "world \<Rightarrow> session_envelope \<Rightarrow> string" where
  "outcome_summary W env =
     (let p = env_payload env in
      str_of W (py_or (py_or (py_or (dget p ''outcome'') (dget p ''message'')) (dget p ''content''))
        (PStr ''Session completed with a signed final result.'')))"

definition record_outcome :: "world \<Rightarrow> bytes \<Rightarrow> session_envelope \<Rightarrow> db \<Rightarrow> db \<times> unit result" where
  "record_outcome W vault_key env d =
     (if env_kind env \<noteq> FINAL_RESULT then (d, Inr ())
      else case create_outcome_card W vault_key (env_session_id env) (outcome_summary W env) d of
        (d', Inr _) \<Rightarrow> (d', Inr ())
      | (d', Inl _) \<Rightarrow>
          then_do (write_audit_event W vault_key ''outcome_card_error'' (Some (env_session_id env)) None
                     PNone (Some (env_session_id env)) d')
            (\<lambda>_ d. (d, Inr ())))"

text \<open>Everything up to the settled status and the outcome card.\<close>

definition ingest_commit ::
  "world \<Rightarrow> bytes \<Rightarrow> session_envelope \<Rightarrow> session_state \<Rightarrow> int \<Rightarrow> db
   \<Rightarrow> db \<times> (transport_ack + unit) result" where
  "ingest_commit W vault_key env state now d =
     (case process_peer_envelope (advance_to_review state env) env of
        Inl e \<Rightarrow> (d, Inl e)
      | Inr red \<Rightarrow>
        if \<not> rr_success red then answer (ack_env W env now ''rejected'' (rr_error_code red)) d
        else then_do (append_session_event W vault_key (env_session_id env) (env_actor_username env)
                        (Some (env_actor_agent_id env)) (message_kind_value (env_kind env)) ''peer_visible''
                        (of_dict (env_payload env)) (env_signature env) (Some (env_sequence env))
                        (accept_receiver_agent env d)) (\<lambda>app d.
          case app of
            RejectedEvent code \<Rightarrow> answer (ack_env W env now ''rejected'' (Some code)) d
          | _ \<Rightarrow>
            (let final = settle_status (rr_new_state red) env (my_username d);
                 d1 = update_session (env_session_id env)
                        (\<lambda>r. r\<lparr>sr_status := ss_status final, sr_updated_at := iso_now W now\<rparr>) d
             in then_do (record_outcome W vault_key env d1) (\<lambda>_ d. (d, Inr (Inr ()))))))"

definition ingest_core ::
  "world \<Rightarrow> bytes \<Rightarrow> pydict \<Rightarrow> (string \<Rightarrow> bytes option) \<Rightarrow> int \<Rightarrow> db
   \<Rightarrow> db \<times> (transport_ack + session_row option \<times> session_envelope) result" where
  "ingest_core W vault_key raw get_pk now d =
     then_do (ingest_verify W vault_key raw get_pk now d) (\<lambda>x d.
       case x of
         Inl ack \<Rightarrow> (d, Inr (Inl ack))
       | Inr (sess_row, env) \<Rightarrow>
           then_do (ingest_state W vault_key sess_row env now d) (\<lambda>y d.
             case y of
               Inl ack \<Rightarrow> (d, Inr (Inl ack))
             | Inr state \<Rightarrow>
                 then_do (ingest_commit W vault_key env state now d) (\<lambda>z d.
                   case z of
                     Inl ack \<Rightarrow> (d, Inr (Inl ack))
                   | Inr _ \<Rightarrow> (d, Inr (Inr (sess_row, env))))))"

text \<open>
  Ingestion of an envelope that is not an artifact offer ends here: the delivered acknowledgement
  carries the sequence number of the raw body.
\<close>

definition ingest_plain ::
  "world \<Rightarrow> bytes \<Rightarrow> pydict \<Rightarrow> (string \<Rightarrow> bytes option) \<Rightarrow> int \<Rightarrow> db \<Rightarrow> db \<times> transport_ack result" where
  "ingest_plain W vault_key raw get_pk now d =
     then_do (ingest_core W vault_key raw get_pk now d) (\<lambda>x d.
       case x of
         Inl ack \<Rightarrow> (d, Inr ack)
       | Inr (sess_row, env) \<Rightarrow> (d, ack_env W env now ''delivered'' None))"

section \<open>The contract of a node operation\<close>

text \<open>
  What every operation of the transport layer promises about the profile database: the ledger
  invariant survives, ledger, audit trail and artifacts only grow at the end, the identity and the
  contacts stay, and every session that exists keeps existing and moves along edges of the reducer.
\<close>

definition progress :: "db \<Rightarrow> db \<Rightarrow> bool" where
  "progress d d' =
     ((ledger_inv d \<longrightarrow> ledger_inv d') \<and> (\<exists>es. db_events d' = db_events d @ es)
      \<and> (\<exists>xs. db_audit d' = db_audit d @ xs) \<and> (\<exists>as. db_artifacts d' = db_artifacts d @ as)
      \<and> db_identity d' = db_identity d \<and> db_contacts d' = db_contacts d
      \<and> (\<forall>sid s. row_status d sid = Some s \<longrightarrow> (\<exists>t. row_status d' sid = Some t \<and> reducer_edge\<^sup>*\<^sup>* s t)))"

lemma progress_refl [simp]: "progress d d"
  by (simp add: progress_def)

lemma progress_trans [trans]:
  assumes "progress a b" and "progress b c"
  shows "progress a c"
proof -
  have "\<exists>t. row_status c sid = Some t \<and> reducer_edge\<^sup>*\<^sup>* s t" if s: "row_status a sid = Some s" for sid s
  proof -
    obtain t where t: "row_status b sid = Some t" "reducer_edge\<^sup>*\<^sup>* s t"
      using assms(1) s by (auto simp: progress_def)
    then obtain u where "row_status c sid = Some u" "reducer_edge\<^sup>*\<^sup>* t u"
      using assms(2) by (auto simp: progress_def)
    with t show ?thesis by auto
  qed
  with assms show ?thesis by (auto simp: progress_def)
qed

lemma progress_same: "same_tables d d' \<Longrightarrow> progress d d'"
  by (auto simp: progress_def ledger_inv_same) (auto simp: same_tables_def)

lemma ledger_inv_cong:
  assumes "db_events d' = db_events d" and "\<And>sid. find_session d sid \<noteq> None \<Longrightarrow> find_session d' sid \<noteq> None"
  shows "ledger_inv d \<Longrightarrow> ledger_inv d'"
  using assms by (auto simp: ledger_inv_def session_events_of_def)

lemma row_status_None_iff: "row_status d sid = None \<longleftrightarrow> find_session d sid = None"
  by (simp add: row_status_def)

text \<open>A change of session rows that keeps every row and moves statuses along edges.\<close>

lemma progress_sessions:
  assumes "db_events d' = db_events d" and "\<exists>xs. db_audit d' = db_audit d @ xs"
    and "db_artifacts d' = db_artifacts d" and "db_identity d' = db_identity d"
    and "db_contacts d' = db_contacts d"
    and row: "\<And>sid s. row_status d sid = Some s \<Longrightarrow> \<exists>t. row_status d' sid = Some t \<and> reducer_edge\<^sup>*\<^sup>* s t"
  shows "progress d d'"
proof -
  have "find_session d' sid \<noteq> None" if "find_session d sid \<noteq> None" for sid
    using that row [of sid] row_status_None_iff [of d sid] row_status_None_iff [of d' sid] by fastforce
  from ledger_inv_cong [OF assms(1) this] assms show ?thesis by (auto simp: progress_def)
qed

lemma progress_transition:
  assumes "status_only d d'" and "statuses_follow d d'"
  shows "progress d d'"
proof (rule progress_sessions)
  fix sid s assume "row_status d sid = Some s"
  with statuses_followD [OF assms(2), of sid]
  show "\<exists>t. row_status d' sid = Some t \<and> reducer_edge\<^sup>*\<^sup>* s t" by auto
qed (use assms(1) in \<open>auto simp: status_only_def\<close>)

lemma progress_node_command: "progress d (fst (apply_node_command_transition W k sid c now d))"
  using apply_node_ok [of W k sid c now d] progress_transition by (metis prod.collapse)

lemma progress_append: "progress d (fst (append_session_event W k sid un ag kind vis p sg sq d))"
proof -
  obtain d' r where a: "append_session_event W k sid un ag kind vis p sg sq d = (d', r)" by force
  from append_session_event_cases [OF a] have "progress d d'"
  proof
    assume "insert_session_event W k sid un ag kind vis p sg sq d = (d', r)
        \<and> (\<forall>i. sq = Some i \<longrightarrow> find_sequence d sid un i = None)"
    then have i: "insert_session_event W k sid un ag kind vis p sg sq d = (d', r)"
      and new: "\<And>i. sq = Some i \<Longrightarrow> find_sequence d sid un i = None" by auto
    from insert_session_event_inv [OF i _ new] insert_session_event_cases [OF i]
    show ?thesis by (auto simp: progress_def row_status_def find_session_def same_tables_def)
  qed (simp add: progress_same)
  with a show ?thesis by simp
qed

lemma progress_audit: "progress d (fst (write_audit_event W k c sid un p cor d))"
  using write_audit_same [of W k c sid un p cor d] progress_same by (metis prod.collapse)

lemma progress_check: "progress d (fst (check_sequence_conflict W k sid un sq p d))"
  using check_sequence_same [of W k sid un sq p d] progress_same by (metis prod.collapse)

lemma progress_update_session:
  assumes "\<And>r. sr_session_id (f r) = sr_session_id r"
    and "\<And>r. find_session d sid = Some r \<Longrightarrow> reducer_edge\<^sup>*\<^sup>* (sr_status r) (sr_status (f r))"
  shows "progress d (update_session sid f d)"
proof (rule progress_sessions)
  fix sid' s assume "row_status d sid' = Some s"
  with assms show "\<exists>t. row_status (update_session sid f d) sid' = Some t \<and> reducer_edge\<^sup>*\<^sup>* s t"
    by (auto simp: row_status_def find_map_session)
qed (simp_all add: update_session_def)

lemma progress_then_do:
  assumes "progress d (fst m)" and "\<And>x d1. m = (d1, Inr x) \<Longrightarrow> progress d1 (fst (f x d1))"
  shows "progress d (fst (then_do m f))"
  using assms progress_trans by (cases m) (auto simp: then_do_def split: sum.split)

lemma progress_answer [simp]: "fst (answer a d) = d"
  by (simp add: answer_def)

lemma progress_tick [simp]: "progress d (tick d)"
  by (simp add: progress_same)

lemma progress_http: "progress d (snd (http_call W verb url body d))"
  by (rule progress_sessions) (auto simp: http_call_def row_status_def find_session_def)

lemma progress_terminal:
  assumes "progress d d'" and "row_status d sid = Some s" and "is_terminal_state s"
  shows "row_status d' sid = Some s"
proof -
  obtain t where t: "row_status d' sid = Some t" "reducer_edge\<^sup>*\<^sup>* s t"
    using assms(1,2) by (auto simp: progress_def)
  from t(2) assms(3) have "t = s"
    by (induction rule: rtranclp_induct) (auto dest: reducer_matrix.terminal_no_exit)
  with t(1) show ?thesis by simp
qed

locale node_operation =
  fixes run :: "'a \<Rightarrow> db \<Rightarrow> db \<times> 'r result"
  assumes makes_progress: "run a d = (d', r) \<Longrightarrow> progress d d'"
begin

lemma run_progress: "progress d (fst (run a d))"
  using makes_progress [of a d "fst (run a d)" "snd (run a d)"] by simp

lemma runs_progress: "progress d (fold (\<lambda>a d. fst (run a d)) as d)"
proof (induction as arbitrary: d)
  case (Cons a as)
  from progress_trans [OF run_progress Cons.IH] show ?case by simp
qed simp

lemma terminal_final:
  "row_status d sid = Some s \<Longrightarrow> is_terminal_state s \<Longrightarrow>
   row_status (fold (\<lambda>a d. fst (run a d)) as d) sid = Some s"
  by (rule progress_terminal [OF runs_progress])

end

section \<open>Verified envelopes\<close>

lemma then_do_Inr:
  assumes "then_do m f = (d', Inr y)"
  obtains d1 x where "m = (d1, Inr x)" and "f x d1 = (d', Inr y)"
  using assms by (cases m) (auto simp: then_do_def split: sum.splits)

text \<open>The envelope in a raw body is well formed, hashed and signed by the user it names.\<close>

definition authentic :: "world \<Rightarrow> pydict \<Rightarrow> (string \<Rightarrow> bytes option) \<Rightarrow> session_envelope \<Rightarrow> bool" where
  "authentic W raw get_pk env =
     (session_envelope_validate raw = Inr env
      \<and> compute_content_hash (w_crypto W) (env_payload env) = Inr (env_content_hash env)
      \<and> (\<exists>pk. get_pk (env_actor_username env) = Some pk \<and> verify_envelope_signature (w_crypto W) raw pk))"

lemma verified_authentic:
  assumes "vr_verified_envelope (verify_and_build_envelope (w_crypto W) raw get_pk sid pmap) = Some ve"
  shows "authentic W raw get_pk (ve_envelope ve) \<and> env_session_id (ve_envelope ve) = sid"
proof -
  have "vr_success (verify_and_build_envelope (w_crypto W) raw get_pk sid pmap)"
    using assms verify_and_build_failure [of "w_crypto W" raw get_pk sid pmap]
    by (fastforce simp: verification_failure_def)
  with assms show ?thesis
    unfolding verify_and_build_success_iff by (auto simp: authentic_def)
qed

lemma validated_fields:
  assumes "session_envelope_validate raw = Inr env"
  shows "map_of raw ''session_id'' = Some (PStr (env_session_id env))"
    and "map_of raw ''actor_username'' = Some (PStr (env_actor_username env))"
    and "map_of raw ''actor_agent_id'' = Some (PStr (env_actor_agent_id env))"
    and "map_of raw ''sequence'' = Some (PInt (env_sequence env))"
    and "map_of raw ''kind'' = Some (PStr (message_kind_value (env_kind env)))"
proof -
  have str: "as_str v = Some x \<Longrightarrow> v = PStr x" for v x by (cases v) (simp_all add: as_str_def)
  have kind: "validate_kind_enum v = Some x \<Longrightarrow> v = PStr (message_kind_value x)" for v x
    by (cases v) (auto simp: validate_kind_enum_def dest: message_kind_of_SomeD)
  have f: "Option.bind (map_of raw ''session_id'') as_str = Some (env_session_id env)"
      "Option.bind (map_of raw ''actor_username'') as_str = Some (env_actor_username env)"
      "Option.bind (map_of raw ''actor_agent_id'') as_str = Some (env_actor_agent_id env)"
      "Option.bind (map_of raw ''sequence'') validate_strict_int_sequence = Some (env_sequence env)"
      "Option.bind (map_of raw ''kind'') validate_kind_enum = Some (env_kind env)"
    using assms
    by (auto simp: session_envelope_validate_def envelope_fields_def bind_eq_Some_conv
        split: if_splits option.splits)
  from f show "map_of raw ''session_id'' = Some (PStr (env_session_id env))"
    and "map_of raw ''actor_username'' = Some (PStr (env_actor_username env))"
    and "map_of raw ''actor_agent_id'' = Some (PStr (env_actor_agent_id env))"
    and "map_of raw ''sequence'' = Some (PInt (env_sequence env))"
    and "map_of raw ''kind'' = Some (PStr (message_kind_value (env_kind env)))"
    by (auto simp: bind_eq_Some_conv dest!: str kind validate_strict_int_sequenceD)
qed

lemma validated_session_id:
  "session_envelope_validate raw = Inr env \<Longrightarrow> raw_get raw ''session_id'' = PStr (env_session_id env)"
  by (simp add: raw_get_def dget_default_def validated_fields(1))

lemma lookup_row:
  assumes "ingest_lookup W k raw get_pk now d = (d', Inr (Inr (sess_row, pmap)))"
  shows "find_session_param W (raw_get raw ''session_id'') d = Inr sess_row
    \<and> (sess_row = None \<longrightarrow> d' = d)"
  using assms unfolding ingest_lookup_def
  by (auto simp: answer_def elim!: then_do_Inr split: sum.splits option.splits if_splits)

lemma progress_lazy_expire: "progress d (fst (lazy_expire W k row now d))"
  unfolding lazy_expire_def
  by (auto split: option.split intro!: progress_then_do progress_node_command)

lemma lazy_expire_events: "db_events (fst (lazy_expire W k row now d)) = db_events d"
  using apply_node_ok [of W k "sr_session_id row" "''mark_expired''" now d]
  by (cases "apply_node_command_transition W k (sr_session_id row) ''mark_expired'' now d")
    (auto simp: lazy_expire_def then_do_def status_only_def split: option.split sum.split)

lemma progress_lookup:
  "progress d (fst (ingest_lookup W k raw get_pk now d))
   \<and> db_events (fst (ingest_lookup W k raw get_pk now d)) = db_events d"
proof (cases "find_session_param W (raw_get raw ''session_id'') d")
  case (Inr r)
  then show ?thesis
  proof (cases r)
    case (Some row)
    obtain d1 q where q: "lazy_expire W k row now d = (d1, q)" by force
    then have "progress d d1" "db_events d1 = db_events d"
      using progress_lazy_expire [of d W k row now] lazy_expire_events [of W k row now d] by auto
    with q Inr Some show ?thesis
      by (simp add: ingest_lookup_def then_do_def split: sum.split)
  qed (simp add: ingest_lookup_def)
qed (simp add: ingest_lookup_def)

lemma progress_verify:
  "progress d (fst (ingest_verify W k raw get_pk now d))
   \<and> db_events (fst (ingest_verify W k raw get_pk now d)) = db_events d"
proof -
  obtain d1 q where q: "ingest_lookup W k raw get_pk now d = (d1, q)" by force
  then have d1: "progress d d1" "db_events d1 = db_events d"
    using progress_lookup [of d W k raw get_pk now] by auto
  have check: "progress d (fst (check_sequence_conflict W k sid un sq p d1))
      \<and> db_events (fst (check_sequence_conflict W k sid un sq p d1)) = db_events d" for sid un sq p
    using progress_trans [OF d1(1) progress_check] d1(2)
      check_sequence_same [of W k sid un sq p d1] by (metis prod.collapse same_tables_def)
  show ?thesis
    unfolding ingest_verify_def q using d1 check
    by (auto simp: then_do_def Let_def answer_def split: sum.split option.split prod.split
        sequence_status.split) (metis fst_conv)+
qed

lemma verify_ok:
  assumes "ingest_verify W k raw get_pk now d = (d', Inr (Inr (sess_row, env)))"
  shows "authentic W raw get_pk env
    \<and> (sess_row = None \<longrightarrow> find_session d' (env_session_id env) = None)
    \<and> (\<forall>row. sess_row = Some row \<longrightarrow> find_session d (env_session_id env) = Some row)
    \<and> find_sequence d' (env_session_id env) (env_actor_username env) (env_sequence env) = None"
proof -
  from assms obtain d1 pmap ve where
    lk: "ingest_lookup W k raw get_pk now d = (d1, Inr (Inr (sess_row, pmap)))"
    and ve: "vr_verified_envelope (verify_and_build_envelope (w_crypto W) raw get_pk (raw_session raw) pmap)
        = Some ve" and env: "env = ve_envelope ve"
    and ck: "check_sequence_conflict W k (env_session_id env) (env_actor_username env) (env_sequence env)
        (of_dict (env_payload env)) d1 = (d', Inr SeqNew)"
    unfolding ingest_verify_def
    by (auto simp: Let_def answer_def elim!: then_do_Inr split: sum.splits option.splits prod.splits
        sequence_status.splits)
  have auth: "authentic W raw get_pk env" using verified_authentic [OF ve] env by simp
  then have "raw_get raw ''session_id'' = PStr (env_session_id env)"
    by (intro validated_session_id) (simp add: authentic_def)
  with lookup_row [OF lk] have row: "find_session d (env_session_id env) = sess_row"
    and d1: "sess_row = None \<longrightarrow> d1 = d"
    by (auto simp: find_session_param_def sql_text_def)
  with check_sequence_new [OF ck] auth show ?thesis by auto
qed

section \<open>State and commit\<close>

lemma find_session_snoc:
  "find_session (d\<lparr>db_sessions := db_sessions d @ [r]\<rparr>) sid =
     (case find_session d sid of Some q \<Rightarrow> Some q | None \<Rightarrow> if sr_session_id r = sid then Some r else None)"
  by (simp add: find_session_def find_snoc)

lemma find_session_tick [simp]: "find_session (tick d) sid = find_session d sid"
  by (simp add: find_session_def)

lemma row_status_tick [simp]: "row_status (tick d) sid = row_status d sid"
  by (simp add: row_status_def)

lemma progress_new_session: "progress d (d\<lparr>db_sessions := db_sessions d @ [r]\<rparr>)"
  by (rule progress_sessions) (auto simp: row_status_def find_session_snoc)

lemma insert_bootstrap_cases:
  assumes "insert_bootstrap_row W k env st receiver now d = (d', r)"
  shows "(\<exists>e. r = Inl e \<and> (d' = d \<or> d' = tick d))
    \<or> (\<exists>row. r = Inr () \<and> d' = tick (d\<lparr>db_sessions := db_sessions d @ [row]\<rparr>)
         \<and> sr_session_id row = env_session_id env \<and> sr_status row = ''draft''
         \<and> sr_initiator_username row = env_actor_username env \<and> sql_text W receiver = Inr (Some (sr_receiver_username row)))"
  using assms unfolding insert_bootstrap_row_def Let_def
  by (simp split: sum.splits option.splits; auto)

lemma bootstrap_ok:
  assumes "bootstrap_session W k env now d = (d', r)"
  shows "progress d d' \<and> db_events d' = db_events d
    \<and> (\<forall>state. r = Inr (Inr state) \<longrightarrow> find_session d (env_session_id env) = None \<longrightarrow>
         row_status d' (env_session_id env) = Some (ss_status state) \<and> ss_session_id state = env_session_id env
         \<and> ss_initiator_username state = env_actor_username env)"
proof (cases "Option.bind (as_str (dget_default (env_payload env) ''collaboration_mode'' (PStr ''ask''))) session_type_of")
  case None
  with assms show ?thesis by (auto simp: bootstrap_session_def Let_def answer_def split: sum.splits)
next
  case (Some st)
  define rc where "rc = (if my_username d = Some (env_actor_username env)
    then dget_default (env_payload env) ''peer_username'' (PStr []) else opt_str (my_username d))"
  define state0 where "state0 rec = initial_session (env_session_id env) (env_actor_username env) rec
      (bootstrap_turn_limit (dget_default (env_payload env) ''max_turns'' (PInt 12)))
      [(env_actor_username env, \<lparr>pi_agent_id = env_actor_agent_id env, pi_role = ''owner''\<rparr>)]" for rec
  obtain d1 q where i: "insert_bootstrap_row W k env st rc now d = (d1, q)" by force
  have "bootstrap_session W k env now d = then_do (d1, q) (\<lambda>_ d. (d, case rc of
      PStr rec \<Rightarrow> Inr (Inr (state0 rec)) | _ \<Rightarrow> Inl ValidationError))"
    unfolding bootstrap_session_def Let_def Some option.case i [symmetric] rc_def state0_def by (rule refl)
  with assms have d': "d' = d1" and r: "\<And>e. q = Inl e \<Longrightarrow> r = Inl e"
    and st: "\<And>state. r = Inr (Inr state) \<Longrightarrow> \<exists>rec. state = state0 rec"
    by (auto simp: then_do_def split: sum.splits pyval.splits)
  have props: "ss_status (state0 rec) = ''draft''" "ss_session_id (state0 rec) = env_session_id env"
      "ss_initiator_username (state0 rec) = env_actor_username env" for rec
    by (simp_all add: initial_session_def state0_def)
  from insert_bootstrap_cases [OF i] show ?thesis
  proof
    assume "\<exists>e. q = Inl e \<and> (d1 = d \<or> d1 = tick d)"
    with d' r show ?thesis by auto
  next
    assume "\<exists>row. q = Inr () \<and> d1 = tick (d\<lparr>db_sessions := db_sessions d @ [row]\<rparr>)
         \<and> sr_session_id row = env_session_id env \<and> sr_status row = ''draft''
         \<and> sr_initiator_username row = env_actor_username env
         \<and> sql_text W rc = Inr (Some (sr_receiver_username row))"
    then obtain row where row: "d1 = tick (d\<lparr>db_sessions := db_sessions d @ [row]\<rparr>)"
      "sr_session_id row = env_session_id env" "sr_status row = ''draft''" by blast
    have "progress d d1" using progress_trans [OF progress_new_session progress_tick] row(1) by simp
    with row d' st props show ?thesis by (fastforce simp: row_status_def find_session_snoc)
  qed
qed

lemma state_ok:
  assumes "ingest_state W k sess_row env now d = (d', r)"
    and "sess_row = None \<longrightarrow> find_session d (env_session_id env) = None"
  shows "progress d d' \<and> db_events d' = db_events d
    \<and> (\<forall>state. r = Inr (Inr state) \<longrightarrow>
         row_status d' (env_session_id env) = Some (ss_status state) \<and> ss_session_id state = env_session_id env)"
proof (cases sess_row)
  case None
  with assms have "bootstrap_session W k env now d = (d', r)"
    and "find_session d (env_session_id env) = None" by (simp_all add: ingest_state_def)
  then show ?thesis using bootstrap_ok by blast
next
  case (Some row)
  show ?thesis
  proof (cases "reconstruct_session_state W k (env_session_id env) d")
    case (Inl e)
    with assms Some have "d' = d" "r = Inl e" by (simp_all add: ingest_state_def)
    then show ?thesis by simp
  next
    case (Inr q)
    show ?thesis
    proof (cases q)
      case None
      with Inr assms Some have "d' = d" "\<And>state. r \<noteq> Inr (Inr state)"
        by (auto simp: ingest_state_def answer_def split: sum.splits)
      then show ?thesis by simp
    next
      case (Some state)
      with Inr assms \<open>sess_row = Some row\<close> have "d' = d" "r = Inr (Inr state)" by (simp_all add: ingest_state_def)
      with Inr Some show ?thesis by (auto simp: row_status_def elim!: reconstruct_Some)
    qed
  qed
qed

text \<open>The status moves along edges of the reducer.\<close>

definition moves :: "session_state \<Rightarrow> session_state \<Rightarrow> bool" where
  "moves s t = reducer_edge\<^sup>*\<^sup>* (ss_status s) (ss_status t)"

lemma moves_refl [simp]: "moves s s"
  by (simp add: moves_def)

lemma moves_trans [trans]: "moves s t \<Longrightarrow> moves t u \<Longrightarrow> moves s u"
  by (auto simp: moves_def)

lemma moves_edge: "ss_status t = ss_status s \<or> reducer_edge (ss_status s) (ss_status t) \<Longrightarrow> moves s t"
  by (auto simp: moves_def)

lemma try_node_moves: "moves s (try_node s c)"
proof (cases "rr_success (process_node_command s c)")
  case True
  from node_edge [OF True] show ?thesis by (simp add: try_node_def moves_edge)
next
  case False
  then show ?thesis by (simp add: try_node_def node_reject)
qed

lemma try_node_twice: "moves s (try_node (try_node s c) c')"
  by (rule moves_trans [OF try_node_moves try_node_moves])

lemma advance_moves: "moves s (advance_to_review s env)"
  unfolding advance_to_review_def Let_def by (simp add: try_node_moves try_node_twice)

lemma settle_moves: "moves s (settle_status s env me)"
proof -
  let ?foreign = "me \<noteq> Some (env_actor_username env)"
  let ?r = "process_node_command s ''mark_delivered''"
  define s1 where "s1 = (if ss_status s = ''sent'' \<and> ?foreign
     then (if rr_success ?r then (if env_kind env = TASK_REQUEST then try_node (rr_new_state ?r) ''mark_peer_review''
           else rr_new_state ?r) else s) else s)"
  have d: "moves s (rr_new_state ?r)" using try_node_moves [of s "''mark_delivered''"] by (simp add: try_node_def)
  have s1: "moves s s1" unfolding s1_def using d moves_trans [OF d try_node_moves] by simp
  have "settle_status s env me = (if ss_status s1 = ''accepted'' \<and> ?foreign then try_node s1 ''mark_active'' else s1)"
    unfolding settle_status_def s1_def Let_def by (rule refl)
  then show ?thesis using s1 moves_trans [OF s1 try_node_moves] by simp
qed

lemma peer_moves:
  assumes "process_peer_envelope s e = Inr r" and "rr_success r"
  shows "moves s (rr_new_state r)"
proof -
  have "accepted_by process_peer_envelope s (rr_new_state r)" using assms by (auto simp: accepted_by_def)
  from peer.success_edge [OF this] show ?thesis by (rule moves_edge)
qed

text \<open>The ledger row of an envelope.\<close>

definition recorded :: "session_envelope \<Rightarrow> event_row \<Rightarrow> bool" where
  "recorded env e =
     (er_session_id e = env_session_id env \<and> er_actor_username e = env_actor_username env
      \<and> er_sequence e = Some (env_sequence env) \<and> er_kind e = message_kind_value (env_kind env))"

lemma outcome_db:
  "fst (create_outcome_card W k sid summ d) = d
   \<or> (\<exists>p. fst (create_outcome_card W k sid summ d) = fst (append_local_event W k sid ''system'' OUTCOME p d))"
  unfolding create_outcome_card_def by (auto split: sum.split option.split prod.split) (metis fst_conv)+

lemma local_event_db:
  "fst (append_local_event W k sid actor kind p d) =
   fst (append_session_event W k sid actor None (internal_event_kind_value kind) ''local_only'' (of_dict p) None None d)"
  by (simp add: append_local_event_def split: sum.split prod.split append_result.split)

lemma local_event_unsequenced:
  "\<exists>es. db_events (fst (append_local_event W k sid actor kind p d)) = db_events d @ es
     \<and> (\<forall>e \<in> set es. er_sequence e = None)"
  using append_local_event_cases [of W k sid actor kind p d]
  by (cases "append_local_event W k sid actor kind p d") (auto simp: same_tables_def)

lemma progress_outcome:
  "progress d (fst (create_outcome_card W k sid summ d))
   \<and> (\<exists>es. db_events (fst (create_outcome_card W k sid summ d)) = db_events d @ es
        \<and> (\<forall>e \<in> set es. er_sequence e = None))"
  using outcome_db [of W k sid summ d]
proof
  assume "\<exists>p. fst (create_outcome_card W k sid summ d) = fst (append_local_event W k sid ''system'' OUTCOME p d)"
  then obtain p where p: "fst (create_outcome_card W k sid summ d) = fst (append_local_event W k sid ''system'' OUTCOME p d)" ..
  show ?thesis
    unfolding p using local_event_unsequenced [of W k sid "''system''" OUTCOME p d]
    by (simp add: local_event_db progress_append)
qed simp

lemma progress_record_outcome:
  assumes "record_outcome W k env d = (d', r)"
  shows "progress d d' \<and> (\<exists>es. db_events d' = db_events d @ es \<and> (\<forall>e \<in> set es. er_sequence e = None))"
proof (cases "env_kind env = FINAL_RESULT")
  case True
  obtain d1 q where q: "create_outcome_card W k (env_session_id env) (outcome_summary W env) d = (d1, q)" by force
  with progress_outcome [of d W k "env_session_id env" "outcome_summary W env"]
  have d1: "progress d d1" "\<exists>es. db_events d1 = db_events d @ es \<and> (\<forall>e \<in> set es. er_sequence e = None)" by auto
  obtain d2 x where w: "write_audit_event W k ''outcome_card_error'' (Some (env_session_id env)) None PNone
      (Some (env_session_id env)) d1 = (d2, x)" by force
  from write_audit_same [OF w] have d2: "progress d d2" "db_events d2 = db_events d1"
    using progress_trans [OF d1(1) progress_same] by (simp_all add: same_tables_def)
  have "d' = d1 \<or> d' = d2"
    using assms True q w by (auto simp: record_outcome_def then_do_def split: sum.splits)
  with d1 d2 show ?thesis by auto
qed (use assms in \<open>simp add: record_outcome_def\<close>)

lemma accept_agent_frame:
  "progress d (accept_receiver_agent env d) \<and> db_events (accept_receiver_agent env d) = db_events d
   \<and> row_status (accept_receiver_agent env d) sid = row_status d sid"
proof -
  have u: "progress d (update_session s (\<lambda>r. r\<lparr>sr_receiver_agent_id := Some a\<rparr>) d)
      \<and> db_events (update_session s (\<lambda>r. r\<lparr>sr_receiver_agent_id := Some a\<rparr>) d) = db_events d
      \<and> row_status (update_session s (\<lambda>r. r\<lparr>sr_receiver_agent_id := Some a\<rparr>) d) sid = row_status d sid" for s a
    by (intro conjI progress_update_session)
      (simp_all add: row_status_def find_map_session option.map_comp comp_def, simp_all add: update_session_def)
  show ?thesis
    using u by (simp add: accept_receiver_agent_def split: pyval.split)
qed

lemma append_recorded:
  assumes "append_session_event W k (env_session_id env) (env_actor_username env) ag
      (message_kind_value (env_kind env)) vis p sg (Some (env_sequence env)) d = (d', r)"
  shows "\<exists>es. db_events d' = db_events d @ es \<and> (\<forall>e \<in> set es. recorded env e)
    \<and> ((\<exists>c. r = Inr (RejectedEvent c)) \<longrightarrow> es = []) \<and> db_sessions d' = db_sessions d"
  using append_session_event_cases [OF assms]
proof
  assume "insert_session_event W k (env_session_id env) (env_actor_username env) ag
      (message_kind_value (env_kind env)) vis p sg (Some (env_sequence env)) d = (d', r)
     \<and> (\<forall>i. Some (env_sequence env) = Some i \<longrightarrow> find_sequence d (env_session_id env) (env_actor_username env) i = None)"
  then have i: "insert_session_event W k (env_session_id env) (env_actor_username env) ag
      (message_kind_value (env_kind env)) vis p sg (Some (env_sequence env)) d = (d', r)" ..
  from insert_session_event_cases [OF i] show ?thesis
    by (auto simp: same_tables_def recorded_def)
qed (auto simp: same_tables_def)

lemma commit_ok:
  assumes c: "ingest_commit W k env state now d = (d', r)"
    and row: "row_status d (env_session_id env) = Some (ss_status state)"
  shows "progress d d' \<and> (\<exists>es. db_events d' = db_events d @ es \<and> (\<forall>e \<in> set es. er_sequence e = None \<or> recorded env e)
      \<and> (es \<noteq> [] \<longrightarrow> (\<exists>red. process_peer_envelope (advance_to_review state env) env = Inr red \<and> rr_success red))
      \<and> ((\<exists>ack. r = Inr (Inl ack)) \<longrightarrow> es = []))"
proof (cases "\<exists>red. process_peer_envelope (advance_to_review state env) env = Inr red \<and> rr_success red")
  case False
  with c have "d' = d"
    by (auto simp: ingest_commit_def answer_def split: sum.splits if_splits)
  then show ?thesis by simp
next
  case True
  then obtain red where red: "process_peer_envelope (advance_to_review state env) env = Inr red" "rr_success red" by blast
  define d0 where "d0 = accept_receiver_agent env d"
  have d0: "progress d d0" "db_events d0 = db_events d" "row_status d0 (env_session_id env) = Some (ss_status state)"
    using accept_agent_frame [of d env] row by (simp_all add: d0_def)
  obtain d1 app where app: "append_session_event W k (env_session_id env) (env_actor_username env)
      (Some (env_actor_agent_id env)) (message_kind_value (env_kind env)) ''peer_visible''
      (of_dict (env_payload env)) (env_signature env) (Some (env_sequence env)) d0 = (d1, app)" by force
  obtain es where es: "db_events d1 = db_events d @ es" "\<forall>e \<in> set es. recorded env e"
      "(\<exists>c. app = Inr (RejectedEvent c)) \<longrightarrow> es = []" and ss: "db_sessions d1 = db_sessions d0"
    using append_recorded [OF app] d0(2) by auto
  have p1: "progress d d1"
    using progress_trans [OF d0(1) progress_append] app by (metis fst_conv)
  have row1: "row_status d1 (env_session_id env) = Some (ss_status state)"
    using ss d0(3) by (simp add: row_status_def find_session_def)
  have plain: ?thesis if "d' = d1" and "(\<exists>ack. r = Inr (Inl ack)) \<longrightarrow> (\<exists>c. app = Inr (RejectedEvent c))"
    using that p1 es True by auto
  show ?thesis
  proof (cases "\<exists>e. app = Inl e \<or> (\<exists>c. app = Inr (RejectedEvent c))")
    case bad: True
    then show ?thesis
      using c red app
      by (intro plain; cases app; clarsimp simp: ingest_commit_def then_do_def answer_def d0_def [symmetric] split: sum.splits)
  next
    case False
    define final where "final = settle_status (rr_new_state red) env (my_username d1)"
    define d2 where "d2 = update_session (env_session_id env)
        (\<lambda>r. r\<lparr>sr_status := ss_status final, sr_updated_at := iso_now W now\<rparr>) d1"
    have "moves state final"
      unfolding final_def by (rule moves_trans [OF moves_trans [OF advance_moves peer_moves [OF red]] settle_moves])
    then have p2: "progress d d2" unfolding d2_def
      using row1 by (intro progress_trans [OF p1] progress_update_session) (auto simp: moves_def row_status_def)
    obtain d3 x where o: "record_outcome W k env d2 = (d3, x)" by force
    obtain app' where app': "app = Inr app'" "\<forall>c. app' \<noteq> RejectedEvent c" using False by (cases app) auto
    have "ingest_commit W k env state now d = then_do (d3, x) (\<lambda>_ d. (d, Inr (Inr ())))"
      using red app app' o
      by (cases app') (simp_all add: ingest_commit_def then_do_def d0_def [symmetric] Let_def final_def [symmetric]
          d2_def [symmetric])
    then have d': "d' = d3" and r: "\<And>ack. r \<noteq> Inr (Inl ack)"
      using c by (auto simp: then_do_def split: sum.splits)
    obtain os where "progress d2 d3" "db_events d3 = db_events d2 @ os" "\<forall>e \<in> set os. er_sequence e = None"
      using progress_record_outcome [OF o] by blast
    moreover have "db_events d2 = db_events d1" by (simp add: d2_def update_session_def)
    ultimately show ?thesis
      using p2 progress_trans es True d' r by (auto intro!: exI [of _ "es @ os"])
  qed
qed

section \<open>Participants\<close>

lemma try_node_participants [simp]: "ss_participants (try_node s c) = ss_participants s"
proof (cases "rr_success (process_node_command s c)")
  case True
  from node_success [OF True] show ?thesis by (auto simp: try_node_def)
qed (simp add: try_node_def node_reject)

lemma advance_participants [simp]: "ss_participants (advance_to_review s env) = ss_participants s"
  by (simp add: advance_to_review_def Let_def)

lemma accepted_actor:
  assumes "process_peer_envelope (advance_to_review s env) env = Inr red" and "rr_success red"
  shows "ss_participants s = [] \<or> env_actor_username env \<in> fst ` set (ss_participants s)"
proof -
  from assms have "participant_gate (advance_to_review s env) env = None"
    using peer_success_iff by blast
  then show ?thesis
    by (force simp: participant_gate_def dest: map_of_SomeD split: if_splits option.splits)
qed

text \<open>Who may write to a session: one of the two users its row names.\<close>

definition party_of :: "db \<Rightarrow> string \<Rightarrow> string \<Rightarrow> bool" where
  "party_of d sid un =
     (\<forall>row. find_session d sid = Some row \<longrightarrow>
        un \<in> {sr_initiator_username row, sr_receiver_username row}
        \<or> (sr_initiator_username row = [] \<and> sr_receiver_username row = []))"

lemma reconstruct_participants_users:
  "fst ` set (reconstruct_participants row) \<subseteq> {sr_initiator_username row, sr_receiver_username row}
   \<and> (reconstruct_participants row = [] \<longrightarrow> sr_initiator_username row = [] \<and> sr_receiver_username row = [])"
proof -
  have upd: "fst ` set (AList.update k v xs) = insert k (fst ` set xs)" for k v and xs :: "(string \<times> participant_info) list"
    by (induction xs) auto
  have "AList.update k v xs \<noteq> []" for k v and xs :: "(string \<times> participant_info) list"
    by (cases xs) auto
  with upd show ?thesis by (auto simp: reconstruct_participants_def Let_def)
qed

lemma reconstructed_party:
  assumes s: "reconstruct_session_state W k sid d = Inr (Some state)"
    and "ss_participants state = [] \<or> un \<in> fst ` set (ss_participants state)"
  shows "party_of d sid un"
proof -
  obtain row where row: "find_session d sid = Some row" "ss_participants state = reconstruct_participants row"
    by (rule reconstruct_Some [OF s])
  with assms(2) reconstruct_participants_users [of row] show ?thesis by (auto simp: party_of_def)
qed

lemma party_of_mono:
  assumes "party_of d' sid un" and "status_only d d'"
  shows "party_of d sid un"
proof (cases "find_session d sid")
  case (Some row)
  with status_only_find [OF assms(2), of sid] obtain row' where row': "find_session d' sid = Some row'"
      "erase_status row' = erase_status row"
    by (cases "find_session d' sid") auto
  from arg_cong [OF row'(2), of sr_initiator_username] arg_cong [OF row'(2), of sr_receiver_username] row'(1)
  show ?thesis using assms(1) Some by (simp add: party_of_def)
qed (simp add: party_of_def)

lemma lazy_expire_status: "status_only d (fst (lazy_expire W k row now d))"
proof -
  obtain d1 q where q: "apply_node_command_transition W k (sr_session_id row) ''mark_expired'' now d = (d1, q)" by force
  with apply_node_ok [OF q] show ?thesis
    by (auto simp: lazy_expire_def then_do_def split: option.split sum.split)
qed

lemma verify_status_only: "status_only d (fst (ingest_verify W k raw get_pk now d))"
proof -
  obtain d1 q where q: "ingest_lookup W k raw get_pk now d = (d1, q)" by force
  have d1: "status_only d d1"
  proof (cases "find_session_param W (raw_get raw ''session_id'') d")
    case (Inr r)
    then show ?thesis
    proof (cases r)
      case (Some row)
      obtain d2 x where x: "lazy_expire W k row now d = (d2, x)" by force
      with lazy_expire_status [of d W k row now] q Inr Some show ?thesis
        by (auto simp: ingest_lookup_def then_do_def split: sum.splits)
    qed (use q in \<open>auto simp: ingest_lookup_def answer_def split: if_splits sum.splits\<close>)
  qed (use q in \<open>simp add: ingest_lookup_def\<close>)
  have check: "status_only d (fst (check_sequence_conflict W k sid un sq p d1))" for sid un sq p
    using status_only_trans [OF d1 same_tables_status_only] check_sequence_same [of W k sid un sq p d1]
    by (metis prod.collapse)
  show ?thesis
    unfolding ingest_verify_def q using d1 check
    by (auto simp: then_do_def Let_def answer_def split: sum.split option.split prod.split
        sequence_status.split) (metis fst_conv)+
qed

section \<open>The whole of ingestion\<close>

text \<open>What an ingestion adds to the ledger and on whose authority.\<close>

definition justified :: "world \<Rightarrow> pydict \<Rightarrow> (string \<Rightarrow> bytes option) \<Rightarrow> db \<Rightarrow> event_row \<Rightarrow> bool" where
  "justified W raw get_pk d e =
     (\<exists>env. authentic W raw get_pk env \<and> recorded env e \<and> party_of d (er_session_id e) (er_actor_username e))"

lemma core_ok:
  assumes "ingest_core W k raw get_pk now d = (d', r)"
  shows "progress d d' \<and> (\<exists>es. db_events d' = db_events d @ es
      \<and> (\<forall>e \<in> set es. er_sequence e = None \<or> justified W raw get_pk d e)
      \<and> ((\<exists>ack. r = Inr (Inl ack)) \<longrightarrow> es = []))"
proof -
  obtain d1 q where q: "ingest_verify W k raw get_pk now d = (d1, q)" by force
  then have d1: "progress d d1" "db_events d1 = db_events d" "status_only d d1"
    using progress_verify [of d W k raw get_pk now] verify_status_only [of d W k raw get_pk now] by auto
  have trivial: ?thesis if "d' = d1" using that d1 by auto
  show ?thesis
  proof (cases "\<exists>sess_row env. q = Inr (Inr (sess_row, env))")
    case False
    with assms q have "d' = d1"
      by (auto simp: ingest_core_def then_do_def split: sum.splits)
    then show ?thesis by (rule trivial)
  next
    case True
    then obtain sess_row env where env: "q = Inr (Inr (sess_row, env))" by blast
    let ?sid = "env_session_id env" and ?un = "env_actor_username env"
    have v: "authentic W raw get_pk env" "sess_row = None \<longrightarrow> find_session d1 ?sid = None"
      using verify_ok [of W k raw get_pk now d d1 sess_row env] q env by auto
    obtain d2 y where y: "ingest_state W k sess_row env now d1 = (d2, y)" by force
    from state_ok [OF y v(2)] have d2: "progress d d2" "db_events d2 = db_events d"
      and row: "\<And>state. y = Inr (Inr state) \<Longrightarrow> row_status d2 ?sid = Some (ss_status state)"
      using progress_trans [OF d1(1)] d1(2) by auto
    show ?thesis
    proof (cases "\<exists>state. y = Inr (Inr state)")
      case False
      with assms q env y have "d' = d2"
        by (auto simp: ingest_core_def then_do_def split: sum.splits)
      with d2 show ?thesis by auto
    next
      case True
      then obtain state where st: "y = Inr (Inr state)" by blast
      obtain d3 z where z: "ingest_commit W k env state now d2 = (d3, z)" by force
      from commit_ok [OF z row [OF st]] obtain es where es: "progress d2 d3" "db_events d3 = db_events d2 @ es"
          "\<forall>e \<in> set es. er_sequence e = None \<or> recorded env e"
          "es \<noteq> [] \<longrightarrow> (\<exists>red. process_peer_envelope (advance_to_review state env) env = Inr red \<and> rr_success red)"
          "(\<exists>ack. z = Inr (Inl ack)) \<longrightarrow> es = []" by blast
      have party: "party_of d ?sid ?un" if "es \<noteq> []"
      proof (cases sess_row)
        case None
        with v(2) status_only_find [OF d1(3), of ?sid] show ?thesis by (simp add: party_of_def)
      next
        case (Some r0)
        with y st have rec: "reconstruct_session_state W k ?sid d1 = Inr (Some state)"
          by (auto simp: ingest_state_def answer_def split: sum.splits option.splits)
        from es(4) that obtain red where "process_peer_envelope (advance_to_review state env) env = Inr red"
            "rr_success red" by blast
        from reconstructed_party [OF rec accepted_actor [OF this]] show ?thesis
          using party_of_mono d1(3) by blast
      qed
      have "d' = d3" and "(\<exists>ack. r = Inr (Inl ack)) \<longrightarrow> (\<exists>ack. z = Inr (Inl ack))"
        using assms q env y st z by (auto simp: ingest_core_def then_do_def split: sum.splits)
      moreover have "\<forall>e \<in> set es. er_sequence e = None \<or> justified W raw get_pk d e"
        using es(3) party v(1) by (fastforce simp: justified_def recorded_def)
      ultimately show ?thesis
        using d2 es progress_trans by auto
    qed
  qed
qed

lemma plain_ok:
  assumes "ingest_plain W k raw get_pk now d = (d', r)"
  shows "progress d d' \<and> (\<exists>es. db_events d' = db_events d @ es
      \<and> (\<forall>e \<in> set es. er_sequence e = None \<or> justified W raw get_pk d e))"
proof -
  obtain d1 q where q: "ingest_core W k raw get_pk now d = (d1, q)" by force
  with assms have "d' = d1" by (auto simp: ingest_plain_def then_do_def split: sum.splits)
  with core_ok [OF q] show ?thesis by blast
qed

interpretation plain_ingestion: node_operation
  "\<lambda>(W, k, raw, get_pk, now) d. ingest_plain W k raw get_pk now d"
  by unfold_locales (auto dest: plain_ok)

end
