(* ===== verification/Kin_Offers.thy ===== *)
theory Kin_Offers
  imports Kin_Ingest Kin_Registry
begin

text \<open>
  The receipt of an offered artifact, the last part of \<open>ingest_envelope\<close> in
  \<open>kin-node/kin/transport/v11.py\<close>: validation of the offer, the receiving card's size limit, wire
  decryption, the hash and size checks, storage in the vault, and the acceptance that is signed,
  ingested by the node itself and delivered to the offering peer; and the whole of \<open>ingest_envelope\<close>.

  The acceptance is an envelope of the node's own user, so its ingestion never offers an artifact to
  itself, and the recursive call is \<open>ingest_plain\<close>.
\<close>

section \<open>Offers\<close>

record artifact_offer =
  off_artifact_id :: string
  off_session_id :: string
  off_sha256 :: string
  off_mime_type :: string
  off_size_bytes :: int
  off_offered_by :: string
  off_preview_policy :: string

definition artifact_offer_validate :: "crypto \<Rightarrow> pydict \<Rightarrow> artifact_offer option" where
  "artifact_offer_validate C raw =
     (if \<not> only_keys [''schema_version'', ''artifact_id'', ''session_id'', ''sha256'', ''mime_type'',
                       ''size_bytes'', ''offered_by'', ''preview_policy''] raw then None
      else do { sv \<leftarrow> Option.bind (map_of raw ''schema_version'') (validate_literal ''1.1'');
                a \<leftarrow> str_field raw ''artifact_id'';
                s \<leftarrow> str_field raw ''session_id'';
                h \<leftarrow> str_field raw ''sha256'';
                m \<leftarrow> str_field raw ''mime_type'';
                n \<leftarrow> Option.bind (map_of raw ''size_bytes'') (c_lax_int C);
                ob \<leftarrow> str_field raw ''offered_by'';
                pp \<leftarrow> str_field raw ''preview_policy'';
                if n < 0 then None
                else Some \<lparr>off_artifact_id = a, off_session_id = s, off_sha256 = h, off_mime_type = m,
                           off_size_bytes = n, off_offered_by = ob, off_preview_policy = pp\<rparr> })"

definition offer_meta_subset :: "pydict \<Rightarrow> pydict" where
  "offer_meta_subset p =
     [(''schema_version'', dget_default p ''schema_version'' (PStr ''1.1'')),
      (''artifact_id'', dget p ''artifact_id''), (''session_id'', dget p ''session_id''),
      (''sha256'', dget p ''sha256''), (''mime_type'', dget p ''mime_type''),
      (''size_bytes'', dget p ''size_bytes''), (''offered_by'', dget p ''offered_by''),
      (''preview_policy'', dget p ''preview_policy'')]"

text \<open>The size limit of the receiving agent's card; unreadable cards give the default.\<close>

definition DEFAULT_RECEIVER_MAX_BYTES :: int where
  "DEFAULT_RECEIVER_MAX_BYTES = 1048576"

definition readable_card :: "world \<Rightarrow> bytes \<Rightarrow> agent_row \<Rightarrow> agent_card option" where
  "readable_card W vault_key r =
     (if otruthy (ag_local_card_json r)
      then (case decrypt_field W vault_key (ag_local_card_json r) of
              Inr (Some s) \<Rightarrow> agent_card_validate_json W s
            | _ \<Rightarrow> None)
      else if otruthy (ag_published_card_json r)
      then agent_card_validate_json W (the (ag_published_card_json r))
      else None)"

definition receiver_max_bytes :: "world \<Rightarrow> bytes \<Rightarrow> string option \<Rightarrow> db \<Rightarrow> int" where
  "receiver_max_bytes W vault_key rec_ag_id d =
     (case (if otruthy rec_ag_id then Option.bind (get_card (the rec_ag_id) d) (readable_card W vault_key)
            else None) of
        None \<Rightarrow> DEFAULT_RECEIVER_MAX_BYTES
      | Some k \<Rightarrow> bnd_max_artifact_bytes (card_boundaries k))"

text \<open>The X25519 key of the recipient: the argument if it is given, else the keychain's.\<close>

definition recipient_key :: "world \<Rightarrow> bytes option \<Rightarrow> db \<Rightarrow> bytes option" where
  "recipient_key W given d =
     (case given of
        Some (b # bs) \<Rightarrow> given
      | _ \<Rightarrow> (case my_username d of
                Some (ch # u) \<Rightarrow> (case w_keychain_x25519 W (ch # u) of None \<Rightarrow> given | Some k \<Rightarrow> Some k)
              | _ \<Rightarrow> given))"

definition has_bytes :: "bytes option \<Rightarrow> bool" where
  "has_bytes x = (case x of None \<Rightarrow> False | Some b \<Rightarrow> b \<noteq> [])"

definition decrypt_wire ::
  "world \<Rightarrow> pyval \<Rightarrow> string \<Rightarrow> bytes option \<Rightarrow> db \<Rightarrow> bytes option" where
  "decrypt_wire W enc_b64 actor recip_priv d =
     (case enc_b64 of
        PStr s \<Rightarrow>
          (if \<not> is_ascii s then None
           else case (b64_std_decode s, resolve_peer_contact_info actor d) of
             (Some wire_ciphertext, Inr (_, sender_x, _)) \<Rightarrow>
               if \<not> has_bytes sender_x \<or> \<not> has_bytes (recipient_key W recip_priv d) then None
               else (case decrypt_from_sender W (the (recipient_key W recip_priv d)) (the sender_x)
                            wire_ciphertext of
                       Inl _ \<Rightarrow> None
                     | Inr bs \<Rightarrow> Some bs)
           | _ \<Rightarrow> None)
      | _ \<Rightarrow> None)"

section \<open>The acceptance\<close>

definition next_sequence :: "string \<Rightarrow> string option \<Rightarrow> db \<Rightarrow> int" where
  "next_sequence session_id actor d =
     coalesce (sql_max (map er_sequence
       (filter (\<lambda>r. Some (er_actor_username r) = actor) (session_events_of d session_id)))) 0 + 1"

definition accept_payload :: "artifact_offer \<Rightarrow> string \<Rightarrow> pydict" where
  "accept_payload offer session_id =
     [(''schema_version'', PStr ''1.1''), (''artifact_id'', PStr (off_artifact_id offer)),
      (''session_id'', PStr session_id), (''status'', PStr ''accepted'')]"

text \<open>An envelope dictionary as the senders build it, before signing.\<close>

definition env_dict ::
  "string \<Rightarrow> int \<Rightarrow> pyval \<Rightarrow> pyval \<Rightarrow> string \<Rightarrow> message_kind \<Rightarrow> string \<Rightarrow> pydict \<Rightarrow> pydict" where
  "env_dict session_id sq actor agent timestamp kind content_hash payload =
     [(''schema_version'', PStr ''1.1''), (''protocol_version'', PStr ''1.1''),
      (''session_id'', PStr session_id), (''sequence'', PInt sq), (''actor_username'', actor),
      (''actor_agent_id'', agent), (''timestamp'', PStr timestamp),
      (''kind'', PStr (message_kind_value kind)), (''content_hash'', PStr content_hash),
      (''payload'', of_dict payload)]"

text \<open>Hash, build and sign.\<close>

definition signed_env_dict ::
  "world \<Rightarrow> bytes \<Rightarrow> string \<Rightarrow> int \<Rightarrow> pyval \<Rightarrow> pyval \<Rightarrow> string \<Rightarrow> message_kind \<Rightarrow> pydict \<Rightarrow> pydict result" where
  "signed_env_dict W sk session_id sq actor agent timestamp kind payload =
     (case compute_content_hash (w_crypto W) payload of
        Inl e \<Rightarrow> Inl e
      | Inr h \<Rightarrow>
          (let e = env_dict session_id sq actor agent timestamp kind h payload in
           case sign_envelope (w_crypto W) e sk of
             Inl err \<Rightarrow> Inl err
           | Inr sig \<Rightarrow> Inr (e @ [(''signature'', PStr sig)])))"

text \<open>The key lookup a sender passes to its own ingestion.\<close>

definition own_or_peer_key :: "world \<Rightarrow> string \<Rightarrow> bytes \<Rightarrow> bytes option \<Rightarrow> string \<Rightarrow> bytes option" where
  "own_or_peer_key W me sk peer_key un =
     (if un = me then Some (c_ed_public (w_crypto W) sk) else peer_key)"

definition strip_slash :: "string \<Rightarrow> string" where
  "strip_slash = rstrip (CHR ''/'')"

definition queue_relay_envelope ::
  "world \<Rightarrow> string \<Rightarrow> string \<Rightarrow> pyval \<Rightarrow> bytes \<Rightarrow> db \<Rightarrow> http_reply \<times> db" where
  "queue_relay_envelope W relay_url recipient sender encrypted_payload d =
     http_call W ''POST'' (strip_slash relay_url @ ''/relay/mailbox/'' @ recipient)
       (of_dict [(''sender_username'', sender), (''encrypted_blob'', PStr (hexdigest encrypted_payload))]) d"

definition post_session :: "world \<Rightarrow> string \<Rightarrow> pyval \<Rightarrow> db \<Rightarrow> http_reply \<times> db" where
  "post_session W endpoint env d =
     http_call W ''POST'' (strip_slash endpoint @ ''/v1.1/sessions'') env d"

definition is_200 :: "http_reply \<Rightarrow> bool" where
  "is_200 r = (case r of HttpResponse code js txt \<Rightarrow> code = 200 | RequestError _ \<Rightarrow> False)"

text \<open>Encrypt the JSON text of an envelope for the recipient and leave it in its mailbox.\<close>

definition relay_envelope ::
  "world \<Rightarrow> string \<Rightarrow> string \<Rightarrow> pyval \<Rightarrow> bytes \<Rightarrow> bytes \<Rightarrow> pyval \<Rightarrow> db \<Rightarrow> db \<times> http_reply result" where
  "relay_envelope W relay_url recipient sender sender_priv recipient_pub env d =
     (case json_dumps W env of
        Inl e \<Rightarrow> (d, Inl e)
      | Inr txt \<Rightarrow>
          (let enc = encrypt_for_recipient W sender_priv recipient_pub (db_tick d) (utf8_encode txt);
               (r, d') = queue_relay_envelope W relay_url recipient sender enc (tick d)
           in (d', Inr r)))"

text \<open>Direct delivery of the acceptance, else through the relay; every failure is ignored.\<close>

definition deliver_accept ::
  "world \<Rightarrow> pydict \<Rightarrow> string \<Rightarrow> string option \<Rightarrow> bytes option \<Rightarrow> string option \<Rightarrow> db \<Rightarrow> db \<times> unit result" where
  "deliver_accept W env peer me recip_priv relay_url d =
     (case resolve_peer_contact_info peer d of
        Inl e \<Rightarrow> (d, Inl e)
      | Inr (ep, sender_x, _) \<Rightarrow>
          (let (delivered, d1) =
                 (if otruthy ep
                  then (let (r, d1) = post_session W (the ep) (of_dict env) d in (is_200 r, d1))
                  else (False, d))
           in if \<not> delivered \<and> otruthy relay_url \<and> has_bytes sender_x \<and> has_bytes recip_priv
              then (fst (relay_envelope W (the relay_url) peer (opt_str me)
                           (the recip_priv) (the sender_x) (of_dict env) d1), Inr ())
              else (d1, Inr ())))"

definition owner_key :: "world \<Rightarrow> bytes option \<Rightarrow> string option \<Rightarrow> bytes option" where
  "owner_key W given me =
     (case given of Some k \<Rightarrow> Some k | None \<Rightarrow> Option.bind me (w_keychain_ed25519 W))"

definition send_accept ::
  "world \<Rightarrow> bytes \<Rightarrow> artifact_offer \<Rightarrow> session_envelope \<Rightarrow> string option \<Rightarrow> int \<Rightarrow> bytes option
   \<Rightarrow> bytes option \<Rightarrow> string option \<Rightarrow> db \<Rightarrow> db \<times> unit result" where
  "send_accept W vault_key offer env rec_ag_id now recip_priv owner_identity_key relay_url d =
     (let me = my_username d;
          sid = env_session_id env;
          payload = accept_payload offer sid;
          agent = (if otruthy rec_ag_id then PStr (the rec_ag_id) else opt_str me)
      in case compute_content_hash (w_crypto W) payload of
           Inl e \<Rightarrow> (d, Inl e)
         | Inr _ \<Rightarrow>
           (case owner_key W owner_identity_key me of
              None \<Rightarrow> (d, Inr ())
            | Some sk \<Rightarrow>
                (case signed_env_dict W sk sid (next_sequence sid me d) (opt_str me) agent (iso_now W now)
                        ARTIFACT_ACCEPT payload of
                   Inl e \<Rightarrow> (d, Inl e)
                 | Inr accept_env \<Rightarrow>
                     then_do (ingest_plain W vault_key accept_env
                                (\<lambda>un. if Some un = me then Some (c_ed_public (w_crypto W) sk)
                                      else (case resolve_peer_contact_info un d of
                                              Inr (_, _, ed) \<Rightarrow> ed | Inl _ \<Rightarrow> None)) now d) (\<lambda>_ d.
                       deliver_accept W accept_env (env_actor_username env) me recip_priv relay_url d))))"

section \<open>Receiving an offer\<close>

definition increment_session_artifact_bytes :: "string \<Rightarrow> int \<Rightarrow> db \<Rightarrow> db" where
  "increment_session_artifact_bytes session_id byte_count d =
     (if byte_count \<le> 0 then d
      else update_session session_id
        (\<lambda>r. r\<lparr>sr_cumulative_artifact_bytes := sr_cumulative_artifact_bytes r + byte_count\<rparr>) d)"

definition offer_rejected :: "world \<Rightarrow> bytes \<Rightarrow> session_envelope \<Rightarrow> db \<Rightarrow> db \<times> unit result" where
  "offer_rejected W vault_key env d =
     then_do (write_audit_event W vault_key ''security_rejection'' (Some (env_session_id env))
                (Some (env_actor_username env)) PNone None d) (\<lambda>_ d. (d, Inr ()))"

text \<open>
  An offer whose metadata is invalid is meant to be audited, but the call passes an argument that
  \<open>write_audit_event\<close> does not have, so it raises.
\<close>

definition receive_offer ::
  "world \<Rightarrow> bytes \<Rightarrow> session_row \<Rightarrow> session_envelope \<Rightarrow> int \<Rightarrow> bytes option \<Rightarrow> bytes option
   \<Rightarrow> string option \<Rightarrow> db \<Rightarrow> db \<times> unit result" where
  "receive_offer W vault_key row env now recip_priv owner_identity_key relay_url d =
     (case artifact_offer_validate (w_crypto W) (offer_meta_subset (env_payload env)) of
        None \<Rightarrow> (d, Inl TypeError)
      | Some offer \<Rightarrow>
        (let rec_ag_id = (if my_username d = Some (sr_receiver_username row)
                          then sr_receiver_agent_id row else sr_sender_agent_id row);
             limit = receiver_max_bytes W vault_key rec_ag_id d;
             enc_b64 = dget (env_payload env) ''encrypted_bytes_b64''
         in if off_size_bytes offer > limit then offer_rejected W vault_key env d
            else if \<not> truthy enc_b64 then offer_rejected W vault_key env d
            else case decrypt_wire W enc_b64 (env_actor_username env) recip_priv d of
              None \<Rightarrow> offer_rejected W vault_key env d
            | Some bs \<Rightarrow>
                if sha256_hex W bs \<noteq> off_sha256 offer then offer_rejected W vault_key env d
                else if int (length bs) > limit then offer_rejected W vault_key env d
                else case store_artifact W vault_key (env_session_id env) bs (off_mime_type offer)
                            (off_offered_by offer) (off_preview_policy offer) limit ''peer_received'' now
                            (Some (off_artifact_id offer)) None d of
                  (d1, Inl e) \<Rightarrow>
                    if e \<in> set [AppError ''ArtifactTooLargeError'', AppError ''ArtifactIdConflictError'']
                    then offer_rejected W vault_key env d1 else (d1, Inl e)
                | (d1, Inr _) \<Rightarrow>
                    send_accept W vault_key offer env rec_ag_id now (recipient_key W recip_priv d1)
                      owner_identity_key relay_url
                      (increment_session_artifact_bytes (env_session_id env) (int (length bs)) d1)))"

definition ingest_envelope ::
  "world \<Rightarrow> bytes \<Rightarrow> pydict \<Rightarrow> (string \<Rightarrow> bytes option) \<Rightarrow> int \<Rightarrow> bytes option \<Rightarrow> bytes option
   \<Rightarrow> string option \<Rightarrow> db \<Rightarrow> db \<times> transport_ack result" where
  "ingest_envelope W vault_key raw get_pk now recip_priv owner_identity_key relay_url d =
     then_do (ingest_core W vault_key raw get_pk now d) (\<lambda>x d.
       case x of
         Inl ack \<Rightarrow> (d, Inr ack)
       | Inr (sess_row, env) \<Rightarrow>
           if env_kind env = ARTIFACT_OFFER \<and> my_username d \<noteq> Some (env_actor_username env)
           then (case sess_row of
                   None \<Rightarrow> (d, Inl TypeError)
                 | Some row \<Rightarrow>
                     then_do (receive_offer W vault_key row env now recip_priv owner_identity_key relay_url d)
                       (\<lambda>_ d. (d, ack_env W env now ''delivered'' None)))
           else (d, ack_env W env now ''delivered'' None))"

section \<open>Lemmas\<close>

lemma progress_quiet:
  assumes "db_events d' = db_events d" and "db_sessions d' = db_sessions d" and "\<exists>xs. db_audit d' = db_audit d @ xs"
    and "\<exists>as. db_artifacts d' = db_artifacts d @ as" and "db_identity d' = db_identity d"
    and "db_contacts d' = db_contacts d"
  shows "progress d d'"
proof -
  have f: "find_session d' sid = find_session d sid" for sid using assms(2) by (simp add: find_session_def)
  from ledger_inv_cong [OF assms(1)] f assms show ?thesis by (auto simp: progress_def row_status_def)
qed

text \<open>Operations that leave the ledger, the sessions and the identity alone.\<close>

definition quiet :: "db \<Rightarrow> db \<Rightarrow> bool" where
  "quiet d d' = (db_events d' = db_events d \<and> db_sessions d' = db_sessions d \<and> (\<exists>xs. db_audit d' = db_audit d @ xs)
     \<and> (\<exists>as. db_artifacts d' = db_artifacts d @ as) \<and> db_identity d' = db_identity d \<and> db_contacts d' = db_contacts d)"

lemma quiet_progress: "quiet d d' \<Longrightarrow> progress d d'"
  by (rule progress_quiet) (simp_all add: quiet_def)

lemma quiet_refl [simp]: "quiet d d"
  by (simp add: quiet_def)

lemma quiet_trans [trans]: "quiet a b \<Longrightarrow> quiet b c \<Longrightarrow> quiet a c"
  by (auto simp: quiet_def)

lemma quiet_tick [simp]: "quiet d (tick d)"
  by (simp add: quiet_def)

lemma same_quiet: "same_tables d d' \<Longrightarrow> quiet d d'"
  by (simp add: quiet_def same_tables_def)

lemma quiet_http: "quiet d (snd (http_call W verb url body d))"
  by (simp add: http_call_def quiet_def)

lemma quiet_post: "quiet d (snd (post_session W ep env d))"
  by (simp add: post_session_def quiet_http)

lemma quiet_relay: "quiet d (fst (relay_envelope W url rec sdr sk pk env d))"
proof (cases "json_dumps W env")
  case (Inr js)
  let ?c = "queue_relay_envelope W url rec sdr (encrypt_for_recipient W sk pk (db_tick d) (utf8_encode js)) (tick d)"
  have "quiet (tick d) (snd ?c)" by (simp add: queue_relay_envelope_def quiet_http)
  then have "quiet d (snd ?c)" using quiet_trans [OF quiet_tick] by blast
  with Inr show ?thesis by (simp add: relay_envelope_def Let_def split_beta)
qed (simp add: relay_envelope_def)

lemma quiet_deliver_accept: "quiet d (fst (deliver_accept W env peer me rp ru d))"
proof (cases "resolve_peer_contact_info peer d")
  case (Inr x)
  obtain ep sx ed where x: "x = (ep, sx, ed)" by (cases x)
  have "quiet d (fst (relay_envelope W u p s sk pk e (snd (post_session W (the ep) (of_dict env) d))))" for u p s sk pk e
    using quiet_trans [OF quiet_post quiet_relay] .
  with quiet_post quiet_relay Inr x show ?thesis
    by (simp add: deliver_accept_def split_beta)
qed (simp add: deliver_accept_def)

lemma store_artifact_quiet: "quiet d (fst (store_artifact W k sid raw mt ob pp mx src now aid rel d))"
proof -
  have i: "quiet d (fst (insert_artifact W k sid raw mt ob pp src now a rel d))" for a
    by (simp add: insert_artifact_def Let_def quiet_def split: option.split)
  then show ?thesis by (simp add: store_artifact_def split: option.split)
qed

lemma offer_rejected_quiet: "quiet d (fst (offer_rejected W k env d))"
proof -
  obtain d1 q where q: "write_audit_event W k ''security_rejection'' (Some (env_session_id env))
      (Some (env_actor_username env)) PNone None d = (d1, q)" by force
  from same_quiet [OF write_audit_same [OF q]] q show ?thesis
    by (simp add: offer_rejected_def then_do_def split: sum.split)
qed

lemma increment_frame:
  "progress d (increment_session_artifact_bytes sid n d)
   \<and> db_events (increment_session_artifact_bytes sid n d) = db_events d
   \<and> db_identity (increment_session_artifact_bytes sid n d) = db_identity d"
  by (simp add: increment_session_artifact_bytes_def progress_update_session) (simp add: update_session_def)

text \<open>What one operation adds to the ledger, each row on someone's authority.\<close>

definition adds :: "(event_row \<Rightarrow> bool) \<Rightarrow> db \<Rightarrow> db \<Rightarrow> bool" where
  "adds P d d' = (progress d d' \<and> db_identity d' = db_identity d
     \<and> (\<exists>es. db_events d' = db_events d @ es \<and> (\<forall>e \<in> set es. er_sequence e = None \<or> P e)))"

lemma addsD:
  assumes "adds P d d'"
  shows "progress d d'" and "db_identity d' = db_identity d"
    and "\<exists>es. db_events d' = db_events d @ es \<and> (\<forall>e \<in> set es. er_sequence e = None \<or> P e)"
  using assms by (simp_all add: adds_def)

lemma adds_trans: "adds P a b \<Longrightarrow> adds P b c \<Longrightarrow> adds P a c"
  using progress_trans by (fastforce simp: adds_def)

lemma adds_mono: "adds P d d' \<Longrightarrow> (\<And>e. P e \<Longrightarrow> Q e) \<Longrightarrow> adds Q d d'"
  by (fastforce simp: adds_def)

lemma progress_identity: "progress d d' \<Longrightarrow> db_identity d' = db_identity d"
  by (simp add: progress_def)

lemma adds_quiet: "quiet d d' \<Longrightarrow> adds P d d'"
  by (simp add: adds_def quiet_progress) (simp add: quiet_def)

lemma adds_refl [simp]: "adds P d d"
  by (rule adds_quiet) simp

lemma adds_increment: "adds P d (increment_session_artifact_bytes sid n d)"
  using increment_frame [of d sid n] by (simp add: adds_def)

lemma adds_plain: "adds (justified W raw get_pk d) d (fst (ingest_plain W k raw get_pk now d))"
  using plain_ok [of W k raw get_pk now d] progress_identity
  by (cases "ingest_plain W k raw get_pk now d") (auto simp: adds_def)

lemma adds_then_do:
  assumes "adds P d (fst m)" and "\<And>x d1. m = (d1, Inr x) \<Longrightarrow> adds P d1 (fst (f x d1))"
  shows "adds P d (fst (then_do m f))"
  using assms adds_trans by (cases m) (auto simp: then_do_def split: sum.split)

definition own_event :: "db \<Rightarrow> event_row \<Rightarrow> bool" where
  "own_event d e = (my_username d = Some (er_actor_username e))"

lemma signed_env_actor:
  assumes "signed_env_dict W sk sid sq actor agent ts kind payload = Inr raw"
  shows "map_of raw ''actor_username'' = Some actor" and "map_of raw ''session_id'' = Some (PStr sid)"
    and "map_of raw ''sequence'' = Some (PInt sq)" and "map_of raw ''kind'' = Some (PStr (message_kind_value kind))"
  using assms by (auto simp: signed_env_dict_def env_dict_def Let_def split: sum.splits)

lemma justified_actor:
  assumes "justified W raw get_pk d e" and "map_of raw ''actor_username'' = Some (opt_str me)"
  shows "me = Some (er_actor_username e)"
proof -
  from assms(1) obtain env where "session_envelope_validate raw = Inr env" "er_actor_username e = env_actor_username env"
    by (auto simp: justified_def authentic_def recorded_def)
  with validated_fields(2) [of raw env] assms(2) show ?thesis
    by (cases me) (simp_all add: opt_str_def)
qed

lemma adds_send_accept:
  "adds (own_event d) d (fst (send_accept W k offer env ag now rp ok ru d))"
proof (cases "\<exists>h sk accept_env. compute_content_hash (w_crypto W) (accept_payload offer (env_session_id env)) = Inr h
    \<and> owner_key W ok (my_username d) = Some sk
    \<and> signed_env_dict W sk (env_session_id env) (next_sequence (env_session_id env) (my_username d) d)
        (opt_str (my_username d)) (if otruthy ag then PStr (the ag) else opt_str (my_username d)) (iso_now W now)
        ARTIFACT_ACCEPT (accept_payload offer (env_session_id env)) = Inr accept_env")
  case True
  then obtain h sk accept_env where
    h: "compute_content_hash (w_crypto W) (accept_payload offer (env_session_id env)) = Inr h"
    and sk: "owner_key W ok (my_username d) = Some sk"
    and ae: "signed_env_dict W sk (env_session_id env) (next_sequence (env_session_id env) (my_username d) d)
        (opt_str (my_username d)) (if otruthy ag then PStr (the ag) else opt_str (my_username d)) (iso_now W now)
        ARTIFACT_ACCEPT (accept_payload offer (env_session_id env)) = Inr accept_env" by blast
  have "adds (own_event d) d (fst (ingest_plain W k accept_env pk now d))" for pk
    by (rule adds_mono [OF adds_plain]) (simp add: own_event_def justified_actor [OF _ signed_env_actor(1) [OF ae]])
  then have "adds (own_event d) d (fst (then_do (ingest_plain W k accept_env pk now d)
      (\<lambda>_ d. deliver_accept W accept_env (env_actor_username env) (my_username d0) rp ru d)))" for pk d0
    by (rule adds_then_do) (simp add: adds_quiet quiet_deliver_accept)
  then show ?thesis by (simp add: send_accept_def Let_def h sk ae)
next
  case False
  then show ?thesis
    by (auto simp: send_accept_def Let_def split: sum.split option.split)
qed

lemma own_event_cong: "db_identity d' = db_identity d \<Longrightarrow> own_event d' = own_event d"
  by (simp add: own_event_def my_username_def fun_eq_iff)

lemma adds_receive_offer:
  "adds (own_event d) d (fst (receive_offer W k row env now rp ok ru d))"
proof -
  have rej: "adds (own_event d) d (fst (offer_rejected W k env d1))" if "quiet d d1" for d1
    using quiet_trans [OF that offer_rejected_quiet] by (rule adds_quiet)
  have acc: "adds (own_event d) d (fst (send_accept W k offer env ag now rp' ok ru
      (increment_session_artifact_bytes sid n d1)))" if "quiet d d1" for offer ag rp' sid n d1
  proof -
    let ?d = "increment_session_artifact_bytes sid n d1"
    have a: "adds (own_event d) d ?d" using adds_trans [OF adds_quiet [OF that] adds_increment] .
    have "own_event ?d = own_event d" using addsD(2) [OF a] by (rule own_event_cong)
    with adds_trans [OF a] adds_send_accept [of ?d] show ?thesis by simp
  qed
  show ?thesis
  proof (cases "artifact_offer_validate (w_crypto W) (offer_meta_subset (env_payload env))")
    case (Some offer)
    let ?ag = "if my_username d = Some (sr_receiver_username row) then sr_receiver_agent_id row else sr_sender_agent_id row"
    let ?limit = "receiver_max_bytes W k ?ag d"
    show ?thesis
    proof (cases "decrypt_wire W (dget (env_payload env) ''encrypted_bytes_b64'') (env_actor_username env) rp d")
      case None
      then show ?thesis by (simp add: receive_offer_def Some Let_def rej)
    next
      case bs: (Some bs)
      obtain d1 x where st: "store_artifact W k (env_session_id env) bs (off_mime_type offer) (off_offered_by offer)
          (off_preview_policy offer) ?limit ''peer_received'' now (Some (off_artifact_id offer)) None d = (d1, x)" by force
      then have d1: "quiet d d1" using store_artifact_quiet by (metis fst_conv)
      show ?thesis
        by (cases x) (simp_all add: receive_offer_def Some Let_def rej [OF quiet_refl] rej [OF d1] acc [OF d1]
            adds_quiet [OF d1] bs st)
    qed
  qed (simp add: receive_offer_def)
qed

lemma envelope_adds:
  assumes "ingest_envelope W k raw get_pk now rp ok ru d = (d', r)"
  shows "adds (\<lambda>e. own_event d e \<or> justified W raw get_pk d e) d d'"
    and "r = Inr ack \<Longrightarrow> ta_status ack = ''rejected'' \<Longrightarrow> db_events d' = db_events d"
proof -
  obtain d1 q where q: "ingest_core W k raw get_pk now d = (d1, q)" by force
  obtain es where es: "progress d d1" "db_events d1 = db_events d @ es"
      "\<forall>e \<in> set es. er_sequence e = None \<or> justified W raw get_pk d e"
      "(\<exists>ack. q = Inr (Inl ack)) \<longrightarrow> es = []"
    using core_ok [OF q] by blast
  let ?P = "\<lambda>e. own_event d e \<or> justified W raw get_pk d e"
  have a1: "adds ?P d d1" using es progress_identity by (auto simp: adds_def)
  have offer: "adds ?P d (fst (receive_offer W k row env now rp ok ru d1))" for row env
  proof -
    have "own_event d1 = own_event d" using addsD(2) [OF a1] by (rule own_event_cong)
    then show ?thesis
      using adds_trans [OF a1 adds_mono [OF adds_receive_offer]] by (metis (no_types, lifting))
  qed
  show "adds ?P d d'"
    using assms q a1 offer
    by (auto simp: ingest_envelope_def then_do_def split: sum.splits if_splits option.splits prod.splits)
      (metis fst_conv)+
  show "r = Inr ack \<Longrightarrow> ta_status ack = ''rejected'' \<Longrightarrow> db_events d' = db_events d"
  proof -
    assume r: "r = Inr ack" "ta_status ack = ''rejected''"
    have del: "ack_env W env now ''delivered'' None = Inr a \<Longrightarrow> ta_status a = ''delivered''" for env a
      by (auto simp: ack_env_def make_ack_def split: option.splits if_splits)
    show ?thesis
    proof (cases "\<exists>a. q = Inr (Inl a)")
      case True
      with assms q have "d' = d1" by (auto simp: ingest_envelope_def then_do_def)
      with es True show ?thesis by simp
    next
      case False
      with assms q r have "\<exists>env. ack_env W env now ''delivered'' None = Inr ack"
        by (auto simp: ingest_envelope_def then_do_def split: sum.splits if_splits option.splits prod.splits)
      with del r show ?thesis by fastforce
    qed
  qed
qed

lemma known_sequence_stops:
  assumes "ingest_core W k raw get_pk now d = (d', r)"
    and "map_of raw ''session_id'' = Some (PStr sid)" and "map_of raw ''actor_username'' = Some (PStr un)"
    and "map_of raw ''sequence'' = Some (PInt sq)" and "find_sequence d sid un sq \<noteq> None"
  shows "status_only d d' \<and> (\<forall>x. r \<noteq> Inr (Inr x))"
proof -
  obtain d1 q where q: "ingest_verify W k raw get_pk now d = (d1, q)" by force
  then have d1: "status_only d d1" "db_events d1 = db_events d"
    using progress_verify [of d W k raw get_pk now] verify_status_only [of d W k raw get_pk now] by auto
  have stop: "q \<noteq> Inr (Inr (sess_row, env))" for sess_row env
  proof
    assume q2: "q = Inr (Inr (sess_row, env))"
    have v: "authentic W raw get_pk env"
        "find_sequence d1 (env_session_id env) (env_actor_username env) (env_sequence env) = None"
      using verify_ok [of W k raw get_pk now d d1 sess_row env] q q2 by auto
    from v(1) have "session_envelope_validate raw = Inr env" by (simp add: authentic_def)
    from validated_fields [OF this] assms(2-4)
    have "env_session_id env = sid" "env_actor_username env = un" "env_sequence env = sq" by auto
    with v(2) d1(2) assms(5) show False by (simp add: find_sequence_def)
  qed
  have "d' = d1 \<and> (\<forall>x. r \<noteq> Inr (Inr x))"
    using assms(1) q stop by (auto simp: ingest_core_def then_do_def split: sum.splits)
  with d1 show ?thesis by simp
qed

interpretation ingestion: node_operation
  "\<lambda>(W, k, raw, get_pk, now, rp, ok, ru) d. ingest_envelope W k raw get_pk now rp ok ru d"
  by unfold_locales (auto dest: addsD(1) [OF envelope_adds(1)])

section \<open>Properties\<close>

text \<open>
  Ingestion keeps the node sound: whatever bodies arrive in whatever order, with whatever keys on
  file, the ledger stays densely numbered with unique sequence numbers, ledger, audit trail and artifacts
  only grow at the end, identity and contacts stay, every session stays and moves only along edges of the
  reducer, and sessions in a terminal status keep it.
\<close>

theorem ingestion_keeps_node_sound:
  assumes "ledger_inv d"
    and "d' = fold (\<lambda>(W, k, raw, get_pk, now, rp, ok, ru) d. fst (ingest_envelope W k raw get_pk now rp ok ru d)) bodies d"
  shows "ledger_inv d' \<and> progress d d'
    \<and> (\<forall>sid s. row_status d sid = Some s \<and> is_terminal_state s \<longrightarrow> row_status d' sid = Some s)"
proof -
  have f: "(\<lambda>(W, k, raw, get_pk, now, rp, ok, ru) d. fst (ingest_envelope W k raw get_pk now rp ok ru d)) =
      (\<lambda>a d. fst ((\<lambda>(W, k, raw, get_pk, now, rp, ok, ru) d. ingest_envelope W k raw get_pk now rp ok ru d) a d))"
    by (simp add: fun_eq_iff split_beta)
  have p: "progress d d'" unfolding assms(2) f by (rule ingestion.runs_progress)
  with assms(1) progress_terminal [OF p] show ?thesis by (simp add: progress_def)
qed

text \<open>A task request of alice arrives at the node of bob, in a world with a trivial canonical form.\<close>

definition demo_light_world :: world where
  "demo_light_world = demo_world\<lparr>w_crypto := demo_crypto\<lparr>c_jcs := (\<lambda>d. Some [])\<rparr>\<rparr>"

definition demo_body :: pydict where
  "demo_body =
     [(''schema_version'', PStr ''1.1''), (''protocol_version'', PStr ''1.1''), (''session_id'', PStr ''s1''),
      (''sequence'', PInt 1), (''actor_username'', PStr ''alice''), (''actor_agent_id'', PStr ''a1''),
      (''timestamp'', PStr ''2026-01-02T03:04:05Z''), (''kind'', PStr ''task_request''),
      (''content_hash'', PStr ''AAAAAAAAAAAAAAAAAAAAAAAAAAAAAAAAAAAAAAAAAAA''), (''payload'', PDict []),
      (''signature'', PStr ''BQ'')]"

definition demo_arrival :: "db \<Rightarrow> db \<times> transport_ack result" where
  "demo_arrival d = ingest_envelope demo_light_world [9] demo_body [''alice'' \<mapsto> [5]] 0 None None None d"

lemma demo_arrival_events: "map er_sequence (db_events (fst (demo_arrival (empty_db ''bob'')))) = [Some 1]"
  by code_simp

lemma empty_db_inv: "ledger_inv (empty_db u)"
  by (simp add: ledger_inv_def empty_db_def session_events_of_def sequence_keys_def)

theorem ingestion_keeps_node_sound_witness:
  "ledger_inv (fst (demo_arrival (empty_db ''bob'')))"
  using ingestion_keeps_node_sound [OF empty_db_inv refl,
      of "[(demo_light_world, [9], demo_body, [''alice'' \<mapsto> [5]], 0, None, None, None)]" "''bob''"]
  by (simp add: demo_arrival_def)





end
