(* ===== verification/Kin_Dispatch.thy ===== *)
theory Kin_Dispatch
  imports Kin_Offers
begin

text \<open>
  What the node's owner sends, from \<open>kin-node/kin/transport/v11.py\<close>: a new session
  (\<open>dispatch_session\<close> with its capability and stale card gates), a message in a session, the answer to
  a proposal, cancellation, pause and resumption, and the offer of an artifact. Every sender builds and
  signs an envelope, has the node ingest it itself, and then tries the peer's endpoint, the relay, and
  (for sessions and messages) the local queue, in that order.

  The sender's keys and name are the record \<open>owner\<close>, the optional arguments that say where to send are
  the record \<open>route\<close>; an argument \<open>None\<close> of a numeric parameter is \<open>PNone\<close>.
\<close>

section \<open>Sender and route\<close>

record owner =
  ow_identity_key :: bytes
  ow_x25519_privkey :: bytes
  ow_username :: string

record route =
  rt_peer_endpoint :: "string option"
  rt_relay_url :: "string option"
  rt_recipient_x25519_pubkey :: "bytes option"

text \<open>\<open>a or b\<close> on optional text and on optional bytes.\<close>

definition or_opt :: "string option \<Rightarrow> string option \<Rightarrow> string option" where
  "or_opt a b = (if otruthy a then a else b)"

definition or_bytes :: "bytes option \<Rightarrow> bytes option \<Rightarrow> bytes option" where
  "or_bytes a b = (if has_bytes a then a else b)"

definition other_party :: "string \<Rightarrow> string \<Rightarrow> string \<Rightarrow> string" where
  "other_party me initiator receiver = (if me = initiator then receiver else initiator)"

section \<open>The gates of a dispatch\<close>

definition REQUIRED_FEATURES :: "string list" where
  "REQUIRED_FEATURES = [''session_v1'', ''jcs_signatures'']"

definition capability_check :: "world \<Rightarrow> string \<Rightarrow> string \<Rightarrow> int \<Rightarrow> db \<Rightarrow> db \<times> unit result" where
  "capability_check W endpoint peer_username now d =
     (case http_call W ''GET'' (strip_slash endpoint @ ''/v1.1/capabilities'') PNone d of
        (HttpResponse code js body, d1) \<Rightarrow>
          if code = 200 then
            (case js of
               None \<Rightarrow> (d1, Inl ValueError)
             | Some v \<Rightarrow>
                 (case Option.bind (as_str_dict v) (capability_ad_validate (w_crypto W)) of
                    None \<Rightarrow> (d1, Inl ValidationError)
                  | Some cap_ad \<Rightarrow>
                      if \<not> ng_compatible (negotiate_ad cap_ad REQUIRED_FEATURES)
                      then (d1, Inl (AppError ''CapabilityMismatchError''))
                      else (cache_peer_capabilities W peer_username cap_ad now d1, Inr ())))
          else (d1, Inl (AppError ''CapabilityMismatchError''))
      | (RequestError e, d1) \<Rightarrow>
          (case get_cached_peer_capabilities W peer_username 72 now d1 of
             Inl err \<Rightarrow> (d1, Inl err)
           | Inr None \<Rightarrow> (d1, Inl (AppError ''CapabilityMismatchError''))
           | Inr (Some cached_ad) \<Rightarrow>
               if \<not> ng_compatible (negotiate_ad cached_ad REQUIRED_FEATURES)
               then (d1, Inl (AppError ''CapabilityMismatchError''))
               else (d1, Inr ())))"

section \<open>Delivery\<close>

definition transport_ack_validate :: "crypto \<Rightarrow> pydict \<Rightarrow> transport_ack option" where
  "transport_ack_validate C raw =
     (if \<not> only_keys [''schema_version'', ''envelope_session_id'', ''envelope_sequence'', ''status'',
                       ''received_at'', ''verified_hash'', ''error_code'', ''error_message''] raw then None
      else do { sv \<leftarrow> Option.bind (map_of raw ''schema_version'') (validate_literal ''1.1'');
                sid \<leftarrow> str_field raw ''envelope_session_id'';
                n \<leftarrow> Option.bind (map_of raw ''envelope_sequence'') (c_lax_int C);
                st \<leftarrow> str_field raw ''status'';
                ra \<leftarrow> str_field raw ''received_at'';
                h \<leftarrow> str_field raw ''verified_hash'';
                ec \<leftarrow> validate_optional_str (map_of raw ''error_code'');
                em \<leftarrow> validate_optional_str (map_of raw ''error_message'');
                if n < 1 \<or> \<not> TIMESTAMP_REGEX ra \<or> st \<notin> set [''delivered'', ''queued'', ''rejected''] then None
                else Some \<lparr>ta_session_id = sid, ta_sequence = n, ta_status = st, ta_received_at = ra,
                           ta_verified_hash = h, ta_error_code = ec\<rparr> })"

text \<open>\<open>TransportAcknowledgement.model_validate(resp.json())\<close>.\<close>

definition response_ack :: "crypto \<Rightarrow> pyval option \<Rightarrow> transport_ack result" where
  "response_ack C js =
     (case js of
        None \<Rightarrow> Inl ValueError
      | Some v \<Rightarrow>
          (case Option.bind (as_str_dict v) (transport_ack_validate C) of
             None \<Rightarrow> Inl ValidationError
           | Some a \<Rightarrow> Inr a))"

datatype attempt = Delivered | Refused | NotDelivered

text \<open>The direct delivery of a new session; it settles the session's status.\<close>

definition post_dispatch ::
  "world \<Rightarrow> bytes \<Rightarrow> string \<Rightarrow> string option \<Rightarrow> pydict \<Rightarrow> int \<Rightarrow> db \<Rightarrow> db \<times> attempt result" where
  "post_dispatch W vault_key session_id endpoint env now d =
     (if \<not> otruthy endpoint then (d, Inr NotDelivered)
      else case post_session W (the endpoint) (of_dict env) d of
        (RequestError e, d1) \<Rightarrow> (d1, Inr NotDelivered)
      | (HttpResponse code js body, d1) \<Rightarrow>
          if code = 200 then
            (case response_ack (w_crypto W) js of
               Inl err \<Rightarrow> (d1, Inl err)
             | Inr rec_ack \<Rightarrow>
                 if ta_status rec_ack = ''delivered''
                 then then_do (apply_node_command_transition W vault_key session_id ''mark_delivered'' now d1)
                        (\<lambda>_ d. (d, Inr Delivered))
                 else (d1, Inr NotDelivered))
          else if 400 \<le> code \<and> code < 500
          then then_do (apply_node_command_transition W vault_key session_id ''mark_failed'' now d1)
                 (\<lambda>_ d. (d, Inr Refused))
          else (d1, Inr NotDelivered))"

text \<open>The direct delivery of a message: any answer with status 200 counts.\<close>

definition post_message :: "world \<Rightarrow> string option \<Rightarrow> pydict \<Rightarrow> db \<Rightarrow> db \<times> bool result" where
  "post_message W endpoint env d =
     (if \<not> otruthy endpoint then (d, Inr False)
      else let (r, d1) = post_session W (the endpoint) (of_dict env) d in (d1, Inr (is_200 r)))"

text \<open>The direct delivery of an offer: the peer has to acknowledge it as delivered.\<close>

definition post_offer :: "world \<Rightarrow> string option \<Rightarrow> pydict \<Rightarrow> db \<Rightarrow> db \<times> bool result" where
  "post_offer W endpoint env d =
     (if \<not> otruthy endpoint then (d, Inr False)
      else case post_session W (the endpoint) (of_dict env) d of
        (RequestError e, d1) \<Rightarrow> (d1, Inr False)
      | (HttpResponse code js body, d1) \<Rightarrow>
          if code = 200 then
            (case response_ack (w_crypto W) js of
               Inl err \<Rightarrow> (d1, Inl err)
             | Inr rec_ack \<Rightarrow> (d1, Inr (ta_status rec_ack = ''delivered'')))
          else (d1, Inr False))"

definition try_relay ::
  "world \<Rightarrow> owner \<Rightarrow> string option \<Rightarrow> bytes option \<Rightarrow> string \<Rightarrow> pydict \<Rightarrow> db \<Rightarrow> db \<times> bool result" where
  "try_relay W ow relay_url recipient_pub peer_username env d =
     (if otruthy relay_url \<and> has_bytes recipient_pub
      then then_do (relay_envelope W (the relay_url) peer_username (PStr (ow_username ow))
                      (ow_x25519_privkey ow) (the recipient_pub) (of_dict env) d)
             (\<lambda>r d. (d, Inr (is_200 r)))
      else (d, Inr False))"

definition queue_key :: "queue_row \<Rightarrow> string \<times> int \<times> string" where
  "queue_key q = (q_session_id q, q_sequence q, q_recipient_username q)"

text \<open>
  \<open>INSERT INTO outbound_envelope_queue\<close>; with \<open>do_nothing\<close> a row under the same unique key is
  kept, otherwise it is an error, as a missing session is.
\<close>

definition insert_queue ::
  "world \<Rightarrow> bytes \<Rightarrow> bool \<Rightarrow> string \<Rightarrow> int \<Rightarrow> string \<Rightarrow> message_kind \<Rightarrow> pydict \<Rightarrow> int \<Rightarrow> db \<Rightarrow> db \<times> unit result"
where
  "insert_queue W vault_key do_nothing session_id sq recipient kind env now d =
     (case json_dumps W (of_dict env) of
        Inl e \<Rightarrow> (tick d, Inl e)
      | Inr raw_json \<Rightarrow>
          if list_ex (\<lambda>q. queue_key q = (session_id, sq, recipient)) (db_queue d)
          then (tick d, if do_nothing then Inr () else Inl IntegrityError)
          else if find_session d session_id = None then (tick d, Inl IntegrityError)
          else (tick (d\<lparr>db_queue := db_queue d @
                  [\<lparr>q_queue_id = w_uuid W (db_tick d), q_session_id = session_id, q_sequence = sq,
                    q_recipient_username = recipient, q_envelope_kind = message_kind_value kind,
                    q_envelope_json_enc = the (encrypt_field W vault_key (db_tick d) (Some raw_json)),
                    q_delivery_state = ''pending'', q_attempt_count = 0, q_next_retry_at = iso_now W now,
                    q_last_error = None, q_created_at = iso_now W now, q_updated_at = iso_now W now\<rparr>]\<rparr>),
                Inr ()))"

section \<open>Ingesting one's own envelope\<close>

definition self_ingest ::
  "world \<Rightarrow> bytes \<Rightarrow> owner \<Rightarrow> bytes option \<Rightarrow> pydict \<Rightarrow> int \<Rightarrow> bytes option \<Rightarrow> bytes option \<Rightarrow> string option
   \<Rightarrow> db \<Rightarrow> db \<times> unit result" where
  "self_ingest W vault_key ow peer_key env now rp ok ru d =
     then_do (ingest_envelope W vault_key env
                (own_or_peer_key W (ow_username ow) (ow_identity_key ow) peer_key) now rp ok ru d)
       (\<lambda>ack d. if ta_status ack = ''rejected'' then (d, Inl (AppError ''TransportError'')) else (d, Inr ()))"

section \<open>A new session\<close>

definition valid_max_turns :: "pyval \<Rightarrow> bool" where
  "valid_max_turns v = (case v of PInt i \<Rightarrow> 1 \<le> i \<and> i \<le> 12 | PBool b \<Rightarrow> b | _ \<Rightarrow> False)"

definition given_or :: "pyval \<Rightarrow> pyval \<Rightarrow> pyval" where
  "given_or v dflt = (if v = PNone then dflt else v)"

definition dispatch_budget :: "session_type \<Rightarrow> pyval \<Rightarrow> pyval \<Rightarrow> pyval" where
  "dispatch_budget st v dflt =
     (if st \<in> set [BUILD_PIPELINE, DELEGATE_SUBTASK] then given_or v dflt else v)"

definition dispatch_payload ::
  "session_type \<Rightarrow> string \<Rightarrow> string \<Rightarrow> string \<Rightarrow> pyval \<Rightarrow> pyval \<Rightarrow> pyval \<Rightarrow> pyval \<Rightarrow> pyval \<Rightarrow> pydict" where
  "dispatch_payload st goal receiver_agent_id peer_username mt rb ab cb context_pack =
     [(''collaboration_mode'', PStr (session_type_value st)), (''goal'', PStr goal),
      (''requested_agent_id'', PStr receiver_agent_id), (''peer_username'', PStr peer_username),
      (''max_turns'', mt),
      (''runtime_budget_seconds'', dispatch_budget st rb (PInt DEFAULT_BUILD_RUNTIME_BUDGET)),
      (''artifact_bytes_budget'', dispatch_budget st ab (PInt DEFAULT_BUILD_ARTIFACT_BYTES_BUDGET)),
      (''cost_budget_estimate'', dispatch_budget st cb DEFAULT_BUILD_COST_BUDGET_ESTIMATE),
      (''context_pack'', py_or context_pack (PList []))]"

definition fresh_session_id :: "world \<Rightarrow> nat \<Rightarrow> string" where
  "fresh_session_id W n = ''sess_'' @ take 16 (filter (\<lambda>ch. ch \<noteq> CHR ''-'') (w_uuid W n))"

text \<open>Steps 5 and 6: ingest the signed request and transmit it.\<close>

definition transmit_session ::
  "world \<Rightarrow> bytes \<Rightarrow> owner \<Rightarrow> string \<Rightarrow> string \<Rightarrow> string option \<Rightarrow> string option \<Rightarrow> bytes option \<Rightarrow> bytes option
   \<Rightarrow> pydict \<Rightarrow> int \<Rightarrow> db \<Rightarrow> db \<times> (string \<times> string) result" where
  "transmit_session W vault_key ow peer_username session_id endpoint relay_url recipient_pub peer_key env now d =
     then_do (self_ingest W vault_key ow peer_key env now None None None d) (\<lambda>_ d.
     then_do (post_dispatch W vault_key session_id endpoint env now d) (\<lambda>a d.
       case a of
         Refused \<Rightarrow> (d, Inr (session_id, ''failed''))
       | Delivered \<Rightarrow> (d, Inr (session_id, ''delivered''))
       | NotDelivered \<Rightarrow>
           then_do (try_relay W ow relay_url recipient_pub peer_username env d) (\<lambda>queued_at_relay d.
             if queued_at_relay
             then then_do (apply_node_command_transition W vault_key session_id ''mark_queued'' now d)
                    (\<lambda>_ d. (d, Inr (session_id, ''queued'')))
             else then_do (insert_queue W vault_key False session_id 1 peer_username TASK_REQUEST env now d)
                    (\<lambda>_ d. (d, Inr (session_id, ''sent''))))))"

definition dispatch_session ::
  "world \<Rightarrow> bytes \<Rightarrow> owner \<Rightarrow> string \<Rightarrow> string \<Rightarrow> string \<Rightarrow> string \<Rightarrow> string \<Rightarrow> route \<Rightarrow> pyval \<Rightarrow> pyval \<Rightarrow> pyval
   \<Rightarrow> pyval \<Rightarrow> pyval \<Rightarrow> int \<Rightarrow> db \<Rightarrow> db \<times> (string \<times> string) result" where
  "dispatch_session W vault_key ow peer_username sender_agent_id receiver_agent_id collaboration_mode goal rt
     max_turns rb ab cb context_pack now d =
     (case session_type_of collaboration_mode of
        None \<Rightarrow> (d, Inl ValueError)
      | Some st \<Rightarrow>
        if \<not> valid_max_turns (given_or max_turns (PInt 12)) then (d, Inl ValueError)
        else case resolve_peer_contact_info peer_username d of
          Inl e \<Rightarrow> (d, Inl e)
        | Inr (resolved_ep, resolved_x, resolved_ed) \<Rightarrow>
            (let endpoint = or_opt (rt_peer_endpoint rt) resolved_ep;
                 recipient_pub = or_bytes (rt_recipient_x25519_pubkey rt) resolved_x;
                 payload = dispatch_payload st goal receiver_agent_id peer_username
                             (given_or max_turns (PInt 12)) rb ab cb context_pack
             in then_do (if otruthy endpoint then capability_check W (the endpoint) peer_username now d
                         else (d, Inr ())) (\<lambda>_ d.
                  if is_stale peer_username receiver_agent_id d
                  then (d, Inl (AppError ''StalePeerCardError''))
                  else let session_id = fresh_session_id W (db_tick d) in
                    case signed_env_dict W (ow_identity_key ow) session_id 1 (PStr (ow_username ow))
                           (PStr sender_agent_id) (iso_now W now) TASK_REQUEST payload of
                      Inl e \<Rightarrow> (tick d, Inl e)
                    | Inr env \<Rightarrow>
                        transmit_session W vault_key ow peer_username session_id endpoint (rt_relay_url rt)
                          recipient_pub resolved_ed env now (tick d))))"

section \<open>Messages in a session\<close>

record send_result =
  sn_status :: string
  sn_kind :: message_kind
  sn_delivered :: bool
  sn_queued_at_relay :: bool
  sn_queued_locally :: bool

definition transmit_message ::
  "world \<Rightarrow> bytes \<Rightarrow> owner \<Rightarrow> string \<Rightarrow> string \<Rightarrow> int \<Rightarrow> message_kind \<Rightarrow> string option \<Rightarrow> string option
   \<Rightarrow> bytes option \<Rightarrow> pydict \<Rightarrow> int \<Rightarrow> db \<Rightarrow> db \<times> send_result result" where
  "transmit_message W vault_key ow peer_username session_id sq kind endpoint relay_url recipient_pub env now d =
     then_do (post_message W endpoint env d) (\<lambda>delivered d.
       if delivered
       then (d, Inr \<lparr>sn_status = ''delivered'', sn_kind = kind, sn_delivered = True,
                     sn_queued_at_relay = False, sn_queued_locally = False\<rparr>)
       else then_do (try_relay W ow relay_url recipient_pub peer_username env d) (\<lambda>queued_at_relay d.
         if queued_at_relay
         then (d, Inr \<lparr>sn_status = ''queued'', sn_kind = kind, sn_delivered = False,
                       sn_queued_at_relay = True, sn_queued_locally = False\<rparr>)
         else then_do (insert_queue W vault_key True session_id sq peer_username kind env now d) (\<lambda>_ d.
           (d, Inr \<lparr>sn_status = ''sent'', sn_kind = kind, sn_delivered = False,
                    sn_queued_at_relay = False, sn_queued_locally = True\<rparr>))))"

definition send_session_message ::
  "world \<Rightarrow> bytes \<Rightarrow> owner \<Rightarrow> string \<Rightarrow> message_kind \<Rightarrow> pydict \<Rightarrow> string option \<Rightarrow> route \<Rightarrow> int \<Rightarrow> db
   \<Rightarrow> db \<times> send_result result" where
  "send_session_message W vault_key ow session_id kind payload actor_agent_id rt now d =
     (case find_session d session_id of
        None \<Rightarrow> (d, Inl (AppError ''TransportError''))
      | Some row \<Rightarrow>
        (let peer_username = other_party (ow_username ow) (sr_initiator_username row) (sr_receiver_username row);
             sq = next_sequence session_id (Some (ow_username ow)) d
         in case signed_env_dict W (ow_identity_key ow) session_id sq (PStr (ow_username ow))
                   (PStr (or_text actor_agent_id (ow_username ow))) (iso_now W now) kind payload of
              Inl e \<Rightarrow> (d, Inl e)
            | Inr env \<Rightarrow>
              (case resolve_peer_contact_info peer_username d of
                 Inl e \<Rightarrow> (d, Inl e)
               | Inr (resolved_ep, resolved_x, resolved_ed) \<Rightarrow>
                   then_do (self_ingest W vault_key ow resolved_ed env now None None None d) (\<lambda>_ d.
                     transmit_message W vault_key ow peer_username session_id sq kind
                       (or_opt (rt_peer_endpoint rt) resolved_ep) (rt_relay_url rt)
                       (or_bytes (rt_recipient_x25519_pubkey rt) resolved_x) env now d))))"

section \<open>Answering, cancelling, pausing and resuming\<close>

definition may_accept :: "string option \<Rightarrow> db \<Rightarrow> bool" where
  "may_accept accepting_agent_id d =
     (otruthy accepting_agent_id
      \<and> (case get_card (the accepting_agent_id) d of
           None \<Rightarrow> False
         | Some ag \<Rightarrow> ag_enabled ag \<and> ag_availability ag \<noteq> ''policy_blocked''))"

definition response_message ::
  "string \<Rightarrow> string option \<Rightarrow> string option \<Rightarrow> db \<Rightarrow> (message_kind \<times> pydict) result" where
  "response_message decision accepting_agent_id reason d =
     (if decision = ''accept''
      then (if may_accept accepting_agent_id d
            then Inr (ACCEPTANCE, [(''accepting_agent_id'', PStr (the accepting_agent_id)),
                                   (''reason'', PStr (or_text reason ''Accepted''))])
            else Inl ValueError)
      else if decision = ''decline'' then Inr (DECLINE, [(''reason'', PStr (or_text reason ''Declined''))])
      else if decision = ''clarify''
      then Inr (CLARIFICATION, [(''question'', PStr (or_text reason ''Clarification requested''))])
      else Inl ValueError)"

definition respond_to_session ::
  "world \<Rightarrow> bytes \<Rightarrow> owner \<Rightarrow> string \<Rightarrow> string \<Rightarrow> string option \<Rightarrow> string option \<Rightarrow> route \<Rightarrow> int \<Rightarrow> db
   \<Rightarrow> db \<times> (string \<times> message_kind) result" where
  "respond_to_session W vault_key ow session_id decision accepting_agent_id reason rt now d =
     (case response_message decision accepting_agent_id reason d of
        Inl e \<Rightarrow> (d, Inl e)
      | Inr (kind, payload) \<Rightarrow>
          then_do (send_session_message W vault_key ow session_id kind payload
                     (Some (or_text accepting_agent_id (ow_username ow))) rt now d) (\<lambda>res d.
            (d, Inr (if sn_queued_at_relay res then ''queued'' else ''processed'', kind))))"

text \<open>The cancellation carries the initiating agent, whoever cancels.\<close>

definition cancel_session ::
  "world \<Rightarrow> bytes \<Rightarrow> owner \<Rightarrow> string \<Rightarrow> string \<Rightarrow> int \<Rightarrow> db \<Rightarrow> db \<times> unit result" where
  "cancel_session W vault_key ow session_id reason now d =
     (case find_session d session_id of
        None \<Rightarrow> (d, Inl (AppError ''TransportError''))
      | Some row \<Rightarrow>
        (let peer_username = other_party (ow_username ow) (sr_initiator_username row) (sr_receiver_username row)
         in case signed_env_dict W (ow_identity_key ow) session_id
                   (next_sequence session_id (Some (ow_username ow)) d) (PStr (ow_username ow))
                   (PStr (or_text (sr_sender_agent_id row) (ow_username ow))) (iso_now W now) CANCEL
                   [(''reason'', PStr reason)] of
              Inl e \<Rightarrow> (d, Inl e)
            | Inr env \<Rightarrow>
              (case resolve_peer_contact_info peer_username d of
                 Inl e \<Rightarrow> (d, Inl e)
               | Inr (_, _, resolved_ed) \<Rightarrow>
                   self_ingest W vault_key ow resolved_ed env now None None None d)))"

definition participant_agent :: "session_state \<Rightarrow> string \<Rightarrow> string" where
  "participant_agent state username =
     (case map_of (ss_participants state) username of None \<Rightarrow> username | Some p \<Rightarrow> pi_agent_id p)"

text \<open>
  Pause and resumption share their body: the reducer decides, the status is written and audited, and
  a status event is ingested by the node itself, whatever the acknowledgement says.
\<close>

definition owner_toggle ::
  "world \<Rightarrow> bytes \<Rightarrow> owner \<Rightarrow> string \<Rightarrow> string \<Rightarrow> string \<Rightarrow> string \<Rightarrow> string \<Rightarrow> int \<Rightarrow> db \<Rightarrow> db \<times> string result"
where
  "owner_toggle W vault_key ow session_id action new_status status_event reason now d =
     (case reconstruct_session_state W vault_key session_id d of
        Inl e \<Rightarrow> (d, Inl e)
      | Inr None \<Rightarrow> (d, Inl (AppError ''TransportError''))
      | Inr (Some state) \<Rightarrow>
        if \<not> rr_success (process_owner_command state (ow_username ow) action None)
        then (d, Inl (AppError ''TransportError''))
        else then_do (write_audit_event W vault_key ''session_status_updated'' (Some session_id) None
                        (of_dict [(''previous_status'', PStr (ss_status state)), (''new_status'', PStr new_status),
                                  (''command'', PStr action)]) (Some session_id)
                        (update_session session_id
                           (\<lambda>r. r\<lparr>sr_status := new_status, sr_updated_at := iso_now W now\<rparr>) d)) (\<lambda>_ d.
          case signed_env_dict W (ow_identity_key ow) session_id
                 (next_sequence session_id (Some (ow_username ow)) d) (PStr (ow_username ow))
                 (PStr (participant_agent state (ow_username ow))) (iso_now W now) STATUS_EVENT
                 [(''status_event'', PStr status_event), (''reason'', PStr reason)] of
            Inl e \<Rightarrow> (d, Inl e)
          | Inr env \<Rightarrow>
              (case resolve_peer_contact_info
                      (other_party (ow_username ow) (ss_initiator_username state) (ss_receiver_username state)) d of
                 Inl e \<Rightarrow> (d, Inl e)
               | Inr (_, _, resolved_ed) \<Rightarrow>
                   then_do (ingest_envelope W vault_key env
                              (own_or_peer_key W (ow_username ow) (ow_identity_key ow) resolved_ed) now None None None d)
                     (\<lambda>_ d. (d, Inr new_status)))))"

definition pause_session ::
  "world \<Rightarrow> bytes \<Rightarrow> owner \<Rightarrow> string \<Rightarrow> string \<Rightarrow> int \<Rightarrow> db \<Rightarrow> db \<times> string result" where
  "pause_session W vault_key ow session_id reason now d =
     owner_toggle W vault_key ow session_id ''owner_pause'' ''paused'' ''owner_paused'' reason now d"

definition resume_session ::
  "world \<Rightarrow> bytes \<Rightarrow> owner \<Rightarrow> string \<Rightarrow> string \<Rightarrow> int \<Rightarrow> db \<Rightarrow> db \<times> string result" where
  "resume_session W vault_key ow session_id reason now d =
     owner_toggle W vault_key ow session_id ''owner_resume'' ''active'' ''owner_resumed'' reason now d"

section \<open>Offering an artifact\<close>

definition offer_payload :: "artifact_metadata \<Rightarrow> string \<Rightarrow> string \<Rightarrow> bytes \<Rightarrow> pydict" where
  "offer_payload m session_id offered_by wire_ciphertext =
     [(''schema_version'', PStr ''1.1''), (''artifact_id'', PStr (amd_artifact_id m)),
      (''session_id'', PStr session_id), (''sha256'', PStr (amd_sha256 m)),
      (''mime_type'', PStr (amd_mime_type m)), (''size_bytes'', amd_size_bytes m),
      (''offered_by'', PStr offered_by), (''preview_policy'', amd_preview_policy m),
      (''encrypted_bytes_b64'', PStr (b64_std_encode wire_ciphertext))]"

text \<open>The loading of steps 1 to 5: what is sent, to whom, and where.\<close>

definition offer_inputs ::
  "world \<Rightarrow> bytes \<Rightarrow> owner \<Rightarrow> string \<Rightarrow> string \<Rightarrow> route \<Rightarrow> db
   \<Rightarrow> (session_state \<times> artifact_metadata \<times> bytes \<times> string option \<times> bytes \<times> bytes option) result" where
  "offer_inputs W vault_key ow session_id artifact_id rt d =
     (case reconstruct_session_state W vault_key session_id d of
        Inl e \<Rightarrow> Inl e
      | Inr None \<Rightarrow> Inl (AppError ''TransportError'')
      | Inr (Some state) \<Rightarrow>
        (case get_artifact_metadata W artifact_id d of
           Inl e \<Rightarrow> Inl e
         | Inr m \<Rightarrow>
           if amd_session_id m \<noteq> session_id then Inl ValueError
           else (case load_artifact_bytes W vault_key artifact_id d of
                   Inl e \<Rightarrow> Inl e
                 | Inr raw_bytes \<Rightarrow>
                   (case resolve_peer_contact_info (other_party (ow_username ow)
                            (ss_initiator_username state) (ss_receiver_username state)) d of
                      Inl e \<Rightarrow> Inl e
                    | Inr (resolved_ep, resolved_x, resolved_ed) \<Rightarrow>
                        (let recipient_pub = or_bytes (rt_recipient_x25519_pubkey rt) resolved_x in
                         if \<not> has_bytes recipient_pub then Inl (AppError ''TransportError'')
                         else Inr (state, m, raw_bytes, or_opt (rt_peer_endpoint rt) resolved_ep,
                                   the recipient_pub, resolved_ed))))))"

definition send_artifact_offer ::
  "world \<Rightarrow> bytes \<Rightarrow> owner \<Rightarrow> string \<Rightarrow> string \<Rightarrow> route \<Rightarrow> int \<Rightarrow> db \<Rightarrow> db \<times> string result" where
  "send_artifact_offer W vault_key ow session_id artifact_id rt now d =
     (case offer_inputs W vault_key ow session_id artifact_id rt d of
        Inl e \<Rightarrow> (d, Inl e)
      | Inr (state, m, raw_bytes, endpoint, recipient_pub, resolved_ed) \<Rightarrow>
        (let peer_username = other_party (ow_username ow) (ss_initiator_username state) (ss_receiver_username state);
             wire = encrypt_for_recipient W (ow_x25519_privkey ow) recipient_pub (db_tick d) raw_bytes
         in case signed_env_dict W (ow_identity_key ow) session_id
                   (next_sequence session_id (Some (ow_username ow)) d) (PStr (ow_username ow))
                   (PStr (participant_agent state (ow_username ow))) (iso_now W now) ARTIFACT_OFFER
                   (offer_payload m session_id (ow_username ow) wire) of
              Inl e \<Rightarrow> (tick d, Inl e)
            | Inr env \<Rightarrow>
                then_do (self_ingest W vault_key ow resolved_ed env now (Some (ow_x25519_privkey ow))
                           (Some (ow_identity_key ow)) (rt_relay_url rt) (tick d)) (\<lambda>_ d.
                then_do (post_offer W endpoint env d) (\<lambda>delivered d.
                  if delivered then (d, Inr ''direct'')
                  else then_do (try_relay W ow (rt_relay_url rt) (Some recipient_pub) peer_username env d)
                    (\<lambda>q d. (d, Inr (if q then ''relay'' else ''local-only'')))))))"

section \<open>Every sender is a node operation\<close>

lemma progress_envelope: "progress d (fst (ingest_envelope W k raw get_pk now rp ok ru d))"
  using ingestion.run_progress [of d "(W, k, raw, get_pk, now, rp, ok, ru)"] by simp

lemma progress_self_ingest: "progress d (fst (self_ingest W k ow pk env now rp ok ru d))"
  unfolding self_ingest_def by (rule progress_then_do [OF progress_envelope]) simp

lemma quiet_cache_capabilities: "quiet d (cache_peer_capabilities W peer ad now d)"
  by (simp add: cache_peer_capabilities_def Let_def quiet_def)

lemma quiet_capability_check: "quiet d (fst (capability_check W ep peer now d))"
proof -
  obtain r d1 where r: "http_call W ''GET'' (strip_slash ep @ ''/v1.1/capabilities'') PNone d = (r, d1)" by force
  then have d1: "quiet d d1" using quiet_http [of d] by (metis snd_conv)
  then have "quiet d (cache_peer_capabilities W peer ad now d1)" for ad
    using quiet_trans quiet_cache_capabilities by blast
  with d1 show ?thesis
    by (cases r) (simp_all add: capability_check_def r split: option.split sum.split)
qed

lemma quiet_post_message: "quiet d (fst (post_message W ep env d))"
  using quiet_post [of d] by (simp add: post_message_def split_beta)

lemma quiet_post_offer: "quiet d (fst (post_offer W ep env d))"
proof -
  obtain r d1 where r: "post_session W (the ep) (of_dict env) d = (r, d1)" by force
  then have "quiet d d1" using quiet_post [of d] by (metis snd_conv)
  then show ?thesis by (cases r) (simp_all add: post_offer_def r split: sum.split)
qed

lemma quiet_then_do:
  assumes "quiet d (fst m)" and "\<And>x d1. m = (d1, Inr x) \<Longrightarrow> quiet d1 (fst (f x d1))"
  shows "quiet d (fst (then_do m f))"
  using assms quiet_trans by (cases m) (auto simp: then_do_def split: sum.split)

lemma quiet_try_relay: "quiet d (fst (try_relay W ow ru pk peer env d))"
  unfolding try_relay_def by (auto intro: quiet_then_do quiet_relay)

lemma quiet_insert_queue: "quiet d (fst (insert_queue W k b sid sq rec kind env now d))"
  by (simp add: insert_queue_def quiet_def split: sum.split)

lemma progress_post_dispatch: "progress d (fst (post_dispatch W k sid ep env now d))"
proof -
  obtain r d1 where r: "post_session W (the ep) (of_dict env) d = (r, d1)" by force
  then have d1: "progress d d1" using quiet_progress [OF quiet_post [of d]] by (metis snd_conv)
  have mark: "progress d (fst (then_do (apply_node_command_transition W k sid c now d1) (\<lambda>_ d. (d, Inr a))))"
    for c and a :: attempt
    by (rule progress_trans [OF d1 progress_then_do [OF progress_node_command]]) simp
  from d1 mark show ?thesis by (cases r) (simp_all add: post_dispatch_def r split: sum.split)
qed

lemmas quiet_progresses = quiet_capability_check [THEN quiet_progress] quiet_post_message [THEN quiet_progress]
  quiet_post_offer [THEN quiet_progress] quiet_try_relay [THEN quiet_progress]
  quiet_insert_queue [THEN quiet_progress]

lemma progress_transmit_session:
  "progress d (fst (transmit_session W k ow peer sid ep ru rp pk env now d))"
  unfolding transmit_session_def
  by (auto intro!: progress_then_do progress_self_ingest progress_post_dispatch progress_node_command
      quiet_progresses split: attempt.split)

lemma progress_dispatch:
  "progress d (fst (dispatch_session W k ow peer sa ra mode goal rt mt rb ab cb cp now d))"
  unfolding dispatch_session_def Let_def
  by (auto intro!: progress_then_do quiet_progresses progress_trans [OF progress_tick progress_transmit_session]
      split: option.split sum.split)

lemma progress_transmit_message:
  "progress d (fst (transmit_message W k ow peer sid sq kind ep ru rp env now d))"
  unfolding transmit_message_def by (auto intro!: progress_then_do quiet_progresses)

lemma progress_send_message:
  "progress d (fst (send_session_message W k ow sid kind payload ag rt now d))"
  unfolding send_session_message_def Let_def
  by (auto intro!: progress_then_do progress_self_ingest progress_transmit_message split: option.split sum.split)

lemma progress_respond:
  "progress d (fst (respond_to_session W k ow sid decision ag reason rt now d))"
  unfolding respond_to_session_def
  by (auto intro!: progress_then_do progress_send_message split: sum.split)

lemma progress_cancel: "progress d (fst (cancel_session W k ow sid reason now d))"
  unfolding cancel_session_def Let_def by (auto intro!: progress_self_ingest split: option.split sum.split)

lemma owner_command_status:
  assumes "rr_success (process_owner_command s u a p)" and "owner_target a p = Inr t"
  shows "ss_status s = t \<or> reducer_edge (ss_status s) t"
proof -
  have "ss_status (rr_new_state (process_owner_command s u a p)) = t"
    using assms by (auto simp: process_owner_command_def reducer_failure_def reducer_success_def split: if_splits)
  with owner_edge [OF assms(1)] show ?thesis by auto
qed

lemma progress_owner_toggle:
  assumes "owner_target action None = Inr new_status"
  shows "progress d (fst (owner_toggle W k ow sid action new_status ev reason now d))"
proof (cases "\<exists>s. reconstruct_session_state W k sid d = Inr (Some s)
    \<and> rr_success (process_owner_command s (ow_username ow) action None)")
  case True
  then obtain s where s: "reconstruct_session_state W k sid d = Inr (Some s)"
    and ok: "rr_success (process_owner_command s (ow_username ow) action None)" by blast
  obtain row where row: "find_session d sid = Some row" "ss_status s = sr_status row"
    by (rule reconstruct_Some [OF s])
  have "progress d (update_session sid (\<lambda>r. r\<lparr>sr_status := new_status, sr_updated_at := t\<rparr>) d)" for t
    using owner_command_status [OF ok assms] row by (intro progress_update_session) auto
  from progress_trans [OF this progress_audit] s ok show ?thesis
    unfolding owner_toggle_def
    by (auto intro!: progress_then_do progress_envelope split: sum.split)
next
  case False
  then show ?thesis by (auto simp: owner_toggle_def split: sum.split option.split)
qed

lemma progress_pause: "progress d (fst (pause_session W k ow sid reason now d))"
  unfolding pause_session_def by (rule progress_owner_toggle) (simp add: owner_target_def)

lemma progress_resume: "progress d (fst (resume_session W k ow sid reason now d))"
  unfolding resume_session_def by (rule progress_owner_toggle) (simp add: owner_target_def)

lemma progress_send_offer: "progress d (fst (send_artifact_offer W k ow sid aid rt now d))"
  unfolding send_artifact_offer_def Let_def
  by (auto intro!: progress_then_do quiet_progresses progress_trans [OF progress_tick progress_self_ingest]
      split: sum.split)

section \<open>An accepted envelope is in the ledger\<close>

lemma find_sequence_extends:
  assumes "db_events d' = db_events d @ es" and "find_sequence d sid un sq \<noteq> None"
  shows "find_sequence d' sid un sq \<noteq> None"
  using assms by (auto simp: find_sequence_def find_None_iff)

lemma find_sequence_recorded:
  assumes "e \<in> set (db_events d)" and "recorded env e"
  shows "find_sequence d (env_session_id env) (env_actor_username env) (env_sequence env) \<noteq> None"
  using assms by (auto simp: find_sequence_def find_None_iff recorded_def)

lemma check_sequence_duplicate:
  "check_sequence_conflict W k sid un sq p d = (d', Inr (SeqDuplicate i)) \<Longrightarrow> find_sequence d sid un sq \<noteq> None"
  by (auto simp: check_sequence_conflict_def Let_def split: if_splits option.splits sum.splits prod.splits)

lemma append_known:
  assumes "append_session_event W k sid un ag kind vis p sg (Some sq) d = (d', Inr app)"
    and "\<forall>c. app \<noteq> RejectedEvent c"
  shows "find_sequence d' sid un sq \<noteq> None"
proof (cases app)
  case (Appended i j)
  with append_session_event_cases [OF assms(1)]
  have "insert_session_event W k sid un ag kind vis p sg (Some sq) d = (d', Inr app)" by auto
  from insert_session_event_cases [OF this]
  have "\<exists>e. db_events d' = db_events d @ [e] \<and> er_session_id e = sid \<and> er_actor_username e = un
      \<and> er_sequence e = Some sq"
    by (auto simp: same_tables_def)
  then show ?thesis by (auto simp: find_sequence_def find_None_iff)
next
  case (DuplicateEvent i)
  with assms(1) obtain d1 where "check_sequence_conflict W k sid un sq p d = (d1, Inr (SeqDuplicate i))"
    by (auto simp: append_session_event_def insert_session_event_def Let_def
        split: prod.splits sum.splits sequence_status.splits option.splits if_splits)
  from check_sequence_duplicate [OF this] append_session_event_cases [OF assms(1)] DuplicateEvent
  show ?thesis by (auto simp: same_tables_def find_sequence_def dest: insert_session_event_cases)
qed (use assms(2) in simp)

lemma commit_records:
  assumes c: "ingest_commit W k env state now d = (d', Inr (Inr x))"
  shows "find_sequence d' (env_session_id env) (env_actor_username env) (env_sequence env) \<noteq> None"
proof -
  obtain red where red: "process_peer_envelope (advance_to_review state env) env = Inr red" "rr_success red"
    using c by (auto simp: ingest_commit_def answer_def split: sum.splits if_splits)
  obtain d1 app where app: "append_session_event W k (env_session_id env) (env_actor_username env)
      (Some (env_actor_agent_id env)) (message_kind_value (env_kind env)) ''peer_visible''
      (of_dict (env_payload env)) (env_signature env) (Some (env_sequence env)) (accept_receiver_agent env d)
      = (d1, Inr app)"
    using c red by (auto simp: ingest_commit_def elim!: then_do_Inr)
  have ok: "\<forall>c. app \<noteq> RejectedEvent c"
    using c red app by (auto simp: ingest_commit_def then_do_def answer_def split: sum.splits)
  define d2 where "d2 = update_session (env_session_id env)
      (\<lambda>r. r\<lparr>sr_status := ss_status (settle_status (rr_new_state red) env (my_username d1)),
            sr_updated_at := iso_now W now\<rparr>) d1"
  have "ingest_commit W k env state now d = then_do (record_outcome W k env d2) (\<lambda>_ d. (d, Inr (Inr ())))"
    using red app ok by (cases app) (simp_all add: ingest_commit_def then_do_def Let_def d2_def)
  with c obtain y where "record_outcome W k env d2 = (d', Inr y)" by (auto elim!: then_do_Inr)
  then obtain os where "db_events d' = db_events d2 @ os" using progress_record_outcome by blast
  moreover have "db_events d2 = db_events d1" by (simp add: d2_def update_session_def)
  ultimately show ?thesis using find_sequence_extends append_known [OF app ok] by metis
qed

lemma ack_env_status: "ack_env W env now st c = Inr a \<Longrightarrow> ta_status a = st"
  by (auto simp: ack_env_def make_ack_def split: option.splits if_splits)

lemma reject_raw_status: "reject_raw W raw now c = Inr a \<Longrightarrow> ta_status a = ''rejected''"
  by (auto simp: reject_raw_def make_ack_def split: option.splits if_splits)

lemma answer_Inl:
  assumes "answer a d = (d', Inr x)"
  shows "d' = d \<and> (\<exists>t. x = Inl t \<and> a = Inr t)"
  using assms by (auto simp: answer_def split: sum.splits)

text \<open>Acknowledged without a rejection: the arrived envelope has its place in the ledger.\<close>

lemma verify_acknowledged:
  assumes "ingest_verify W k raw get_pk now d = (d', Inr (Inl ack))" and "ta_status ack \<noteq> ''rejected''"
  shows "\<exists>env. session_envelope_validate raw = Inr env
    \<and> find_sequence d' (env_session_id env) (env_actor_username env) (env_sequence env) \<noteq> None"
proof -
  obtain d1 lk where lk: "ingest_lookup W k raw get_pk now d = (d1, Inr lk)"
    using assms(1) by (auto simp: ingest_verify_def elim!: then_do_Inr)
  show ?thesis
  proof (cases lk)
    case (Inl a)
    with lk have "\<exists>c. reject_raw W raw now c = Inr a"
      by (auto simp: ingest_lookup_def elim!: then_do_Inr dest!: answer_Inl split: sum.splits option.splits if_splits)
    with lk Inl assms show ?thesis by (auto simp: ingest_verify_def then_do_def dest: reject_raw_status)
  next
    case (Inr x)
    obtain sess_row pmap where x: "x = (sess_row, pmap)" by (cases x)
    let ?v = "verify_and_build_envelope (w_crypto W) raw get_pk (raw_session raw) pmap"
    show ?thesis
    proof (cases "vr_verified_envelope ?v")
      case None
      with lk Inr x assms show ?thesis
        by (auto simp: ingest_verify_def then_do_def Let_def dest!: answer_Inl reject_raw_status)
    next
      case (Some ve)
      define env where "env = ve_envelope ve"
      obtain d2 q where ck: "check_sequence_conflict W k (env_session_id env) (env_actor_username env)
          (env_sequence env) (of_dict (env_payload env)) d1 = (d2, q)" by force
      have "ingest_verify W k raw get_pk now d = then_do (d2, q) (\<lambda>st d. case st of
            SeqDuplicate _ \<Rightarrow> answer (ack_env W env now ''delivered'' None) d
          | SeqConflict _ \<Rightarrow> answer (ack_env W env now ''rejected'' (Some ''SEQUENCE_REUSE_MISMATCH'')) d
          | SeqNew \<Rightarrow> (d, Inr (Inr (sess_row, env))))"
        using lk Inr x Some ck by (simp add: ingest_verify_def then_do_def Let_def env_def)
      with assms have "\<exists>i. q = Inr (SeqDuplicate i)" and "d' = d2"
        by (auto simp: then_do_def split: sum.splits sequence_status.splits dest!: answer_Inl ack_env_status)
      with ck check_sequence_duplicate check_sequence_same [OF ck]
      have "find_sequence d' (env_session_id env) (env_actor_username env) (env_sequence env) \<noteq> None"
        by (auto simp: same_tables_def find_sequence_def)
      moreover have "session_envelope_validate raw = Inr env"
        using verified_authentic [OF Some] by (simp add: authentic_def env_def)
      ultimately show ?thesis by blast
    qed
  qed
qed

definition in_ledger :: "pydict \<Rightarrow> db \<Rightarrow> bool" where
  "in_ledger raw d = (\<exists>env. session_envelope_validate raw = Inr env
     \<and> find_sequence d (env_session_id env) (env_actor_username env) (env_sequence env) \<noteq> None)"

lemma in_ledger_extends: "in_ledger raw d \<Longrightarrow> progress d d' \<Longrightarrow> in_ledger raw d'"
  using find_sequence_extends by (fastforce simp: in_ledger_def progress_def)

lemma state_answers_rejected:
  "ingest_state W k sess_row env now d = (d', Inr (Inl ack)) \<Longrightarrow> ta_status ack = ''rejected''"
  by (auto simp: ingest_state_def bootstrap_session_def Let_def elim!: then_do_Inr
      dest!: answer_Inl ack_env_status split: option.splits sum.splits pyval.splits)

lemma commit_answers_rejected:
  "ingest_commit W k env state now d = (d', Inr (Inl ack)) \<Longrightarrow> ta_status ack = ''rejected''"
  by (auto simp: ingest_commit_def Let_def elim!: then_do_Inr
      dest!: answer_Inl ack_env_status split: sum.splits if_splits append_result.splits)

lemma core_acknowledged:
  assumes "ingest_core W k raw get_pk now d = (d', Inr x)"
    and "\<And>ack. x = Inl ack \<Longrightarrow> ta_status ack \<noteq> ''rejected''"
  shows "in_ledger raw d'"
proof -
  obtain d1 q where q: "ingest_verify W k raw get_pk now d = (d1, Inr q)"
    using assms(1) by (auto simp: ingest_core_def elim!: then_do_Inr)
  show ?thesis
  proof (cases q)
    case (Inl ack)
    with assms q have "d' = d1" "ta_status ack \<noteq> ''rejected''" by (auto simp: ingest_core_def then_do_def)
    with verify_acknowledged q Inl show ?thesis by (simp add: in_ledger_def)
  next
    case (Inr y)
    obtain sess_row env where y: "y = (sess_row, env)" by (cases y)
    have valid: "session_envelope_validate raw = Inr env"
      using verify_ok [of W k raw get_pk now d d1 sess_row env] q Inr y by (simp add: authentic_def)
    obtain d2 st where st: "ingest_state W k sess_row env now d1 = (d2, Inr st)"
      using assms(1) q Inr y by (auto simp: ingest_core_def then_do_def split: sum.splits prod.splits)
    show ?thesis
    proof (cases st)
      case (Inl ack)
      with state_answers_rejected st assms q Inr y show ?thesis
        by (auto simp: ingest_core_def then_do_def)
    next
      case state: (Inr state)
      obtain d3 z where z: "ingest_commit W k env state now d2 = (d3, Inr z)"
        using assms(1) q Inr y st state by (auto simp: ingest_core_def then_do_def split: sum.splits prod.splits)
      show ?thesis
      proof (cases z)
        case (Inl ack)
        with commit_answers_rejected z assms q Inr y st state show ?thesis
          by (auto simp: ingest_core_def then_do_def)
      next
        case u: (Inr u)
        with z assms(1) q Inr y st state have "d' = d3" by (auto simp: ingest_core_def then_do_def)
        with commit_records z u valid show ?thesis by (auto simp: in_ledger_def)
      qed
    qed
  qed
qed

lemma envelope_acknowledged:
  assumes "ingest_envelope W k raw get_pk now rp ok ru d = (d', Inr ack)" and "ta_status ack \<noteq> ''rejected''"
  shows "in_ledger raw d'"
proof -
  obtain d1 x where x: "ingest_core W k raw get_pk now d = (d1, Inr x)"
    using assms(1) by (auto simp: ingest_envelope_def elim!: then_do_Inr)
  show ?thesis
  proof (cases x)
    case (Inl a)
    with x assms have "d' = d1" "a = ack" by (auto simp: ingest_envelope_def then_do_def)
    with core_acknowledged [OF x] Inl assms(2) show ?thesis by auto
  next
    case (Inr y)
    have "in_ledger raw d1" using core_acknowledged [OF x] Inr by simp
    moreover have offer: "progress d1 (fst (receive_offer W k row env now rp ok ru d1))" for row env
      using addsD(1) [OF adds_receive_offer] .
    have "progress d1 d'"
    proof (cases y)
      case (Pair sess_row env)
      then show ?thesis
        using x Inr assms(1) offer
        by (auto simp: ingest_envelope_def then_do_def split: if_splits option.splits sum.splits prod.splits)
          (metis fst_conv)
    qed
    ultimately show ?thesis by (rule in_ledger_extends)
  qed
qed

lemma self_ingest_recorded:
  assumes "self_ingest W k ow pk env now rp ok ru d = (d', Inr u)"
  shows "in_ledger env d'"
  using assms by (auto simp: self_ingest_def elim!: then_do_Inr split: if_splits intro: envelope_acknowledged)

lemma in_ledger_signed:
  assumes "signed_env_dict W sk sid sq (PStr me) agent ts kind payload = Inr raw" and "in_ledger raw d"
  shows "find_sequence d sid me sq \<noteq> None"
proof -
  from assms(2) obtain env where env: "session_envelope_validate raw = Inr env"
    "find_sequence d (env_session_id env) (env_actor_username env) (env_sequence env) \<noteq> None"
    by (auto simp: in_ledger_def)
  from validated_fields(1,2,4) [OF env(1)] signed_env_actor(1,2,3) [OF assms(1)]
  have "env_session_id env = sid" "env_actor_username env = me" "env_sequence env = sq" by auto
  with env(2) show ?thesis by simp
qed

section \<open>Where an envelope ends up\<close>

text \<open>The last request of the node was this one, and it was answered with status 200.\<close>

definition accepted_post :: "world \<Rightarrow> string \<Rightarrow> pyval \<Rightarrow> db \<Rightarrow> bool" where
  "accepted_post W url body d =
     (\<exists>n ws. db_wire d = ws @ [(''POST'', url, body)] \<and> is_200 (w_http W n ''POST'' url body))"

definition at_endpoint :: "world \<Rightarrow> string option \<Rightarrow> pydict \<Rightarrow> db \<Rightarrow> bool" where
  "at_endpoint W ep env d =
     (\<exists>u. ep = Some u \<and> accepted_post W (strip_slash u @ ''/v1.1/sessions'') (of_dict env) d)"

text \<open>The relay holds the JSON text of the envelope, encrypted for the peer.\<close>

definition at_relay :: "world \<Rightarrow> owner \<Rightarrow> string option \<Rightarrow> bytes option \<Rightarrow> string \<Rightarrow> pydict \<Rightarrow> db \<Rightarrow> bool" where
  "at_relay W ow ru pub peer env d =
     (\<exists>u pk js n. ru = Some u \<and> pub = Some pk \<and> json_dumps W (of_dict env) = Inr js
        \<and> accepted_post W (strip_slash u @ ''/relay/mailbox/'' @ peer)
            (of_dict [(''sender_username'', PStr (ow_username ow)), (''encrypted_blob'',
               PStr (hexdigest (encrypt_for_recipient W (ow_x25519_privkey ow) pk n (utf8_encode js))))]) d)"

definition in_queue :: "world \<Rightarrow> bytes \<Rightarrow> pydict \<Rightarrow> string \<times> int \<times> string \<Rightarrow> db \<Rightarrow> bool" where
  "in_queue W k env key d =
     (\<exists>q \<in> set (db_queue d). queue_key q = key \<and> q_delivery_state q = ''pending''
        \<and> (\<exists>js. json_dumps W (of_dict env) = Inr js
             \<and> decrypt_field W k (Some (q_envelope_json_enc q)) = Inr (Some js)))"

lemma http_call_accepted:
  "http_call W ''POST'' url body d = (r, d') \<Longrightarrow> is_200 r \<Longrightarrow> accepted_post W url body d'"
  by (auto simp: http_call_def accepted_post_def)

lemma post_message_delivered:
  "post_message W ep env d = (d', Inr True) \<Longrightarrow> at_endpoint W ep env d'"
  by (auto simp: post_message_def post_session_def at_endpoint_def otruthy_def
      split: if_splits option.splits prod.splits dest: http_call_accepted)

lemma post_200_accepted:
  assumes "post_session W u env d = (HttpResponse 200 js body, d1)"
  shows "accepted_post W (strip_slash u @ ''/v1.1/sessions'') env d1"
  using assms by (auto simp: post_session_def is_200_def dest: http_call_accepted)

lemma try_relay_queued:
  assumes "try_relay W ow ru pub peer env d = (d', Inr True)"
  shows "at_relay W ow ru pub peer env d'"
proof -
  from assms obtain u pk where u: "ru = Some u" "pub = Some pk"
    and r: "\<exists>r. relay_envelope W u peer (PStr (ow_username ow)) (ow_x25519_privkey ow) pk (of_dict env) d = (d', Inr r)
      \<and> is_200 r"
    by (auto simp: try_relay_def otruthy_def has_bytes_def elim!: then_do_Inr split: if_splits option.splits)
  from r obtain js where "json_dumps W (of_dict env) = Inr js" by (auto simp: relay_envelope_def split: sum.splits)
  with r u show ?thesis
    by (auto simp: relay_envelope_def queue_relay_envelope_def at_relay_def Let_def
        split: prod.splits intro: http_call_accepted)
qed

lemma insert_queue_row:
  assumes "insert_queue W k b sid sq peer kind env now d = (d', Inr u)" and "aes_correct W k"
  shows "in_queue W k env (sid, sq, peer) d'
    \<or> (b \<and> (\<exists>q \<in> set (db_queue d'). q \<in> set (db_queue d) \<and> queue_key q = (sid, sq, peer)))"
proof -
  from assms(1) obtain js where js: "json_dumps W (of_dict env) = Inr js"
    by (auto simp: insert_queue_def split: sum.splits)
  have dec: "decrypt_field W k (Some (the (encrypt_field W k n (Some js)))) = Inr (Some js)" for n
    using decrypt_encrypt_field [OF assms(2), of n "Some js"] encrypt_field_None_iff [of W k n "Some js"] by fastforce
  show ?thesis
  proof (cases "list_ex (\<lambda>q. queue_key q = (sid, sq, peer)) (db_queue d)")
    case True
    with assms(1) js show ?thesis by (auto simp: insert_queue_def list_ex_iff split: if_splits)
  next
    case False
    with assms(1) js dec show ?thesis
      by (auto simp: insert_queue_def in_queue_def queue_key_def split: if_splits)
  qed
qed

lemma transmit_message_fate:
  assumes "transmit_message W k ow peer sid sq kind ep ru pub env now d = (d', Inr res)" and "aes_correct W k"
  shows "(sn_delivered res \<and> at_endpoint W ep env d') \<or> (sn_queued_at_relay res \<and> at_relay W ow ru pub peer env d')
    \<or> (sn_queued_locally res \<and> (in_queue W k env (sid, sq, peer) d'
          \<or> (\<exists>q \<in> set (db_queue d'). queue_key q = (sid, sq, peer))))"
proof -
  obtain d1 b where b: "post_message W ep env d = (d1, Inr b)"
    using assms(1) by (auto simp: transmit_message_def elim!: then_do_Inr)
  show ?thesis
  proof (cases b)
    case True
    with assms(1) b post_message_delivered show ?thesis by (auto simp: transmit_message_def then_do_def)
  next
    case False
    with assms(1) b obtain d2 c where c: "try_relay W ow ru pub peer env d1 = (d2, Inr c)"
      by (auto simp: transmit_message_def then_do_def split: sum.splits prod.splits)
    show ?thesis
    proof (cases c)
      case True
      with assms(1) b False c try_relay_queued show ?thesis by (auto simp: transmit_message_def then_do_def)
    next
      case no_relay: False
      with assms(1) b False c obtain d3 u where q: "insert_queue W k True sid sq peer kind env now d2 = (d3, Inr u)"
        by (auto simp: transmit_message_def then_do_def split: sum.splits prod.splits)
      with assms(1) b False c no_relay have "d' = d3" "sn_queued_locally res"
        by (auto simp: transmit_message_def then_do_def)
      with insert_queue_row [OF q assms(2)] show ?thesis by auto
    qed
  qed
qed

lemma wire_kept:
  assumes "apply_node_command_transition W k sid c now d = (d', r)"
  shows "accepted_post W url body d' = accepted_post W url body d" and "db_queue d' = db_queue d"
    and "db_wire d' = db_wire d"
  using apply_node_ok [OF assms] by (simp_all add: accepted_post_def status_only_def)

definition refused_by :: "world \<Rightarrow> string option \<Rightarrow> pydict \<Rightarrow> db \<Rightarrow> bool" where
  "refused_by W ep env d =
     (\<exists>u ws n code js body. ep = Some u
        \<and> db_wire d = ws @ [(''POST'', strip_slash u @ ''/v1.1/sessions'', of_dict env)]
        \<and> w_http W n ''POST'' (strip_slash u @ ''/v1.1/sessions'') (of_dict env) = HttpResponse code js body
        \<and> 400 \<le> code \<and> code < 500)"

lemma post_dispatch_fate:
  assumes "post_dispatch W k sid ep env now d = (d', Inr a)"
  shows "(a = Delivered \<longrightarrow> at_endpoint W ep env d') \<and> (a = Refused \<longrightarrow> refused_by W ep env d')"
proof (cases "otruthy ep")
  case True
  then obtain u where u: "ep = Some u" by (auto simp: otruthy_def split: option.splits)
  obtain r d1 where r: "post_session W u (of_dict env) d = (r, d1)" by force
  let ?url = "strip_slash u @ ''/v1.1/sessions''"
  have wire: "db_wire d1 = db_wire d @ [(''POST'', ?url, of_dict env)]"
    and rep: "r = w_http W (db_tick d) ''POST'' ?url (of_dict env)"
    using r by (auto simp: post_session_def http_call_def)
  show ?thesis
  proof (cases r)
    case (HttpResponse code js body)
    have mark: "db_wire d' = db_wire d1" if "apply_node_command_transition W k sid c now d1 = (d', x)" for c x
      by (rule wire_kept [OF that])
    show ?thesis
    proof (cases "code = 200")
      case True
      with HttpResponse r have ok: "accepted_post W ?url (of_dict env) d1" using post_200_accepted by blast
      with True assms HttpResponse r u \<open>otruthy ep\<close> show ?thesis
        by (auto simp: post_dispatch_def at_endpoint_def accepted_post_def dest!: mark elim!: then_do_Inr split: sum.splits if_splits)
    next
      case False
      with assms HttpResponse r u \<open>otruthy ep\<close> wire rep show ?thesis
        by (auto simp: post_dispatch_def refused_by_def dest!: mark elim!: then_do_Inr split: if_splits)
    qed
  qed (use assms True u r in \<open>simp add: post_dispatch_def\<close>)
qed (use assms in \<open>simp add: post_dispatch_def\<close>)

lemma transmit_session_fate:
  assumes "transmit_session W k ow peer sid ep ru pub pk env now d = (d', Inr (sid', status))" and "aes_correct W k"
  shows "sid' = sid \<and> in_ledger env d'
    \<and> ((status = ''delivered'' \<and> at_endpoint W ep env d') \<or> (status = ''failed'' \<and> refused_by W ep env d')
       \<or> (status = ''queued'' \<and> at_relay W ow ru pub peer env d')
       \<or> (status = ''sent'' \<and> in_queue W k env (sid, 1, peer) d'))"
proof -
  obtain d1 u where u: "self_ingest W k ow pk env now None None None d = (d1, Inr u)"
    using assms(1) by (auto simp: transmit_session_def elim!: then_do_Inr)
  obtain d2 a where a: "post_dispatch W k sid ep env now d1 = (d2, Inr a)"
    using assms(1) u by (auto simp: transmit_session_def then_do_def split: sum.splits prod.splits)
  have d2: "in_ledger env d2"
    using in_ledger_extends [OF self_ingest_recorded [OF u] progress_post_dispatch] a by (metis fst_conv)
  note fate = post_dispatch_fate [OF a]
  show ?thesis
  proof (cases a)
    case NotDelivered
    then obtain d3 b where b: "try_relay W ow ru pub peer env d2 = (d3, Inr b)"
      using assms(1) u a by (auto simp: transmit_session_def then_do_def split: sum.splits prod.splits)
    have d3: "in_ledger env d3"
      using in_ledger_extends [OF d2 quiet_progress [OF quiet_try_relay]] b by (metis fst_conv)
    show ?thesis
    proof (cases b)
      case True
      with assms(1) u a NotDelivered b obtain y where
        y: "apply_node_command_transition W k sid ''mark_queued'' now d3 = (d', Inr y)"
        and s: "sid' = sid" "status = ''queued''"
        by (auto simp: transmit_session_def then_do_def split: sum.splits prod.splits)
      have "in_ledger env d'" using in_ledger_extends [OF d3 progress_node_command] y by (metis fst_conv)
      moreover have "at_relay W ow ru pub peer env d'"
        using try_relay_queued b True wire_kept(1) [OF y] by (simp add: at_relay_def)
      ultimately show ?thesis using s by simp
    next
      case False
      with assms(1) u a NotDelivered b obtain y where
        y: "insert_queue W k False sid 1 peer TASK_REQUEST env now d3 = (d', Inr y)"
        and s: "sid' = sid" "status = ''sent''"
        by (auto simp: transmit_session_def then_do_def split: sum.splits prod.splits)
      have "in_ledger env d'"
        using in_ledger_extends [OF d3 quiet_progress [OF quiet_insert_queue]] y by (metis fst_conv)
      with insert_queue_row [OF y assms(2)] s show ?thesis by simp
    qed
  qed (use assms(1) u a fate d2 in \<open>auto simp: transmit_session_def then_do_def\<close>)
qed

section \<open>What the gates guarantee\<close>

text \<open>An advertisement fetched from the endpoint, or a cached one of at most 72 hours if it is unreachable.\<close>

definition peer_advertises :: "world \<Rightarrow> string \<Rightarrow> string \<Rightarrow> int \<Rightarrow> db \<Rightarrow> capability_ad \<Rightarrow> bool" where
  "peer_advertises W ep peer now d ad =
     (case w_http W (db_tick d) ''GET'' (strip_slash ep @ ''/v1.1/capabilities'') PNone of
        HttpResponse code js body \<Rightarrow>
          code = 200 \<and> (\<exists>v. js = Some v \<and> Option.bind (as_str_dict v) (capability_ad_validate (w_crypto W)) = Some ad)
      | RequestError e \<Rightarrow> get_cached_peer_capabilities W peer 72 now d = Inr (Some ad))"

text \<open>Nothing was created or queued, and only reads were sent.\<close>

definition untouched :: "db \<Rightarrow> db \<Rightarrow> bool" where
  "untouched d d' =
     (db_sessions d' = db_sessions d \<and> db_events d' = db_events d \<and> db_queue d' = db_queue d
      \<and> db_peer_cards d' = db_peer_cards d
      \<and> (\<exists>ws. db_wire d' = db_wire d @ ws \<and> (\<forall>w \<in> set ws. fst w = ''GET'')))"

lemma untouched_refl [simp]: "untouched d d"
  by (simp add: untouched_def)

lemma untouched_tick: "untouched d d' \<Longrightarrow> untouched d (tick d')"
  by (simp add: untouched_def)

lemma capability_check_cases:
  assumes "capability_check W ep peer now d = (d', r)"
  shows "untouched d d' \<and> (\<forall>u. r = Inr u \<longrightarrow> (\<exists>ad. peer_advertises W ep peer now d ad
    \<and> ng_compatible (negotiate_ad ad REQUIRED_FEATURES)))"
proof -
  let ?url = "strip_slash ep @ ''/v1.1/capabilities''"
  obtain q d1 where q: "http_call W ''GET'' ?url PNone d = (q, d1)" by force
  have d1: "untouched d d1" "w_http W (db_tick d) ''GET'' ?url PNone = q" "db_capabilities d1 = db_capabilities d"
    using q by (auto simp: http_call_def untouched_def)
  then have c: "untouched d (cache_peer_capabilities W peer ad now d1)" for ad
    by (simp add: untouched_def cache_peer_capabilities_def Let_def)
  have g: "get_cached_peer_capabilities W peer 72 now d1 = get_cached_peer_capabilities W peer 72 now d"
    using d1(3) by (simp add: get_cached_peer_capabilities_def)
  show ?thesis
  proof (cases q)
    case (HttpResponse code js body)
    with assms q d1 c show ?thesis
      by (auto simp: capability_check_def peer_advertises_def split: option.splits if_splits)
  next
    case (RequestError e)
    with assms q d1 g show ?thesis
      by (auto simp: capability_check_def peer_advertises_def split: option.splits sum.splits if_splits)
  qed
qed

lemma dispatch_gates:
  assumes "dispatch_session W k ow peer sa ra mode goal rt mt rb ab cb cp now d = (d', r)"
  shows "(\<exists>e. r = Inl e \<and> untouched d d')
    \<or> (\<exists>st ep x ed d1 env. session_type_of mode = Some st \<and> valid_max_turns (given_or mt (PInt 12))
        \<and> resolve_peer_contact_info peer d = Inr (ep, x, ed) \<and> \<not> is_stale peer ra d
        \<and> (\<forall>u. or_opt (rt_peer_endpoint rt) ep = Some u \<and> u \<noteq> [] \<longrightarrow>
             (\<exists>ad. peer_advertises W u peer now d ad \<and> ng_compatible (negotiate_ad ad REQUIRED_FEATURES)))
        \<and> signed_env_dict W (ow_identity_key ow) (fresh_session_id W (db_tick d1)) 1 (PStr (ow_username ow))
            (PStr sa) (iso_now W now) TASK_REQUEST
            (dispatch_payload st goal ra peer (given_or mt (PInt 12)) rb ab cb cp) = Inr env
        \<and> transmit_session W k ow peer (fresh_session_id W (db_tick d1)) (or_opt (rt_peer_endpoint rt) ep)
            (rt_relay_url rt) (or_bytes (rt_recipient_x25519_pubkey rt) x) ed env now (tick d1) = (d', r))"
proof (cases "\<exists>st ep x ed. session_type_of mode = Some st \<and> valid_max_turns (given_or mt (PInt 12))
    \<and> resolve_peer_contact_info peer d = Inr (ep, x, ed)")
  case False
  with assms show ?thesis
    by (auto simp: dispatch_session_def split: option.splits if_splits sum.splits)
next
  case True
  then obtain st ep x ed where g: "session_type_of mode = Some st" "valid_max_turns (given_or mt (PInt 12))"
    "resolve_peer_contact_info peer d = Inr (ep, x, ed)" by blast
  let ?ep = "or_opt (rt_peer_endpoint rt) ep"
  obtain d1 q where q: "(if otruthy ?ep then capability_check W (the ?ep) peer now d else (d, Inr ())) = (d1, q)" by force
  have un: "untouched d d1"
    using q capability_check_cases by (metis Pair_inject untouched_refl)
  have caps: "\<exists>ad. peer_advertises W u peer now d ad \<and> ng_compatible (negotiate_ad ad REQUIRED_FEATURES)"
    if "q = Inr v" "?ep = Some u" "u \<noteq> []" for u v
    using capability_check_cases [of W u peer now d d1 q] q that by (auto simp: otruthy_def)
  have stale: "is_stale peer ra d1 = is_stale peer ra d"
    using un by (simp add: untouched_def is_stale_def find_peer_card_def)
  show ?thesis
  proof (cases "\<exists>v. q = Inr v \<and> \<not> is_stale peer ra d")
    case False
    with assms g q un stale show ?thesis
      by (auto simp: dispatch_session_def then_do_def split: sum.splits)
  next
    case True
    let ?s = "signed_env_dict W (ow_identity_key ow) (fresh_session_id W (db_tick d1)) 1 (PStr (ow_username ow))
        (PStr sa) (iso_now W now) TASK_REQUEST
        (dispatch_payload st goal ra peer (given_or mt (PInt 12)) rb ab cb cp)"
    show ?thesis
    proof (cases ?s)
      case (Inl e)
      with assms g q True stale untouched_tick [OF un] show ?thesis
        by (auto simp: dispatch_session_def then_do_def Let_def)
    next
      case (Inr env)
      with assms g q True stale have "transmit_session W k ow peer (fresh_session_id W (db_tick d1)) ?ep
          (rt_relay_url rt) (or_bytes (rt_recipient_x25519_pubkey rt) x) ed env now (tick d1) = (d', r)"
        by (auto simp: dispatch_session_def then_do_def Let_def)
      with g True caps Inr show ?thesis by blast
    qed
  qed
qed

section \<open>Whose envelopes the node accepts\<close>

lemma verify_accepts:
  assumes "ingest_verify W k raw get_pk now d = (d', Inr x)"
    and "\<And>ack. x = Inl ack \<Longrightarrow> ta_status ack \<noteq> ''rejected''"
  obtains d1 sess_row pmap where "ingest_lookup W k raw get_pk now d = (d1, Inr (Inr (sess_row, pmap)))"
    and "vr_success (verify_and_build_envelope (w_crypto W) raw get_pk (raw_session raw) pmap)"
proof -
  obtain d1 lk where lk: "ingest_lookup W k raw get_pk now d = (d1, Inr lk)"
    using assms(1) by (auto simp: ingest_verify_def elim!: then_do_Inr)
  show thesis
  proof (cases lk)
    case (Inl a)
    with lk have "\<exists>c. reject_raw W raw now c = Inr a"
      by (auto simp: ingest_lookup_def elim!: then_do_Inr dest!: answer_Inl split: sum.splits option.splits if_splits)
    with lk Inl assms show ?thesis by (auto simp: ingest_verify_def then_do_def dest: reject_raw_status)
  next
    case (Inr y)
    obtain sess_row pmap where y: "y = (sess_row, pmap)" by (cases y)
    let ?v = "verify_and_build_envelope (w_crypto W) raw get_pk (raw_session raw) pmap"
    have "vr_verified_envelope ?v \<noteq> None"
    proof
      assume "vr_verified_envelope ?v = None"
      with lk Inr y assms show False
        by (auto simp: ingest_verify_def then_do_def Let_def dest!: answer_Inl reject_raw_status)
    qed
    then have "vr_success ?v"
      using verify_and_build_failure [of "w_crypto W" raw get_pk "raw_session raw" pmap]
      by (fastforce simp: verification_failure_def)
    with lk Inr y that show ?thesis by blast
  qed
qed

lemma envelope_agent:
  assumes i: "ingest_envelope W k raw get_pk now rp ok ru d = (d', Inr ack)" and a: "ta_status ack \<noteq> ''rejected''"
    and row: "map_of raw ''session_id'' = Some (PStr sid)" "find_session d sid = Some row"
    and who: "map_of raw ''actor_username'' = Some (PStr me)" "map_of raw ''actor_agent_id'' = Some (PStr agent)"
  shows "\<exists>pmap. ingest_participant_map row (raw_get raw ''kind'') (PStr me) (PStr agent) = Inr pmap
    \<and> map_of pmap me = Some agent"
proof -
  obtain d1 q where q: "ingest_verify W k raw get_pk now d = (d1, Inr q)"
    using i by (auto simp: ingest_envelope_def ingest_core_def elim!: then_do_Inr)
  have "q = Inl t \<Longrightarrow> t = ack" for t
    using i q by (auto simp: ingest_envelope_def ingest_core_def then_do_def)
  with a have nr: "\<And>t. q = Inl t \<Longrightarrow> ta_status t \<noteq> ''rejected''" by blast
  from q nr show ?thesis
  proof (rule verify_accepts)
    fix d2 sess_row pmap
    assume lk: "ingest_lookup W k raw get_pk now d = (d2, Inr (Inr (sess_row, pmap)))"
      and v: "vr_success (verify_and_build_envelope (w_crypto W) raw get_pk (raw_session raw) pmap)"
    have r: "raw_get raw ''session_id'' = PStr sid" "raw_get raw ''actor_username'' = PStr me"
        "raw_get raw ''actor_agent_id'' = PStr agent"
      using row(1) who by (simp_all add: raw_get_def dget_default_def)
    have "ingest_participant_map row (raw_get raw ''kind'') (PStr me) (PStr agent) = Inr pmap"
      using lk r row(2)
      by (auto simp: ingest_lookup_def find_session_param_def sql_text_def elim!: then_do_Inr split: sum.splits)
    moreover obtain e where "session_envelope_validate raw = Inr e" "map_of pmap (env_actor_username e) = Some (env_actor_agent_id e)"
      using v unfolding verify_and_build_success_iff by blast
    ultimately show ?thesis using validated_fields(2,3) [of raw e] who by auto
  qed
qed

lemma signed_env_agent:
  "signed_env_dict W sk sid sq actor agent ts kind payload = Inr raw \<Longrightarrow> map_of raw ''actor_agent_id'' = Some agent"
  by (auto simp: signed_env_dict_def env_dict_def Let_def split: sum.splits)

lemma receiver_agent_expected:
  assumes "sr_receiver_username row = me" and "sr_receiver_agent_id row = Some b" and "b \<noteq> []"
    and "kind \<noteq> PStr (message_kind_value ACCEPTANCE)"
    and "ingest_participant_map row kind (PStr me) (PStr agent) = Inr pmap"
  shows "map_of pmap me = Some b"
  using assms by (auto simp: ingest_participant_map_def Let_def otruthy_def update_conv' split: if_splits)

section \<open>What ingestion sends\<close>

text \<open>Nothing sent and nothing queued.\<close>

definition unsent :: "db \<Rightarrow> db \<Rightarrow> bool" where
  "unsent d d' = (db_wire d' = db_wire d \<and> db_queue d' = db_queue d)"

lemma unsent_refl [simp]: "unsent d d"
  by (simp add: unsent_def)

lemma unsent_trans: "unsent a b \<Longrightarrow> unsent b c \<Longrightarrow> unsent a c"
  by (simp add: unsent_def)

lemma unsent_then_do:
  assumes "unsent d (fst m)" and "\<And>x d1. m = (d1, Inr x) \<Longrightarrow> unsent d1 (fst (f x d1))"
  shows "unsent d (fst (then_do m f))"
  using assms unsent_trans by (cases m) (auto simp: then_do_def split: sum.split)

lemma unsent_update_session [simp]: "unsent d (update_session sid f d)"
  by (simp add: unsent_def update_session_def)

lemma same_tables_unsent: "same_tables d d' \<Longrightarrow> unsent d d'"
  by (simp add: unsent_def same_tables_def)

lemma status_only_unsent: "status_only d d' \<Longrightarrow> unsent d d'"
  by (simp add: unsent_def status_only_def)

lemma unsent_answer [simp]: "unsent d (fst (answer a d))"
  by simp

lemma unsent_audit: "unsent d (fst (write_audit_event W k c sid un p cor d))"
  using same_tables_unsent write_audit_same by (metis prod.collapse)

lemma unsent_append: "unsent d (fst (append_session_event W k sid un ag kind vis p sg sq d))"
proof -
  obtain d' r where a: "append_session_event W k sid un ag kind vis p sg sq d = (d', r)" by force
  from append_session_event_cases [OF a] have "unsent d d'"
    by (auto simp: same_tables_unsent dest!: insert_session_event_cases) (simp_all add: unsent_def same_tables_def)
  with a show ?thesis by simp
qed

lemma unsent_record_outcome: "unsent d (fst (record_outcome W k env d))"
proof -
  obtain d1 q where q: "create_outcome_card W k (env_session_id env) (outcome_summary W env) d = (d1, q)" by force
  have "unsent d d1"
    using outcome_db [of W k "env_session_id env" "outcome_summary W env" d] q unsent_append
    by (auto simp: local_event_db)
  then have "unsent d (fst (then_do (write_audit_event W k c sid un p cor d1) (\<lambda>_ d. (d, Inr ()))))" for c sid un p cor
    by (rule unsent_trans) (rule unsent_then_do [OF unsent_audit], simp)
  with \<open>unsent d d1\<close> q show ?thesis by (auto simp: record_outcome_def split: sum.split)
qed

lemma unsent_state: "unsent d (fst (ingest_state W k sess_row env now d))"
proof -
  have "unsent d (fst (insert_bootstrap_row W k env st rc now d))" for st rc
    using insert_bootstrap_cases [of W k env st rc now d]
    by (cases "insert_bootstrap_row W k env st rc now d") (auto simp: unsent_def)
  then have "unsent d (fst (bootstrap_session W k env now d))"
    unfolding bootstrap_session_def Let_def
    by (simp split: option.split) (auto intro!: unsent_then_do)
  then show ?thesis
    by (simp add: ingest_state_def split: option.split sum.split)
qed

lemma unsent_commit: "unsent d (fst (ingest_commit W k env state now d))"
proof -
  have "unsent d (accept_receiver_agent env d)"
    by (simp add: accept_receiver_agent_def split: pyval.split)
  from unsent_trans [OF this unsent_append] show ?thesis
    unfolding ingest_commit_def Let_def
    by (auto intro!: unsent_then_do unsent_trans [OF unsent_update_session unsent_record_outcome]
        split: sum.split append_result.split)
qed

lemma unsent_core: "unsent d (fst (ingest_core W k raw get_pk now d))"
  unfolding ingest_core_def
  by (auto intro!: unsent_then_do status_only_unsent [OF verify_status_only] unsent_state unsent_commit
      split: sum.split)

lemma unsent_envelope:
  assumes "map_of raw ''kind'' = Some (PStr (message_kind_value kd))" and "kd \<noteq> ARTIFACT_OFFER"
  shows "unsent d (fst (ingest_envelope W k raw get_pk now rp ok ru d))"
proof -
  obtain d1 q where q: "ingest_core W k raw get_pk now d = (d1, q)" by force
  have d1: "unsent d d1" using unsent_core [of d W k raw get_pk now] q by simp
  have kind: "env_kind env \<noteq> ARTIFACT_OFFER" if "q = Inr (Inr (sess_row, env))" for sess_row env
  proof -
    from q that obtain d2 where "ingest_verify W k raw get_pk now d = (d2, Inr (Inr (sess_row, env)))"
      by (auto simp: ingest_core_def elim!: then_do_Inr split: sum.splits)
    from verify_ok [OF this] have "session_envelope_validate raw = Inr env" by (simp add: authentic_def)
    from validated_fields(5) [OF this] assms show ?thesis by auto
  qed
  show ?thesis
    using q d1 kind by (cases q) (auto simp: ingest_envelope_def then_do_def split: sum.split)
qed

lemma signed_unsent:
  assumes "signed_env_dict W sk sid sq actor agent ts kd payload = Inr raw" and "kd \<noteq> ARTIFACT_OFFER"
  shows "unsent d (fst (ingest_envelope W k raw get_pk now rp ok ru d))"
  using signed_env_actor(4) [OF assms(1)] assms(2) by (rule unsent_envelope)

lemma unsent_toggle: "unsent d (fst (owner_toggle W k ow sid action st ev reason now d))"
  unfolding owner_toggle_def
  by (auto intro!: unsent_then_do unsent_trans [OF unsent_update_session unsent_audit]
      intro: signed_unsent split: sum.split option.split)

lemma unsent_cancel: "unsent d (fst (cancel_session W k ow sid reason now d))"
  unfolding cancel_session_def self_ingest_def Let_def
  by (auto intro!: unsent_then_do intro: signed_unsent split: sum.split option.split)

section \<open>Properties\<close>

text \<open>
  C8. Dispatch is gated: a dispatch either raises an error and leaves sessions, ledger, queue and cached
  cards as they were, having sent nothing but reads, or the mode and the turn limit are valid, the card
  of the addressed agent is not stale, and, when there is an endpoint, the peer advertises protocol 1.1
  with both required features, freshly or (the endpoint being unreachable) in an advertisement cached
  at most 72 hours ago.
\<close>

theorem dispatch_is_gated:
  assumes "dispatch_session W k ow peer sa ra mode goal rt mt rb ab cb cp now d = (d', r)"
  shows "(\<exists>e. r = Inl e \<and> untouched d d')
    \<or> (session_type_of mode \<noteq> None \<and> valid_max_turns (given_or mt (PInt 12)) \<and> \<not> is_stale peer ra d
        \<and> (\<exists>ep x ed. resolve_peer_contact_info peer d = Inr (ep, x, ed)
             \<and> (\<forall>u. or_opt (rt_peer_endpoint rt) ep = Some u \<and> u \<noteq> [] \<longrightarrow>
                  (\<exists>ad. peer_advertises W u peer now d ad \<and> cad_protocol_version ad = ''1.1''
                     \<and> {''session_v1'', ''jcs_signatures''} \<subseteq> set (cad_supported_features ad)))))"
proof -
  have c: "ng_compatible (negotiate_ad ad REQUIRED_FEATURES) \<Longrightarrow> cad_protocol_version ad = ''1.1''
      \<and> {''session_v1'', ''jcs_signatures''} \<subseteq> set (cad_supported_features ad)" for ad
    unfolding negotiate_ad_compatible REQUIRED_FEATURES_def by simp
  from dispatch_gates [OF assms] show ?thesis
  proof (elim disjE exE conjE)
    fix st ep x ed
    assume g: "session_type_of mode = Some st" "valid_max_turns (given_or mt (PInt 12))"
        "resolve_peer_contact_info peer d = Inr (ep, x, ed)" "\<not> is_stale peer ra d"
      and a: "\<forall>u. or_opt (rt_peer_endpoint rt) ep = Some u \<and> u \<noteq> [] \<longrightarrow>
        (\<exists>ad. peer_advertises W u peer now d ad \<and> ng_compatible (negotiate_ad ad REQUIRED_FEATURES))"
    from a c have "\<forall>u. or_opt (rt_peer_endpoint rt) ep = Some u \<and> u \<noteq> [] \<longrightarrow>
        (\<exists>ad. peer_advertises W u peer now d ad \<and> cad_protocol_version ad = ''1.1''
           \<and> {''session_v1'', ''jcs_signatures''} \<subseteq> set (cad_supported_features ad))" by meson
    with g show ?thesis by simp
  qed auto
qed

definition demo_owner :: owner where
  "demo_owner = \<lparr>ow_identity_key = [5], ow_x25519_privkey = [7], ow_username = ''alice''\<rparr>"

definition no_route :: route where
  "no_route = \<lparr>rt_peer_endpoint = None, rt_relay_url = None, rt_recipient_x25519_pubkey = None\<rparr>"

definition demo_dispatch :: "route \<Rightarrow> db \<Rightarrow> db \<times> (string \<times> string) result" where
  "demo_dispatch rt d = dispatch_session demo_light_world [9] demo_owner ''bob'' ''a1'' ''b1'' ''ask'' ''goal'' rt
     PNone PNone PNone PNone PNone 0 d"

text \<open>An endpoint that does not answer, and nothing cached: no session.\<close>

theorem dispatch_is_gated_witness:
  "untouched (empty_db ''alice'') (fst (demo_dispatch (no_route\<lparr>rt_peer_endpoint := Some ''http://bob''\<rparr>) (empty_db ''alice'')))"
proof -
  let ?x = "demo_dispatch (no_route\<lparr>rt_peer_endpoint := Some ''http://bob''\<rparr>) (empty_db ''alice'')"
  have http: "w_http demo_light_world n v u b = RequestError []" for n v u b
    by (simp add: demo_light_world_def demo_world_def)
  have adv: "\<not> peer_advertises demo_light_world ''http://bob'' ''bob'' 0 (empty_db ''alice'') ad" for ad
    by (simp add: peer_advertises_def http get_cached_peer_capabilities_def empty_db_def)
  have "or_opt (rt_peer_endpoint (no_route\<lparr>rt_peer_endpoint := Some ''http://bob''\<rparr>)) ep = Some ''http://bob''" for ep
    by (simp add: or_opt_def otruthy_def)
  with adv dispatch_is_gated [of demo_light_world "[9]" demo_owner "''bob''" "''a1''" "''b1''" "''ask''" "''goal''"
      "no_route\<lparr>rt_peer_endpoint := Some ''http://bob''\<rparr>" PNone PNone PNone PNone PNone 0 "empty_db ''alice''"
      "fst ?x" "snd ?x"]
  show ?thesis by (fastforce simp: demo_dispatch_def)
qed




text \<open>The session that alice dispatched, on her node, as it is once bob has accepted it; alice cancels it.\<close>

definition demo_sent :: db where
  "demo_sent = update_session ''sess_u'' (\<lambda>r. r\<lparr>sr_status := ''active''\<rparr>)
     (fst (demo_dispatch no_route (empty_db ''alice'')))"

definition demo_message :: "db \<times> send_result result" where
  "demo_message = send_session_message demo_light_world [9] demo_owner ''sess_u'' CANCEL [] (Some ''a1'') no_route (- 1) demo_sent"

lemma demo_message_result: "case snd demo_message of Inr res \<Rightarrow> sn_queued_locally res | Inl _ \<Rightarrow> False"
  by code_simp


text \<open>
  The receiver of a session cannot cancel it: once the two agents of a session are on record and
  differ, \<open>cancel_session\<close> on the receiver's node always raises, because the envelope it builds carries
  the initiating agent, which the node's own verification does not accept for the receiver.
\<close>

theorem receiver_cannot_cancel:
  assumes "find_session d sid = Some row" and "ow_username ow = sr_receiver_username row"
    and "sr_sender_agent_id row = Some a" and "a \<noteq> []" and "sr_receiver_agent_id row = Some b" and "b \<noteq> []" and "a \<noteq> b"
  shows "\<exists>e. snd (cancel_session W k ow sid reason now d) = Inl e"
proof (rule ccontr)
  assume "\<nexists>e. snd (cancel_session W k ow sid reason now d) = Inl e"
  then obtain d' u where c: "cancel_session W k ow sid reason now d = (d', Inr u)"
    by (cases "cancel_session W k ow sid reason now d"; cases "snd (cancel_session W k ow sid reason now d)") auto
  let ?me = "ow_username ow"
  from c assms(1,3,4) obtain env ed where
    env: "signed_env_dict W (ow_identity_key ow) sid (next_sequence sid (Some ?me) d) (PStr ?me) (PStr a) (iso_now W now)
        CANCEL [(''reason'', PStr reason)] = Inr env"
    and s: "self_ingest W k ow ed env now None None None d = (d', Inr u)"
    by (auto simp: cancel_session_def or_text_def Let_def split: sum.splits)
  from s obtain ack where i: "ingest_envelope W k env (own_or_peer_key W ?me (ow_identity_key ow) ed) now None None None d
      = (d', Inr ack)" "ta_status ack \<noteq> ''rejected''"
    by (auto simp: self_ingest_def elim!: then_do_Inr split: if_splits)
  note f = signed_env_actor [OF env]
  have kind: "raw_get env ''kind'' = PStr (message_kind_value CANCEL)"
    using f(4) by (simp add: raw_get_def dget_default_def)
  from envelope_agent [OF i f(2) assms(1) f(1) signed_env_agent [OF env]] obtain pmap where
    p: "ingest_participant_map row (PStr (message_kind_value CANCEL)) (PStr ?me) (PStr a) = Inr pmap"
    and m: "map_of pmap ?me = Some a"
    unfolding kind by blast
  have "map_of pmap ?me = Some b"
    by (rule receiver_agent_expected [OF _ _ _ _ p]) (simp_all add: assms)
  with m assms(7) show False by simp
qed

theorem receiver_cannot_cancel_witness:
  "\<exists>e. snd (cancel_session demo_light_world [9] (demo_owner\<lparr>ow_username := ''bob''\<rparr>) ''s1'' ''stop'' 0
     (demo_db\<lparr>db_sessions := [demo_row\<lparr>sr_receiver_agent_id := Some ''b1''\<rparr>]\<rparr>)) = Inl e"
  by (rule receiver_cannot_cancel [of _ _ "demo_row\<lparr>sr_receiver_agent_id := Some ''b1''\<rparr>" _ "''a1''" "''b1''"])
    (simp_all add: find_session_def demo_db_def demo_row_def demo_owner_def empty_db_def)

text \<open>
  Pausing, resuming and cancelling stay local: none of the three sends a request or queues an
  envelope, whatever the session and however it ends, so the peer is not told.
\<close>

theorem owner_controls_stay_local:
  "unsent d (fst (pause_session W k ow sid reason now d)) \<and> unsent d (fst (resume_session W k ow sid reason now d))
   \<and> unsent d (fst (cancel_session W k ow sid reason now d))"
  by (simp add: pause_session_def resume_session_def unsent_toggle unsent_cancel)

end
