(* ===== verification/Kin_Patch.thy ===== *)
theory Kin_Patch
  imports Kin_Cards
begin

text \<open>
  Unified diffs, \<open>apply_unified_patch\<close> of \<open>kin-node/kin/artifacts/workspace.py\<close>: the hunks found in a patch,
  and the loop that copies, checks and replaces lines by index. The two \<open>while\<close> loops are one function with
  a termination proof. The reference is the inductive relation \<open>patches\<close>, which says of two lists of lines
  that the second is the first with every hunk's old side replaced by its new side at its place.

  \<open>difflib.unified_diff\<close>, whose result is only displayed, is an argument; \<open>int\<close> of more than 4300 digits is
  not modelled.
\<close>

section \<open>Lines\<close>

text \<open>\<open>str.splitlines()\<close>: a carriage return and a line feed are one separator.\<close>

definition is_break :: "char \<Rightarrow> bool" where
  "is_break ch = (let n = char_code ch in (10 \<le> n \<and> n \<le> 13) \<or> (28 \<le> n \<and> n \<le> 30) \<or> n = 133)"

definition RETURN :: char where
  "RETURN = CHR 0x0D"

fun splitlines :: "string \<Rightarrow> string list" where
  "splitlines [] = []"
| "splitlines [ch] = (if is_break ch then [[]] else [[ch]])"
| "splitlines (ch # c2 # s) =
     (if ch = RETURN \<and> c2 = NEWLINE then [] # splitlines s
      else if is_break ch then [] # splitlines (c2 # s)
      else (case splitlines (c2 # s) of [] \<Rightarrow> [[ch]] | w # ws \<Rightarrow> (ch # w) # ws))"

section \<open>Hunks\<close>

definition expect :: "string \<Rightarrow> string \<Rightarrow> string option" where
  "expect pre s = (if starts_with pre s then Some (drop (length pre) s) else None)"

definition spaces :: "string \<Rightarrow> string option" where
  "spaces s = (case s of ch # _ \<Rightarrow> if is_space ch then Some (dropWhile is_space s) else None | [] \<Rightarrow> None)"

definition digits_value :: "string \<Rightarrow> nat" where
  "digits_value ds = foldl (\<lambda>n ch. n * 10 + (char_code ch - 48)) 0 ds"

definition number :: "string \<Rightarrow> (nat \<times> string) option" where
  "number s = (case takeWhile is_digit s of
      [] \<Rightarrow> None
    | ds \<Rightarrow> Some (digits_value ds, dropWhile is_digit s))"

definition optional_length :: "string \<Rightarrow> string" where
  "optional_length s = (case s of
      ch # rest \<Rightarrow> if ch = CHR '','' \<and> number rest \<noteq> None then dropWhile is_digit rest else s
    | [] \<Rightarrow> s)"

text \<open>\<open>hunk_header_re.match(line)\<close> and the group \<open>o_start\<close>, the only one that is read.\<close>

definition hunk_header :: "string \<Rightarrow> nat option" where
  "hunk_header line =
     do { s1 \<leftarrow> expect ''@@'' line;
          s2 \<leftarrow> spaces s1;
          s3 \<leftarrow> expect ''-'' s2;
          p \<leftarrow> number s3;
          s5 \<leftarrow> spaces (optional_length (snd p));
          s6 \<leftarrow> expect ''+'' s5;
          q \<leftarrow> number s6;
          s8 \<leftarrow> spaces (optional_length (snd q));
          _ \<leftarrow> expect ''@@'' s8;
          Some (fst p) }"

definition no_newline_mark :: "string \<Rightarrow> bool" where
  "no_newline_mark line = starts_with (BACKSLASH # '' No newline'') line"

definition is_hunk_line :: "string \<Rightarrow> bool" where
  "is_hunk_line line =
     (starts_with ''-'' line \<or> starts_with ''+'' line \<or> starts_with '' '' line \<or> no_newline_mark line)"

type_synonym hunk = "nat \<times> string list"

text \<open>One turn of the loop over the lines: finished hunks, the lines of the current one, its header.\<close>

definition hunk_step :: "string \<Rightarrow> hunk list \<times> string list \<times> nat option \<Rightarrow> hunk list \<times> string list \<times> nat option" where
  "hunk_step line st = (case st of (hunks, current, m) \<Rightarrow>
     (case hunk_header line of
        Some n \<Rightarrow>
          (case m of
             Some k \<Rightarrow> if current \<noteq> [] then (hunks @ [(k, current)], [], Some n) else (hunks, current, Some n)
           | None \<Rightarrow> (hunks, current, Some n))
      | None \<Rightarrow>
          (if m \<noteq> None \<and> is_hunk_line line then (hunks, current @ [line], m) else st)))"

definition read_hunks :: "string list \<Rightarrow> hunk list" where
  "read_hunks lines = (case fold hunk_step lines ([], [], None) of
     (hunks, current, m) \<Rightarrow>
       (case m of Some k \<Rightarrow> if current \<noteq> [] then hunks @ [(k, current)] else hunks | None \<Rightarrow> hunks))"

section \<open>Application\<close>

text \<open>\<open>while orig_idx < target and orig_idx < len(orig_lines)\<close>.\<close>

function copy_lines :: "string list \<Rightarrow> nat \<Rightarrow> nat \<Rightarrow> string list \<Rightarrow> nat \<times> string list" where
  "copy_lines orig_lines target orig_idx out_lines =
     (if orig_idx < target \<and> orig_idx < length orig_lines
      then copy_lines orig_lines target (orig_idx + 1) (out_lines @ [orig_lines ! orig_idx])
      else (orig_idx, out_lines))"
  by pat_completeness auto

termination
  by (relation "measure (\<lambda>(orig_lines, target, orig_idx, out_lines). length orig_lines - orig_idx)") auto

declare copy_lines.simps [simp del]

abbreviation InvalidPatchArtifactError :: py_error where
  "InvalidPatchArtifactError \<equiv> AppError ''InvalidPatchArtifactError''"

definition apply_line :: "string list \<Rightarrow> string \<Rightarrow> nat \<times> string list \<Rightarrow> (nat \<times> string list) result" where
  "apply_line orig_lines hline st = (case st of (orig_idx, out_lines) \<Rightarrow>
     if no_newline_mark hline then Inr st
     else case hline of
       [] \<Rightarrow> Inl (AppError ''IndexError'')
     | prefix # line_content \<Rightarrow>
         if prefix = CHR '' ''
         then (if length orig_lines \<le> orig_idx \<or> orig_lines ! orig_idx \<noteq> line_content
               then Inl InvalidPatchArtifactError
               else Inr (orig_idx + 1, out_lines @ [orig_lines ! orig_idx]))
         else if prefix = CHR ''-''
         then (if length orig_lines \<le> orig_idx \<or> orig_lines ! orig_idx \<noteq> line_content
               then Inl InvalidPatchArtifactError
               else Inr (orig_idx + 1, out_lines))
         else if prefix = CHR ''+'' then Inr (orig_idx, out_lines @ [line_content])
         else Inr st)"

fun apply_lines :: "string list \<Rightarrow> string list \<Rightarrow> nat \<times> string list \<Rightarrow> (nat \<times> string list) result" where
  "apply_lines orig_lines [] st = Inr st"
| "apply_lines orig_lines (hline # rest) st =
     (case apply_line orig_lines hline st of Inl e \<Rightarrow> Inl e | Inr st' \<Rightarrow> apply_lines orig_lines rest st')"

fun apply_hunks :: "string list \<Rightarrow> hunk list \<Rightarrow> nat \<times> string list \<Rightarrow> (nat \<times> string list) result" where
  "apply_hunks orig_lines [] st = Inr st"
| "apply_hunks orig_lines ((o_start, hunk_lines) # hunks) st =
     (case apply_lines orig_lines hunk_lines (copy_lines orig_lines (o_start - 1) (fst st) (snd st)) of
        Inl e \<Rightarrow> Inl e
      | Inr st' \<Rightarrow> apply_hunks orig_lines hunks st')"

definition ends_with_newline :: "string \<Rightarrow> bool" where
  "ends_with_newline s = (s \<noteq> [] \<and> last s = NEWLINE)"

text \<open>The lines joined again, with a final newline where the original had one and the result has none.\<close>

definition patched_text_of :: "string \<Rightarrow> string list \<Rightarrow> string" where
  "patched_text_of original_text out_lines =
     (let patched_text = join_with NEWLINE out_lines in
      if ends_with_newline original_text \<and> \<not> ends_with_newline patched_text
      then patched_text @ [NEWLINE] else patched_text)"

definition apply_unified_patch ::
  "(string list \<Rightarrow> string list \<Rightarrow> string list) \<Rightarrow> string \<Rightarrow> string \<Rightarrow> (string \<times> string \<times> nat) result" where
  "apply_unified_patch unified_diff original_text patch_text =
     (if strip patch_text = [] then Inl InvalidPatchArtifactError
      else let hunks = read_hunks (splitlines patch_text); orig_lines = splitlines original_text in
        if hunks = [] then Inl InvalidPatchArtifactError
        else case apply_hunks orig_lines hunks (0, []) of
          Inl e \<Rightarrow> Inl e
        | Inr (orig_idx, out_lines0) \<Rightarrow>
            (let out_lines = snd (copy_lines orig_lines (length orig_lines) orig_idx out_lines0)
             in Inr (patched_text_of original_text out_lines,
                     join_with NEWLINE (unified_diff orig_lines out_lines), length hunks)))"

section \<open>Reference\<close>

text \<open>The two sides of a hunk.\<close>

definition old_side :: "string list \<Rightarrow> string list" where
  "old_side ls = map tl (filter (\<lambda>l. l \<noteq> [] \<and> (hd l = CHR '' '' \<or> hd l = CHR ''-'')) ls)"

definition new_side :: "string list \<Rightarrow> string list" where
  "new_side ls = map tl (filter (\<lambda>l. l \<noteq> [] \<and> (hd l = CHR '' '' \<or> hd l = CHR ''+'')) ls)"

text \<open>
  \<open>patches p hunks old new\<close>: of a text whose first \<open>p\<close> lines are settled, \<open>old\<close> are the remaining lines and
  \<open>new\<close> what the hunks make of them. Lines up to the start of a hunk, as far as there are any, are kept.
\<close>

inductive patches :: "nat \<Rightarrow> hunk list \<Rightarrow> string list \<Rightarrow> string list \<Rightarrow> bool" where
  no_hunk: "patches p [] rest rest"
| hunk: "length kept = min (o_start - 1 - p) (length (kept @ old_side ls @ rest)) \<Longrightarrow>
    patches (p + length kept + length (old_side ls)) hunks rest new \<Longrightarrow>
    patches p ((o_start, ls) # hunks) (kept @ old_side ls @ rest) (kept @ new_side ls @ new)"

section \<open>The loop computes the reference\<close>

lemma copy_lines_eq:
  assumes "i \<le> length orig"
  shows "copy_lines orig t i out =
    (let j = max i (min t (length orig)) in (j, out @ take (j - i) (drop i orig)))"
  using assms
proof (induction orig t i out rule: copy_lines.induct)
  case (1 orig t i out)
  show ?case
  proof (cases "i < t \<and> i < length orig")
    case True
    then have "take (max (Suc i) (min t (length orig)) - i) (drop i orig) =
        orig ! i # take (max (Suc i) (min t (length orig)) - Suc i) (drop (Suc i) orig)"
      by (simp add: Cons_nth_drop_Suc [symmetric] Suc_diff_le take_Cons' not_le min_def)
    moreover have "max (Suc i) (min t (length orig)) = max i (min t (length orig))"
      using True by (simp add: max_def min_def)
    ultimately show ?thesis
      using 1 True by (subst copy_lines.simps) (simp add: Let_def)
  next
    case False
    then have "max i (min t (length orig)) = i" using 1 by auto
    with False show ?thesis by (subst copy_lines.simps) (auto simp: Let_def)
  qed
qed

lemma mark_is_no_side: "no_newline_mark (ch # l) \<Longrightarrow> ch \<noteq> CHR '' '' \<and> ch \<noteq> CHR ''-'' \<and> ch \<noteq> CHR ''+''"
  by (auto simp: no_newline_mark_def starts_with_def BACKSLASH_def)

lemma old_side_simps [simp]:
  "old_side [] = []"
  "old_side ((ch # l) # ls) = (if ch = CHR '' '' \<or> ch = CHR ''-'' then l # old_side ls else old_side ls)"
  by (simp_all add: old_side_def)

lemma new_side_simps [simp]:
  "new_side [] = []"
  "new_side ((ch # l) # ls) = (if ch = CHR '' '' \<or> ch = CHR ''+'' then l # new_side ls else new_side ls)"
  by (simp_all add: new_side_def)

lemma take_drop_head:
  "take (Suc n) (drop i xs) = x # ys \<longleftrightarrow> i < length xs \<and> xs ! i = x \<and> take n (drop (Suc i) xs) = ys"
proof (cases "i < length xs")
  case True
  then show ?thesis by (simp add: Cons_nth_drop_Suc [symmetric])
qed simp

lemma apply_lines_eq:
  assumes "[] \<notin> set ls"
  shows "apply_lines orig ls (i, out) =
    (if take (length (old_side ls)) (drop i orig) = old_side ls
     then Inr (i + length (old_side ls), out @ new_side ls) else Inl InvalidPatchArtifactError)"
  using assms
proof (induction ls arbitrary: i out)
  case (Cons l ls)
  then obtain ch c where l: "l = ch # c" by (cases l) auto
  from Cons.prems have "[] \<notin> set ls" by simp
  note IH = Cons.IH [OF this]
  show ?case
    using mark_is_no_side [of ch c]
    by (auto simp: l apply_line_def IH take_drop_head)
qed simp

definition proper_hunks :: "hunk list \<Rightarrow> bool" where
  "proper_hunks hs = (\<forall>(s, ls) \<in> set hs. [] \<notin> set ls)"

lemma proper_hunks_simps [simp]:
  "proper_hunks []" "proper_hunks ((s, ls) # hs) \<longleftrightarrow> [] \<notin> set ls \<and> proper_hunks hs"
  "proper_hunks (hs @ hs') \<longleftrightarrow> proper_hunks hs \<and> proper_hunks hs'"
  by (auto simp: proper_hunks_def)

text \<open>Where a hunk that starts at line \<open>o_start\<close> is applied when the first \<open>i\<close> lines are settled.\<close>

definition hunk_pos :: "string list \<Rightarrow> nat \<Rightarrow> nat \<Rightarrow> nat" where
  "hunk_pos orig i o_start = max i (min (o_start - 1) (length orig))"

lemma hunk_pos_bounds:
  "i \<le> hunk_pos orig i s" "i \<le> length orig \<Longrightarrow> hunk_pos orig i s \<le> length orig"
  "i \<le> length orig \<Longrightarrow> hunk_pos orig i s - i = min (s - 1 - i) (length (drop i orig))"
  by (simp_all add: hunk_pos_def max_def min_def) arith

lemma old_side_fits:
  assumes "k \<le> length orig" "take (length (old_side ls)) (drop k orig) = old_side ls"
  shows "k + length (old_side ls) \<le> length orig"
  using arg_cong [OF assms(2), of length] assms(1) by (simp add: min_def split: if_splits)

lemma apply_hunks_step:
  assumes "[] \<notin> set ls" "i \<le> length orig"
  shows "apply_hunks orig ((s, ls) # hs) (i, out) =
    (let k = hunk_pos orig i s in
     if take (length (old_side ls)) (drop k orig) = old_side ls
     then apply_hunks orig hs (k + length (old_side ls), out @ take (k - i) (drop i orig) @ new_side ls)
     else Inl InvalidPatchArtifactError)"
  using assms by (simp add: copy_lines_eq Let_def apply_lines_eq hunk_pos_def)

lemma apply_hunks_error:
  assumes "proper_hunks hs" "i \<le> length orig" "apply_hunks orig hs (i, out) = Inl e"
  shows "e = InvalidPatchArtifactError"
  using assms
proof (induction hs arbitrary: i out)
  case (Cons h hs)
  obtain s ls where h: "h = (s, ls)" by force
  with Cons.prems have ls: "[] \<notin> set ls" "proper_hunks hs" by simp_all
  show ?case
    using Cons.prems(3) Cons.IH [OF ls(2) old_side_fits [OF hunk_pos_bounds(2)]] Cons.prems(2)
    unfolding h apply_hunks_step [OF ls(1) Cons.prems(2)] by (auto simp: Let_def split: if_splits)
qed simp

lemma copy_rest [simp]:
  "j \<le> length orig \<Longrightarrow> snd (copy_lines orig (length orig) j out) = out @ drop j orig"
  by (simp add: copy_lines_eq Let_def max_def)

lemma patches_iff:
  assumes "i \<le> length orig"
  shows "patches i ((s, ls) # hs) (drop i orig) new \<longleftrightarrow>
    (let k = hunk_pos orig i s; m = length (old_side ls) in
     take m (drop k orig) = old_side ls
     \<and> (\<exists>n. new = take (k - i) (drop i orig) @ new_side ls @ n \<and> patches (k + m) hs (drop (k + m) orig) n))"
proof -
  define k where "k = hunk_pos orig i s"
  let ?kept = "take (k - i) (drop i orig)" and ?m = "length (old_side ls)"
  have kl: "i \<le> k" "k \<le> length orig" and gap: "k - i = min (s - 1 - i) (length (drop i orig))"
    using hunk_pos_bounds [of i orig s] assms by (simp_all add: k_def)
  have len: "length ?kept = k - i" using kl by simp
  have at_k: "drop i orig = ?kept @ drop k orig"
    using kl by (metis append_take_drop_id drop_drop le_add_diff_inverse2)
  have "take ?m (drop k orig) = old_side ls \<and>
      (\<exists>n. new = ?kept @ new_side ls @ n \<and> patches (k + ?m) hs (drop (k + ?m) orig) n)"
    if "patches i ((s, ls) # hs) (drop i orig) new"
    using that
  proof (cases rule: patches.cases)
    case (hunk kept rest n)
    then have "length kept = length ?kept" using gap len by simp
    then have e: "kept = ?kept" "drop k orig = old_side ls @ rest"
      using trans [OF at_k [symmetric] hunk(1)] by simp_all
    then have "drop (k + ?m) orig = rest" by (metis add.commute append_eq_conv_conj drop_drop)
    moreover have ik: "i + length kept = k" using \<open>length kept = length ?kept\<close> len kl by simp
    ultimately have "patches (k + ?m) hs (drop (k + ?m) orig) n" using hunk(4) by (simp only: ik)
    moreover have "take ?m (drop k orig) = old_side ls" unfolding e(2) by simp
    moreover have "new = ?kept @ new_side ls @ n" unfolding hunk(2) e(1) [symmetric] ..
    ultimately show ?thesis by blast
  qed
  moreover have "patches i ((s, ls) # hs) (drop i orig) (?kept @ new_side ls @ n)"
    if "take ?m (drop k orig) = old_side ls" "patches (k + ?m) hs (drop (k + ?m) orig) n" for n
  proof -
    have "drop k orig = old_side ls @ drop (k + ?m) orig"
      using that(1) by (metis append_take_drop_id drop_drop add.commute)
    with at_k have split: "?kept @ old_side ls @ drop (k + ?m) orig = drop i orig" by simp
    have "patches i ((s, ls) # hs) (?kept @ old_side ls @ drop (k + ?m) orig) (?kept @ new_side ls @ n)"
    proof (rule patches.hunk)
      show "length ?kept = min (s - 1 - i) (length (?kept @ old_side ls @ drop (k + ?m) orig))"
        unfolding split len by (rule gap)
      show "patches (i + length ?kept + ?m) hs (drop (k + ?m) orig) n" unfolding len using that(2) kl by simp
    qed
    then show ?thesis unfolding split .
  qed
  ultimately show ?thesis by (auto simp: Let_def k_def [symmetric])
qed

lemma apply_hunks_sound:
  assumes "proper_hunks hs" "i \<le> length orig" "apply_hunks orig hs (i, out) = Inr (j, out')"
  shows "j \<le> length orig \<and> (\<exists>new. out' @ drop j orig = out @ new \<and> patches i hs (drop i orig) new)"
  using assms
proof (induction hs arbitrary: i out)
  case Nil
  then show ?case by (auto intro: patches.no_hunk)
next
  case (Cons h hs)
  obtain s ls where h: "h = (s, ls)" by force
  with Cons.prems have ls: "[] \<notin> set ls" "proper_hunks hs" by simp_all
  let ?k = "hunk_pos orig i s"
  have t: "take (length (old_side ls)) (drop ?k orig) = old_side ls"
    and run: "apply_hunks orig hs (?k + length (old_side ls),
      out @ take (?k - i) (drop i orig) @ new_side ls) = Inr (j, out')"
    using Cons.prems(3) unfolding h apply_hunks_step [OF ls(1) Cons.prems(2)] by (auto simp: Let_def split: if_splits)
  from Cons.IH [OF ls(2) old_side_fits [OF hunk_pos_bounds(2) [OF Cons.prems(2)] t] run] t show ?case
    unfolding h patches_iff [OF Cons.prems(2)] by (auto simp: Let_def)
qed

lemma apply_hunks_complete:
  assumes "proper_hunks hs" "i \<le> length orig" "patches i hs (drop i orig) new"
  shows "\<exists>j out'. apply_hunks orig hs (i, out) = Inr (j, out') \<and> j \<le> length orig \<and> out' @ drop j orig = out @ new"
  using assms
proof (induction hs arbitrary: i out new)
  case Nil
  then show ?case by (auto elim: patches.cases)
next
  case (Cons h hs)
  obtain s ls where h: "h = (s, ls)" by force
  with Cons.prems have ls: "[] \<notin> set ls" "proper_hunks hs" by simp_all
  let ?k = "hunk_pos orig i s"
  obtain n where n: "take (length (old_side ls)) (drop ?k orig) = old_side ls"
    "new = take (?k - i) (drop i orig) @ new_side ls @ n"
    "patches (?k + length (old_side ls)) hs (drop (?k + length (old_side ls)) orig) n"
    using Cons.prems(3) unfolding h patches_iff [OF Cons.prems(2)] by (auto simp: Let_def)
  from Cons.IH [OF ls(2) old_side_fits [OF hunk_pos_bounds(2) [OF Cons.prems(2)] n(1)] n(3),
      of "out @ take (?k - i) (drop i orig) @ new_side ls"] n(1,2) show ?case
    unfolding h apply_hunks_step [OF ls(1) Cons.prems(2)] by (simp add: Let_def)
qed

lemma fold_hunk_step_proper:
  assumes "proper_hunks hs" "[] \<notin> set cur" "fold hunk_step lines (hs, cur, m) = (hs', cur', m')"
  shows "proper_hunks hs' \<and> [] \<notin> set cur'"
  using assms
proof (induction lines arbitrary: hs cur m)
  case (Cons l ls)
  have "l \<noteq> []" if "is_hunk_line l"
    using that by (auto simp: is_hunk_line_def starts_with_def no_newline_mark_def)
  with Cons.prems obtain hs1 cur1 m1 where
    "hunk_step l (hs, cur, m) = (hs1, cur1, m1)" "proper_hunks hs1" "[] \<notin> set cur1"
    by (auto simp: hunk_step_def split: option.splits if_splits)
  with Cons.IH Cons.prems(3) show ?case by simp
qed simp

lemma read_hunks_proper: "proper_hunks (read_hunks lines)"
proof -
  obtain hs cur m where f: "fold hunk_step lines ([], [], None) = (hs, cur, m)" by (rule prod_cases3)
  from fold_hunk_step_proper [OF _ _ f] show ?thesis
    by (simp add: read_hunks_def f split: option.split)
qed

section \<open>Round trip\<close>

text \<open>Lines without separators, written one per line, are read back.\<close>

definition plain_line :: "string \<Rightarrow> bool" where
  "plain_line l = list_all (\<lambda>ch. \<not> is_break ch) l"

definition text_of :: "string list \<Rightarrow> string" where
  "text_of ls = concat (map (\<lambda>l. l @ [NEWLINE]) ls)"

lemma break_simps [simp]: "is_break NEWLINE" "is_break RETURN"
  by (simp_all add: is_break_def NEWLINE_def RETURN_def char_code_def)

lemma splitlines_newline [simp]: "splitlines (NEWLINE # s) = [] # splitlines s"
  by (cases s) (simp_all add: NEWLINE_def RETURN_def, simp_all add: is_break_def char_code_def)

lemma splitlines_plain: "plain_line l \<Longrightarrow> splitlines (l @ NEWLINE # s) = l # splitlines s"
proof (induction l)
  case (Cons ch l)
  then have "\<not> is_break ch" "ch \<noteq> RETURN" by (auto simp: plain_line_def)
  with Cons show ?case by (cases "l @ NEWLINE # s") (auto simp: plain_line_def)
qed simp

lemma splitlines_text: "list_all plain_line ls \<Longrightarrow> splitlines (text_of ls) = ls"
  by (induction ls) (simp_all add: text_of_def splitlines_plain)

text \<open>A patch as its author writes it: for every hunk a header line that names its start, then its lines.\<close>

definition patch_lines :: "(string \<times> string list) list \<Rightarrow> string list" where
  "patch_lines hs = concat (map (\<lambda>(h, ls). h # ls) hs)"

definition written_hunk :: "string \<times> string list \<Rightarrow> bool" where
  "written_hunk h = (case h of (header, ls) \<Rightarrow>
     hunk_header header \<noteq> None \<and> ls \<noteq> [] \<and> list_all is_hunk_line ls
     \<and> list_all plain_line (header # ls))"

definition hunks_of :: "(string \<times> string list) list \<Rightarrow> hunk list" where
  "hunks_of hs = map (\<lambda>(h, ls). (the (hunk_header h), ls)) hs"

lemma hunk_line_no_header: "is_hunk_line l \<Longrightarrow> hunk_header l = None"
  by (cases l) (auto simp: is_hunk_line_def hunk_header_def expect_def starts_with_def no_newline_mark_def BACKSLASH_def)

lemma fold_hunk_lines:
  "list_all is_hunk_line ls \<Longrightarrow> fold hunk_step ls (hs, cur, Some k) = (hs, cur @ ls, Some k)"
  by (induction ls arbitrary: cur) (simp_all add: hunk_step_def hunk_line_no_header)

lemma fold_patch_lines:
  assumes "list_all written_hunk hs" "cur \<noteq> []"
  shows "(case fold hunk_step (patch_lines hs) (done, cur, Some k) of
      (h', c', m') \<Rightarrow> c' \<noteq> [] \<and> m' \<noteq> None \<and> h' @ [(the m', c')] = done @ (k, cur) # hunks_of hs)"
  using assms
proof (induction hs arbitrary: "done" cur k)
  case Nil
  then show ?case by (simp add: patch_lines_def hunks_of_def)
next
  case (Cons h hs)
  obtain hd ls where h: "h = (hd, ls)" by force
  from Cons.prems obtain n where n: "hunk_header hd = Some n" "list_all is_hunk_line ls" "ls \<noteq> []"
    by (auto simp: h written_hunk_def)
  have "fold hunk_step (patch_lines (h # hs)) (done, cur, Some k) =
      fold hunk_step (patch_lines hs) (done @ [(k, cur)], ls, Some n)"
    using n Cons.prems(2) fold_hunk_lines [OF n(2), of "done @ [(k, cur)]" "[]" n]
    by (simp add: h patch_lines_def hunk_step_def [of hd])
  with Cons.IH [of ls "done @ [(k, cur)]" n] Cons.prems n show ?case
    by (auto simp: h hunks_of_def split: prod.splits)
qed

lemma read_hunks_written:
  assumes "list_all written_hunk hs" "hs \<noteq> []"
  shows "read_hunks (patch_lines hs) = hunks_of hs"
proof -
  obtain hd ls rest where hs: "hs = (hd, ls) # rest" using assms(2) by (metis neq_Nil_conv surj_pair)
  from assms(1) obtain n where n: "hunk_header hd = Some n" "list_all is_hunk_line ls" "ls \<noteq> []"
    and rest: "list_all written_hunk rest" by (auto simp: hs written_hunk_def)
  have "fold hunk_step (patch_lines hs) ([], [], None) = fold hunk_step (patch_lines rest) ([], ls, Some n)"
    using n fold_hunk_lines [OF n(2), of "[]" "[]" n] by (simp add: hs patch_lines_def hunk_step_def [of hd])
  with fold_patch_lines [OF rest n(3), of "[]" n] n(1) show ?thesis
    by (auto simp: read_hunks_def hs hunks_of_def split: prod.splits option.splits)
qed

lemma strip_nonspace: "ch \<in> set s \<Longrightarrow> \<not> is_space ch \<Longrightarrow> strip s \<noteq> []"
  by (metis dropWhile_eq_Nil_conv hd_dropWhile hd_in_set rev_is_Nil_conv set_rev strip_def)

lemma header_not_blank:
  assumes "hunk_header h \<noteq> None"
  shows "strip (h @ s) \<noteq> []"
proof -
  have "take (Suc (Suc 0)) h = ''@@''"
    using assms by (auto simp: hunk_header_def expect_def starts_with_def split: if_splits)
  then have "CHR ''@'' \<in> set h" by (metis in_set_takeD list.set_intros(1))
  then show ?thesis by (intro strip_nonspace [of "CHR ''@''"]) (simp_all add: is_space_def char_code_def)
qed

lemma join_text: "ls \<noteq> [] \<Longrightarrow> join_with NEWLINE ls @ [NEWLINE] = text_of ls"
  by (induction NEWLINE ls rule: join_with.induct) (simp_all add: text_of_def)

lemma last_join: "ls \<noteq> [] \<Longrightarrow> last ls \<noteq> [] \<Longrightarrow> join_with sep ls \<noteq> [] \<and> last (join_with sep ls) = last (last ls)"
  by (induction sep ls rule: join_with.induct) (auto split: if_splits)

lemma text_ends: "ls \<noteq> [] \<Longrightarrow> ends_with_newline (text_of ls)"
  using join_text [of ls] by (auto simp: ends_with_newline_def simp flip: join_text)

lemma patched_text:
  assumes "old \<noteq> []" "new \<noteq> []" "last new \<noteq> []" "list_all plain_line new"
  shows "patched_text_of (text_of old) new = text_of new"
proof -
  have "plain_line (last new)" using assms(2,4) by (simp add: list_all_iff)
  then have "last (last new) \<noteq> NEWLINE" 
    using assms(3) last_in_set [of "last new"] break_simps(1) by (metis list_all_iff plain_line_def)
  with last_join [OF assms(2,3), of NEWLINE] text_ends [OF assms(1)] join_text [OF assms(2)] show ?thesis
    by (simp add: patched_text_of_def ends_with_newline_def Let_def)
qed

section \<open>The outcome of a patch\<close>

lemma unified_patch_run:
  assumes "strip patch \<noteq> []" "read_hunks (splitlines patch) \<noteq> []"
  shows "apply_unified_patch ud original patch =
    (case apply_hunks (splitlines original) (read_hunks (splitlines patch)) (0, []) of
       Inl e \<Rightarrow> Inl e
     | Inr (i, o0) \<Rightarrow>
         (let out = snd (copy_lines (splitlines original) (length (splitlines original)) i o0)
          in Inr (patched_text_of original out, join_with NEWLINE (ud (splitlines original) out),
                  length (read_hunks (splitlines patch)))))"
  using assms by (simp add: apply_unified_patch_def Let_def)

lemma unified_patch_result:
  assumes "apply_unified_patch ud original patch = Inr (t, diff, n)"
  shows "n = length (read_hunks (splitlines patch)) \<and> 0 < n
    \<and> (\<exists>out. patches 0 (read_hunks (splitlines patch)) (splitlines original) out
         \<and> t = patched_text_of original out \<and> diff = join_with NEWLINE (ud (splitlines original) out))"
proof -
  let ?hs = "read_hunks (splitlines patch)" and ?o = "splitlines original"
  from assms have ne: "strip patch \<noteq> []" "?hs \<noteq> []" by (auto simp: apply_unified_patch_def Let_def split: if_splits)
  then obtain j o1 where st: "apply_hunks ?o ?hs (0, []) = Inr (j, o1)"
    using assms by (auto simp: unified_patch_run split: sum.splits)
  from apply_hunks_sound [OF read_hunks_proper _ this] have "j \<le> length ?o" "patches 0 ?hs ?o (o1 @ drop j ?o)" by auto
  with assms ne st show ?thesis by (auto simp: unified_patch_run Let_def)
qed

lemma unified_patch_error:
  assumes "apply_unified_patch ud original patch = Inl e"
  shows "e = InvalidPatchArtifactError \<and> (strip patch = [] \<or> read_hunks (splitlines patch) = []
    \<or> (\<nexists>out. patches 0 (read_hunks (splitlines patch)) (splitlines original) out))"
proof (cases "strip patch = [] \<or> read_hunks (splitlines patch) = []")
  case True
  with assms show ?thesis by (auto simp: apply_unified_patch_def split: if_splits)
next
  case False
  with assms have st: "apply_hunks (splitlines original) (read_hunks (splitlines patch)) (0, []) = Inl e"
    by (auto simp: unified_patch_run Let_def split: sum.splits)
  with apply_hunks_error [OF read_hunks_proper _ st]
    apply_hunks_complete [OF read_hunks_proper, of 0 "splitlines original" "splitlines patch" _ "[]"] show ?thesis by auto
qed

section \<open>Properties\<close>



text \<open>
  Diffs round-trip: when every hunk of a patch is written out under a header that names its start,
  and the hunks turn the lines \<open>old\<close> into \<open>new\<close>, then applying the text of the patch to the text of \<open>old\<close> gives
  the text of \<open>new\<close>. The last new line must not be empty: of a text that ends in an empty line the
  code loses that line.
\<close>

theorem written_patch_applies:
  assumes "list_all written_hunk hs" "hs \<noteq> []" "list_all plain_line old" "old \<noteq> []"
    and "patches 0 (hunks_of hs) old new" "new \<noteq> []" "last new \<noteq> []" "list_all plain_line new"
  shows "\<exists>diff. apply_unified_patch ud (text_of old) (text_of (patch_lines hs)) = Inr (text_of new, diff, length hs)"
proof -
  have "list_all plain_line (patch_lines hs)"
    using assms(1) by (induction hs) (auto simp: patch_lines_def written_hunk_def)
  then have read: "read_hunks (splitlines (text_of (patch_lines hs))) = hunks_of hs"
    using read_hunks_written [OF assms(1,2)] by (simp add: splitlines_text)
  have proper: "proper_hunks (hunks_of hs)" using read_hunks_proper read by metis
  have hs: "hunks_of hs \<noteq> []" "length (hunks_of hs) = length hs" using assms(2) by (simp_all add: hunks_of_def)
  have blank: "strip (text_of (patch_lines hs)) \<noteq> []"
    using assms(1,2) header_not_blank by (cases hs) (auto simp: patch_lines_def text_of_def written_hunk_def)
  obtain j out where "apply_hunks old (hunks_of hs) (0, []) = Inr (j, out)" "j \<le> length old" "out @ drop j old = new"
    using apply_hunks_complete [OF proper, of 0 old new "[]"] assms(5) by auto
  then show ?thesis
    using patched_text [OF assms(4,6,7,8)] splitlines_text [OF assms(3)] read hs blank
    by (simp add: apply_unified_patch_def Let_def)
qed

definition demo_hunk :: "(string \<times> string list) list" where
  "demo_hunk = [(''@@ -2,1 +2,2 @@'', ['' two'', ''+three''])]"

theorem written_patch_applies_witness:
  "\<exists>diff. apply_unified_patch (\<lambda>a b. []) (text_of [''one'', ''two'']) (text_of (patch_lines demo_hunk)) =
     Inr (text_of [''one'', ''two'', ''three''], diff, 1)"
proof -
  have w: "list_all written_hunk demo_hunk" by code_simp
  have h: "hunks_of demo_hunk = [(2, ['' two'', ''+three''])]" by code_simp
  have "patches 0 [(2, ['' two'', ''+three''])] ([''one''] @ old_side ['' two'', ''+three''] @ [])
      ([''one''] @ new_side ['' two'', ''+three''] @ [])"
    by (rule patches.hunk) (simp_all add: patches.no_hunk)
  then have p: "patches 0 (hunks_of demo_hunk) [''one'', ''two''] [''one'', ''two'', ''three'']" by (simp add: h)
  have l: "list_all plain_line [''one'', ''two'']" "list_all plain_line [''one'', ''two'', ''three'']" by code_simp+
  show ?thesis
    using written_patch_applies [OF w _ l(1) _ p _ _ l(2), of "\<lambda>a b. []"] by (simp add: demo_hunk_def)
qed

text \<open>The empty last line of a text is lost, although no hunk mentions it.\<close>

lemma blank_last_line_lost:
  "apply_unified_patch (\<lambda>a b. []) (text_of [''a'', []]) (text_of [''@@ -1 +1 @@'', ''-a'', ''+b'']) =
     Inr (text_of [''b''], [], 1)"
  by code_simp

end
