(* ===== verification/Kin_Workspace.thy ===== *)
theory Kin_Workspace
  imports Kin_Artifacts Kin_Policy Kin_Patch
begin

text \<open>
  Artifacts on their way into a workspace and onto the screen: path confinement, import and patch
  application of \<open>kin-node/kin/artifacts/workspace.py\<close>, and the bounded previews of \<open>artifacts/preview.py\<close>.

  The state of the disk is a map from resolved paths, given by their parts, to the content of regular
  files; what the operating system decides (where links lead, which calls fail) is the record \<open>disk\<close>. Text
  that is read back is limited to code points below 256. \<open>json.dumps(indent=2)\<close> and the \<open>csv\<close> module are
  arguments of the preview.
\<close>

section \<open>Paths\<close>

type_synonym path = "string list"
type_synonym files = "path \<Rightarrow> bytes option"

record disk =
  dk_resolve :: "path \<Rightarrow> path" \<comment> \<open>\<open>Path.resolve()\<close>\<close>
  dk_mkdir :: "path \<Rightarrow> bool" \<comment> \<open>whether \<open>mkdir(parents=True, exist_ok=True)\<close> succeeds\<close>
  dk_write :: "path \<Rightarrow> bytes \<Rightarrow> bytes option option" \<comment> \<open>\<open>None\<close>: written; otherwise what a failed write leaves\<close>
  dk_replace :: "path \<Rightarrow> path \<Rightarrow> bool"
  dk_unlink :: "path \<Rightarrow> bool"
  dk_readable :: "path \<Rightarrow> bool"
  dk_pid :: string

abbreviation OSError :: py_error where
  "OSError \<equiv> AppError ''OSError''"

abbreviation UnsafeWorkspacePathError :: py_error where
  "UnsafeWorkspacePathError \<equiv> AppError ''UnsafeWorkspacePathError''"

definition is_relative_to :: "path \<Rightarrow> path \<Rightarrow> bool" where
  "is_relative_to p root = (take (length root) p = root)"

definition resolve_safe_workspace_path :: "disk \<Rightarrow> path \<Rightarrow> string \<Rightarrow> path result" where
  "resolve_safe_workspace_path D workspace_root relative_path =
     (if strip relative_path = [] then Inl UnsafeWorkspacePathError
      else if NUL \<in> set relative_path then Inl UnsafeWorkspacePathError
      else let raw = strip relative_path in
        if is_absolute_path raw then Inl UnsafeWorkspacePathError
        else let root_resolved = dk_resolve D workspace_root;
                 normalized = unbackslash raw;
                 candidate_resolved = dk_resolve D (root_resolved @ path_segments normalized)
             in if \<not> is_relative_to candidate_resolved root_resolved then Inl UnsafeWorkspacePathError
                else Inr candidate_resolved)"

definition validate_card_workspace :: "disk \<Rightarrow> agent_card \<Rightarrow> string option \<Rightarrow> path result" where
  "validate_card_workspace D c workspace_root =
     (case card_adapter c of
        LocalCommandAdapterConfig command working_directory \<Rightarrow>
          (let root_str = or_text workspace_root working_directory in
           if root_str = [] then Inl (AppError ''WorkspaceNotConfiguredError'')
           else Inr (dk_resolve D (path_parts root_str)))
      | _ \<Rightarrow> Inl (AppError ''WorkspaceNotConfiguredError''))"

section \<open>Previews of patches\<close>

record patch_preview =
  pp_artifact_id :: string
  pp_relative_target_path :: string
  pp_target_exists :: bool
  pp_original_content :: string
  pp_patched_content :: string
  pp_unified_diff :: string
  pp_hunks_count :: nat

definition lstrip :: "string \<Rightarrow> string" where
  "lstrip s = dropWhile is_space s"

definition is_diff_content :: "string \<Rightarrow> bool" where
  "is_diff_content text =
     (let lines = take 10 (splitlines (lstrip text));
          has_minus = list_ex (starts_with ''--- '') lines;
          has_plus = list_ex (starts_with ''+++ '') lines;
          has_hunk = list_ex (starts_with ''@@ '') lines
      in (has_minus \<and> has_plus) \<or> has_hunk)"

text \<open>Universal newlines, the translation of a file opened in text mode.\<close>

fun universal_newlines :: "string \<Rightarrow> string" where
  "universal_newlines [] = []"
| "universal_newlines [ch] = [if ch = RETURN then NEWLINE else ch]"
| "universal_newlines (ch # c2 # s) =
     (if ch = RETURN \<and> c2 = NEWLINE then NEWLINE # universal_newlines s
      else (if ch = RETURN then NEWLINE else ch) # universal_newlines (c2 # s))"

definition read_text :: "disk \<Rightarrow> path \<Rightarrow> files \<Rightarrow> string result" where
  "read_text D p fs =
     (case fs p of
        None \<Rightarrow> Inr []
      | Some content \<Rightarrow>
          if \<not> dk_readable D p then Inl OSError
          else (case utf8_decode content of
                  None \<Rightarrow> Inl ValueError
                | Some s \<Rightarrow> Inr (universal_newlines s)))"

definition mime_of :: "string \<Rightarrow> string" where
  "mime_of mime_type = map to_lower (strip mime_type)"

definition patch_text_of :: "artifact_metadata \<Rightarrow> bytes \<Rightarrow> string result" where
  "patch_text_of meta raw_bytes =
     (case utf8_decode raw_bytes of
        None \<Rightarrow> Inl InvalidPatchArtifactError
      | Some patch_text \<Rightarrow>
          if mime_of (amd_mime_type meta) \<notin> set [''text/x-diff'', ''text/x-patch''] \<and> \<not> is_diff_content patch_text
          then Inl InvalidPatchArtifactError else Inr patch_text)"

definition preview_patch_apply ::
  "world \<Rightarrow> disk \<Rightarrow> (string list \<Rightarrow> string list \<Rightarrow> string list) \<Rightarrow> bytes \<Rightarrow> string \<Rightarrow> path \<Rightarrow> string \<Rightarrow> files \<Rightarrow> db
   \<Rightarrow> patch_preview result" where
  "preview_patch_apply W D unified_diff vault_key artifact_id workspace_root relative_target_path fs d =
     chain (resolve_safe_workspace_path D workspace_root relative_target_path) (\<lambda>safe_target_path.
     chain (get_artifact_metadata W artifact_id d) (\<lambda>meta.
     chain (load_artifact_bytes W vault_key artifact_id d) (\<lambda>raw_bytes.
     chain (patch_text_of meta raw_bytes) (\<lambda>patch_text.
     chain (read_text D safe_target_path fs) (\<lambda>original_content.
     chain (apply_unified_patch unified_diff original_content patch_text) (\<lambda>(patched, diff, hunks).
     Inr \<lparr>pp_artifact_id = artifact_id, pp_relative_target_path = relative_target_path,
          pp_target_exists = (fs safe_target_path \<noteq> None), pp_original_content = original_content,
          pp_patched_content = patched, pp_unified_diff = diff, pp_hunks_count = hunks\<rparr>))))))"

section \<open>Writing into the workspace\<close>

definition temp_path :: "disk \<Rightarrow> path \<Rightarrow> path" where
  "temp_path D p = butlast p @ [''.tmp_'' @ last p @ ''_'' @ dk_pid D]"

text \<open>The handler of \<open>_atomic_write_file\<close>: the temporary file is removed if that is possible.\<close>

definition discard :: "disk \<Rightarrow> path \<Rightarrow> files \<Rightarrow> files" where
  "discard D tmp fs = (if fs tmp \<noteq> None \<and> dk_unlink D tmp then fs(tmp := None) else fs)"

definition atomic_write_file :: "disk \<Rightarrow> path \<Rightarrow> bytes \<Rightarrow> files \<Rightarrow> files \<times> unit result" where
  "atomic_write_file D target_path content_bytes fs =
     (if \<not> dk_mkdir D (butlast target_path) then (fs, Inl OSError)
      else if length target_path \<le> 1 then (fs, Inl ValueError)
      else let tmp = temp_path D target_path in
        case dk_write D tmp content_bytes of
          Some left \<Rightarrow> (discard D tmp (fs(tmp := left)), Inl OSError)
        | None \<Rightarrow>
            if dk_replace D tmp target_path
            then (fs(tmp := None, target_path := Some content_bytes), Inr ())
            else (discard D tmp (fs(tmp := Some content_bytes)), Inl OSError))"

definition write_context :: "string \<Rightarrow> string \<Rightarrow> pydict" where
  "write_context session_id relative_target_path =
     [(''session_id'', PStr session_id), (''relative_target_path'', PStr relative_target_path)]"

text \<open>The policy check the two operations share: it must answer ALLOW for a workspace write.\<close>

definition require_write :: "agent_card \<Rightarrow> string \<Rightarrow> string \<Rightarrow> string \<Rightarrow> db \<Rightarrow> db \<times> unit result" where
  "require_write c session_id relative_target_path now d =
     (case evaluate_action_for_session c WORKSPACE_WRITE (write_context session_id relative_target_path)
             session_id now d of
        (d', Inl e) \<Rightarrow> (d', Inl e)
      | (d', Inr res) \<Rightarrow>
          if pr_decision res \<noteq> PolicyAllow then (d', Inl (AppError ''WorkspaceWritePermissionDeniedError''))
          else (d', Inr ()))"

definition write_target :: "disk \<Rightarrow> path \<Rightarrow> bytes \<Rightarrow> files \<Rightarrow> db \<Rightarrow> files \<times> db \<times> path result" where
  "write_target D p content fs d =
     (case atomic_write_file D p content fs of
        (fs', Inl e) \<Rightarrow> (fs', d, Inl e)
      | (fs', Inr _) \<Rightarrow> (fs', d, Inr p))"

definition import_artifact_to_workspace ::
  "world \<Rightarrow> disk \<Rightarrow> bytes \<Rightarrow> agent_card \<Rightarrow> string \<Rightarrow> string \<Rightarrow> string option \<Rightarrow> string \<Rightarrow> string \<Rightarrow> files \<Rightarrow> db
   \<Rightarrow> files \<times> db \<times> path result" where
  "import_artifact_to_workspace W D vault_key c session_id artifact_id workspace_root relative_target_path now fs d =
     (case chain (validate_card_workspace D c workspace_root)
             (\<lambda>root. resolve_safe_workspace_path D root relative_target_path) of
        Inl e \<Rightarrow> (fs, d, Inl e)
      | Inr safe_target_path \<Rightarrow>
          (case require_write c session_id relative_target_path now d of
             (d1, Inl e) \<Rightarrow> (fs, d1, Inl e)
           | (d1, Inr _) \<Rightarrow>
               (case load_artifact_bytes W vault_key artifact_id d1 of
                  Inl e \<Rightarrow> (fs, d1, Inl e)
                | Inr raw_bytes \<Rightarrow> write_target D safe_target_path raw_bytes fs d1)))"

definition apply_patch_to_workspace ::
  "world \<Rightarrow> disk \<Rightarrow> (string list \<Rightarrow> string list \<Rightarrow> string list) \<Rightarrow> bytes \<Rightarrow> agent_card \<Rightarrow> string \<Rightarrow> string
   \<Rightarrow> string option \<Rightarrow> string \<Rightarrow> string \<Rightarrow> files \<Rightarrow> db \<Rightarrow> files \<times> db \<times> path result" where
  "apply_patch_to_workspace W D unified_diff vault_key c session_id artifact_id workspace_root
     relative_target_path now fs d =
     (case validate_card_workspace D c workspace_root of
        Inl e \<Rightarrow> (fs, d, Inl e)
      | Inr resolved_root \<Rightarrow>
        (case preview_patch_apply W D unified_diff vault_key artifact_id resolved_root relative_target_path fs d of
           Inl e \<Rightarrow> (fs, d, Inl e)
         | Inr preview \<Rightarrow>
          (case require_write c session_id relative_target_path now d of
             (d1, Inl e) \<Rightarrow> (fs, d1, Inl e)
           | (d1, Inr _) \<Rightarrow>
               (case resolve_safe_workspace_path D resolved_root relative_target_path of
                  Inl e \<Rightarrow> (fs, d1, Inl e)
                | Inr safe_target_path \<Rightarrow>
                    write_target D safe_target_path (utf8_encode (pp_patched_content preview)) fs d1))))"

section \<open>Previews of artifacts\<close>

datatype preview_kind = TextPreview | MarkdownPreview | JsonPreview | CsvPreview | DiffPreview | MetadataOnly

record artifact_preview =
  apv_preview_kind :: preview_kind
  apv_content :: "string option"
  apv_truncated :: bool
  apv_total_size_bytes :: nat
  apv_rows_shown :: "nat option"
  apv_total_rows_estimate :: "nat option"

definition ARCHIVE_MIME_TYPES :: "string list" where
  "ARCHIVE_MIME_TYPES =
     [''application/zip'', ''application/x-zip-compressed'', ''application/x-tar'', ''application/tar'',
      ''application/gzip'', ''application/x-gzip'', ''application/x-7z-compressed'',
      ''application/x-rar-compressed'', ''application/rar'', ''application/x-bzip2'',
      ''application/x-compress'']"

definition metadata_only :: "bytes \<Rightarrow> artifact_preview" where
  "metadata_only raw_bytes =
     \<lparr>apv_preview_kind = MetadataOnly, apv_content = None, apv_truncated = False,
      apv_total_size_bytes = length raw_bytes, apv_rows_shown = None, apv_total_rows_estimate = None\<rparr>"

text \<open>\<open>text[:max_preview_chars]\<close> for a limit that is not negative.\<close>

definition bounded :: "preview_kind \<Rightarrow> string \<Rightarrow> nat \<Rightarrow> bytes \<Rightarrow> artifact_preview" where
  "bounded kind text max_preview_chars raw_bytes =
     \<lparr>apv_preview_kind = kind, apv_content = Some (take max_preview_chars text),
      apv_truncated = (length text > max_preview_chars), apv_total_size_bytes = length raw_bytes,
      apv_rows_shown = None, apv_total_rows_estimate = None\<rparr>"

definition json_preview :: "world \<Rightarrow> string \<Rightarrow> string \<Rightarrow> string option" where
  "json_preview W mime text =
     (if occurs_in ''json'' mime then Option.bind (w_loads W text) (w_dumps_pretty W) else None)"

definition csv_preview ::
  "(string \<Rightarrow> string list list option) \<Rightarrow> (string list list \<Rightarrow> string option) \<Rightarrow> string \<Rightarrow> string \<Rightarrow> nat \<Rightarrow> nat
   \<Rightarrow> bytes \<Rightarrow> artifact_preview option" where
  "csv_preview csv_reader csv_writer mime text max_preview_chars max_csv_rows raw_bytes =
     (if mime \<in> set [''text/csv'', ''application/csv''] \<or> ends_with ''+csv'' mime
      then do { all_rows \<leftarrow> csv_reader text;
                formatted_csv \<leftarrow> csv_writer (take max_csv_rows all_rows);
                Some \<lparr>apv_preview_kind = CsvPreview, apv_content = Some (take max_preview_chars formatted_csv),
                      apv_truncated = (length all_rows > max_csv_rows \<or> length formatted_csv > max_preview_chars),
                      apv_total_size_bytes = length raw_bytes,
                      apv_rows_shown = Some (length (take max_csv_rows all_rows)),
                      apv_total_rows_estimate = Some (length all_rows)\<rparr> }
      else None)"

definition generate_preview ::
  "world \<Rightarrow> (string \<Rightarrow> string list list option) \<Rightarrow> (string list list \<Rightarrow> string option) \<Rightarrow> artifact_metadata \<Rightarrow> bytes
   \<Rightarrow> nat \<Rightarrow> nat \<Rightarrow> artifact_preview result" where
  "generate_preview W csv_reader csv_writer metadata raw_bytes max_preview_chars max_csv_rows =
     (case py_or (amd_preview_policy metadata) (PStr []) of
        PStr policy_text \<Rightarrow>
          if mime_of policy_text = ''deny'' then Inr (metadata_only raw_bytes)
          else let mime = mime_of (amd_mime_type metadata) in
            if mime \<in> set ARCHIVE_MIME_TYPES then Inr (metadata_only raw_bytes)
            else (case utf8_decode raw_bytes of
                    None \<Rightarrow> Inr (metadata_only raw_bytes)
                  | Some text \<Rightarrow>
                      if mime \<in> set [''text/x-diff'', ''text/x-patch''] \<or> is_diff_content text
                      then Inr (bounded DiffPreview text max_preview_chars raw_bytes)
                      else (case json_preview W mime text of
                              Some formatted \<Rightarrow> Inr (bounded JsonPreview formatted max_preview_chars raw_bytes)
                            | None \<Rightarrow>
                      (case csv_preview csv_reader csv_writer mime text max_preview_chars max_csv_rows raw_bytes of
                              Some preview \<Rightarrow> Inr preview
                            | None \<Rightarrow>
                      if mime \<in> set [''text/markdown'', ''text/x-markdown''] \<or> ends_with ''+markdown'' mime
                      then Inr (bounded MarkdownPreview text max_preview_chars raw_bytes)
                      else Inr (bounded TextPreview text max_preview_chars raw_bytes))))
      | _ \<Rightarrow> Inl (AppError ''AttributeError''))"

definition get_artifact_preview ::
  "world \<Rightarrow> (string \<Rightarrow> string list list option) \<Rightarrow> (string list list \<Rightarrow> string option) \<Rightarrow> bytes \<Rightarrow> string \<Rightarrow> nat \<Rightarrow> nat
   \<Rightarrow> db \<Rightarrow> artifact_preview result" where
  "get_artifact_preview W csv_reader csv_writer vault_key artifact_id max_preview_chars max_csv_rows d =
     chain (get_artifact_metadata W artifact_id d) (\<lambda>meta.
     chain (load_artifact_bytes W vault_key artifact_id d) (\<lambda>raw_bytes.
     generate_preview W csv_reader csv_writer meta raw_bytes max_preview_chars max_csv_rows))"

section \<open>Lemmas\<close>

lemma temp_path_neq: "temp_path D p \<noteq> p"
  by (cases p rule: rev_cases) (auto simp: temp_path_def dest: arg_cong [of _ _ length])

text \<open>A write either puts the whole content in place or leaves every file but the temporary one alone.\<close>

lemma atomic_write_Inr:
  "atomic_write_file D p content fs = (fs', Inr u) \<Longrightarrow> fs' = fs(temp_path D p := None, p := Some content)"
  by (auto simp: atomic_write_file_def Let_def split: if_splits option.splits)

lemma atomic_write_Inl:
  "atomic_write_file D p content fs = (fs', Inl e) \<Longrightarrow> q \<noteq> temp_path D p \<Longrightarrow> fs' q = fs q"
  by (auto simp: atomic_write_file_def discard_def Let_def split: if_splits option.splits)

lemma write_target_Inr:
  "write_target D p content fs d = (fs', d', Inr q) \<Longrightarrow>
     q = p \<and> d' = d \<and> fs' = fs(temp_path D p := None, p := Some content)"
  by (auto simp: write_target_def dest: atomic_write_Inr split: prod.splits sum.splits)

lemma write_target_Inl:
  "write_target D p content fs d = (fs', d', Inl e) \<Longrightarrow> q \<noteq> temp_path D p \<Longrightarrow> fs' q = fs q"
  by (auto simp: write_target_def dest: atomic_write_Inl split: prod.splits sum.splits)

definition write_granted :: "agent_card \<Rightarrow> string \<Rightarrow> string \<Rightarrow> db \<Rightarrow> db \<Rightarrow> bool" where
  "write_granted c sid now d d' =
     (\<not> boundary_denies (card_boundaries c) WORKSPACE_WRITE
      \<and> (\<exists>row \<in> set (db_approvals d). eligible_approval sid (card_id c) ''workspace_write'' now row
           \<and> (ap_decision row = Some ''always_allow_bounded''
              \<or> (ap_decision row = Some ''approve_once'' \<and> d' = consume_approval (ap_approval_id row) now d))))"

lemma require_write_granted:
  assumes "require_write c sid rel now d = (d', Inr u)"
  shows "write_granted c sid now d d'"
proof -
  obtain res where ev: "evaluate_action_for_session c WORKSPACE_WRITE (write_context sid rel) sid now d = (d', Inr res)"
    and allow: "pr_decision res = PolicyAllow"
    using assms by (auto simp: require_write_def split: prod.splits sum.splits if_splits)
  have "\<not> boundary_denies (card_boundaries c) WORKSPACE_WRITE"
  proof
    assume "boundary_denies (card_boundaries c) WORKSPACE_WRITE"
    with ev allow show False
      by (auto simp: evaluate_action_for_session_def evaluate_action_def policy_def Let_def split: option.splits sum.splits)
  qed
  moreover have "autonomy_verdict c WORKSPACE_WRITE \<noteq> Some PolicyAllow" by (simp add: autonomy_verdict_def)
  ultimately show ?thesis
    using evaluate_session_allow [OF ev allow] by (simp add: write_granted_def)
qed

lemma evaluate_keeps_artifacts:
  "evaluate_action_for_session c ac ctx sid now d = (d', r) \<Longrightarrow> db_artifacts d' = db_artifacts d"
  by (auto simp: evaluate_action_for_session_def consume_approval_def Let_def
      split: option.splits sum.splits if_splits)

lemma require_keeps_artifacts: "require_write c sid rel now d = (d', r) \<Longrightarrow> db_artifacts d' = db_artifacts d"
  by (auto simp: require_write_def dest: evaluate_keeps_artifacts split: prod.splits sum.splits if_splits)

lemma load_artifact_cong:
  "db_artifacts d' = db_artifacts d \<Longrightarrow> load_artifact_bytes W k aid d' = load_artifact_bytes W k aid d"
  by (simp add: load_artifact_bytes_def find_artifact_def)

lemma safe_path_inside:
  "resolve_safe_workspace_path D root rel = Inr p \<Longrightarrow> is_relative_to p (dk_resolve D root)"
  by (auto simp: resolve_safe_workspace_path_def Let_def split: if_splits)

lemma card_workspace_local:
  "validate_card_workspace D c wr = Inr root \<Longrightarrow> \<exists>cmd wd. card_adapter c = LocalCommandAdapterConfig cmd wd"
  by (auto simp: validate_card_workspace_def split: adapter_config.splits)

text \<open>
  What both writers promise. On success the target lies under the resolved root of an agent with a local
  command adapter, the owner granted the write, and no file but the target (and the temporary file,
  which is gone) has changed. On failure only the temporary file beside the target may have changed.
\<close>

definition write_confined ::
  "disk \<Rightarrow> agent_card \<Rightarrow> string option \<Rightarrow> string \<Rightarrow> string \<Rightarrow> string \<Rightarrow> files \<Rightarrow> db \<Rightarrow> files \<Rightarrow> db \<Rightarrow> path result \<Rightarrow> bool" where
  "write_confined D c wr sid rel now fs d fs' d' r = (case r of
     Inr p \<Rightarrow> (\<exists>root cmd wd content. card_adapter c = LocalCommandAdapterConfig cmd wd
         \<and> validate_card_workspace D c wr = Inr root \<and> is_relative_to p (dk_resolve D root)
         \<and> write_granted c sid now d d'
         \<and> fs' = fs(temp_path D p := None, p := Some content))
   | Inl e \<Rightarrow> (\<forall>q. fs' q \<noteq> fs q \<longrightarrow> (\<exists>root p. validate_card_workspace D c wr = Inr root
         \<and> resolve_safe_workspace_path D root rel = Inr p \<and> q = temp_path D p)))"

lemma confined_untouched: "write_confined D c wr sid rel now fs d fs d' (Inl e)"
  by (simp add: write_confined_def)

lemma confined_write_target:
  assumes "validate_card_workspace D c wr = Inr root" "resolve_safe_workspace_path D root rel = Inr p"
    "require_write c sid rel now d = (d1, Inr u)" "write_target D p content fs d1 = (fs', d', r)"
  shows "write_confined D c wr sid rel now fs d fs' d' r"
proof (cases r)
  case (Inl e)
  with write_target_Inl [of D p content fs d1 fs' d'] assms show ?thesis by (fastforce simp: write_confined_def)
next
  case (Inr q)
  from write_target_Inr [OF assms(4) [unfolded Inr]] have "q = p" "d' = d1"
    "fs' = fs(temp_path D p := None, p := Some content)" by simp_all
  with Inr assms(1) safe_path_inside [OF assms(2)] card_workspace_local [OF assms(1)] require_write_granted [OF assms(3)]
  show ?thesis by (auto simp: write_confined_def)
qed

text \<open>The three kinds of a preview that shows something.\<close>

lemma generate_preview_cases:
  assumes "generate_preview W rd wr metadata raw max_chars max_rows = Inr pv"
  obtains "pv = metadata_only raw"
  | body kind where "utf8_decode raw = Some body" "mime_of (amd_mime_type metadata) \<notin> set ARCHIVE_MIME_TYPES"
      "\<forall>pol. amd_preview_policy metadata = PStr pol \<longrightarrow> mime_of pol \<noteq> ''deny''"
      "kind \<in> {TextPreview, MarkdownPreview, DiffPreview}" "pv = bounded kind body max_chars raw"
  | body formatted where "utf8_decode raw = Some body" "mime_of (amd_mime_type metadata) \<notin> set ARCHIVE_MIME_TYPES"
      "\<forall>pol. amd_preview_policy metadata = PStr pol \<longrightarrow> mime_of pol \<noteq> ''deny''"
      "pv = bounded JsonPreview formatted max_chars raw"
  | body where "utf8_decode raw = Some body" "mime_of (amd_mime_type metadata) \<notin> set ARCHIVE_MIME_TYPES"
      "\<forall>pol. amd_preview_policy metadata = PStr pol \<longrightarrow> mime_of pol \<noteq> ''deny''"
      "csv_preview rd wr (mime_of (amd_mime_type metadata)) body max_chars max_rows raw = Some pv"
proof -
  let ?mime = "mime_of (amd_mime_type metadata)"
  obtain pol where pol: "py_or (amd_preview_policy metadata) (PStr []) = PStr pol"
    using assms by (auto simp: generate_preview_def split: pyval.splits)
  have deny: "\<forall>q. amd_preview_policy metadata = PStr q \<longrightarrow> mime_of q \<noteq> ''deny''" if "mime_of pol \<noteq> ''deny''"
    using that pol by (auto simp: py_or_def split: if_splits)
  note run = assms [unfolded generate_preview_def pol, simplified pyval.case Let_def]
  show thesis
  proof (cases "mime_of pol = ''deny'' \<or> ?mime \<in> set ARCHIVE_MIME_TYPES \<or> utf8_decode raw = None")
    case True
    with run that(1) show thesis by (auto split: if_splits)
  next
    case False
    then obtain body where body: "mime_of pol \<noteq> ''deny''" "?mime \<notin> set ARCHIVE_MIME_TYPES" "utf8_decode raw = Some body" by auto
    note shown = body(3,2) deny [OF body(1)]
    show thesis
    proof (cases "?mime \<in> set [''text/x-diff'', ''text/x-patch''] \<or> is_diff_content body")
      case True
      with run body that(2) [OF shown, of DiffPreview] show thesis by simp
    next
      case nodiff: False
      show thesis
      proof (cases "json_preview W ?mime body")
        case (Some f)
        with run body nodiff that(3) [OF shown, of f] show thesis by (simp split: if_splits)
      next
        case nojson: None
        show thesis
        proof (cases "csv_preview rd wr ?mime body max_chars max_rows raw")
          case (Some q)
          with run body nodiff nojson that(4) [OF shown] show thesis by (simp split: if_splits)
        next
          case None
          with run body nodiff nojson that(2) [OF shown, of MarkdownPreview] that(2) [OF shown, of TextPreview]
          show thesis by (simp split: if_splits)
        qed
      qed
    qed
  qed
qed

section \<open>Properties\<close>


text \<open>
  A patch changes one file, to what the patch says: when \<open>apply_patch_to_workspace\<close> returns a path, the same
  confinement holds, and the file holds the UTF-8 body of the lines that the hunks of the stored
  patch make, by the reference relation, of the lines the file had.
\<close>

theorem patched_file_confined:
  assumes "apply_patch_to_workspace W D ud k c sid aid wr rel now fs d = (fs', d', r)"
  shows "write_confined D c wr sid rel now fs d fs' d' r
    \<and> (\<forall>p. r = Inr p \<longrightarrow> (\<exists>raw patch old out. load_artifact_bytes W k aid d = Inr raw
         \<and> utf8_decode raw = Some patch \<and> read_text D p fs = Inr old
         \<and> patches 0 (read_hunks (splitlines patch)) (splitlines old) out
         \<and> fs' p = Some (utf8_encode (patched_text_of old out))))"
proof (cases "validate_card_workspace D c wr")
  case (Inl e)
  with assms have "fs' = fs" "r = Inl e" by (auto simp: apply_patch_to_workspace_def)
  then show ?thesis by (simp add: confined_untouched)
next
  case root: (Inr root)
  note run = assms [unfolded apply_patch_to_workspace_def root, simplified]
  show ?thesis
  proof (cases "preview_patch_apply W D ud k aid root rel fs d")
    case (Inl e)
    with run show ?thesis by (auto simp: confined_untouched)
  next
    case pv: (Inr pv)
    then obtain p meta raw patch old patched diff n where
      safe: "resolve_safe_workspace_path D root rel = Inr p"
      and raw: "load_artifact_bytes W k aid d = Inr raw" and pt: "patch_text_of meta raw = Inr patch"
      and old: "read_text D p fs = Inr old" and app: "apply_unified_patch ud old patch = Inr (patched, diff, n)"
      and pc: "pp_patched_content pv = patched"
      by (auto simp: preview_patch_apply_def chain_Inr)
    from pt have dec: "utf8_decode raw = Some patch" by (auto simp: patch_text_of_def split: option.splits if_splits)
    from app obtain out where out: "patches 0 (read_hunks (splitlines patch)) (splitlines old) out"
      "patched = patched_text_of old out"
      using unified_patch_result by blast
    obtain d1 g where g: "require_write c sid rel now d = (d1, g)" by force
    show ?thesis
    proof (cases g)
      case (Inl e)
      with run pv g show ?thesis by (auto simp: confined_untouched)
    next
      case (Inr u)
      with run pv g safe pc have w: "write_target D p (utf8_encode patched) fs d1 = (fs', d', r)" by simp
      with confined_write_target [OF root safe g [unfolded Inr] w] write_target_Inr [of D p "utf8_encode patched" fs d1 fs' d']
        raw dec old out show ?thesis by auto
    qed
  qed
qed

text \<open>
  Previews are bounded and safe: a preview shows no more characters and rows than the limits, says
  when it shows less than there is, and shows nothing at all of an artifact whose policy is to
  deny previews, whose type is an archive, or whose bytes are not body.
\<close>

theorem preview_bounded:
  assumes "generate_preview W rd wr metadata raw max_chars max_rows = Inr pv"
  shows "apv_total_size_bytes pv = length raw
    \<and> (case apv_content pv of
         None \<Rightarrow> apv_preview_kind pv = MetadataOnly \<and> \<not> apv_truncated pv
       | Some shown \<Rightarrow> length shown \<le> max_chars
           \<and> (\<exists>body. utf8_decode raw = Some body
                \<and> (apv_preview_kind pv \<in> {TextPreview, MarkdownPreview, DiffPreview} \<longrightarrow>
                     shown = take max_chars body \<and> (\<not> apv_truncated pv \<longrightarrow> shown = body)))
           \<and> mime_of (amd_mime_type metadata) \<notin> set ARCHIVE_MIME_TYPES
           \<and> (\<forall>pol. amd_preview_policy metadata = PStr pol \<longrightarrow> mime_of pol \<noteq> ''deny''))
    \<and> (case apv_rows_shown pv of None \<Rightarrow> True
       | Some m \<Rightarrow> m \<le> max_rows \<and> (\<exists>n. apv_total_rows_estimate pv = Some n \<and> m \<le> n \<and> (m < n \<longrightarrow> apv_truncated pv)))"
  using assms
proof (cases rule: generate_preview_cases)
  case 1
  then show ?thesis by (simp add: metadata_only_def)
next
  case (2 body kind)
  then show ?thesis by (auto simp: bounded_def)
next
  case (3 body formatted)
  then show ?thesis by (simp add: bounded_def)
next
  case (4 body)
  then show ?thesis by (auto simp: csv_preview_def bind_eq_Some_conv min_def split: if_splits)
qed

section \<open>Witnesses\<close>

definition demo_disk :: disk where
  "demo_disk = \<lparr>dk_resolve = (\<lambda>p. p), dk_mkdir = (\<lambda>p. True), dk_write = (\<lambda>p bs. None),
     dk_replace = (\<lambda>p q. True), dk_unlink = (\<lambda>p. True), dk_readable = (\<lambda>p. True), dk_pid = ''7''\<rparr>"

definition demo_builder :: agent_card where
  "demo_builder = demo_card\<lparr>card_adapter := LocalCommandAdapterConfig ''run'' ''/work'',
     card_boundaries := (card_boundaries demo_card)\<lparr>bnd_filesystem := ''workspace_write''\<rparr>\<rparr>"

definition demo_workspace_db :: db where
  "demo_workspace_db = (fst demo_store)\<lparr>db_approvals :=
     [demo_approval\<lparr>ap_action_class := ''workspace_write''\<rparr>]\<rparr>"

definition demo_import :: "files \<times> db \<times> path result" where
  "demo_import = import_artifact_to_workspace demo_world demo_disk [9] demo_builder ''s1'' ''art1'' None
     ''sub/file.txt'' ''2026-01-02T04:00:00Z'' (\<lambda>p. None) demo_workspace_db"


definition demo_patch_db :: db where
  "demo_patch_db = demo_workspace_db\<lparr>db_artifacts := [\<lparr>ar_artifact_id = ''art2'', ar_session_id = ''s1'',
     ar_sha256 = sha256_hex demo_world (utf8_encode (text_of [''@@ -1 +1 @@'', ''-a'', ''+b''])),
     ar_mime_type = ''text/x-diff'',
     ar_bytes_encrypted = encrypt_bytes demo_world [9] 0 (Some (utf8_encode (text_of [''@@ -1 +1 @@'', ''-a'', ''+b'']))),
     ar_metadata_json = None, ar_offered_by = ''bob'', ar_created_at = []\<rparr>]\<rparr>"

definition demo_files :: files where
  "demo_files = (\<lambda>p. if p = [''/'', ''work'', ''f''] then Some (utf8_encode (text_of [''a''])) else None)"

definition demo_apply :: "files \<times> db \<times> path result" where
  "demo_apply = apply_patch_to_workspace demo_world demo_disk (\<lambda>a b. []) [9] demo_builder ''s1'' ''art2'' None
     ''f'' ''2026-01-02T04:00:00Z'' demo_files demo_patch_db"

theorem patched_file_confined_witness:
  "snd (snd demo_apply) = Inr [''/'', ''work'', ''f'']
   \<and> (\<exists>out. patches 0 [(1, [''-a'', ''+b''])] [''a''] out
        \<and> fst demo_apply [''/'', ''work'', ''f''] = Some (utf8_encode (patched_text_of (text_of [''a'']) out)))"
proof -
  let ?p = "[''/'', ''work'', ''f'']"
  obtain fs' d' r where x: "demo_apply = (fs', d', r)" by (rule prod_cases3)
  have r: "snd (snd demo_apply) = Inr ?p" by code_simp
  then have i: "demo_apply = (fs', d', Inr ?p)" unfolding x snd_conv by (rule arg_cong)
  have l: "load_artifact_bytes demo_world [9] ''art2'' demo_patch_db =
      Inr (utf8_encode (text_of [''@@ -1 +1 @@'', ''-a'', ''+b'']))" by code_simp
  have o: "read_text demo_disk ?p demo_files = Inr (text_of [''a''])" by code_simp
  have h: "read_hunks (splitlines (text_of [''@@ -1 +1 @@'', ''-a'', ''+b''])) = [(1, [''-a'', ''+b''])]" by code_simp
  have s: "splitlines (text_of [''a'']) = [''a'']" by code_simp
  from conjunct2 [OF patched_file_confined [OF i [unfolded demo_apply_def]]] l o obtain out where
    "patches 0 (read_hunks (splitlines (text_of [''@@ -1 +1 @@'', ''-a'', ''+b'']))) (splitlines (text_of [''a''])) out"
    "fs' ?p = Some (utf8_encode (patched_text_of (text_of [''a'']) out))" by auto
  then show ?thesis unfolding h s i by auto
qed

definition demo_metadata :: artifact_metadata where
  "demo_metadata = \<lparr>amd_artifact_id = ''art1'', amd_session_id = ''s1'', amd_sha256 = [], amd_mime_type = ''text/plain'',
     amd_size_bytes = PInt 3, amd_offered_by = ''bob'', amd_preview_policy = PStr ''auto'', amd_created_at = [],
     amd_source = PNone, amd_relative_target_path = PNone\<rparr>"

theorem preview_bounded_witness:
  "\<exists>pv. generate_preview demo_world (\<lambda>s. None) (\<lambda>rows. None) demo_metadata (utf8_encode ''abc'') 2 5 = Inr pv
     \<and> apv_content pv = Some ''ab'' \<and> apv_truncated pv \<and> apv_total_size_bytes pv = 3"
proof -
  let ?g = "generate_preview demo_world (\<lambda>s. None) (\<lambda>rows. None) demo_metadata (utf8_encode ''abc'') 2 5"
  have g: "?g = Inr (bounded TextPreview ''abc'' 2 (utf8_encode ''abc''))" by code_simp
  have "length (utf8_encode ''abc'') = 3" by code_simp
  with preview_bounded [OF g] g show ?thesis by (auto simp: bounded_def)
qed

end
