(* ===== verification/Kin_Orchestrator.thy ===== *)
theory Kin_Orchestrator
  imports Kin_Adapters Kin_Dispatch Kin_Workspace
begin

text \<open>
  The session orchestrator of \<open>kin-node/kin/session/orchestrator.py\<close>: one turn of the local agent
  (\<open>advance_session_turn\<close>) from the budget check over the adapter call, the security validation, the policy
  gates and the artifacts to the signed message; the status nudge with its rate limit; and the handoff of a
  session to another local agent.

  The adapter is the argument \<open>invoke\<close>. An \<open>OrchestratorError\<close> is an \<open>AppError\<close> with its code. A budget column
  is read as SQLite's numeric affinity stored it: text that looks like a number is one, a NaN is NULL. Time
  stamps in the ledger carry a UTC offset.
\<close>

section \<open>Budgets\<close>

definition read_number :: "world \<Rightarrow> pyval \<Rightarrow> pyval" where
  "read_number W v = (case v of
      PStr s \<Rightarrow> (case w_numeric W s of Some n \<Rightarrow> n | None \<Rightarrow> v)
    | PFloat FNan \<Rightarrow> PNone
    | PBool b \<Rightarrow> PInt (if b then 1 else 0)
    | _ \<Rightarrow> v)"

text \<open>\<open>amount / unit >= v\<close>; an infinite budget is given by its sign, \<open>True\<close> for the negative one.\<close>

definition reached :: "int \<Rightarrow> int \<Rightarrow> pyval \<Rightarrow> bool result" where
  "reached amount unit v = (case v of
      PInt i \<Rightarrow> Inr (amount \<ge> i * unit)
    | PFloat (FFinite m e) \<Rightarrow>
        Inr (if e \<ge> 0 then amount \<ge> m * 2 ^ nat e * unit else amount * 2 ^ nat (- e) \<ge> m * unit)
    | PFloat (FInf negative) \<Rightarrow> Inr negative
    | PFloat FNan \<Rightarrow> Inr False
    | _ \<Rightarrow> Inl TypeError)"

definition budget_reached :: "world \<Rightarrow> int \<Rightarrow> int \<Rightarrow> pyval \<Rightarrow> bool result" where
  "budget_reached W amount unit v =
     (let n = read_number W v in if n = PNone then Inr False else reached amount unit n)"

text \<open>Elapsed time in microseconds; an empty creation time counts for no runtime.\<close>

definition runtime_reached :: "world \<Rightarrow> session_row \<Rightarrow> int \<Rightarrow> bool result" where
  "runtime_reached W row now =
     (if sr_created_at row = [] then Inr False
      else case parse_iso_z W (sr_created_at row) of
        None \<Rightarrow> Inl ValueError
      | Some created \<Rightarrow> budget_reached W (now - created) 1000000 (sr_runtime_budget_seconds row))"

text \<open>The first exhausted dimension with its limit. The creation time is parsed first of all.\<close>

definition exhausted_dimension :: "world \<Rightarrow> session_row \<Rightarrow> session_state \<Rightarrow> int \<Rightarrow> (string \<times> pyval) option result" where
  "exhausted_dimension W row state now =
     (if sr_created_at row \<noteq> [] \<and> parse_iso_z W (sr_created_at row) = None then Inl ValueError
      else if ss_current_turn state \<ge> sr_turn_limit row
      then Inr (Some (''turn_limit'', PInt (sr_turn_limit row)))
      else chain (runtime_reached W row now) (\<lambda>over_time.
        if over_time then Inr (Some (''runtime_budget_seconds'', read_number W (sr_runtime_budget_seconds row)))
        else chain (budget_reached W (sr_cumulative_artifact_bytes row) 1 (sr_artifact_bytes_budget row)) (\<lambda>over_bytes.
          if over_bytes then Inr (Some (''artifact_bytes_budget'', read_number W (sr_artifact_bytes_budget row)))
          else chain (budget_reached W (sr_cumulative_cost_estimate row) 1 (sr_cost_budget_estimate row)) (\<lambda>over_cost.
            if over_cost then Inr (Some (''cost_budget_estimate'', read_number W (sr_cost_budget_estimate row)))
            else Inr None))))"

definition limit_suffix :: "string \<Rightarrow> string" where
  "limit_suffix dim = (if dim = ''runtime_budget_seconds'' then ''s''
     else if dim = ''artifact_bytes_budget'' then '' bytes'' else [])"

definition exhausted_reason :: "world \<Rightarrow> string \<times> pyval \<Rightarrow> string" where
  "exhausted_reason W x =
     ''Session budget exhausted: '' @ fst x @ '' ('' @ w_str W (snd x) @ limit_suffix (fst x) @ '') reached.''"

section \<open>The request\<close>

definition safe_decode_artifact_text :: "bytes \<Rightarrow> string \<Rightarrow> string option" where
  "safe_decode_artifact_text raw_bytes mime_type =
     (if mime_of mime_type \<in> set ARCHIVE_MIME_TYPES then None
      else case utf8_decode raw_bytes of
        None \<Rightarrow> None
      | Some s \<Rightarrow> if NUL \<in> set s then None else Some s)"

text \<open>The stored artifacts of the session, oldest first; one that cannot be loaded is listed without content.\<close>

definition input_items :: "world \<Rightarrow> bytes \<Rightarrow> string \<Rightarrow> db \<Rightarrow> input_item list" where
  "input_items W vault_key session_id d =
     map (\<lambda>r. \<lparr>in_kind = ''artifact'',
             in_content = (case load_artifact_bytes W vault_key (ar_artifact_id r) d of
                             Inl e \<Rightarrow> None
                           | Inr raw_bytes \<Rightarrow> safe_decode_artifact_text raw_bytes (ar_mime_type r)),
             in_ref = Some (ar_artifact_id r)\<rparr>)
       (sort_key ar_created_at (filter (\<lambda>r. ar_session_id r = session_id) (db_artifacts d)))"

definition history_items :: "world \<Rightarrow> session_state \<Rightarrow> history_item list" where
  "history_items W state =
     map (\<lambda>ev. \<lparr>hi_kind = str_of W (dget_default ev ''kind'' (PStr ''message'')),
              hi_actor = str_of W (dget_default ev ''actor_username'' (PStr [])),
              hi_content = str_of W (dget_default ev ''payload'' (PDict []))\<rparr>) (ss_events state)"

definition local_policy :: "agent_card \<Rightarrow> (string \<times> string) list" where
  "local_policy c =
     [(''filesystem'', bnd_filesystem (card_boundaries c)), (''network'', bnd_network_access (card_boundaries c)),
      (''shell'', bnd_shell (card_boundaries c))]"

definition turn_request ::
  "world \<Rightarrow> bytes \<Rightarrow> string \<Rightarrow> session_row \<Rightarrow> session_state \<Rightarrow> agent_card \<Rightarrow> string \<Rightarrow> string \<Rightarrow> string \<Rightarrow> db
   \<Rightarrow> adapter_request" where
  "turn_request W vault_key session_id row state c local_agent_id peer_un objective_text d =
     \<lparr>rq_session_id = session_id, rq_session_type = (if sr_type row = [] then ''ask'' else sr_type row),
      rq_turn = ss_current_turn state, rq_self_agent_id = local_agent_id, rq_self_card = c,
      rq_peer_person = peer_un,
      rq_peer_agent_id = (case map_of (ss_participants state) peer_un of None \<Rightarrow> [] | Some p \<Rightarrow> pi_agent_id p),
      rq_objective = objective_text, rq_inputs = input_items W vault_key session_id d,
      rq_history = history_items W state, rq_local_policy = local_policy c\<rparr>"

text \<open>The card of the local agent: the encrypted local card, else the published one, which lacks its fields.\<close>

definition turn_card :: "world \<Rightarrow> bytes \<Rightarrow> string \<Rightarrow> db \<Rightarrow> agent_card result" where
  "turn_card W vault_key agent_id d =
     (case get_card agent_id d of
        None \<Rightarrow> Inl (AppError ''AGENT_CARD_NOT_FOUND'')
      | Some row \<Rightarrow>
          if otruthy (ag_local_card_json row)
          then (case decrypt_field W vault_key (ag_local_card_json row) of
                  Inl e \<Rightarrow> Inl e
                | Inr decrypted \<Rightarrow>
                    (case Option.bind decrypted (agent_card_validate_json W) of
                       None \<Rightarrow> Inl ValidationError
                     | Some c \<Rightarrow> Inr c))
          else if otruthy (ag_published_card_json row)
          then (case agent_card_validate_json W (the (ag_published_card_json row)) of
                  None \<Rightarrow> Inl ValidationError
                | Some c \<Rightarrow> Inr c)
          else Inl ValidationError)"

section \<open>The steps of a turn\<close>

datatype turn_outcome =
    TurnPaused string
  | TurnRetryable adapter_error_info
  | TurnFailed "adapter_error_info option"
  | TurnAwaiting string
  | TurnSent string int message_kind
  | TurnAdvanced

definition turn_refusal :: "session_state \<Rightarrow> string option" where
  "turn_refusal state =
     (if ss_status state \<in> set TERMINAL_STATES then Some ''TERMINAL_STATE''
      else if ss_status state = ''awaiting_owner_approval'' then Some ''AWAITING_OWNER_APPROVAL''
      else if ss_status state = ''paused'' then Some ''SESSION_PAUSED''
      else None)"

definition pause_exhausted ::
  "world \<Rightarrow> bytes \<Rightarrow> owner \<Rightarrow> string \<Rightarrow> string \<times> pyval \<Rightarrow> int \<Rightarrow> db \<Rightarrow> db \<times> turn_outcome result" where
  "pause_exhausted W vault_key ow session_id x now d =
     then_do (pause_session W vault_key ow session_id (exhausted_reason W x) now d) (\<lambda>_ d.
     then_do (write_audit_event W vault_key ''budget_exhausted'' (Some session_id) (Some (ow_username ow))
                (of_dict [(''exhausted_dimension'', PStr (fst x))]) None d) (\<lambda>_ d.
       (d, Inr (TurnPaused (fst x)))))"

definition TRANSIENT_CODES :: "string list" where
  "TRANSIENT_CODES = [''ADAPTER_TIMEOUT'', ''RATE_LIMITED'', ''PROCESS_TIMEOUT_KILLED'']"

definition adapter_failed ::
  "world \<Rightarrow> bytes \<Rightarrow> owner \<Rightarrow> string \<Rightarrow> adapter_error_info \<Rightarrow> int \<Rightarrow> db \<Rightarrow> db \<times> turn_outcome result" where
  "adapter_failed W vault_key ow session_id err now d =
     then_do (write_audit_event W vault_key ''adapter_error'' (Some session_id) (Some (ow_username ow))
                (of_dict [(''code'', PStr (ae_code err)), (''message'', PStr (ae_message err))]) None d) (\<lambda>_ d.
       if ae_code err \<in> set TRANSIENT_CODES then (d, Inr (TurnRetryable err))
       else then_do (apply_node_command_transition W vault_key session_id ''mark_failed'' now d)
              (\<lambda>_ d. (d, Inr (TurnFailed (Some err)))))"

definition fail_turn :: "world \<Rightarrow> bytes \<Rightarrow> string \<Rightarrow> int \<Rightarrow> string \<Rightarrow> db \<Rightarrow> db \<times> 'a result" where
  "fail_turn W vault_key session_id now code d =
     then_do (apply_node_command_transition W vault_key session_id ''mark_failed'' now d)
       (\<lambda>_ d. (d, Inl (AppError code)))"

fun record_activities ::
  "world \<Rightarrow> bytes \<Rightarrow> string \<Rightarrow> string \<Rightarrow> string \<Rightarrow> adapter_event list \<Rightarrow> db \<Rightarrow> db \<times> unit result" where
  "record_activities W vault_key session_id un ag [] d = (d, Inr ())"
| "record_activities W vault_key session_id un ag (ev # evs) d =
     (case ev of
        AdapterActivityEvent label \<Rightarrow>
          then_do (append_session_event W vault_key session_id un (Some ag) (internal_event_kind_value ACTIVITY)
                     ''local_only'' (of_dict [(''label'', PStr label)]) None None d)
            (\<lambda>_ d. record_activities W vault_key session_id un ag evs d)
      | _ \<Rightarrow> record_activities W vault_key session_id un ag evs d)"

text \<open>A pending approval is created and the session waits for the owner.\<close>

definition await_owner ::
  "world \<Rightarrow> bytes \<Rightarrow> string \<Rightarrow> approval_request \<Rightarrow> string \<Rightarrow> string \<Rightarrow> int \<Rightarrow> db \<Rightarrow> db \<times> string option result" where
  "await_owner W vault_key session_id rq agent_id expires_at now d =
     then_do (create_pending_approval W vault_key rq agent_id (arq_action_class rq) expires_at d) (\<lambda>_ d.
     then_do (apply_node_command_transition W vault_key session_id ''mark_awaiting_owner_approval'' now d) (\<lambda>_ d.
       (d, Inr (Some (arq_approval_id rq)))))"

definition day_from :: "world \<Rightarrow> int \<Rightarrow> string" where
  "day_from W now = iso_now W (now + 86400 * 1000000)"

fun request_approvals ::
  "world \<Rightarrow> bytes \<Rightarrow> agent_card \<Rightarrow> string \<Rightarrow> string \<Rightarrow> string \<Rightarrow> int \<Rightarrow> adapter_event list \<Rightarrow> db \<Rightarrow> db \<times> string option result" where
  "request_approvals W vault_key c session_id un ag now [] d = (d, Inr None)"
| "request_approvals W vault_key c session_id un ag now (ev # evs) d =
     (case ev of
        AdapterApprovalEvent rq \<Rightarrow>
          then_do (evaluate_action_for_session c (arq_action_class rq) [(''session_id'', PStr session_id)]
                     session_id (iso_now W now) d) (\<lambda>res d.
            case pr_decision res of
              PolicyDeny \<Rightarrow>
                then_do (write_audit_event W vault_key ''security_rejection'' (Some session_id) (Some un)
                           (of_dict [(''action_class'', PStr (action_class_value (arq_action_class rq)))]) None d)
                  (\<lambda>_ d. request_approvals W vault_key c session_id un ag now evs d)
            | PolicyRequiresApproval \<Rightarrow>
                await_owner W vault_key session_id rq ag (or_text (Some (arq_expires_at rq)) (day_from W now)) now d
            | PolicyAllow \<Rightarrow> request_approvals W vault_key c session_id un ag now evs d)
      | _ \<Rightarrow> request_approvals W vault_key c session_id un ag now evs d)"

definition message_approval :: "world \<Rightarrow> string \<Rightarrow> string \<Rightarrow> adapter_message \<Rightarrow> int \<Rightarrow> nat \<Rightarrow> approval_request" where
  "message_approval W session_id ag m now n =
     \<lparr>arq_approval_id = ''app_'' @ take 12 (filter (\<lambda>ch. ch \<noteq> CHR ''-'') (w_uuid W n)),
      arq_session_id = session_id, arq_agent_id = ag, arq_action_class = INFORMATIONAL_RELAY,
      arq_risk_label = MEDIUM, arq_requested_scope = [(''content'', PStr (take 100 (am_content m)))],
      arq_expires_at = day_from W now\<rparr>"

definition message_gate ::
  "world \<Rightarrow> bytes \<Rightarrow> agent_card \<Rightarrow> string \<Rightarrow> string \<Rightarrow> string \<Rightarrow> int \<Rightarrow> adapter_message option \<Rightarrow> db
   \<Rightarrow> db \<times> turn_outcome option result" where
  "message_gate W vault_key c session_id un ag now msg d =
     (case msg of
        None \<Rightarrow> (d, Inr None)
      | Some m \<Rightarrow>
          then_do (evaluate_action_for_session c INFORMATIONAL_RELAY
                     [(''session_id'', PStr session_id), (''kind'', PStr (message_kind_value (am_kind m)))]
                     session_id (iso_now W now) d) (\<lambda>res d.
            case pr_decision res of
              PolicyDeny \<Rightarrow>
                then_do (write_audit_event W vault_key ''security_rejection'' (Some session_id) (Some un)
                           (of_dict [(''kind'', PStr (message_kind_value (am_kind m)))]) None d) (\<lambda>_ d.
                then_do (apply_node_command_transition W vault_key session_id ''mark_failed'' now d) (\<lambda>_ d.
                  (d, Inr (Some (TurnFailed None)))))
            | PolicyRequiresApproval \<Rightarrow>
                then_do (await_owner W vault_key session_id (message_approval W session_id ag m now (db_tick d)) ag
                           (day_from W now) now (tick d))
                  (\<lambda>aid d. (d, Inr (map_option TurnAwaiting aid)))
            | PolicyAllow \<Rightarrow> (d, Inr None)))"

definition artifact_bytes :: "adapter_artifact_item \<Rightarrow> bytes" where
  "artifact_bytes a = (case ai_path_or_bytes a of TextBody s \<Rightarrow> utf8_encode s | BytesBody bs \<Rightarrow> bs)"

definition artifact_limit :: "agent_card \<Rightarrow> int" where
  "artifact_limit c =
     (let n = bnd_max_artifact_bytes (card_boundaries c) in if n = 0 then 1048576 else n)"

fun store_outputs ::
  "world \<Rightarrow> bytes \<Rightarrow> agent_card \<Rightarrow> string \<Rightarrow> string \<Rightarrow> int \<Rightarrow> adapter_artifact_item list \<Rightarrow> db \<Rightarrow> db \<times> unit result" where
  "store_outputs W vault_key c session_id un now [] d = (d, Inr ())"
| "store_outputs W vault_key c session_id un now (a # as) d =
     (case store_artifact W vault_key session_id (artifact_bytes a) (ai_mime_type a) un ''auto'' (artifact_limit c)
             ''adapter_output'' now None None d of
        (d1, Inr _) \<Rightarrow>
          store_outputs W vault_key c session_id un now as
            (increment_session_artifact_bytes session_id (int (length (artifact_bytes a))) d1)
      | (d1, Inl e) \<Rightarrow>
          if e = AppError ''ArtifactTooLargeError''
          then then_do (write_audit_event W vault_key ''security_rejection'' (Some session_id) (Some un)
                          (of_dict [(''artifact_size'', PInt (int (length (artifact_bytes a)))),
                                    (''max_bytes'', PInt (artifact_limit c))]) None d1)
                 (\<lambda>_ d. fail_turn W vault_key session_id now ''ARTIFACT_TOO_LARGE'' d)
          else (d1, Inl e))"

definition queue_output ::
  "world \<Rightarrow> bytes \<Rightarrow> string \<Rightarrow> int \<Rightarrow> string \<Rightarrow> message_kind \<Rightarrow> pydict \<Rightarrow> int \<Rightarrow> db \<Rightarrow> db \<times> unit result" where
  "queue_output W vault_key session_id sq recipient kind env now d =
     (case w_dumps_plain W (of_dict env) of
        None \<Rightarrow> (tick d, Inl TypeError)
      | Some raw_json \<Rightarrow>
          if list_ex (\<lambda>q. queue_key q = (session_id, sq, recipient)) (db_queue d) \<or> find_session d session_id = None
          then (tick d, Inl IntegrityError)
          else (tick (d\<lparr>db_queue := db_queue d @
                  [\<lparr>q_queue_id = ''q_'' @ take 12 (filter (\<lambda>ch. ch \<noteq> CHR ''-'') (w_uuid W (db_tick d))),
                    q_session_id = session_id, q_sequence = sq, q_recipient_username = recipient,
                    q_envelope_kind = message_kind_value kind,
                    q_envelope_json_enc = the (encrypt_field W vault_key (db_tick d) (Some raw_json)),
                    q_delivery_state = ''pending'', q_attempt_count = 0, q_next_retry_at = iso_now W now,
                    q_last_error = None, q_created_at = iso_now W now, q_updated_at = iso_now W now\<rparr>]\<rparr>),
                Inr ()))"

definition key_lookup :: "world \<Rightarrow> owner \<Rightarrow> (string \<Rightarrow> bytes option) option \<Rightarrow> string \<Rightarrow> bytes option" where
  "key_lookup W ow get_pk = (case get_pk of
      Some f \<Rightarrow> f
    | None \<Rightarrow> (\<lambda>un. Some (c_ed_public (w_crypto W) (ow_identity_key ow))))"

definition send_output ::
  "world \<Rightarrow> bytes \<Rightarrow> owner \<Rightarrow> string \<Rightarrow> string \<Rightarrow> string \<Rightarrow> (string \<Rightarrow> bytes option) option \<Rightarrow> adapter_message \<Rightarrow> int
   \<Rightarrow> db \<Rightarrow> db \<times> turn_outcome result" where
  "send_output W vault_key ow session_id ag peer_un get_pk m now d =
     (let sq = next_sequence session_id (Some (ow_username ow)) d in
      case signed_env_dict W (ow_identity_key ow) session_id sq (PStr (ow_username ow)) (PStr ag) (iso_now W now)
             (am_kind m) [(''content'', PStr (am_content m))] of
        Inl e \<Rightarrow> (d, Inl e)
      | Inr env \<Rightarrow>
          then_do (ingest_envelope W vault_key env (key_lookup W ow get_pk) now None None None d) (\<lambda>ack d.
          then_do (queue_output W vault_key session_id sq peer_un (am_kind m) env now d) (\<lambda>_ d.
            (d, Inr (TurnSent (ta_status ack) sq (am_kind m))))))"

text \<open>What happens to the response of the adapter.\<close>

definition handle_response ::
  "world \<Rightarrow> bytes \<Rightarrow> owner \<Rightarrow> string \<Rightarrow> agent_card \<Rightarrow> string \<Rightarrow> string \<Rightarrow> (string \<Rightarrow> bytes option) option
   \<Rightarrow> adapter_response \<Rightarrow> int \<Rightarrow> db \<Rightarrow> db \<times> turn_outcome result" where
  "handle_response W vault_key ow session_id c ag peer_un get_pk response now d =
     (case rsp_error response of
        Some err \<Rightarrow> adapter_failed W vault_key ow session_id err now d
      | None \<Rightarrow>
        then_do (validate_adapter_output W vault_key session_id response c d) (\<lambda>valid d.
        if \<not> valid then fail_turn W vault_key session_id now ''SECURITY_REJECTION'' d
        else then_do (record_activities W vault_key session_id (ow_username ow) ag (rsp_events response) d) (\<lambda>_ d.
        then_do (request_approvals W vault_key c session_id (ow_username ow) ag now (rsp_events response) d) (\<lambda>waiting d.
        case waiting of
          Some aid \<Rightarrow> (d, Inr (TurnAwaiting aid))
        | None \<Rightarrow>
          then_do (message_gate W vault_key c session_id (ow_username ow) ag now (rsp_message response) d) (\<lambda>stop d.
          case stop of
            Some outcome \<Rightarrow> (d, Inr outcome)
          | None \<Rightarrow>
            then_do (store_outputs W vault_key c session_id (ow_username ow) now (rsp_artifacts response) d) (\<lambda>_ d.
            case rsp_message response of
              None \<Rightarrow> (d, Inr TurnAdvanced)
            | Some m \<Rightarrow> send_output W vault_key ow session_id ag peer_un get_pk m now d))))))"

definition count_call :: "string \<Rightarrow> db \<Rightarrow> db" where
  "count_call session_id d =
     update_session session_id (\<lambda>r. r\<lparr>sr_cumulative_cost_estimate := sr_cumulative_cost_estimate r + 1\<rparr>) d"

text \<open>Everything a turn reads before the adapter is called.\<close>

record turn_context =
  tc_row :: session_row
  tc_state :: session_state
  tc_agent :: string
  tc_card :: agent_card
  tc_objective :: string

definition turn_inputs :: "world \<Rightarrow> bytes \<Rightarrow> owner \<Rightarrow> string \<Rightarrow> db \<Rightarrow> turn_context result" where
  "turn_inputs W vault_key ow session_id d =
     chain (reconstruct_session_state W vault_key session_id d) (\<lambda>found.
     case found of
       None \<Rightarrow> Inl (AppError ''SESSION_NOT_FOUND'')
     | Some state \<Rightarrow>
       (case turn_refusal state of
          Some code \<Rightarrow> Inl (AppError code)
        | None \<Rightarrow>
          (case map_of (ss_participants state) (ow_username ow) of
             None \<Rightarrow> Inl (AppError ''UNAUTHORIZED_PARTICIPANT'')
           | Some participant \<Rightarrow>
             chain (turn_card W vault_key (pi_agent_id participant) d) (\<lambda>c.
             case find_session d session_id of
               None \<Rightarrow> Inl (AppError ''SESSION_NOT_FOUND'')
             | Some row \<Rightarrow>
               chain (decrypt_field_or_plaintext W vault_key (sr_objective row)) (\<lambda>objective.
               Inr \<lparr>tc_row = row, tc_state = state, tc_agent = pi_agent_id participant, tc_card = c,
                    tc_objective = or_text objective []\<rparr>)))))"

definition advance_session_turn ::
  "world \<Rightarrow> bytes \<Rightarrow> owner \<Rightarrow> string \<Rightarrow> (agent_card \<Rightarrow> adapter_request \<Rightarrow> adapter_response result)
   \<Rightarrow> (string \<Rightarrow> bytes option) option \<Rightarrow> int \<Rightarrow> db \<Rightarrow> db \<times> turn_outcome result" where
  "advance_session_turn W vault_key ow session_id invoke get_pk now d =
     (case turn_inputs W vault_key ow session_id d of
        Inl e \<Rightarrow> (d, Inl e)
      | Inr tc \<Rightarrow>
        (let peer_un = other_party (ow_username ow) (sr_initiator_username (tc_row tc)) (sr_receiver_username (tc_row tc))
         in case exhausted_dimension W (tc_row tc) (tc_state tc) now of
              Inl e \<Rightarrow> (d, Inl e)
            | Inr (Some x) \<Rightarrow> pause_exhausted W vault_key ow session_id x now d
            | Inr None \<Rightarrow>
                (let request = turn_request W vault_key session_id (tc_row tc) (tc_state tc) (tc_card tc) (tc_agent tc)
                       peer_un (tc_objective tc) d
                 in case invoke (tc_card tc) request of
                      Inl e \<Rightarrow> (count_call session_id d, Inl e)
                    | Inr response \<Rightarrow>
                        handle_response W vault_key ow session_id (tc_card tc) (tc_agent tc) peer_un get_pk response now
                          (count_call session_id d))))"

section \<open>Nudges\<close>

fun latest_text :: "string list \<Rightarrow> string option" where
  "latest_text [] = None"
| "latest_text (x # xs) = (case latest_text xs of None \<Rightarrow> Some x | Some y \<Rightarrow> Some (max x y))"

definition last_status_event :: "string \<Rightarrow> string \<Rightarrow> db \<Rightarrow> string option" where
  "last_status_event session_id un d =
     latest_text (map er_created_at (filter (\<lambda>r. er_actor_username r = un \<and> er_kind r = ''status_event'')
       (session_events_of d session_id)))"

definition nudge_limited :: "world \<Rightarrow> string option \<Rightarrow> int \<Rightarrow> int \<Rightarrow> bool" where
  "nudge_limited W stamp now rate_limit_seconds =
     (case Option.bind stamp (\<lambda>s. if s = [] then None else w_aware W s) of
        None \<Rightarrow> False
      | Some t \<Rightarrow> now - t < rate_limit_seconds * 1000000)"

definition send_status_nudge ::
  "world \<Rightarrow> bytes \<Rightarrow> string \<Rightarrow> string \<Rightarrow> string \<Rightarrow> int \<Rightarrow> int \<Rightarrow> db \<Rightarrow> db \<times> append_result result" where
  "send_status_nudge W vault_key un session_id message_text now rate_limit_seconds d =
     (if nudge_limited W (last_status_event session_id un d) now rate_limit_seconds
      then (d, Inl (AppError ''RATE_LIMIT_EXCEEDED''))
      else append_session_event W vault_key session_id un (Some []) (message_kind_value STATUS_EVENT) ''peer_visible''
             (of_dict [(''nudge_message'', PStr message_text)]) None None d)"

section \<open>Handoffs\<close>

definition last_n :: "nat \<Rightarrow> 'a list \<Rightarrow> 'a list" where
  "last_n n xs = drop (length xs - n) xs"

definition shared_event :: "pydict \<Rightarrow> bool" where
  "shared_event ev =
     (dget ev ''visibility'' = PStr ''peer_visible''
      \<and> dget_default ev ''kind'' (PStr []) \<notin> set [PStr ''activity'', PStr ''status_event''])"

definition event_payload :: "pydict \<Rightarrow> pyval" where
  "event_payload ev = dget_default ev ''payload'' (PDict [])"

definition event_content :: "world \<Rightarrow> pydict \<Rightarrow> pyval" where
  "event_content W ev = (case event_payload ev of
      PDict kvs \<Rightarrow> (case map_of kvs (PStr ''content'') of None \<Rightarrow> PNone | Some v \<Rightarrow> v)
    | v \<Rightarrow> PStr (str_of W v))"

definition of_kind :: "message_kind \<Rightarrow> pydict \<Rightarrow> bool" where
  "of_kind k ev = (dget_default ev ''kind'' (PStr []) = PStr (message_kind_value k))"

definition handoff_package :: "world \<Rightarrow> pyval \<Rightarrow> string \<Rightarrow> pydict list \<Rightarrow> pydict" where
  "handoff_package W objective replacement_agent_id events =
     (let visible = filter shared_event events in
      [(''objective'', objective),
       (''open_questions'', PList (filter truthy (last_n 20 (map (event_content W) (filter (of_kind QUESTION) visible))))),
       (''replacement_agent_id'', PStr replacement_agent_id),
       (''verified_transcript'', PList (last_n 50 (map (\<lambda>ev. of_dict
          [(''actor'', dget_default ev ''actor_username'' (PStr [])), (''kind'', dget_default ev ''kind'' (PStr [])),
           (''content'', py_or (event_content W ev) (PStr []))]) visible))),
       (''accepted_artifacts'', PList (last_n 20 (map event_payload (filter (of_kind ARTIFACT_ACCEPT) visible)))),
       (''decisions'', PList (last_n 20 (map event_payload (filter (of_kind APPROVAL_DECISION) visible))))])"

definition handoff_announce ::
  "world \<Rightarrow> bytes \<Rightarrow> owner \<Rightarrow> string \<Rightarrow> bool \<Rightarrow> (string \<Rightarrow> bytes option) option \<Rightarrow> route \<Rightarrow> pydict \<Rightarrow> string option \<Rightarrow> int
   \<Rightarrow> db \<Rightarrow> db \<times> (string \<times> int option) result" where
  "handoff_announce W vault_key ow session_id has_x25519 get_pk rt package current now d =
     (if has_x25519
      then then_do (send_session_message W vault_key ow session_id PARTICIPANT_CHANGED package current rt now d) (\<lambda>res d.
             (d, Inr (sn_status res,
                      sql_max (map er_sequence (filter (\<lambda>r. er_actor_username r = ow_username ow)
                        (session_events_of d session_id))))))
      else let sq = next_sequence session_id (Some (ow_username ow)) d in
        case signed_env_dict W (ow_identity_key ow) session_id sq (PStr (ow_username ow)) (opt_str current)
               (iso_now W now) PARTICIPANT_CHANGED package of
          Inl e \<Rightarrow> (d, Inl e)
        | Inr env \<Rightarrow>
            then_do (ingest_envelope W vault_key env (key_lookup W ow get_pk) now None None None d) (\<lambda>ack d.
              (d, Inr (ta_status ack, Some sq))))"

definition replace_agent :: "bool \<Rightarrow> string \<Rightarrow> session_row \<Rightarrow> session_row" where
  "replace_agent sender replacement r =
     (if sender then r\<lparr>sr_sender_agent_id := Some replacement\<rparr> else r\<lparr>sr_receiver_agent_id := Some replacement\<rparr>)"

definition tag_in_handoff ::
  "world \<Rightarrow> bytes \<Rightarrow> owner \<Rightarrow> string \<Rightarrow> string \<Rightarrow> bool \<Rightarrow> (string \<Rightarrow> bytes option) option \<Rightarrow> route \<Rightarrow> int
   \<Rightarrow> db \<Rightarrow> db \<times> (string \<times> int option) result" where
  "tag_in_handoff W vault_key ow session_id replacement has_x25519 get_pk rt now d =
     (if (case get_card replacement d of None \<Rightarrow> True | Some ag \<Rightarrow> \<not> ag_enabled ag)
      then (d, Inl (AppError ''INVALID_REPLACEMENT_AGENT''))
      else case reconstruct_session_state W vault_key session_id d of
        Inl e \<Rightarrow> (d, Inl e)
      | Inr None \<Rightarrow> (d, Inl (AppError ''SESSION_NOT_FOUND''))
      | Inr (Some state) \<Rightarrow>
        (case find_session d session_id of
           None \<Rightarrow> (d, Inl TypeError)
         | Some row \<Rightarrow>
           (case decrypt_field_or_plaintext W vault_key (sr_objective row) of
              Inl e \<Rightarrow> (d, Inl e)
            | Inr objective \<Rightarrow>
              (let sender = (ow_username ow = ss_initiator_username state);
                   current = (if sender then sr_sender_agent_id row else sr_receiver_agent_id row);
                   package = handoff_package W (opt_str objective) replacement (ss_events state)
               in if current = Some replacement then (d, Inl (AppError ''SAME_AGENT''))
                  else then_do (handoff_announce W vault_key ow session_id has_x25519 get_pk rt package current now d)
                         (\<lambda>res d. (update_session session_id (replace_agent sender replacement) d, Inr res))))))"

section \<open>The orchestrator is a node operation\<close>

lemma progress_evaluate: "progress d (fst (evaluate_action_for_session c ac ctx sid t d))"
  by (auto simp: evaluate_action_for_session_def consume_approval_def Let_def
      intro!: progress_quiet split: option.split sum.split)

lemma quiet_approvals: "quiet d (tick (d\<lparr>db_approvals := rows\<rparr>))"
  by (simp add: quiet_def)

lemma quiet_audit_after:
  assumes "quiet d d1"
  shows "quiet d (fst (write_audit_event W k c sid un p cor d1))"
  using quiet_trans [OF assms same_quiet [OF write_audit_same]] by (metis prod.collapse)

lemma quiet_create_pending: "quiet d (fst (create_pending_approval W k rq ag ac ex d))"
proof -
  have "fst (case (x :: db \<times> string result) of (d', Inl e) \<Rightarrow> (d', Inl e) | (d', Inr _) \<Rightarrow> (d', Inr (i :: string))) = fst x" for x i
    by (auto split: prod.split sum.split)
  then show ?thesis
    by (simp add: create_pending_approval_def Let_def quiet_audit_after quiet_approvals)
qed

lemma progress_count_call: "progress d (count_call sid d)"
  unfolding count_call_def by (rule progress_update_session) simp_all

lemma progress_fail_turn: "progress d (fst (fail_turn W k sid now code d))"
  unfolding fail_turn_def by (rule progress_then_do [OF progress_node_command]) simp

lemma progress_pause_exhausted: "progress d (fst (pause_exhausted W k ow sid x now d))"
  unfolding pause_exhausted_def by (auto intro!: progress_then_do progress_pause progress_audit)

lemma progress_adapter_failed: "progress d (fst (adapter_failed W k ow sid err now d))"
  unfolding adapter_failed_def by (auto intro!: progress_then_do progress_audit progress_node_command)

lemma progress_validate: "progress d (fst (validate_adapter_output W k sid r c d))"
proof -
  have "progress d (fst (reject_output W k sid actor nt d))" for actor nt
    unfolding reject_output_def by (auto intro!: progress_then_do progress_audit)
  then show ?thesis
    unfolding validate_adapter_output_def by (auto split: option.split sum.split)
qed

lemma progress_activities: "progress d (fst (record_activities W k sid un ag evs d))"
  by (induction evs arbitrary: d) (auto intro!: progress_then_do progress_append split: adapter_event.split)

lemma progress_await: "progress d (fst (await_owner W k sid rq ag ex now d))"
  unfolding await_owner_def
  by (auto intro!: progress_then_do progress_node_command quiet_progress [OF quiet_create_pending])

lemma progress_approvals: "progress d (fst (request_approvals W k c sid un ag now evs d))"
  by (induction evs arbitrary: d)
    (auto intro!: progress_then_do progress_evaluate progress_audit progress_await
      split: adapter_event.split policy_decision.split)

lemma progress_message_gate: "progress d (fst (message_gate W k c sid un ag now msg d))"
  unfolding message_gate_def
  by (auto intro!: progress_then_do progress_evaluate progress_audit progress_node_command
      progress_trans [OF progress_tick progress_await] split: option.split policy_decision.split)

lemma progress_increment: "progress d (increment_session_artifact_bytes sid n d)"
  unfolding increment_session_artifact_bytes_def by (auto intro!: progress_update_session)

lemma progress_store_outputs: "progress d (fst (store_outputs W k c sid un now as d))"
proof (induction as arbitrary: d)
  case (Cons a as)
  obtain d1 r where s: "store_artifact W k sid (artifact_bytes a) (ai_mime_type a) un ''auto'' (artifact_limit c)
      ''adapter_output'' now None None d = (d1, r)" by force
  have p: "progress d d1" using quiet_progress [OF store_artifact_quiet] s by (metis fst_conv)
  have "progress d1 (fst (then_do (write_audit_event W k ca s1 u1 pa co d1) (\<lambda>_ d. fail_turn W k sid now code d :: db \<times> unit result)))"
    for ca s1 u1 pa co code
    by (auto intro!: progress_then_do progress_audit progress_fail_turn)
  with p progress_trans [OF progress_increment Cons.IH] show ?case
    by (auto simp: s split: sum.split intro: progress_trans)
qed simp

lemma quiet_queue_output: "quiet d (fst (queue_output W k sid sq rec kind env now d))"
  by (simp add: queue_output_def quiet_def split: option.split)

lemma progress_send_output: "progress d (fst (send_output W k ow sid ag peer gp m now d))"
  unfolding send_output_def Let_def
  by (auto intro!: progress_then_do progress_envelope quiet_progress [OF quiet_queue_output] split: sum.split)

lemma progress_handle: "progress d (fst (handle_response W k ow sid c ag peer gp r now d))"
  unfolding handle_response_def
  by (auto intro!: progress_then_do progress_adapter_failed progress_validate progress_fail_turn progress_activities
      progress_approvals progress_message_gate progress_store_outputs progress_send_output split: option.split)

lemma progress_advance: "progress d (fst (advance_session_turn W k ow sid ivk gp now d))"
  unfolding advance_session_turn_def Let_def
  by (auto intro!: progress_pause_exhausted progress_trans [OF progress_count_call progress_handle] progress_count_call
      split: option.split sum.split)

lemma progress_nudge: "progress d (fst (send_status_nudge W k un sid msg now lim d))"
  unfolding send_status_nudge_def by (auto intro: progress_append)

lemma progress_handoff: "progress d (fst (tag_in_handoff W k ow sid rep hx gp rt now d))"
proof -
  have a: "progress d (fst (handoff_announce W k ow sid hx gp rt pkg cur now d))" for pkg cur
    unfolding handoff_announce_def Let_def
    by (auto intro!: progress_then_do progress_envelope progress_send_message split: sum.split)
  have "progress d' (update_session sid (replace_agent b rep) d')" for b d'
    by (rule progress_update_session) (simp_all add: replace_agent_def)
  then have "progress d (fst (then_do (handoff_announce W k ow sid hx gp rt pkg cur now d)
      (\<lambda>res d. (update_session sid (replace_agent b rep) d, Inr res))))" for pkg cur b
    by (intro progress_then_do a) simp
  then show ?thesis
    unfolding tag_in_handoff_def Let_def by (auto split: option.split sum.split)
qed

section \<open>What a sent message has passed\<close>

lemma adapter_failed_unsent: "adapter_failed W k ow sid err now d \<noteq> (d', Inr (TurnSent st sq kind))"
  by (auto simp: adapter_failed_def elim!: then_do_Inr split: if_splits)

lemma fail_turn_raises: "fail_turn W k sid now code d \<noteq> (d', Inr x)"
  by (auto simp: fail_turn_def elim!: then_do_Inr)

lemma pause_exhausted_outcome: "pause_exhausted W k ow sid x now d = (d', Inr o1) \<Longrightarrow> o1 = TurnPaused (fst x)"
  by (auto simp: pause_exhausted_def elim!: then_do_Inr)

lemma message_gate_stop: "message_gate W k c sid un ag now msg d \<noteq> (d', Inr (Some (TurnSent st sq kind)))"
  by (auto simp: message_gate_def elim!: then_do_Inr split: option.splits policy_decision.splits)

text \<open>The way of a response to a sent message.\<close>

lemma handle_sent:
  assumes "handle_response W k ow sid c ag peer gp r now d = (d', Inr (TurnSent st sq kind))"
  obtains m d1 d2 d3 d4 where "validate_adapter_output W k sid r c d = (d, Inr True)"
    and "record_activities W k sid (ow_username ow) ag (rsp_events r) d = (d1, Inr ())"
    and "request_approvals W k c sid (ow_username ow) ag now (rsp_events r) d1 = (d2, Inr None)"
    and "message_gate W k c sid (ow_username ow) ag now (rsp_message r) d2 = (d3, Inr None)"
    and "store_outputs W k c sid (ow_username ow) now (rsp_artifacts r) d3 = (d4, Inr ())"
    and "rsp_message r = Some m" and "send_output W k ow sid ag peer gp m now d4 = (d', Inr (TurnSent st sq kind))"
proof -
  have "rsp_error r = None"
    using assms adapter_failed_unsent by (cases "rsp_error r") (auto simp: handle_response_def)
  note h = assms [unfolded handle_response_def this option.case]
  obtain d0 v where v: "validate_adapter_output W k sid r c d = (d0, Inr v)"
    and h1: "(if \<not> v then fail_turn W k sid now ''SECURITY_REJECTION'' d0
      else then_do (record_activities W k sid (ow_username ow) ag (rsp_events r) d0) (\<lambda>_ d.
        then_do (request_approvals W k c sid (ow_username ow) ag now (rsp_events r) d) (\<lambda>waiting d.
        case waiting of
          Some aid \<Rightarrow> (d, Inr (TurnAwaiting aid))
        | None \<Rightarrow>
          then_do (message_gate W k c sid (ow_username ow) ag now (rsp_message r) d) (\<lambda>stop d.
          case stop of
            Some outcome \<Rightarrow> (d, Inr outcome)
          | None \<Rightarrow>
            then_do (store_outputs W k c sid (ow_username ow) now (rsp_artifacts r) d) (\<lambda>_ d.
            case rsp_message r of
              None \<Rightarrow> (d, Inr TurnAdvanced)
            | Some m \<Rightarrow> send_output W k ow sid ag peer gp m now d))))) = (d', Inr (TurnSent st sq kind))"
    by (rule then_do_Inr [OF h])
  have v1: "v" using h1 by (cases v) (simp_all add: fail_turn_raises)
  then have d0: "d0 = d" using validated_output [of W k sid r c d d0] v by simp
  note h2 = h1 [unfolded d0, simplified v1 not_True_eq_False if_False]
  obtain d1 x1 where a1: "record_activities W k sid (ow_username ow) ag (rsp_events r) d = (d1, Inr x1)"
    and h3: "then_do (request_approvals W k c sid (ow_username ow) ag now (rsp_events r) d1) (\<lambda>waiting d.
        case waiting of
          Some aid \<Rightarrow> (d, Inr (TurnAwaiting aid))
        | None \<Rightarrow>
          then_do (message_gate W k c sid (ow_username ow) ag now (rsp_message r) d) (\<lambda>stop d.
          case stop of
            Some outcome \<Rightarrow> (d, Inr outcome)
          | None \<Rightarrow>
            then_do (store_outputs W k c sid (ow_username ow) now (rsp_artifacts r) d) (\<lambda>_ d.
            case rsp_message r of
              None \<Rightarrow> (d, Inr TurnAdvanced)
            | Some m \<Rightarrow> send_output W k ow sid ag peer gp m now d))) = (d', Inr (TurnSent st sq kind))"
    by (rule then_do_Inr [OF h2])
  obtain d2 where a2: "request_approvals W k c sid (ow_username ow) ag now (rsp_events r) d1 = (d2, Inr None)"
    and h4: "then_do (message_gate W k c sid (ow_username ow) ag now (rsp_message r) d2) (\<lambda>stop d.
          case stop of
            Some outcome \<Rightarrow> (d, Inr outcome)
          | None \<Rightarrow>
            then_do (store_outputs W k c sid (ow_username ow) now (rsp_artifacts r) d) (\<lambda>_ d.
            case rsp_message r of
              None \<Rightarrow> (d, Inr TurnAdvanced)
            | Some m \<Rightarrow> send_output W k ow sid ag peer gp m now d)) = (d', Inr (TurnSent st sq kind))"
    by (rule then_do_Inr [OF h3]) (auto split: option.splits)
  obtain d3 where a3: "message_gate W k c sid (ow_username ow) ag now (rsp_message r) d2 = (d3, Inr None)"
    and h5: "then_do (store_outputs W k c sid (ow_username ow) now (rsp_artifacts r) d3) (\<lambda>_ d.
            case rsp_message r of
              None \<Rightarrow> (d, Inr TurnAdvanced)
            | Some m \<Rightarrow> send_output W k ow sid ag peer gp m now d) = (d', Inr (TurnSent st sq kind))"
    by (rule then_do_Inr [OF h4]) (use message_gate_stop in \<open>auto split: option.splits\<close>)
  obtain d4 x4 m where "store_outputs W k c sid (ow_username ow) now (rsp_artifacts r) d3 = (d4, Inr x4)"
    and "rsp_message r = Some m" "send_output W k ow sid ag peer gp m now d4 = (d', Inr (TurnSent st sq kind))"
    by (rule then_do_Inr [OF h5]) (auto split: option.splits)
  with that v v1 d0 a1 a2 a3 show thesis by simp
qed

text \<open>Before a message is sent, approvals are only used up, never made.\<close>

definition approvals_used :: "db \<Rightarrow> db \<Rightarrow> bool" where
  "approvals_used d d' =
     (\<forall>row \<in> set (db_approvals d'). \<exists>r0 \<in> set (db_approvals d). row = r0 \<or> (\<exists>t. row = r0\<lparr>ap_consumed_at := Some t\<rparr>))"

lemma approvals_used_same: "db_approvals d' = db_approvals d \<Longrightarrow> approvals_used d d'"
  by (auto simp: approvals_used_def)

lemma approvals_used_trans:
  assumes "approvals_used a b" "approvals_used b c"
  shows "approvals_used a c"
  unfolding approvals_used_def
proof
  fix row assume "row \<in> set (db_approvals c)"
  then obtain r1 where r1: "r1 \<in> set (db_approvals b)" "row = r1 \<or> (\<exists>t. row = r1\<lparr>ap_consumed_at := Some t\<rparr>)"
    using assms(2) by (auto simp: approvals_used_def)
  then obtain r0 where "r0 \<in> set (db_approvals a)" "r1 = r0 \<or> (\<exists>t. r1 = r0\<lparr>ap_consumed_at := Some t\<rparr>)"
    using assms(1) by (auto simp: approvals_used_def)
  with r1(2) show "\<exists>r0 \<in> set (db_approvals a). row = r0 \<or> (\<exists>t. row = r0\<lparr>ap_consumed_at := Some t\<rparr>)"
    by (intro bexI [of _ r0]) auto
qed

lemma approvals_used_consume: "approvals_used d (consume_approval aid now d)"
proof -
  have "\<exists>r0 \<in> set (db_approvals d). row = r0 \<or> (\<exists>t. row = r0\<lparr>ap_consumed_at := Some t\<rparr>)"
    if "r \<in> set (db_approvals d)" "row = (if ap_approval_id r = aid then r\<lparr>ap_consumed_at := Some now\<rparr> else r)" for row r
    using that by (intro bexI [of _ r]) auto
  then show ?thesis unfolding approvals_used_def consume_approval_def by auto
qed

lemma approvals_used_evaluate:
  assumes "evaluate_action_for_session c ac ctx sid now d = (d', r)"
  shows "approvals_used d d'"
proof -
  have "d' = d \<or> (\<exists>aid. d' = consume_approval aid now d)"
    using assms by (auto simp: evaluate_action_for_session_def Let_def split: option.splits sum.splits if_splits)
  then show ?thesis using approvals_used_consume approvals_used_same by blast
qed

lemma approvals_used_audit: "write_audit_event W k ca s u p co d = (d', r) \<Longrightarrow> approvals_used d d'"
  by (rule approvals_used_same) (auto dest: write_audit_same simp: same_tables_def)

lemma approvals_used_append:
  "append_session_event W k sid un ag kind vis p sg sq d = (d', r) \<Longrightarrow> approvals_used d d'"
  by (rule approvals_used_same) (auto dest!: append_session_event_cases insert_session_event_cases simp: same_tables_def)

lemma approvals_used_activities:
  "record_activities W k sid un ag evs d = (d', Inr u) \<Longrightarrow> approvals_used d d'"
proof (induction evs arbitrary: d)
  case Nil
  then show ?case by (simp add: approvals_used_same)
next
  case (Cons ev evs)
  then show ?case
    by (auto split: adapter_event.splits elim!: then_do_Inr dest!: approvals_used_append intro: approvals_used_trans)
qed

lemma approvals_used_requests:
  "request_approvals W k c sid un ag now evs d = (d', Inr None) \<Longrightarrow> approvals_used d d'"
proof (induction evs arbitrary: d)
  case Nil
  then show ?case by (simp add: approvals_used_same)
next
  case (Cons ev evs)
  have aw: "await_owner W k sid rq ag ex now d1 \<noteq> (d', Inr None)" for rq ex d1
    by (auto simp: await_owner_def elim!: then_do_Inr)
  from Cons.prems show ?case
    by (auto simp: aw split: adapter_event.splits policy_decision.splits elim!: then_do_Inr
        dest!: Cons.IH approvals_used_evaluate approvals_used_audit)
      (meson approvals_used_trans)+
qed

lemma eligible_used:
  assumes "approvals_used d d'" "row \<in> set (db_approvals d')" "eligible_approval sid ag ac now row"
    and "ap_decision row = Some x"
  shows "\<exists>r0 \<in> set (db_approvals d). eligible_approval sid ag ac now r0 \<and> ap_decision r0 = Some x"
proof -
  obtain r0 where r0: "r0 \<in> set (db_approvals d)" "row = r0 \<or> (\<exists>t. row = r0\<lparr>ap_consumed_at := Some t\<rparr>)"
    using assms(1,2) by (auto simp: approvals_used_def)
  with assms(3,4) have "eligible_approval sid ag ac now r0 \<and> ap_decision r0 = Some x"
    by (auto simp: eligible_approval_def)
  with r0(1) show ?thesis by blast
qed

lemma message_gate_allow:
  assumes "message_gate W k c sid un ag now (Some m) d = (d', Inr None)"
  obtains ctx res where "evaluate_action_for_session c INFORMATIONAL_RELAY ctx sid (iso_now W now) d = (d', Inr res)"
    and "pr_decision res = PolicyAllow"
proof -
  have aw: "await_owner W k sid rq ag ex now d1 \<noteq> (d2, Inr None)" for rq ex d1 d2
    by (auto simp: await_owner_def elim!: then_do_Inr)
  from assms show thesis
    unfolding message_gate_def option.case
    by (rule then_do_Inr) (use that in \<open>auto simp: aw split: policy_decision.splits elim!: then_do_Inr\<close>)
qed

lemma send_output_queued:
  assumes "send_output W k ow sid ag peer gp m now d = (d', Inr (TurnSent st sq kind))"
  shows "kind = am_kind m
    \<and> (\<exists>q \<in> set (db_queue d'). queue_key q = (sid, sq, peer) \<and> q_delivery_state q = ''pending'')
    \<and> (\<exists>env ack d1. signed_env_dict W (ow_identity_key ow) sid sq (PStr (ow_username ow)) (PStr ag) (iso_now W now)
           kind [(''content'', PStr (am_content m))] = Inr env
         \<and> ingest_envelope W k env (key_lookup W ow gp) now None None None d = (d1, Inr ack) \<and> ta_status ack = st)"
proof -
  let ?sq = "next_sequence sid (Some (ow_username ow)) d"
  obtain env where env: "signed_env_dict W (ow_identity_key ow) sid ?sq (PStr (ow_username ow)) (PStr ag) (iso_now W now)
      (am_kind m) [(''content'', PStr (am_content m))] = Inr env"
    using assms by (auto simp: send_output_def Let_def split: sum.splits)
  note h = assms [unfolded send_output_def Let_def env sum.case]
  obtain d1 ack where ack: "ingest_envelope W k env (key_lookup W ow gp) now None None None d = (d1, Inr ack)"
    and h1: "then_do (queue_output W k sid ?sq peer (am_kind m) env now d1)
      (\<lambda>_ d. (d, Inr (TurnSent (ta_status ack) ?sq (am_kind m)))) = (d', Inr (TurnSent st sq kind))"
    by (rule then_do_Inr [OF h])
  obtain u where q: "queue_output W k sid ?sq peer (am_kind m) env now d1 = (d', Inr u)"
    and eq: "ta_status ack = st" "?sq = sq" "am_kind m = kind"
    by (rule then_do_Inr [OF h1]) auto
  have "\<exists>q \<in> set (db_queue d'). queue_key q = (sid, sq, peer) \<and> q_delivery_state q = ''pending''"
    using q eq(2) by (auto simp: queue_output_def queue_key_def split: option.splits if_splits)
  with env ack eq show ?thesis by auto
qed

lemma turn_inputs_open:
  assumes "turn_inputs W k ow sid d = Inr tc"
  shows "turn_refusal (tc_state tc) = None"
proof -
  obtain found where found: "reconstruct_session_state W k sid d = Inr found"
    using assms by (auto simp: turn_inputs_def chain_Inr)
  note t = assms [unfolded turn_inputs_def found chain_simps]
  obtain state where st: "found = Some state" "turn_refusal state = None"
    using t by (cases found; cases "turn_refusal (the found)") auto
  note t2 = t [unfolded st option.case]
  obtain participant where p: "map_of (ss_participants state) (ow_username ow) = Some participant"
    using t2 by (cases "map_of (ss_participants state) (ow_username ow)") auto
  note t3 = t2 [unfolded p option.case]
  obtain c where c: "turn_card W k (pi_agent_id participant) d = Inr c" using t3 by (auto simp: chain_Inr)
  note t4 = t3 [unfolded c chain_simps]
  obtain row where row: "find_session d sid = Some row" using t4 by (cases "find_session d sid") auto
  have "tc_state tc = state" using t4 [unfolded row option.case] by (auto simp: chain_Inr)
  with st(2) show ?thesis by simp
qed

section \<open>Properties\<close>


text \<open>Alice's agent answers in a session of hers.\<close>

definition demo_turn_world :: world where
  "demo_turn_world = demo_light_world\<lparr>w_loads := (\<lambda>s. if s = ''card'' then Some (of_dict (butlast demo_card_dict
     @ [(''autonomy'', of_dict [(''relay_information'', PStr ''always_allow'')])])) else w_loads demo_world s)\<rparr>"

definition demo_turn_db :: db where
  "demo_turn_db = demo_sent\<lparr>db_agents := [\<lparr>ag_agent_id = ''a1'', ag_name = ''Ann'', ag_adapter_type = ''embedded'',
     ag_local_card_json = None, ag_published_card_json = Some ''card'', ag_enabled = True, ag_availability = ''ready'',
     ag_created_at = [], ag_updated_at = [], ag_card_version = 1\<rparr>]\<rparr>"

definition demo_turn :: "int \<Rightarrow> db \<times> turn_outcome result" where
  "demo_turn now = advance_session_turn demo_turn_world [9] demo_owner ''sess_u'' (\<lambda>c rq. Inr demo_response) None now
     demo_turn_db"

lemma demo_turn_sent: "snd (demo_turn (- 1)) = Inr (TurnSent ''delivered'' 2 PROPOSAL)"
  by code_simp


text \<open>
  C26. The adapter is consulted within the budgets only: if the result of a turn depends on what the
  adapter answers, then the session was open, its turn counter was below its limit, its runtime, its
  stored bytes and its adapter calls were below their budgets, and the adapters differ in their answer
  to the one request the turn builds. Otherwise the adapter is not called.
\<close>

theorem adapter_called_within_budget:
  assumes "advance_session_turn W k ow sid ivk gp now d \<noteq> advance_session_turn W k ow sid ivk' gp now d"
  shows "\<exists>tc. turn_inputs W k ow sid d = Inr tc
    \<and> ss_status (tc_state tc) \<notin> set TERMINAL_STATES \<union> {''awaiting_owner_approval'', ''paused''}
    \<and> ss_current_turn (tc_state tc) < sr_turn_limit (tc_row tc)
    \<and> runtime_reached W (tc_row tc) now = Inr False
    \<and> budget_reached W (sr_cumulative_artifact_bytes (tc_row tc)) 1 (sr_artifact_bytes_budget (tc_row tc)) = Inr False
    \<and> budget_reached W (sr_cumulative_cost_estimate (tc_row tc)) 1 (sr_cost_budget_estimate (tc_row tc)) = Inr False
    \<and> (let request = turn_request W k sid (tc_row tc) (tc_state tc) (tc_card tc) (tc_agent tc)
             (other_party (ow_username ow) (sr_initiator_username (tc_row tc)) (sr_receiver_username (tc_row tc)))
             (tc_objective tc) d
       in ivk (tc_card tc) request \<noteq> ivk' (tc_card tc) request)"
proof -
  obtain tc where tc: "turn_inputs W k ow sid d = Inr tc"
    using assms by (cases "turn_inputs W k ow sid d") (simp_all add: advance_session_turn_def)
  note a = assms [unfolded advance_session_turn_def tc sum.case Let_def]
  have ex: "exhausted_dimension W (tc_row tc) (tc_state tc) now = Inr None"
    using a by (auto split: sum.splits option.splits)
  have "ss_current_turn (tc_state tc) < sr_turn_limit (tc_row tc)"
    "runtime_reached W (tc_row tc) now = Inr False"
    "budget_reached W (sr_cumulative_artifact_bytes (tc_row tc)) 1 (sr_artifact_bytes_budget (tc_row tc)) = Inr False"
    "budget_reached W (sr_cumulative_cost_estimate (tc_row tc)) 1 (sr_cost_budget_estimate (tc_row tc)) = Inr False"
    using ex by (auto simp: exhausted_dimension_def chain_Inr split: if_splits)
  moreover have "ss_status (tc_state tc) \<notin> set TERMINAL_STATES \<union> {''awaiting_owner_approval'', ''paused''}"
    using turn_inputs_open [OF tc] by (simp add: turn_refusal_def split: if_splits)
  ultimately show ?thesis using tc a by (auto simp: ex Let_def)
qed

theorem adapter_called_within_budget_witness:
  "\<exists>tc. turn_inputs demo_turn_world [9] demo_owner ''sess_u'' demo_turn_db = Inr tc
     \<and> ss_current_turn (tc_state tc) < sr_turn_limit (tc_row tc)"
proof -
  have "snd (advance_session_turn demo_turn_world [9] demo_owner ''sess_u'' (\<lambda>c rq. Inl ValueError) None (- 1) demo_turn_db)
      = Inl ValueError" by code_simp
  then have "advance_session_turn demo_turn_world [9] demo_owner ''sess_u'' (\<lambda>c rq. Inr demo_response) None (- 1) demo_turn_db
      \<noteq> advance_session_turn demo_turn_world [9] demo_owner ''sess_u'' (\<lambda>c rq. Inl ValueError) None (- 1) demo_turn_db"
    using demo_turn_sent by (auto simp: demo_turn_def)
  from adapter_called_within_budget [OF this] show ?thesis by blast
qed

end
