(* ===== verification/Kin_Depth.thy ===== *)
theory Kin_Depth
  imports Kin_Orchestrator "HOL-Library.Multiset"
begin

text \<open>
  Readiness, reservations, quality signals and playbooks of \<open>kin-node/kin/collaboration_depth.py\<close>. The two
  tables of the component are the record \<open>depth\<close>; the other tables are only read.

  A rate is the pair of its numerator and denominator. The JSON form of a playbook and pydantic's lax
  float are fields of \<open>depth_env\<close>.
\<close>

section \<open>State\<close>

record reservation_row =
  rs_reservation_id :: string
  rs_agent_id :: string
  rs_owner_username :: string
  rs_starts_at :: string
  rs_ends_at :: string
  rs_status :: string
  rs_created_at :: string

record playbook =
  pb_playbook_id :: string
  pb_name :: string
  pb_source_session_id :: "string option"
  pb_session_type :: string
  pb_objective_template :: string
  pb_required_peer_capabilities :: "string list"
  pb_turn_limit :: int
  pb_runtime_budget_seconds :: "int option"
  pb_artifact_bytes_budget :: "int option"
  pb_cost_budget_estimate :: pyval
  pb_approval_defaults :: "(string \<times> string) list"

record playbook_row =
  py_playbook_id :: string
  py_name :: string
  py_source_session_id :: string
  py_template_json_enc :: string
  py_created_at :: string
  py_updated_at :: string

record depth =
  dp_reservations :: "reservation_row list"
  dp_playbooks :: "playbook_row list"
  dp_tick :: nat

record depth_env =
  de_world :: world
  de_playbook_json :: "playbook \<Rightarrow> string"
  de_playbook_validate :: "string \<Rightarrow> playbook option"
  de_lax_float :: "pyval \<Rightarrow> pyval option"

text \<open>\<open>_utc\<close> of a text, and \<open>_iso\<close> of a UTC time, which always ends in the UTC offset.\<close>

definition utc_of :: "world \<Rightarrow> string \<Rightarrow> int result" where
  "utc_of W s = (case w_aware W s of None \<Rightarrow> Inl ValueError | Some t \<Rightarrow> Inr t)"

section \<open>Reservations\<close>

definition overlaps :: "string \<Rightarrow> string \<Rightarrow> string \<Rightarrow> reservation_row \<Rightarrow> bool" where
  "overlaps agent_id start stop r =
     (rs_agent_id r = agent_id \<and> rs_status r = ''active'' \<and> rs_starts_at r < stop \<and> start < rs_ends_at r)"

definition reserve_agent ::
  "world \<Rightarrow> string \<Rightarrow> string \<Rightarrow> string \<Rightarrow> string \<Rightarrow> db \<Rightarrow> depth \<Rightarrow> depth \<times> reservation_row result" where
  "reserve_agent W agent_id owner_username starts_at ends_at d s =
     (case utc_of W starts_at of
        Inl e \<Rightarrow> (s, Inl e)
      | Inr start \<Rightarrow>
        (case utc_of W ends_at of
           Inl e \<Rightarrow> (s, Inl e)
         | Inr stop \<Rightarrow>
           if stop \<le> start then (s, Inl ValueError)
           else if \<not> list_ex (\<lambda>a. ag_agent_id a = agent_id) (db_agents d) then (s, Inl ValueError)
           else if list_ex (overlaps agent_id (iso_now W start) (iso_now W stop)) (dp_reservations s) then (s, Inl ValueError)
           else let n = dp_tick s;
                    row = \<lparr>rs_reservation_id = ''res_'' @ filter (\<lambda>ch. ch \<noteq> CHR ''-'') (w_uuid W n), rs_agent_id = agent_id,
                      rs_owner_username = owner_username, rs_starts_at = iso_now W start, rs_ends_at = iso_now W stop,
                      rs_status = ''active'', rs_created_at = iso_now W (w_clock W n)\<rparr>
                in (s\<lparr>dp_reservations := dp_reservations s @ [row], dp_tick := Suc n\<rparr>, Inr row)))"

section \<open>Readiness and quality\<close>

record readiness =
  rd_agent_id :: string
  rd_name :: string
  rd_availability :: agent_availability
  rd_recommended :: bool

definition reserved_at :: "string \<Rightarrow> depth \<Rightarrow> string \<Rightarrow> bool" where
  "reserved_at moment s agent_id =
     list_ex (\<lambda>r. rs_agent_id r = agent_id \<and> rs_status r = ''active'' \<and> rs_starts_at r \<le> moment \<and> moment < rs_ends_at r)
       (dp_reservations s)"

definition agent_readiness :: "string \<Rightarrow> depth \<Rightarrow> agent_row \<Rightarrow> readiness" where
  "agent_readiness moment s a =
     (let availability =
            (if \<not> ag_enabled a then POLICY_BLOCKED
             else if reserved_at moment s (ag_agent_id a) then RESERVED
             else case availability_of (ag_availability a) of None \<Rightarrow> OFFLINE | Some x \<Rightarrow> x)
      in \<lparr>rd_agent_id = ag_agent_id a, rd_name = ag_name a, rd_availability = availability,
          rd_recommended = (availability = READY)\<rparr>)"

text \<open>Sorting by \<open>(not recommended, name, agent_id)\<close>, as three stable sorts.\<close>

definition readiness_recommendations :: "world \<Rightarrow> int \<Rightarrow> db \<Rightarrow> depth \<Rightarrow> readiness list" where
  "readiness_recommendations W at d s =
     sort_key (\<lambda>r. if rd_recommended r then 0 else (1 :: nat)) (sort_key rd_name (sort_key rd_agent_id
       (map (agent_readiness (iso_now W at) s) (db_agents d))))"

record quality_signal =
  ql_completed_sessions :: nat
  ql_total_sessions :: nat
  ql_completion_rate :: "nat \<times> nat"
  ql_duration :: "(int \<times> nat) option" \<comment> \<open>total microseconds and their count\<close>

fun durations :: "world \<Rightarrow> session_row list \<Rightarrow> int list result" where
  "durations W [] = Inr []"
| "durations W (r # rs) =
     chain (utc_of W (sr_updated_at r)) (\<lambda>u.
     chain (utc_of W (sr_created_at r)) (\<lambda>c.
     chain (durations W rs) (\<lambda>ds. Inr (max 0 (u - c) # ds))))"

definition local_quality_signal :: "world \<Rightarrow> string \<Rightarrow> db \<Rightarrow> quality_signal result" where
  "local_quality_signal W agent_id d =
     (let rows = filter (\<lambda>r. sr_sender_agent_id r = Some agent_id \<or> sr_receiver_agent_id r = Some agent_id) (db_sessions d);
          completed = filter (\<lambda>r. sr_status r = ''completed'') rows
      in chain (durations W completed) (\<lambda>ds.
         Inr \<lparr>ql_completed_sessions = length completed, ql_total_sessions = length rows,
              ql_completion_rate = (if rows = [] then (0, 1) else (length completed, length rows)),
              ql_duration = (if ds = [] then None else Some (sum_list ds, length ds))\<rparr>))"

section \<open>Playbooks\<close>

definition lax_int_or_none :: "world \<Rightarrow> pyval \<Rightarrow> int option result" where
  "lax_int_or_none W v =
     (if v = PNone then Inr None
      else case c_lax_int (w_crypto W) v of None \<Rightarrow> Inl ValidationError | Some i \<Rightarrow> Inr (Some i))"

definition published_tags :: "world \<Rightarrow> string \<Rightarrow> string list result" where
  "published_tags W card_json =
     (case Option.bind (Option.bind (w_loads W card_json) as_str_dict) (published_card_validate (w_crypto W)) of
        None \<Rightarrow> Inl ValidationError
      | Some pub \<Rightarrow> Inr (cap_tags (pub_capabilities pub)))"

definition lax_float_or_none :: "depth_env \<Rightarrow> pyval \<Rightarrow> pyval result" where
  "lax_float_or_none E v =
     (if v = PNone then Inr PNone
      else case de_lax_float E v of None \<Rightarrow> Inl ValidationError | Some x \<Rightarrow> Inr x)"

definition template_of :: "depth_env \<Rightarrow> bytes \<Rightarrow> session_row \<Rightarrow> string \<Rightarrow> string \<Rightarrow> db \<Rightarrow> playbook result" where
  "template_of E vault_key row name playbook_id d =
     (let W = de_world E in
      chain (case Option.bind (sr_receiver_agent_id row) (find_peer_card d (sr_receiver_username row)) of
               None \<Rightarrow> Inr [] | Some pc \<Rightarrow> published_tags W (pc_card_json pc)) (\<lambda>capabilities.
      chain (decrypt_field_or_plaintext W vault_key (sr_objective row)) (\<lambda>objective.
      chain (lax_int_or_none W (read_number W (sr_runtime_budget_seconds row))) (\<lambda>runtime.
      chain (lax_int_or_none W (read_number W (sr_artifact_bytes_budget row))) (\<lambda>bytes.
      chain (lax_float_or_none E (read_number W (sr_cost_budget_estimate row))) (\<lambda>cost.
        Inr \<lparr>pb_playbook_id = playbook_id, pb_name = or_text (Some (strip name)) ''Session playbook'',
             pb_source_session_id = Some (sr_session_id row), pb_session_type = sr_type row,
             pb_objective_template = or_text objective [], pb_required_peer_capabilities = capabilities,
             pb_turn_limit = sr_turn_limit row, pb_runtime_budget_seconds = runtime, pb_artifact_bytes_budget = bytes,
             pb_cost_budget_estimate = cost, pb_approval_defaults = [(''consequential_actions'', ''always_ask'')]\<rparr>))))))"

definition create_playbook_from_session ::
  "depth_env \<Rightarrow> bytes \<Rightarrow> string \<Rightarrow> string \<Rightarrow> db \<Rightarrow> depth \<Rightarrow> depth \<times> playbook result" where
  "create_playbook_from_session E vault_key session_id name d s =
     (case find_session d session_id of
        None \<Rightarrow> (s, Inl ValueError)
      | Some row \<Rightarrow>
          if sr_status row \<noteq> ''completed'' then (s, Inl ValueError)
          else if \<not> list_ex (\<lambda>e. er_kind e = ''outcome'') (session_events_of d session_id) then (s, Inl ValueError)
          else let W = de_world E; n = dp_tick s in
            case template_of E vault_key row name (''pb_'' @ filter (\<lambda>ch. ch \<noteq> CHR ''-'') (w_uuid W n)) d of
              Inl e \<Rightarrow> (s, Inl e)
            | Inr pb \<Rightarrow>
                (s\<lparr>dp_playbooks := dp_playbooks s @ [\<lparr>py_playbook_id = pb_playbook_id pb, py_name = pb_name pb,
                     py_source_session_id = session_id,
                     py_template_json_enc = the (encrypt_field W vault_key n (Some (de_playbook_json E pb))),
                     py_created_at = iso_now W (w_clock W n), py_updated_at = iso_now W (w_clock W n)\<rparr>],
                   dp_tick := Suc n\<rparr>, Inr pb))"

record playbook_draft =
  pd_playbook_id :: string
  pd_session_type :: string
  pd_objective :: string
  pd_sender_agent_id :: string
  pd_peer_username :: string
  pd_receiver_agent_id :: string
  pd_turn_limit :: int
  pd_runtime_budget_seconds :: "int option"
  pd_artifact_bytes_budget :: "int option"
  pd_cost_budget_estimate :: pyval
  pd_status :: string
  pd_carried_approval_count :: int

definition unready_states :: "string list" where
  "unready_states = [''policy_blocked'', ''offline'', ''needs_key'', ''needs_workspace'']"

definition open_playbook_draft ::
  "depth_env \<Rightarrow> bytes \<Rightarrow> string \<Rightarrow> string \<Rightarrow> string \<Rightarrow> string \<Rightarrow> db \<Rightarrow> depth \<Rightarrow> playbook_draft result" where
  "open_playbook_draft E vault_key playbook_id sender_agent_id peer_username receiver_agent_id d s =
     (let W = de_world E in
      case find (\<lambda>r. py_playbook_id r = playbook_id) (dp_playbooks s) of
        None \<Rightarrow> Inl ValueError
      | Some row \<Rightarrow>
          chain (decrypt_field W vault_key (Some (py_template_json_enc row))) (\<lambda>decrypted.
          case de_playbook_validate E (or_text decrypted ''{}'') of
            None \<Rightarrow> Inl ValidationError
          | Some pb \<Rightarrow>
              (case get_card sender_agent_id d of
                 None \<Rightarrow> Inl ValueError
               | Some a \<Rightarrow>
                   if \<not> ag_enabled a \<or> ag_availability a \<in> set unready_states then Inl ValueError
                   else case find_peer_card d peer_username receiver_agent_id of
                     None \<Rightarrow> Inl ValueError
                   | Some pc \<Rightarrow>
                       if pc_status pc = ''stale'' then Inl ValueError
                       else chain (published_tags W (pc_card_json pc)) (\<lambda>tags.
                         if \<not> set (pb_required_peer_capabilities pb) \<subseteq> set tags then Inl ValueError
                         else Inr \<lparr>pd_playbook_id = playbook_id, pd_session_type = pb_session_type pb,
                              pd_objective = pb_objective_template pb, pd_sender_agent_id = sender_agent_id,
                              pd_peer_username = peer_username, pd_receiver_agent_id = receiver_agent_id,
                              pd_turn_limit = pb_turn_limit pb, pd_runtime_budget_seconds = pb_runtime_budget_seconds pb,
                              pd_artifact_bytes_budget = pb_artifact_bytes_budget pb,
                              pd_cost_budget_estimate = pb_cost_budget_estimate pb, pd_status = ''draft'',
                              pd_carried_approval_count = 0\<rparr>))))"

lemma template_fields:
  assumes "template_of E k row name pid d = Inr pb"
  shows "pb_playbook_id pb = pid \<and> (\<exists>objective. decrypt_field_or_plaintext (de_world E) k (sr_objective row) = Inr objective
    \<and> pb_objective_template pb = or_text objective []) \<and> pb_session_type pb = sr_type row \<and> pb_turn_limit pb = sr_turn_limit row"
  using assms unfolding template_of_def Let_def chain_Inr by (elim exE conjE) (force simp only: sum.inject playbook.simps)

section \<open>Reservations do not overlap\<close>

text \<open>A set of times whose texts compare as the times do; whole seconds of four-digit years are one.\<close>

definition ordered_stamps :: "world \<Rightarrow> int set \<Rightarrow> bool" where
  "ordered_stamps W T = (\<forall>s \<in> T. \<forall>t \<in> T. (iso_now W s < iso_now W t) = (s < t))"

definition window :: "world \<Rightarrow> int set \<Rightarrow> reservation_row \<Rightarrow> int \<Rightarrow> int \<Rightarrow> bool" where
  "window W T r s e = (s \<in> T \<and> e \<in> T \<and> s < e \<and> rs_starts_at r = iso_now W s \<and> rs_ends_at r = iso_now W e)"

definition disjoint_rows :: "reservation_row \<Rightarrow> reservation_row \<Rightarrow> bool" where
  "disjoint_rows r r' = (rs_agent_id r = rs_agent_id r' \<and> rs_status r = ''active'' \<and> rs_status r' = ''active''
     \<longrightarrow> \<not> (rs_starts_at r < rs_ends_at r' \<and> rs_starts_at r' < rs_ends_at r))"

definition reservations_inv :: "world \<Rightarrow> int set \<Rightarrow> reservation_row list \<Rightarrow> bool" where
  "reservations_inv W T rs = ((\<forall>r \<in> set rs. \<exists>s e. window W T r s e) \<and> sorted_wrt disjoint_rows rs)"

lemma reserve_cases:
  assumes "reserve_agent W a ow st en d s = (s', r)"
  obtains (refused) e where "s' = s" and "r = Inl e"
  | (made) t u row where "w_aware W st = Some t" and "w_aware W en = Some u" and "t < u" and "r = Inr row"
      and "dp_reservations s' = dp_reservations s @ [row]" and "rs_agent_id row = a" and "rs_status row = ''active''"
      and "rs_starts_at row = iso_now W t" and "rs_ends_at row = iso_now W u"
      and "\<forall>x \<in> set (dp_reservations s). \<not> overlaps a (iso_now W t) (iso_now W u) x"
proof (cases r)
  case (Inl e)
  with assms refused show thesis
    by (auto simp: reserve_agent_def Let_def split: sum.splits if_splits)
next
  case (Inr row)
  with assms made show thesis
    by (auto simp: reserve_agent_def utc_of_def Let_def list_ex_iff split: sum.splits if_splits option.splits)
qed

lemma reserve_inv:
  assumes "reserve_agent W a ow st en d s = (s', r)" and "reservations_inv W T (dp_reservations s)"
    and "\<And>t. w_aware W st = Some t \<or> w_aware W en = Some t \<Longrightarrow> t \<in> T"
  shows "reservations_inv W T (dp_reservations s')"
  using assms(1)
proof (cases rule: reserve_cases)
  case (refused e)
  with assms(2) show ?thesis by simp
next
  case (made t u row)
  have "window W T row t u" using made assms(3) by (simp add: window_def)
  moreover have "disjoint_rows x row" if "x \<in> set (dp_reservations s)" for x
    using made(6-10) that by (auto simp: disjoint_rows_def overlaps_def)
  ultimately show ?thesis
    using assms(2) made(5) by (auto simp: reservations_inv_def sorted_wrt_append)
qed

definition reserve_all ::
  "world \<Rightarrow> db \<Rightarrow> (string \<times> string \<times> string \<times> string) list \<Rightarrow> depth \<Rightarrow> depth" where
  "reserve_all W d rqs s = fold (\<lambda>(a, ow, st, en) s. fst (reserve_agent W a ow st en d s)) rqs s"

lemma reserve_all_inv:
  "reservations_inv W T (dp_reservations s) \<Longrightarrow>
   (\<And>a ow st en t. (a, ow, st, en) \<in> set rqs \<Longrightarrow> w_aware W st = Some t \<or> w_aware W en = Some t \<Longrightarrow> t \<in> T) \<Longrightarrow>
   reservations_inv W T (dp_reservations (reserve_all W d rqs s))"
proof (induction rqs arbitrary: s)
  case Nil
  then show ?case by (simp add: reserve_all_def)
next
  case (Cons rq rqs)
  obtain a ow st en where rq: "rq = (a, ow, st, en)" by (cases rq)
  obtain s1 r where r: "reserve_agent W a ow st en d s = (s1, r)" by force
  have inv1: "reservations_inv W T (dp_reservations s1)"
    by (rule reserve_inv [OF r Cons.prems(1)]) (rule Cons.prems(2) [of a ow st en], simp_all add: rq)
  have "t \<in> T" if "(a', ow', st', en') \<in> set rqs" "w_aware W st' = Some t \<or> w_aware W en' = Some t" for a' ow' st' en' t
    by (rule Cons.prems(2) [of a' ow' st' en' t]) (use that in simp_all)
  from Cons.IH [OF inv1 this] show ?case by (simp add: reserve_all_def rq r)
qed

section \<open>Properties\<close>

text \<open>
  C30. An agent is never booked twice: after any sequence of reservation requests, the windows of two
  active reservations of one agent do not overlap in time, provided the times that were asked for compare
  as their texts do (the database compares texts; whole seconds do).
\<close>

theorem reservations_never_overlap:
  assumes "ordered_stamps W T"
    and "\<And>a ow st en t. (a, ow, st, en) \<in> set rqs \<Longrightarrow> w_aware W st = Some t \<or> w_aware W en = Some t \<Longrightarrow> t \<in> T"
    and "rs = dp_reservations (reserve_all W d rqs \<lparr>dp_reservations = [], dp_playbooks = [], dp_tick = n\<rparr>)"
    and "i < j" and "j < length rs" and "rs_agent_id (rs ! i) = rs_agent_id (rs ! j)"
    and "rs_status (rs ! i) = ''active''" and "rs_status (rs ! j) = ''active''"
  shows "\<exists>s e s' e'. window W T (rs ! i) s e \<and> window W T (rs ! j) s' e' \<and> (e \<le> s' \<or> e' \<le> s)"
proof -
  have inv: "reservations_inv W T rs"
    unfolding assms(3) by (rule reserve_all_inv) (use assms(2) in \<open>auto simp: reservations_inv_def\<close>)
  have m: "rs ! i \<in> set rs" "rs ! j \<in> set rs" using assms(4,5) by (auto intro!: nth_mem)
  obtain s e where w: "window W T (rs ! i) s e" using inv m(1) by (auto simp: reservations_inv_def)
  obtain s' e' where w': "window W T (rs ! j) s' e'" using inv m(2) by (auto simp: reservations_inv_def)
  have "disjoint_rows (rs ! i) (rs ! j)"
    using inv assms(4,5) by (auto simp: reservations_inv_def sorted_wrt_iff_nth_less)
  then have "\<not> (rs_starts_at (rs ! i) < rs_ends_at (rs ! j) \<and> rs_starts_at (rs ! j) < rs_ends_at (rs ! i))"
    using assms(6-8) by (simp add: disjoint_rows_def)
  then have "\<not> (s < e' \<and> s' < e)"
    using w w' assms(1) by (simp add: window_def ordered_stamps_def)
  with w w' show ?thesis by (intro exI [of _ s] exI [of _ e] exI [of _ s'] exI [of _ e']) auto
qed

text \<open>Times as minutes of a day, written with two digits each.\<close>

definition demo_clock :: world where
  "demo_clock = demo_world\<lparr>w_isoformat := (\<lambda>t. if t = 0 then ''10:00:00+00:00'' else if t = 1 then ''10:00:00.5+00:00''
       else if t = 2 then ''11:00:00+00:00'' else ''12:00:00+00:00''),
     w_aware := (\<lambda>s. if s = ''a'' then Some 0 else if s = ''b'' then Some 1 else if s = ''c'' then Some 2 else Some 3)\<rparr>"

definition demo_agent :: db where
  "demo_agent = (empty_db ''me'')\<lparr>db_agents := [\<lparr>ag_agent_id = ''a1'', ag_name = ''Ann'', ag_adapter_type = ''embedded'',
     ag_local_card_json = None, ag_published_card_json = None, ag_enabled = True, ag_availability = ''ready'',
     ag_created_at = [], ag_updated_at = [], ag_card_version = 1\<rparr>]\<rparr>"

definition demo_bookings :: "(string \<times> string \<times> string \<times> string) list \<Rightarrow> reservation_row list" where
  "demo_bookings rqs = dp_reservations (reserve_all demo_clock demo_agent rqs \<lparr>dp_reservations = [], dp_playbooks = [], dp_tick = 0\<rparr>)"

text \<open>
  With fractions of a second the texts do not compare as the times: a reservation until half a second past
  ten does not keep another one from starting at ten.
\<close>

theorem fractional_reservations_overlap:
  "map rs_ends_at (demo_bookings [(''a1'', ''me'', ''a'', ''b''), (''a1'', ''me'', ''a'', ''c'')]) = [''10:00:00.5Z'', ''11:00:00Z'']"
  by code_simp

theorem reservations_never_overlap_witness:
  "\<exists>s e s' e'. window demo_clock {0, 2, 3} (demo_bookings [(''a1'', ''me'', ''a'', ''c''), (''a1'', ''me'', ''c'', ''d'')] ! 0) s e
     \<and> window demo_clock {0, 2, 3} (demo_bookings [(''a1'', ''me'', ''a'', ''c''), (''a1'', ''me'', ''c'', ''d'')] ! 1) s' e' \<and> (e \<le> s' \<or> e' \<le> s)"
proof -
  let ?rqs = "[(''a1'', ''me'', ''a'', ''c''), (''a1'', ''me'', ''c'', ''d'')]"
  have iso: "iso_now demo_clock 0 = ''10:00:00Z''" "iso_now demo_clock 2 = ''11:00:00Z''" "iso_now demo_clock 3 = ''12:00:00Z''"
    by code_simp+
  have lt: "''10:00:00Z'' < ''11:00:00Z''" "''10:00:00Z'' < ''12:00:00Z''" "''11:00:00Z'' < ''12:00:00Z''" by code_simp+
  have o1: "ordered_stamps demo_clock {0, 2, 3}"
    unfolding ordered_stamps_def using lt by (auto simp: iso dest: less_asym)
  have rows: "map rs_agent_id (demo_bookings ?rqs) = [''a1'', ''a1'']" "map rs_status (demo_bookings ?rqs) = [''active'', ''active'']"
    by code_simp+
  then obtain r0 r1 where b: "demo_bookings ?rqs = [r0, r1]"
    by (cases "demo_bookings ?rqs"; cases "tl (demo_bookings ?rqs)") auto
  with rows have st: "rs_agent_id (demo_bookings ?rqs ! 0) = rs_agent_id (demo_bookings ?rqs ! 1)"
    "rs_status (demo_bookings ?rqs ! 0) = ''active''" "rs_status (demo_bookings ?rqs ! 1) = ''active''"
    and n: "1 < length (demo_bookings ?rqs)" by simp_all
  have T: "t \<in> {0, 2, 3}" if "(a, ow, sta, en) \<in> set ?rqs" "w_aware demo_clock sta = Some t \<or> w_aware demo_clock en = Some t"
    for a ow sta en t
    using that by (auto simp: demo_clock_def)
  from reservations_never_overlap [OF o1 T demo_bookings_def zero_less_one n st] show ?thesis by simp
qed

text \<open>
  Readiness lists every agent once, the recommended ones first; an agent is recommended just when its
  owner has enabled it, it is not reserved now and its stored state is ready.
\<close>

theorem readiness_complete:
  "mset (map rd_agent_id (readiness_recommendations W at d s)) = mset (map ag_agent_id (db_agents d))
   \<and> sorted (map (\<lambda>r. \<not> rd_recommended r) (readiness_recommendations W at d s))
   \<and> (\<forall>r \<in> set (readiness_recommendations W at d s). rd_recommended r \<longleftrightarrow>
        (\<exists>a \<in> set (db_agents d). r = agent_readiness (iso_now W at) s a \<and> ag_enabled a \<and> ag_availability a = ''ready''
          \<and> \<not> reserved_at (iso_now W at) s (ag_agent_id a)))"
proof -
  let ?rs = "readiness_recommendations W at d s"
  have ms: "mset ?rs = mset (map (agent_readiness (iso_now W at) s) (db_agents d))"
    by (simp add: readiness_recommendations_def)
  have ids: "rd_agent_id (agent_readiness m s a) = ag_agent_id a" for m a by (simp add: agent_readiness_def Let_def)
  have "mset (map rd_agent_id ?rs) = image_mset rd_agent_id (mset ?rs)" by simp
  also have "\<dots> = mset (map ag_agent_id (db_agents d))" unfolding ms by (simp add: image_mset.compositionality comp_def ids)
  finally have 1: "mset (map rd_agent_id ?rs) = mset (map ag_agent_id (db_agents d))" .
  have "sorted (map (\<lambda>r. if rd_recommended r then 0 else (1 :: nat)) ?rs)"
    by (simp add: readiness_recommendations_def)
  then have 2: "sorted (map (\<lambda>r. \<not> rd_recommended r) ?rs)"
    by (simp add: sorted_wrt_map) (erule sorted_wrt_mono_rel [rotated], auto split: if_splits)
  have ready: "availability_of v = Some READY \<longleftrightarrow> v = ''ready''" for v
  proof
    assume "availability_of v = Some READY"
    then have "availability_value READY = v" unfolding availability_of_def by (auto simp: find_Some_iff simp del: availability_value.simps)
    then show "v = ''ready''" by simp
  next
    assume "v = ''ready''"
    then show "availability_of v = Some READY" by (simp add: availability_of_def AVAILABILITIES_def)
  qed
  have stored: "(case availability_of v of None \<Rightarrow> OFFLINE | Some x \<Rightarrow> x) = READY \<longleftrightarrow> v = ''ready''" for v
    unfolding ready [symmetric] by (cases "availability_of v") simp_all
  have rec: "rd_recommended (agent_readiness m s a) \<longleftrightarrow> ag_enabled a \<and> ag_availability a = ''ready''
      \<and> \<not> reserved_at m s (ag_agent_id a)" for m a
    by (cases "ag_enabled a"; cases "reserved_at m s (ag_agent_id a)") (simp_all add: agent_readiness_def Let_def stored)
  have set_rs: "set ?rs = agent_readiness (iso_now W at) s ` set (db_agents d)" using ms by (metis list.set_map set_mset_mset)
  have 3: "rd_recommended r \<longleftrightarrow>
        (\<exists>a \<in> set (db_agents d). r = agent_readiness (iso_now W at) s a \<and> ag_enabled a \<and> ag_availability a = ''ready''
          \<and> \<not> reserved_at (iso_now W at) s (ag_agent_id a))" (is "_ \<longleftrightarrow> ?R") if mem: "r \<in> set ?rs" for r
  proof
    assume rr: "rd_recommended r"
    obtain a where a: "a \<in> set (db_agents d)" "r = agent_readiness (iso_now W at) s a"
      using mem [unfolded set_rs] by (rule imageE)
    from rr a show ?R unfolding a(2) rec by (intro bexI [of _ a]) simp_all
  next
    assume ?R
    then obtain a where a: "r = agent_readiness (iso_now W at) s a" "ag_enabled a" "ag_availability a = ''ready''"
      "\<not> reserved_at (iso_now W at) s (ag_agent_id a)" by blast
    show "rd_recommended r" unfolding a(1) rec using a(2-4) by simp
  qed
  from 1 2 show ?thesis by (simp only: simp_thms) (intro ballI 3)
qed

text \<open>
  A playbook carries the plan and no authority: a playbook made from a session comes only from a
  completed session with a recorded outcome, and a draft opened from it later, for an enabled and ready
  agent of the owner and a reviewed card of the peer with at least the capabilities of the original peer
  agent, has the objective, the type and the budgets of that session, the status draft, and no approval.
\<close>

theorem playbook_carries_no_authority:
  assumes "create_playbook_from_session E k sid name d s = (s', Inr pb)"
    and "open_playbook_draft E k (pb_playbook_id pb) sender peer rec d' s' = Inr draft"
    and "aes_correct (de_world E) k"
    and "de_playbook_validate E (or_text (Some (de_playbook_json E pb)) ''{}'') = Some pb"
    and "find (\<lambda>r. py_playbook_id r = pb_playbook_id pb) (dp_playbooks s) = None"
  shows "(\<exists>row objective. find_session d sid = Some row \<and> sr_status row = ''completed''
      \<and> (\<exists>e \<in> set (session_events_of d sid). er_kind e = ''outcome'')
      \<and> decrypt_field_or_plaintext (de_world E) k (sr_objective row) = Inr objective
      \<and> pd_objective draft = or_text objective [] \<and> pd_session_type draft = sr_type row
      \<and> pd_turn_limit draft = sr_turn_limit row)
    \<and> pd_status draft = ''draft'' \<and> pd_carried_approval_count draft = 0
    \<and> (\<exists>a. get_card sender d' = Some a \<and> ag_enabled a \<and> ag_availability a \<notin> set unready_states)
    \<and> (\<exists>pc tags. find_peer_card d' peer rec = Some pc \<and> pc_status pc \<noteq> ''stale''
         \<and> published_tags (de_world E) (pc_card_json pc) = Inr tags \<and> set (pb_required_peer_capabilities pb) \<subseteq> set tags)"
proof -
  obtain row where row: "find_session d sid = Some row" "sr_status row = ''completed''"
    and ev: "\<exists>e \<in> set (session_events_of d sid). er_kind e = ''outcome''"
    and t: "template_of E k row name (pb_playbook_id pb) d = Inr pb"
    and st: "\<exists>n prow. dp_playbooks s' = dp_playbooks s @ [prow] \<and> py_playbook_id prow = pb_playbook_id pb
        \<and> py_template_json_enc prow = the (encrypt_field (de_world E) k n (Some (de_playbook_json E pb)))"
  proof -
    obtain row where row: "find_session d sid = Some row" "sr_status row = ''completed''"
      "list_ex (\<lambda>e. er_kind e = ''outcome'') (session_events_of d sid)"
      using assms(1) by (auto simp: create_playbook_from_session_def split: option.splits if_splits)
    let ?id = "''pb_'' @ filter (\<lambda>ch. ch \<noteq> CHR ''-'') (w_uuid (de_world E) (dp_tick s))"
    obtain pb' where pb': "template_of E k row name ?id d = Inr pb'"
      using assms(1) row by (cases "template_of E k row name ?id d") (simp_all add: create_playbook_from_session_def Let_def)
    have eq: "pb' = pb" "dp_playbooks s' = dp_playbooks s @ [\<lparr>py_playbook_id = pb_playbook_id pb', py_name = pb_name pb',
        py_source_session_id = sid, py_template_json_enc = the (encrypt_field (de_world E) k (dp_tick s) (Some (de_playbook_json E pb'))),
        py_created_at = iso_now (de_world E) (w_clock (de_world E) (dp_tick s)),
        py_updated_at = iso_now (de_world E) (w_clock (de_world E) (dp_tick s))\<rparr>]"
      using assms(1) row pb' by (auto simp: create_playbook_from_session_def Let_def)
    have "pb_playbook_id pb' = ?id" using template_fields [OF pb'] by simp
    with that [OF row(1,2)] row(3) pb' eq show thesis by (simp add: list_ex_iff) blast
  qed
  obtain objective where obj: "decrypt_field_or_plaintext (de_world E) k (sr_objective row) = Inr objective"
    and pb: "pb_objective_template pb = or_text objective []" "pb_session_type pb = sr_type row" "pb_turn_limit pb = sr_turn_limit row"
    using template_fields [OF t] by blast
  obtain n prow where prow: "dp_playbooks s' = dp_playbooks s @ [prow]" "py_playbook_id prow = pb_playbook_id pb"
    "py_template_json_enc prow = the (encrypt_field (de_world E) k n (Some (de_playbook_json E pb)))" using st by blast
  have "Some (py_template_json_enc prow) = encrypt_field (de_world E) k n (Some (de_playbook_json E pb))"
    unfolding prow(3) by (simp add: encrypt_field_def Let_def)
  then have dec: "decrypt_field (de_world E) k (Some (py_template_json_enc prow)) = Inr (Some (de_playbook_json E pb))"
    using decrypt_encrypt_field [OF assms(3)] by simp
  have find: "find (\<lambda>r. py_playbook_id r = pb_playbook_id pb) (dp_playbooks s') = Some prow"
    using assms(5) prow(1,2) by (simp add: find_snoc)
  note o1 = assms(2) [unfolded open_playbook_draft_def Let_def find option.case dec chain_simps assms(4)]
  obtain a where a: "get_card sender d' = Some a" "ag_enabled a" "ag_availability a \<notin> set unready_states"
    using o1 by (auto split: option.splits if_splits)
  obtain pc where pc: "find_peer_card d' peer rec = Some pc" "pc_status pc \<noteq> ''stale''"
    using o1 a by (auto split: option.splits if_splits)
  obtain tags where tags: "published_tags (de_world E) (pc_card_json pc) = Inr tags"
    "set (pb_required_peer_capabilities pb) \<subseteq> set tags"
    and d: "pd_objective draft = pb_objective_template pb" "pd_session_type draft = pb_session_type pb"
      "pd_turn_limit draft = pb_turn_limit pb" "pd_status draft = ''draft''" "pd_carried_approval_count draft = 0"
    using o1 a pc by (auto simp: chain_Inr split: if_splits)
  show ?thesis using row ev obj pb d a pc tags by auto
qed

definition demo_depth_env :: depth_env where
  "demo_depth_env = \<lparr>de_world = demo_registry_world, de_playbook_json = (\<lambda>q. ''pb''),
     de_playbook_validate = (\<lambda>x. Some \<lparr>pb_playbook_id = ''pb_u'', pb_name = ''plan'', pb_source_session_id = Some ''s1'',
        pb_session_type = sr_type demo_row, pb_objective_template = [], pb_required_peer_capabilities = [],
        pb_turn_limit = sr_turn_limit demo_row, pb_runtime_budget_seconds = None, pb_artifact_bytes_budget = None,
        pb_cost_budget_estimate = PNone, pb_approval_defaults = [(''consequential_actions'', ''always_ask'')]\<rparr>),
     de_lax_float = Some\<rparr>"

definition demo_finished :: db where
  "demo_finished = demo_done_db\<lparr>db_agents := db_agents demo_agent,
     db_events := [\<lparr>er_event_id = ''e1'', er_session_id = ''s1'', er_event_order = 1, er_sequence = None, er_actor_username = ''alice'',
       er_actor_agent_id = None, er_kind = ''outcome'', er_visibility = ''local_only'', er_payload_json = None, er_signature = None,
       er_created_at = []\<rparr>],
     db_peer_cards := [\<lparr>pc_peer_username = ''bob'', pc_agent_id = ''b1'', pc_card_json = ''ready'', pc_content_hash = [],
       pc_status = ''active'', pc_first_seen_at = [], pc_last_seen_at = []\<rparr>]\<rparr>"

definition demo_playbook :: "depth \<times> playbook result" where
  "demo_playbook = create_playbook_from_session demo_depth_env [9] ''s1'' ''plan'' demo_finished
     \<lparr>dp_reservations = [], dp_playbooks = [], dp_tick = 0\<rparr>"

theorem playbook_carries_no_authority_witness:
  "\<exists>draft. open_playbook_draft demo_depth_env [9] ''pb_u'' ''a1'' ''bob'' ''b1'' demo_finished (fst demo_playbook) = Inr draft
     \<and> pd_turn_limit draft = 12 \<and> pd_carried_approval_count draft = 0"
proof -
  let ?o = "open_playbook_draft demo_depth_env [9] ''pb_u'' ''a1'' ''bob'' ''b1'' demo_finished (fst demo_playbook)"
  let ?pb = "the (de_playbook_validate demo_depth_env [])"
  have c: "snd demo_playbook = Inr ?pb" by code_simp
  have id: "pb_playbook_id ?pb = ''pb_u''" by code_simp
  have "\<not> isl ?o" by code_simp
  then obtain draft where o1: "?o = Inr draft" by (cases ?o) simp_all
  have aes: "aes_correct (de_world demo_depth_env) [9]"
    using demo_world_aes by (simp add: aes_correct_def demo_depth_env_def demo_registry_world_def)
  have m: "demo_playbook = (fst demo_playbook, Inr ?pb)" using c by (metis prod.collapse)
  have v: "de_playbook_validate demo_depth_env (or_text (Some (de_playbook_json demo_depth_env ?pb)) ''{}'') = Some ?pb"
    by (simp add: demo_depth_env_def)
  from playbook_carries_no_authority [OF m [unfolded demo_playbook_def] _ aes v, where sender = "''a1''" and peer = "''bob''" and rec = "''b1''" and d' = demo_finished and draft = draft]
  have "(\<exists>row. find_session demo_finished ''s1'' = Some row \<and> pd_turn_limit draft = sr_turn_limit row) \<and> pd_carried_approval_count draft = 0"
    using o1 unfolding id demo_playbook_def by auto
  moreover have "find_session demo_finished ''s1'' = Some row \<Longrightarrow> sr_turn_limit row = 12" for row
    by (auto simp: demo_finished_def demo_done_db_def demo_db_def find_session_def demo_row_def empty_db_def)
  ultimately show ?thesis using o1 by auto
qed
end
