(* ===== verification/Kin_Pantry.thy ===== *)
theory Kin_Pantry
  imports Kin_Ledger
begin

text \<open>
  The context pantry of \<open>kin-node/kin/context_pantry.py\<close>: local references to files under opaque
  identifiers, stored packs, and the pack of reviewed items that a dispatch may share with the peer.

  The file system is the record \<open>files_view\<close>: what resolving, testing and reading a path gives. A
  \<open>PantryValidationError\<close> is an \<open>AppError\<close>; a time stamp that does not parse raises \<open>ValueError\<close>.
\<close>

section \<open>Items and tables\<close>

record pantry_item =
  pi_kind :: string
  pi_size_bytes :: int
  pi_classification :: string
  pi_expiry :: "string option"
  pi_item_id :: string
  pi_content :: "string option"
  pi_local_ref_id :: "string option"
  pi_reviewed :: bool

record reviewed_item =
  rv_item_id :: string
  rv_kind :: string
  rv_content :: string
  rv_size_bytes :: int
  rv_expires_at :: "string option"

record stored_pack =
  sp_pack_id :: string
  sp_name :: string
  sp_items :: "pantry_item list"

record ref_row =
  rf_ref_id :: string
  rf_encrypted_path :: string
  rf_size_bytes :: int
  rf_expires_at :: "string option"
  rf_created_at :: string

record pack_row =
  pk_pack_id :: string
  pk_name :: string
  pk_items_json_enc :: string
  pk_created_at :: string
  pk_updated_at :: string

record pantry =
  pa_refs :: "ref_row list"
  pa_packs :: "pack_row list"
  pa_tick :: nat

record files_view =
  fv_resolve :: "string \<Rightarrow> string option" \<comment> \<open>\<open>expanduser().resolve(strict=True)\<close>\<close>
  fv_is_file :: "string \<Rightarrow> bool"
  fv_size :: "string \<Rightarrow> int"
  fv_read_text :: "string \<Rightarrow> string option" \<comment> \<open>\<open>None\<close> when it raises\<close>

record pantry_env =
  pe_world :: world
  pe_files :: files_view
  pe_fromiso :: "string \<Rightarrow> (bool \<times> int) option" \<comment> \<open>whether the time has a zone, and the time\<close>
  pe_pack_json :: "stored_pack \<Rightarrow> string" \<comment> \<open>\<open>model_dump_json\<close>\<close>
  pe_pack_validate :: "string \<Rightarrow> stored_pack option" \<comment> \<open>\<open>model_validate_json\<close>\<close>
  pe_dumps :: "pyval \<Rightarrow> string option" \<comment> \<open>\<open>json.dumps(v, ensure_ascii=False)\<close>\<close>

definition pantry_error :: py_error where
  "pantry_error = AppError ''PantryValidationError''"

definition MAX_CONTEXT_ITEM_BYTES :: int where
  "MAX_CONTEXT_ITEM_BYTES = 5242880"

definition parse_utc :: "pantry_env \<Rightarrow> string \<Rightarrow> int result" where
  "parse_utc E value = (case pe_fromiso E value of
      None \<Rightarrow> Inl ValueError
    | Some (aware, t) \<Rightarrow> if aware then Inr t else Inl pantry_error)"

definition pantry_now :: "pantry_env \<Rightarrow> nat \<Rightarrow> string" where
  "pantry_now E n =
     (let s = w_isoformat (pe_world E) (w_clock (pe_world E) n)
      in if ends_with ''+00:00'' s then take (length s - 6) s @ ''Z'' else s)"

definition hex_id :: "pantry_env \<Rightarrow> nat \<Rightarrow> string" where
  "hex_id E n = filter (\<lambda>ch. ch \<noteq> CHR ''-'') (w_uuid (pe_world E) n)"

section \<open>References and packs\<close>

definition register_local_reference ::
  "pantry_env \<Rightarrow> bytes \<Rightarrow> string \<Rightarrow> string option \<Rightarrow> pantry \<Rightarrow> pantry \<times> string result" where
  "register_local_reference E vault_key path expires_at p = (case fv_resolve (pe_files E) path of
      None \<Rightarrow> (p, Inl pantry_error)
    | Some resolved \<Rightarrow>
        if \<not> fv_is_file (pe_files E) resolved then (p, Inl pantry_error)
        else let n = pa_tick p; ref_id = ''ctxref_'' @ hex_id E n in
          (p\<lparr>pa_refs := pa_refs p @ [\<lparr>rf_ref_id = ref_id,
               rf_encrypted_path = the (encrypt_field (pe_world E) vault_key n (Some resolved)),
               rf_size_bytes = fv_size (pe_files E) resolved, rf_expires_at = expires_at, rf_created_at = pantry_now E n\<rparr>],
             pa_tick := Suc n\<rparr>, Inr ref_id))"

fun number_items :: "pantry_env \<Rightarrow> nat \<Rightarrow> pantry_item list \<Rightarrow> pantry_item list" where
  "number_items E n [] = []"
| "number_items E n (i # is) =
     i\<lparr>pi_item_id := (if pi_item_id i = [] then ''ctx_'' @ hex_id E n else pi_item_id i), pi_reviewed := False\<rparr>
       # number_items E (Suc n) is"

definition create_context_pack ::
  "pantry_env \<Rightarrow> bytes \<Rightarrow> string \<Rightarrow> pantry_item list \<Rightarrow> pantry \<Rightarrow> pantry \<times> stored_pack result" where
  "create_context_pack E vault_key name items p =
     (if list_ex (\<lambda>i. pi_size_bytes i < 0) items then (p, Inl ValidationError)
      else let n = pa_tick p + length items;
               pack = \<lparr>sp_pack_id = ''ctxpack_'' @ hex_id E n, sp_name = or_text (Some (strip name)) ''Context pack'',
                       sp_items = number_items E (pa_tick p) items\<rparr>
           in (p\<lparr>pa_packs := pa_packs p @ [\<lparr>pk_pack_id = sp_pack_id pack, pk_name = sp_name pack,
                   pk_items_json_enc = the (encrypt_field (pe_world E) vault_key n (Some (pe_pack_json E pack))),
                   pk_created_at = pantry_now E n, pk_updated_at = pantry_now E n\<rparr>],
                 pa_tick := Suc n\<rparr>, Inr pack))"

definition attach_context_pack :: "pantry_env \<Rightarrow> bytes \<Rightarrow> string \<Rightarrow> pantry \<Rightarrow> pantry_item list result" where
  "attach_context_pack E vault_key pack_id p = (case find (\<lambda>r. pk_pack_id r = pack_id) (pa_packs p) of
      None \<Rightarrow> Inl pantry_error
    | Some row \<Rightarrow>
        chain (decrypt_field (pe_world E) vault_key (Some (pk_items_json_enc row))) (\<lambda>decrypted.
          case pe_pack_validate E (or_text decrypted ''{}'') of
            None \<Rightarrow> Inl ValidationError
          | Some stored \<Rightarrow> Inr (map (\<lambda>i. i\<lparr>pi_reviewed := False\<rparr>) (sp_items stored))))"

section \<open>The reviewed pack\<close>

text \<open>Whether an expiry has been reached; no expiry is never reached.\<close>

definition expired :: "pantry_env \<Rightarrow> int \<Rightarrow> string option \<Rightarrow> bool result" where
  "expired E now expiry =
     (if otruthy expiry then chain (parse_utc E (the expiry)) (\<lambda>t. Inr (t \<le> now)) else Inr False)"

text \<open>The content of an item and its effective expiry.\<close>

definition resolve_item :: "pantry_env \<Rightarrow> bytes \<Rightarrow> int \<Rightarrow> pantry \<Rightarrow> pantry_item \<Rightarrow> (string option \<times> string option) result" where
  "resolve_item E vault_key now p i =
     (if pi_kind i \<noteq> ''local_reference'' then Inr (pi_content i, pi_expiry i)
      else if \<not> otruthy (pi_local_ref_id i) then Inl pantry_error
      else case find (\<lambda>r. rf_ref_id r = the (pi_local_ref_id i)) (pa_refs p) of
        None \<Rightarrow> Inl pantry_error
      | Some row \<Rightarrow>
          (let effective = (if otruthy (pi_expiry i) then pi_expiry i else rf_expires_at row) in
           chain (expired E now effective) (\<lambda>over.
           if over then Inl pantry_error
           else case decrypt_field (pe_world E) vault_key (Some (rf_encrypted_path row)) of
             Inl e \<Rightarrow> Inl pantry_error
           | Inr decrypted \<Rightarrow>
               (let resolved = or_text decrypted [] in
                if \<not> fv_is_file (pe_files E) resolved then Inl pantry_error
                else case fv_read_text (pe_files E) resolved of
                  None \<Rightarrow> Inl pantry_error
                | Some s \<Rightarrow> Inr (Some s, effective)))))"

definition review_item ::
  "pantry_env \<Rightarrow> bytes \<Rightarrow> int \<Rightarrow> pantry \<Rightarrow> nat \<Rightarrow> pantry_item \<Rightarrow> reviewed_item option result" where
  "review_item E vault_key now p index i =
     (if pi_classification i \<in> set [''local_only'', ''private''] then Inr None
      else if pi_classification i \<noteq> ''share_with_peer'' then Inl pantry_error
      else if \<not> pi_reviewed i then Inl pantry_error
      else chain (expired E now (pi_expiry i)) (\<lambda>over.
        if over then Inl pantry_error
        else chain (resolve_item E vault_key now p i) (\<lambda>(content, effective).
          if \<not> otruthy content then Inl pantry_error
          else if MAX_CONTEXT_ITEM_BYTES < int (length (utf8_encode (the content))) then Inl pantry_error
          else Inr (Some \<lparr>rv_item_id = (if pi_item_id i = [] then ''ctx_'' @ w_str (pe_world E) (PInt (int index + 1)) else pi_item_id i),
                          rv_kind = pi_kind i, rv_content = the content,
                          rv_size_bytes = int (length (utf8_encode (the content))), rv_expires_at = effective\<rparr>))))"

fun review_items ::
  "pantry_env \<Rightarrow> bytes \<Rightarrow> int \<Rightarrow> pantry \<Rightarrow> nat \<Rightarrow> pantry_item list \<Rightarrow> reviewed_item list result" where
  "review_items E vault_key now p index [] = Inr []"
| "review_items E vault_key now p index (i # is) =
     chain (review_item E vault_key now p index i) (\<lambda>r.
     chain (review_items E vault_key now p (Suc index) is) (\<lambda>rs.
       Inr (case r of None \<Rightarrow> rs | Some x \<Rightarrow> x # rs)))"

definition opt_value :: "string option \<Rightarrow> pyval" where
  "opt_value x = (case x of None \<Rightarrow> PNone | Some s \<Rightarrow> PStr s)"

definition wire_item :: "reviewed_item \<Rightarrow> pydict" where
  "wire_item r =
     [(''schema_version'', PStr ''1.1''), (''item_id'', PStr (rv_item_id r)), (''kind'', PStr (rv_kind r)),
      (''classification'', PStr ''share_with_peer''), (''content'', PStr (rv_content r)),
      (''size_bytes'', PInt (rv_size_bytes r)), (''expires_at'', opt_value (rv_expires_at r))]"

definition build_reviewed_context_pack ::
  "pantry_env \<Rightarrow> bytes \<Rightarrow> pantry_item list \<Rightarrow> int \<Rightarrow> pantry \<Rightarrow> pyval result" where
  "build_reviewed_context_pack E vault_key items now p =
     chain (review_items E vault_key now p 0 items) (\<lambda>pack.
       case Option.bind (pe_dumps E (PList (map (of_dict \<circ> wire_item) pack))) (w_loads (pe_world E)) of
         None \<Rightarrow> Inl ValueError
       | Some v \<Rightarrow> Inr v)"

section \<open>What is shared\<close>

text \<open>An item may become a wire item: it is shared, reviewed, unexpired, and its text is the item's own or the file's.\<close>

definition text_source :: "pantry_env \<Rightarrow> bytes \<Rightarrow> pantry \<Rightarrow> pantry_item \<Rightarrow> string \<Rightarrow> bool" where
  "text_source E vault_key p i s =
     (if pi_kind i = ''local_reference''
      then \<exists>row path. row \<in> set (pa_refs p) \<and> pi_local_ref_id i = Some (rf_ref_id row)
             \<and> decrypt_field (pe_world E) vault_key (Some (rf_encrypted_path row)) = Inr path
             \<and> fv_read_text (pe_files E) (or_text path []) = Some s
      else pi_content i = Some s)"

definition shareable :: "pantry_env \<Rightarrow> bytes \<Rightarrow> int \<Rightarrow> pantry \<Rightarrow> pantry_item \<Rightarrow> reviewed_item \<Rightarrow> bool" where
  "shareable E vault_key now p i r =
     (pi_classification i = ''share_with_peer'' \<and> pi_reviewed i
      \<and> expired E now (pi_expiry i) = Inr False \<and> expired E now (rv_expires_at r) = Inr False
      \<and> rv_kind r = pi_kind i \<and> rv_content r \<noteq> []
      \<and> rv_size_bytes r = int (length (utf8_encode (rv_content r)))
      \<and> int (length (utf8_encode (rv_content r))) \<le> MAX_CONTEXT_ITEM_BYTES
      \<and> text_source E vault_key p i (rv_content r))"

lemma resolve_item_Inr:
  assumes "resolve_item E k now p i = Inr (Some s, eff)" and "expired E now (pi_expiry i) = Inr False"
  shows "expired E now eff = Inr False \<and> text_source E k p i s"
proof (cases "pi_kind i = ''local_reference''")
  case False
  with assms show ?thesis by (simp add: resolve_item_def text_source_def)
next
  case True
  note r = assms(1) [unfolded resolve_item_def True]
  have ref: "otruthy (pi_local_ref_id i)" using r by (cases "otruthy (pi_local_ref_id i)") simp_all
  obtain row where row: "find (\<lambda>r. rf_ref_id r = the (pi_local_ref_id i)) (pa_refs p) = Some row"
    using r ref by (auto split: option.splits)
  have mem: "row \<in> set (pa_refs p)" "pi_local_ref_id i = Some (rf_ref_id row)"
    using row ref by (auto simp: find_Some_iff otruthy_def split: option.splits)
  let ?eff = "if otruthy (pi_expiry i) then pi_expiry i else rf_expires_at row"
  from r ref row obtain path where "expired E now ?eff = Inr False" "eff = ?eff"
    "decrypt_field (pe_world E) k (Some (rf_encrypted_path row)) = Inr path"
    "fv_read_text (pe_files E) (or_text path []) = Some s"
    by (auto simp: chain_Inr Let_def split: if_splits sum.splits option.splits)
  with mem True show ?thesis by (auto simp: text_source_def)
qed

lemma review_item_shared:
  assumes "review_item E k now p n i = Inr (Some r)"
  shows "shareable E k now p i r"
proof -
  obtain content eff where c: "pi_classification i = ''share_with_peer''" "pi_reviewed i"
    "expired E now (pi_expiry i) = Inr False" "resolve_item E k now p i = Inr (content, eff)" "otruthy content"
    "int (length (utf8_encode (the content))) \<le> MAX_CONTEXT_ITEM_BYTES" "rv_kind r = pi_kind i" "rv_content r = the content"
    "rv_size_bytes r = int (length (utf8_encode (the content)))" "rv_expires_at r = eff"
    using assms by (auto simp: review_item_def chain_Inr split: if_splits)
  obtain s where s: "content = Some s" "s \<noteq> []" using c(5) by (auto simp: otruthy_def split: option.splits)
  with c(8) have rs: "rv_content r = s" by simp
  from resolve_item_Inr [OF c(4) [unfolded s(1)] c(3)] c(1,2,3,6,7,9,10) s(2) show ?thesis
    by (simp add: shareable_def rs s(1))
qed

lemma review_item_hidden:
  "review_item E k now p n i = Inr None \<Longrightarrow> pi_classification i \<noteq> ''share_with_peer''"
  by (auto simp: review_item_def chain_Inr split: if_splits)

lemma review_items_shared:
  "review_items E k now p n items = Inr rs \<Longrightarrow>
     list_all2 (shareable E k now p) (filter (\<lambda>i. pi_classification i = ''share_with_peer'') items) rs"
proof (induction items arbitrary: n rs)
  case Nil
  then show ?case by simp
next
  case (Cons i items)
  obtain r rest where r: "review_item E k now p n i = Inr r" "review_items E k now p (Suc n) items = Inr rest"
    "rs = (case r of None \<Rightarrow> rest | Some x \<Rightarrow> x # rest)"
    using Cons.prems by (auto simp: chain_Inr)
  show ?case
  proof (cases r)
    case None
    with r Cons.IH [OF r(2)] review_item_hidden [of E k now p n i] show ?thesis by simp
  next
    case (Some x)
    with r(1) have x: "shareable E k now p i x" by (simp add: review_item_shared)
    then have "pi_classification i = ''share_with_peer''" by (simp add: shareable_def)
    with x r(3) Cons.IH [OF r(2)] Some show ?thesis by simp
  qed
qed

section \<open>Properties\<close>


definition demo_pantry_env :: pantry_env where
  "demo_pantry_env = \<lparr>pe_world = demo_world\<lparr>w_loads := (\<lambda>s. Some (PList (map (of_dict \<circ> wire_item)
        [\<lparr>rv_item_id = ''i1'', rv_kind = ''local_reference'', rv_content = ''hello'', rv_size_bytes = 5,
          rv_expires_at = Some ''late''\<rparr>])))\<rparr>,
     pe_files = \<lparr>fv_resolve = Some, fv_is_file = (\<lambda>s. True), fv_size = (\<lambda>s. 5), fv_read_text = (\<lambda>s. Some ''hello'')\<rparr>,
     pe_fromiso = (\<lambda>s. Some (True, if s = ''late'' then 100 else 10)),
     pe_pack_json = (\<lambda>p. ''{}''), pe_pack_validate = (\<lambda>s. None),
     pe_dumps = (\<lambda>v. if v = PList (map (of_dict \<circ> wire_item)
        [\<lparr>rv_item_id = ''i1'', rv_kind = ''local_reference'', rv_content = ''hello'', rv_size_bytes = 5,
          rv_expires_at = Some ''late''\<rparr>]) then Some ''[]'' else None)\<rparr>"

definition demo_pantry :: pantry where
  "demo_pantry = fst (register_local_reference demo_pantry_env [9] ''/home/me/notes'' (Some ''early'')
     \<lparr>pa_refs = [], pa_packs = [], pa_tick = 0\<rparr>)"

definition demo_items :: "pantry_item list" where
  "demo_items =
     [\<lparr>pi_kind = ''message'', pi_size_bytes = 3, pi_classification = ''private'', pi_expiry = None, pi_item_id = [],
       pi_content = Some ''own'', pi_local_ref_id = None, pi_reviewed = True\<rparr>,
      \<lparr>pi_kind = ''local_reference'', pi_size_bytes = 5, pi_classification = ''share_with_peer'', pi_expiry = Some ''late'',
       pi_item_id = ''i1'', pi_content = None, pi_local_ref_id = Some ''ctxref_u'', pi_reviewed = True\<rparr>]"

text \<open>
  The expiry of a reference does not bind: an item with a later expiry of its own shares the file although
  the reference has expired (at time 10, while it is 50).
\<close>

theorem expired_reference_shared:
  "map rf_expires_at (pa_refs demo_pantry) = [Some ''early''] \<and> expired demo_pantry_env 50 (Some ''early'') = Inr True
   \<and> (case build_reviewed_context_pack demo_pantry_env [9] demo_items 50 demo_pantry of Inr (PList vs) \<Rightarrow> length vs = 1 | _ \<Rightarrow> False)"
  by code_simp


text \<open>
  Attaching a stored pack needs a new review: whatever was stored, also by a caller that had reviewed its
  items, comes back with the same items, all unreviewed.
\<close>

theorem attached_pack_unreviewed:
  assumes "create_context_pack E k name items p = (p', Inr pack)" and "aes_correct (pe_world E) k"
    and "pe_pack_validate E (or_text (Some (pe_pack_json E pack)) ''{}'') = Some pack"
    and "find (\<lambda>r. pk_pack_id r = sp_pack_id pack) (pa_packs p) = None"
  shows "attach_context_pack E k (sp_pack_id pack) p' = Inr (sp_items pack) \<and> (\<forall>i \<in> set (sp_items pack). \<not> pi_reviewed i)
    \<and> length (sp_items pack) = length items"
proof -
  have n: "(\<forall>i \<in> set (number_items E m xs). \<not> pi_reviewed i) \<and> length (number_items E m xs) = length xs" for m xs
    by (induction xs arbitrary: m) simp_all
  have items: "sp_items pack = number_items E (pa_tick p) items"
    using assms(1) by (auto simp: create_context_pack_def Let_def split: if_splits)
  have unreviewed: "i\<lparr>pi_reviewed := False\<rparr> = i" if "\<not> pi_reviewed i" for i :: pantry_item
    using that by (cases i) simp
  have same: "map (\<lambda>i. i\<lparr>pi_reviewed := False\<rparr>) (sp_items pack) = sp_items pack"
    using n [of "pa_tick p" items] unfolding items by (intro map_idI) (auto simp: unreviewed)
  obtain row m where row: "pa_packs p' = pa_packs p @ [row]" "pk_pack_id row = sp_pack_id pack"
    "pk_items_json_enc row = the (encrypt_field (pe_world E) k m (Some (pe_pack_json E pack)))"
    using assms(1) by (auto simp: create_context_pack_def Let_def split: if_splits)
  have "Some (pk_items_json_enc row) = encrypt_field (pe_world E) k m (Some (pe_pack_json E pack))"
    unfolding row(3) by (simp add: encrypt_field_def Let_def)
  then have "decrypt_field (pe_world E) k (Some (pk_items_json_enc row)) = Inr (Some (pe_pack_json E pack))"
    using decrypt_encrypt_field [OF assms(2)] by simp
  with row assms(3,4) same n [of "pa_tick p" items] show ?thesis
    by (simp add: attach_context_pack_def find_snoc items)
qed

end
