(* ===== verification/Kin_Gateway.thy ===== *)
theory Kin_Gateway
  imports Kin_Ledger
begin

text \<open>
  The gateway service of \<open>kin_gateway\<close>: its settings (\<open>config.py\<close>), the credentials of the protected
  upstream (\<open>upstream/credentials.py\<close>), the record of each proxied request (\<open>sessions.py\<close>), the private
  administration (\<open>admin.py\<close>) and the two proxies of \<open>app.py\<close>.

  What the gateway does not decide is the record \<open>gate\<close>: URL and address parsing, the version parser of
  \<open>packaging\<close>, the JSON reader, the secret store, the error payloads of the A2A library, and the answers of
  the upstream, drawn at the index \<open>gs_tick\<close>. The headers of a request are the pairs that arrived, with
  names in lower case: indexing gives the first value of a name, \<open>items\<close> gives them all. Headers that
  httpx adds by itself are left out. An \<open>HTTPException\<close> is the response it becomes; an exception that no
  handler catches is a left value.
\<close>

section \<open>Settings\<close>

record split_url =
  su_scheme :: string
  su_netloc :: string
  su_hostname :: "string option"
  su_port :: "int option result" \<comment> \<open>reading the port can raise\<close>
  su_username :: "string option"
  su_password :: "string option"
  su_query :: string
  su_fragment :: string

record ip =
  ip_text :: string
  ip_is_global :: bool
  ip_is_private :: bool
  ip_is_loopback :: bool
  ip_is_link_local :: bool

record up_request =
  up_method :: string
  up_url :: string
  up_headers :: "(string \<times> string) list"
  up_body :: bytes

text \<open>
  A body that is streamed, as the generator sees it: chunks, a chunk that does not come within the
  timeout, a broken connection, the cancellation of the task, or the generator closed at a yield.
\<close>

datatype stream_event = Chunk bytes | Silence | Broken | Cancelled | Closed

datatype up_reply =
    Reply int "(string \<times> string) list" bytes
  | HTTPError

datatype up_stream =
    Streaming int "(string \<times> string) list" "stream_event list"
  | StreamHTTPError

record gate =
  g_world :: world
  g_urlsplit :: "string \<Rightarrow> split_url option"
  g_ip_address :: "string \<Rightarrow> ip option"
  g_rest_url :: "string \<Rightarrow> string \<Rightarrow> string \<Rightarrow> string result" \<comment> \<open>base, path, query\<close>
  g_version :: "string \<Rightarrow> nat list option" \<comment> \<open>the release of a valid version\<close>
  g_loads :: "bytes \<Rightarrow> pyval option" \<comment> \<open>\<open>json.loads\<close> of a body\<close>
  g_secret :: "string \<Rightarrow> string option" \<comment> \<open>\<open>None\<close> when it raises\<close>
  g_rest_error :: "string \<Rightarrow> pyval" \<comment> \<open>\<open>build_rest_error_payload\<close>\<close>
  g_send :: "nat \<Rightarrow> up_request \<Rightarrow> up_reply"
  g_stream :: "nat \<Rightarrow> up_request \<Rightarrow> up_stream"

definition RESERVED_UPSTREAM_HEADERS :: "string list" where
  "RESERVED_UPSTREAM_HEADERS =
     [''a2a-extensions'', ''a2a-version'', ''connection'', ''content-length'', ''content-type'', ''host'',
      ''transfer-encoding'']"

record credential_settings =
  cs_mode :: string
  cs_header_name :: "string option"
  cs_secret_ref :: "string option"
  cs_value_prefix :: string

definition validate_header_name :: "string option \<Rightarrow> string option result" where
  "validate_header_name value = (case value of
      None \<Rightarrow> Inr None
    | Some s \<Rightarrow>
        if s = [] \<or> \<not> list_all (\<lambda>ch. is_alnum ch \<or> ch = CHR ''-'') s then Inl ValueError
        else if map to_lower s \<in> set RESERVED_UPSTREAM_HEADERS then Inl ValueError
        else Inr (Some s))"

definition credential_settings_validate :: "credential_settings \<Rightarrow> credential_settings result" where
  "credential_settings_validate s =
     (if cs_mode s \<notin> {''private'', ''header''} then Inl ValueError
      else chain (validate_header_name (cs_header_name s)) (\<lambda>_.
        if cs_mode s = ''header'' \<and> \<not> otruthy (cs_header_name s) then Inl ValueError
        else if cs_mode s = ''header'' \<and> \<not> otruthy (cs_secret_ref s) then Inl ValueError
        else Inr s))"

record admin_settings =
  as_bind_host :: string
  as_port :: int
  as_authentication :: string
  as_token_secret_ref :: "string option"

definition require_private_bind_host :: "gate \<Rightarrow> string \<Rightarrow> string result" where
  "require_private_bind_host G value =
     (if map to_lower value = ''localhost'' then Inr value
      else case g_ip_address G value of
        None \<Rightarrow> Inl ValueError
      | Some address \<Rightarrow>
          if \<not> (ip_is_private address \<or> ip_is_loopback address \<or> ip_is_link_local address) then Inl ValueError
          else Inr value)"

definition admin_settings_validate :: "gate \<Rightarrow> admin_settings \<Rightarrow> admin_settings result" where
  "admin_settings_validate G s =
     (if as_port s < 1 \<or> 65535 < as_port s \<or> as_authentication s \<notin> {''token'', ''mtls''} then Inl ValueError
      else chain (require_private_bind_host G (as_bind_host s)) (\<lambda>_.
        if as_authentication s = ''token'' \<and> \<not> otruthy (as_token_secret_ref s) then Inl ValueError
        else if as_authentication s = ''mtls'' \<and> as_token_secret_ref s \<noteq> None then Inl ValueError
        else Inr s))"

record gateway_settings =
  gw_public_base_url :: string
  gw_upstream_base_url :: string
  gw_credential :: credential_settings

definition rstrip_slash :: "string \<Rightarrow> string" where
  "rstrip_slash s = rev (dropWhile (\<lambda>ch. ch = CHR ''/'') (rev s))"

definition normalize_base_url :: "gate \<Rightarrow> string \<Rightarrow> string result" where
  "normalize_base_url G value =
     (let normalized = rstrip_slash value in
      case g_urlsplit G normalized of
        None \<Rightarrow> Inl ValueError
      | Some parsed \<Rightarrow>
          chain (su_port parsed) (\<lambda>_.
          if su_scheme parsed \<notin> {''http'', ''https''} then Inl ValueError
          else case su_hostname parsed of
            None \<Rightarrow> Inl ValueError
          | Some host \<Rightarrow>
              if host = [] then Inl ValueError
              else if list_ex is_space host then Inl ValueError
              else if su_username parsed \<noteq> None \<or> su_password parsed \<noteq> None then Inl ValueError
              else if su_query parsed \<noteq> [] \<or> su_fragment parsed \<noteq> [] then Inl ValueError
              else Inr normalized))"

section \<open>Credentials of the upstream\<close>

datatype credential_provider =
    NoCredentialProvider
  | StaticHeaderCredentialProvider string string
  | SecretBackedCredentialProvider string string string \<comment> \<open>header name, secret reference, prefix\<close>

definition validate_header :: "string \<Rightarrow> string \<Rightarrow> unit result" where
  "validate_header name value =
     (case credential_settings_validate
             \<lparr>cs_mode = ''header'', cs_header_name = Some name, cs_secret_ref = Some ''validation-only'', cs_value_prefix = []\<rparr> of
        Inl e \<Rightarrow> Inl ValueError
      | Inr _ \<Rightarrow> if value = [] \<or> CHR 0x0D \<in> set value \<or> CHR 0x0A \<in> set value then Inl ValueError else Inr ())"

text \<open>The constructors check their arguments.\<close>

definition provider_check :: "credential_provider \<Rightarrow> credential_provider result" where
  "provider_check p = (case p of
      NoCredentialProvider \<Rightarrow> Inr p
    | StaticHeaderCredentialProvider n v \<Rightarrow> chain (validate_header n v) (\<lambda>_. Inr p)
    | SecretBackedCredentialProvider n ref pre \<Rightarrow>
        chain (validate_header n (or_text (Some pre) ''placeholder'')) (\<lambda>_. if ref = [] then Inl ValueError else Inr p))"

definition build_upstream_credential_provider :: "credential_settings \<Rightarrow> bool \<Rightarrow> credential_provider result" where
  "build_upstream_credential_provider s has_secret_provider =
     (if cs_mode s = ''private'' then Inr NoCredentialProvider
      else if \<not> has_secret_provider then Inl ValueError
      else provider_check (SecretBackedCredentialProvider (or_text (cs_header_name s) []) (or_text (cs_secret_ref s) [])
             (cs_value_prefix s)))"

definition headers_for :: "gate \<Rightarrow> credential_provider \<Rightarrow> (string \<times> string) list result" where
  "headers_for G p = (case p of
      NoCredentialProvider \<Rightarrow> Inr []
    | StaticHeaderCredentialProvider n v \<Rightarrow> Inr [(n, v)]
    | SecretBackedCredentialProvider n ref pre \<Rightarrow>
        (case g_secret G ref of
           None \<Rightarrow> Inl (AppError ''UpstreamCredentialError'')
         | Some secret \<Rightarrow>
             if secret = [] then Inl (AppError ''UpstreamCredentialError'')
             else (case validate_header n (pre @ secret) of
                     Inl e \<Rightarrow> Inl (AppError ''UpstreamCredentialError'')
                   | Inr _ \<Rightarrow> Inr [(n, pre @ secret)])))"

text \<open>The provider an application is built with: an injected one excludes any credential setting.\<close>

definition application_provider ::
  "gateway_settings \<Rightarrow> credential_provider option \<Rightarrow> bool \<Rightarrow> credential_provider result" where
  "application_provider s injected has_secret_provider = (case injected of
      Some p \<Rightarrow>
        if has_secret_provider \<or> cs_mode (gw_credential s) \<noteq> ''private'' then Inl ValueError else Inr p
    | None \<Rightarrow> build_upstream_credential_provider (gw_credential s) has_secret_provider)"

section \<open>Administration\<close>

record admin_request =
  aq_path :: string
  aq_authorization :: "string option"
  aq_peer_cert :: "bool option" \<comment> \<open>of a TLS connection: whether it has a certificate\<close>

text \<open>\<open>secrets.compare_digest\<close> refuses text that is not ASCII.\<close>

definition compare_digest :: "string \<Rightarrow> string \<Rightarrow> bool result" where
  "compare_digest a b =
     (if list_ex (\<lambda>ch. 128 \<le> char_code ch) (a @ b) then Inl TypeError else Inr (a = b))"

definition is_authorized :: "gate \<Rightarrow> admin_settings \<Rightarrow> bool \<Rightarrow> admin_request \<Rightarrow> bool result" where
  "is_authorized G s has_secret_provider rq =
     (if as_authentication s = ''mtls''
      then Inr (aq_peer_cert rq = Some True)
      else let authorization = (case aq_authorization rq of None \<Rightarrow> [] | Some v \<Rightarrow> v) in
        if \<not> starts_with ''Bearer '' authorization then Inr False
        else if \<not> has_secret_provider then Inr False
        else case g_secret G (or_text (as_token_secret_ref s) []) of
          None \<Rightarrow> Inr False
        | Some expected \<Rightarrow>
            if expected = [] then Inr False else compare_digest (drop 7 authorization) expected)"

text \<open>The status of the answer; only \<open>/admin/health\<close> is served.\<close>

definition admin_answer :: "gate \<Rightarrow> admin_settings \<Rightarrow> bool \<Rightarrow> admin_request \<Rightarrow> int result" where
  "admin_answer G s has_secret_provider rq =
     (if starts_with ''/admin/'' (aq_path rq)
      then chain (is_authorized G s has_secret_provider rq) (\<lambda>authorized.
             if \<not> authorized then Inr 401
             else if aq_path rq = ''/admin/health'' then Inr 200 else Inr 404)
      else Inr 404)"

section \<open>The record of a request\<close>

record in_request =
  ir_method :: string
  ir_rest_path :: string \<comment> \<open>the decoded path below the prefix of the route\<close>
  ir_raw_path :: string
  ir_query :: string
  ir_headers :: "(string \<times> string) list"
  ir_body :: bytes

record external_task_session =
  et_session_id :: string
  et_a2a_task_id :: "string option"
  et_transport :: string
  et_request_method :: string
  et_request_hash :: string
  et_upstream :: string
  et_started_at :: int
  et_ended_at :: int
  et_outcome :: string

record gateway =
  gs_tick :: nat
  gs_sent :: "up_request list" \<comment> \<open>what the upstream has seen, oldest first\<close>
  gs_records :: "external_task_session list" \<comment> \<open>what the observer was told\<close>

text \<open>\<open>{name.lower(): value for name, value in headers.items()}\<close>: the last value of a name stays.\<close>

definition put_header :: "string \<times> string \<Rightarrow> (string \<times> string) list \<Rightarrow> (string \<times> string) list" where
  "put_header h d = AList.update (map to_lower (fst h)) (snd h) d"

definition normalized_headers :: "(string \<times> string) list \<Rightarrow> (string \<times> string) list" where
  "normalized_headers hs = fold put_header hs []"

definition HASHED_HEADERS :: "string list" where
  "HASHED_HEADERS = [''a2a-version'', ''a2a-extensions'', ''accept'', ''content-type'', ''last-event-id'']"

definition present_headers :: "(string \<Rightarrow> string option) \<Rightarrow> string list \<Rightarrow> (string \<times> string) list" where
  "present_headers look names = concat (map (\<lambda>n. case look n of None \<Rightarrow> [] | Some v \<Rightarrow> [(n, v)]) names)"

definition deterministic_request_hash ::
  "gate \<Rightarrow> string \<Rightarrow> string \<Rightarrow> string \<Rightarrow> (string \<times> string) list \<Rightarrow> bytes \<Rightarrow> string result" where
  "deterministic_request_hash G transport request_method target headers body =
     (let protocol_headers = present_headers (map_of (normalized_headers headers)) HASHED_HEADERS;
          envelope = of_dict
            [(''body_sha256'', PStr (sha256_hex (g_world G) body)),
             (''headers'', of_dict (map (\<lambda>(n, v). (n, PStr v)) protocol_headers)),
             (''request_method'', PStr request_method), (''target'', PStr target), (''transport'', PStr transport)]
      in case w_dumps_compact (g_world G) envelope of
           None \<Rightarrow> Inl ValueError
         | Some canonical \<Rightarrow> Inr (sha256_hex (g_world G) (utf8_encode canonical)))"

definition json_get :: "pyval \<Rightarrow> string \<Rightarrow> pyval \<Rightarrow> pyval" where
  "json_get v k dflt = (case v of
      PDict kvs \<Rightarrow> (case map_of kvs (PStr k) of None \<Rightarrow> dflt | Some w \<Rightarrow> w)
    | _ \<Rightarrow> dflt)"

definition is_json_object :: "pyval \<Rightarrow> bool" where
  "is_json_object v = (case v of PDict _ \<Rightarrow> True | _ \<Rightarrow> False)"

definition task_id_from_response :: "gate \<Rightarrow> bytes option \<Rightarrow> string option" where
  "task_id_from_response G response_body =
     (case response_body of
        None \<Rightarrow> None
      | Some body \<Rightarrow>
          if body = [] then None
          else case g_loads G body of
            None \<Rightarrow> None
          | Some document \<Rightarrow>
              if \<not> is_json_object document then None
              else let candidate = json_get document ''result'' document in
                if \<not> is_json_object candidate then None
                else let task = json_get candidate ''task'' candidate in
                  if \<not> is_json_object task then None
                  else case json_get task ''id'' PNone of
                    PStr task_id \<Rightarrow> if task_id = [] then None else Some task_id
                  | _ \<Rightarrow> None)"

record tracker =
  tr_session_id :: string
  tr_transport :: string
  tr_request_method :: string
  tr_upstream :: string
  tr_started_at :: int
  tr_request_hash :: string
  tr_completed :: bool

definition gs_step :: "gateway \<Rightarrow> gateway" where
  "gs_step g = g\<lparr>gs_tick := Suc (gs_tick g)\<rparr>"

definition new_tracker ::
  "gate \<Rightarrow> string \<Rightarrow> string \<Rightarrow> string \<Rightarrow> string \<Rightarrow> (string \<times> string) list \<Rightarrow> bytes \<Rightarrow> gateway \<Rightarrow> gateway \<times> tracker result" where
  "new_tracker G transport request_method target upstream headers body g =
     (gs_step g,
      chain (deterministic_request_hash G transport request_method target headers body) (\<lambda>h.
        Inr \<lparr>tr_session_id = w_uuid (g_world G) (gs_tick g), tr_transport = transport,
             tr_request_method = request_method, tr_upstream = upstream,
             tr_started_at = w_clock (g_world G) (gs_tick g), tr_request_hash = h, tr_completed = False\<rparr>))"

text \<open>\<open>observed\<close> says whether there is an observer; what it raises is dropped.\<close>

definition tracker_complete ::
  "gate \<Rightarrow> bool \<Rightarrow> tracker \<Rightarrow> string \<Rightarrow> bytes option \<Rightarrow> gateway \<Rightarrow> gateway \<times> tracker" where
  "tracker_complete G observed t outcome response_body g =
     (if tr_completed t then (g, t)
      else let session = \<lparr>et_session_id = tr_session_id t, et_a2a_task_id = task_id_from_response G response_body,
                  et_transport = tr_transport t, et_request_method = tr_request_method t,
                  et_request_hash = tr_request_hash t, et_upstream = tr_upstream t,
                  et_started_at = tr_started_at t, et_ended_at = w_clock (g_world G) (gs_tick g),
                  et_outcome = outcome\<rparr>;
               g1 = gs_step g
           in ((if observed then g1\<lparr>gs_records := gs_records g1 @ [session]\<rparr> else g1), t\<lparr>tr_completed := True\<rparr>))"

section \<open>The proxies\<close>

definition FORWARDED_REQUEST_HEADERS :: "string list" where
  "FORWARDED_REQUEST_HEADERS = [''content-type'', ''accept'', ''a2a-version'', ''a2a-extensions'', ''last-event-id'']"

definition FORWARDED_RESPONSE_HEADERS :: "string list" where
  "FORWARDED_RESPONSE_HEADERS =
     [''content-type'', ''cache-control'', ''a2a-version'', ''etag'', ''content-location'', ''retry-after'', ''content-encoding'']"

definition selected_headers :: "(string \<Rightarrow> string option) \<Rightarrow> string list \<Rightarrow> (string \<times> string) list" where
  "selected_headers look allowed = present_headers look allowed"

text \<open>httpx joins the values of a repeated response header.\<close>

fun comma_joined :: "string list \<Rightarrow> string" where
  "comma_joined [] = []"
| "comma_joined [v] = v"
| "comma_joined (v # vs) = v @ '', '' @ comma_joined vs"

definition response_header :: "(string \<times> string) list \<Rightarrow> string \<Rightarrow> string option" where
  "response_header hs n =
     (let vs = map snd (filter (\<lambda>(k, v). map to_lower k = n) hs) in if vs = [] then None else Some (comma_joined vs))"

definition supports_a2a_version :: "gate \<Rightarrow> string option \<Rightarrow> bool" where
  "supports_a2a_version G value =
     (otruthy value \<and> (case g_version G (the value) of None \<Rightarrow> False | Some release \<Rightarrow> take 2 release = [1, 0]))"

definition is_nonstreaming_rest_operation :: "string \<Rightarrow> string \<Rightarrow> bool" where
  "is_nonstreaming_rest_operation method path =
     ((method, path) \<in> set [(''POST'', ''message:send''), (''GET'', ''tasks'')]
      \<or> (case split_on (CHR ''/'') path of
           [t, seg] \<Rightarrow> t = ''tasks''
             \<and> (method = ''GET'' \<and> seg \<noteq> []
                \<or> method = ''POST'' \<and> ends_with '':cancel'' seg \<and> seg \<noteq> '':cancel'')
         | _ \<Rightarrow> False))"

definition is_streaming_rest_operation :: "string \<Rightarrow> string \<Rightarrow> bool" where
  "is_streaming_rest_operation method path =
     (method = ''POST'' \<and> path = ''message:stream''
      \<or> method \<in> set [''GET'', ''POST''] \<and>
        (case split_on (CHR ''/'') path of
           [t, seg] \<Rightarrow> t = ''tasks'' \<and> ends_with '':subscribe'' seg \<and> seg \<noteq> '':subscribe''
         | _ \<Rightarrow> False))"

definition known_unsupported_rest_error :: "string \<Rightarrow> string option" where
  "known_unsupported_rest_error path =
     (if (case split_on (CHR ''/'') path of
            [t, seg, p] \<Rightarrow> t = ''tasks'' \<and> seg \<noteq> [] \<and> p = ''pushNotificationConfigs''
          | [t, seg, p, cfg] \<Rightarrow> t = ''tasks'' \<and> seg \<noteq> [] \<and> p = ''pushNotificationConfigs'' \<and> cfg \<noteq> []
          | _ \<Rightarrow> False)
      then Some ''PushNotificationNotSupportedError''
      else if path = ''extendedAgentCard'' then Some ''UnsupportedOperationError''
      else None)"

datatype out_body =
    RawBody bytes
  | JsonBody pyval
  | StreamBody "bytes list" "stream_event option" \<comment> \<open>the chunks passed on, and what ended the stream early\<close>

record out_response =
  os_status :: int
  os_headers :: "(string \<times> string) list"
  os_body :: out_body

text \<open>The client's own headers, overridden by those of the request.\<close>

definition merge_headers :: "(string \<times> string) list \<Rightarrow> (string \<times> string) list \<Rightarrow> (string \<times> string) list" where
  "merge_headers client request =
     filter (\<lambda>(n, v). map to_lower n \<notin> (\<lambda>(k, w). map to_lower k) ` set request) client @ request"

definition send_upstream :: "gate \<Rightarrow> up_request \<Rightarrow> gateway \<Rightarrow> gateway \<times> up_reply" where
  "send_upstream G u g = (gs_step (g\<lparr>gs_sent := gs_sent g @ [u]\<rparr>), g_send G (gs_tick g) u)"

definition stream_upstream :: "gate \<Rightarrow> up_request \<Rightarrow> gateway \<Rightarrow> gateway \<times> up_stream" where
  "stream_upstream G u g = (gs_step (g\<lparr>gs_sent := gs_sent g @ [u]\<rparr>), g_stream G (gs_tick g) u)"

definition unavailable :: out_response where
  "unavailable = \<lparr>os_status = 502, os_headers = [],
     os_body = JsonBody (of_dict [(''detail'', PStr ''Protected A2A upstream is unavailable'')])\<rparr>"

text \<open>The generator of a streamed body: chunks passed on, the outcome, and the exception it ends with.\<close>

fun forward_body :: "stream_event list \<Rightarrow> bytes list \<times> string \<times> stream_event option" where
  "forward_body [] = ([], ''forwarded'', None)"
| "forward_body (Chunk c # evs) = (case forward_body evs of (cs, outcome, x) \<Rightarrow> (c # cs, outcome, x))"
| "forward_body (Silence # evs) = ([], ''upstream_timeout'', Some Silence)"
| "forward_body (Cancelled # evs) = ([], ''client_disconnected'', Some Cancelled)"
| "forward_body (Broken # evs) = ([], ''upstream_disconnected'', Some Broken)"
| "forward_body (Closed # evs) = ([], ''forwarded'', Some Closed)"

text \<open>A failure of the credentials ends as an unavailable upstream; any other exception escapes.\<close>

type_synonym credentials = "string \<Rightarrow> string \<Rightarrow> (string \<times> string) list result" \<comment> \<open>method, URL\<close>

definition give_up :: "gate \<Rightarrow> bool \<Rightarrow> tracker \<Rightarrow> gateway \<Rightarrow> gateway \<times> out_response result" where
  "give_up G observed t g = (fst (tracker_complete G observed t ''upstream_unavailable'' None g), Inr unavailable)"

definition buffered_upstream_response ::
  "gate \<Rightarrow> credentials \<Rightarrow> bool \<Rightarrow> string \<Rightarrow> string \<Rightarrow> bytes \<Rightarrow> (string \<times> string) list \<Rightarrow> tracker \<Rightarrow> gateway
   \<Rightarrow> gateway \<times> out_response result" where
  "buffered_upstream_response G cred observed method url body headers t g =
     (case cred method url of
        Inl e \<Rightarrow> if e = AppError ''UpstreamCredentialError'' then give_up G observed t g else (g, Inl e)
      | Inr credential_headers \<Rightarrow>
          (case send_upstream G \<lparr>up_method = method, up_url = url, up_headers = merge_headers credential_headers headers,
                  up_body = body\<rparr> g of
             (g1, HTTPError) \<Rightarrow> give_up G observed t g1
           | (g1, Reply status hs content) \<Rightarrow>
               (fst (tracker_complete G observed t ''forwarded'' (Some content) g1),
                Inr \<lparr>os_status = status, os_headers = selected_headers (response_header hs) FORWARDED_RESPONSE_HEADERS,
                     os_body = RawBody content\<rparr>)))"

definition streaming_upstream_response ::
  "gate \<Rightarrow> credentials \<Rightarrow> bool \<Rightarrow> string \<Rightarrow> string \<Rightarrow> bytes \<Rightarrow> (string \<times> string) list \<Rightarrow> tracker \<Rightarrow> gateway
   \<Rightarrow> gateway \<times> out_response result" where
  "streaming_upstream_response G cred observed method url body headers t g =
     (case cred method url of
        Inl e \<Rightarrow> if e = AppError ''UpstreamCredentialError'' then give_up G observed t g else (g, Inl e)
      | Inr credential_headers \<Rightarrow>
          (case stream_upstream G \<lparr>up_method = method, up_url = url, up_headers = merge_headers credential_headers headers,
                  up_body = body\<rparr> g of
             (g1, StreamHTTPError) \<Rightarrow> give_up G observed t g1
           | (g1, Streaming status hs evs) \<Rightarrow>
               (case forward_body evs of (chunks, outcome, x) \<Rightarrow>
                  (fst (tracker_complete G observed t outcome None g1),
                   Inr \<lparr>os_status = status, os_headers = selected_headers (response_header hs) FORWARDED_RESPONSE_HEADERS,
                        os_body = StreamBody chunks x\<rparr>))))"

definition JSONRPC_PATH :: string where
  "JSONRPC_PATH = ''/a2a/jsonrpc''"

definition version_error :: "pyval \<Rightarrow> out_response" where
  "version_error request_id = \<lparr>os_status = 200, os_headers = [],
     os_body = JsonBody (of_dict [(''jsonrpc'', PStr ''2.0''), (''id'', request_id),
       (''error'', of_dict [(''code'', PInt (- 32009)), (''message'', PStr ''Version not supported'')])])\<rparr>"

text \<open>Membership in a set of strings hashes the value first.\<close>

definition in_string_set :: "pyval \<Rightarrow> string list \<Rightarrow> bool result" where
  "in_string_set v names = (case v of
      PList _ \<Rightarrow> Inl TypeError
    | PDict _ \<Rightarrow> Inl TypeError
    | PStr s \<Rightarrow> Inr (s \<in> set names)
    | _ \<Rightarrow> Inr False)"

definition jsonrpc_request :: "gate \<Rightarrow> bytes \<Rightarrow> pyval" where
  "jsonrpc_request G body = (case g_loads G body of None \<Rightarrow> PDict [] | Some v \<Rightarrow> v)"

definition proxy_jsonrpc ::
  "gate \<Rightarrow> gateway_settings \<Rightarrow> credentials \<Rightarrow> bool \<Rightarrow> in_request \<Rightarrow> gateway \<Rightarrow> gateway \<times> out_response result" where
  "proxy_jsonrpc G S cred observed rq g =
     (let rpc = jsonrpc_request G (ir_body rq);
          request_method = (case json_get rpc ''method'' PNone of PStr m \<Rightarrow> m | _ \<Rightarrow> ''POST'');
          url = gw_upstream_base_url S @ JSONRPC_PATH
      in case new_tracker G ''JSONRPC'' request_method JSONRPC_PATH (gw_upstream_base_url S) (ir_headers rq) (ir_body rq) g of
           (g1, Inl e) \<Rightarrow> (g1, Inl e)
         | (g1, Inr t) \<Rightarrow>
             if \<not> supports_a2a_version G (map_of (ir_headers rq) ''a2a-version'')
             then (fst (tracker_complete G observed t ''unsupported_version'' None g1),
                   Inr (version_error (json_get rpc ''id'' PNone)))
             else let headers = selected_headers (map_of (ir_headers rq)) FORWARDED_REQUEST_HEADERS in
               case (if is_json_object rpc
                     then in_string_set (json_get rpc ''method'' PNone) [''SendStreamingMessage'', ''SubscribeToTask'']
                     else Inr False) of
                 Inl e \<Rightarrow> (g1, Inl e)
               | Inr True \<Rightarrow> streaming_upstream_response G cred observed ''POST'' url (ir_body rq) headers t g1
               | Inr False \<Rightarrow> buffered_upstream_response G cred observed ''POST'' url (ir_body rq) headers t g1)"

definition rest_error :: "gate \<Rightarrow> string \<Rightarrow> out_response" where
  "rest_error G name = \<lparr>os_status = 400, os_headers = [], os_body = JsonBody (g_rest_error G name)\<rparr>"

definition unsupported :: out_response where
  "unsupported = \<lparr>os_status = 404, os_headers = [],
     os_body = JsonBody (of_dict [(''detail'', PStr ''A2A operation is unsupported'')])\<rparr>"

definition ascii_text :: "string \<Rightarrow> bool" where
  "ascii_text s = list_all (\<lambda>ch. char_code ch < 128) s"

definition rest_target :: "in_request \<Rightarrow> string" where
  "rest_target rq = (if ir_query rq = [] then ir_raw_path rq else ir_raw_path rq @ ''?'' @ ir_query rq)"

definition proxy_rest ::
  "gate \<Rightarrow> gateway_settings \<Rightarrow> credentials \<Rightarrow> bool \<Rightarrow> in_request \<Rightarrow> gateway \<Rightarrow> gateway \<times> out_response result" where
  "proxy_rest G S cred observed rq g =
     (if \<not> ascii_text (rest_target rq) then (g, Inl ValueError)
      else case g_rest_url G (gw_upstream_base_url S) (ir_raw_path rq) (ir_query rq) of
        Inl e \<Rightarrow> (g, Inl e)
      | Inr url \<Rightarrow>
        (case new_tracker G ''HTTP+JSON'' (ir_method rq) (rest_target rq) (gw_upstream_base_url S) (ir_headers rq) (ir_body rq) g of
           (g1, Inl e) \<Rightarrow> (g1, Inl e)
         | (g1, Inr t) \<Rightarrow>
           (let is_streaming = is_streaming_rest_operation (ir_method rq) (ir_rest_path rq) in
            case known_unsupported_rest_error (ir_rest_path rq) of
              Some name \<Rightarrow> (fst (tracker_complete G observed t ''unsupported_operation'' None g1), Inr (rest_error G name))
            | None \<Rightarrow>
              if \<not> (is_streaming \<or> is_nonstreaming_rest_operation (ir_method rq) (ir_rest_path rq))
              then (fst (tracker_complete G observed t ''unsupported_operation'' None g1), Inr unsupported)
              else if \<not> supports_a2a_version G (map_of (ir_headers rq) ''a2a-version'')
              then (fst (tracker_complete G observed t ''unsupported_version'' None g1), Inr (rest_error G ''VersionNotSupportedError''))
              else let headers = selected_headers (map_of (ir_headers rq)) FORWARDED_REQUEST_HEADERS in
                if is_streaming
                then streaming_upstream_response G cred observed (ir_method rq) url (ir_body rq) headers t g1
                else buffered_upstream_response G cred observed (ir_method rq) url (ir_body rq) headers t g1)))"

datatype a2a_call = Rpc in_request | Rest in_request

fun request_of :: "a2a_call \<Rightarrow> in_request" where
  "request_of (Rpc rq) = rq"
| "request_of (Rest rq) = rq"

fun gateway_handle ::
  "gate \<Rightarrow> gateway_settings \<Rightarrow> credentials \<Rightarrow> bool \<Rightarrow> a2a_call \<Rightarrow> gateway \<Rightarrow> gateway \<times> out_response result" where
  "gateway_handle G S cred observed (Rpc rq) g = proxy_jsonrpc G S cred observed rq g"
| "gateway_handle G S cred observed (Rest rq) g = proxy_rest G S cred observed rq g"

section \<open>What a request may cause\<close>

text \<open>The only request a call may send: the caller's body, protocol headers and the credentials.\<close>

definition vetted_headers :: "credentials \<Rightarrow> in_request \<Rightarrow> up_request \<Rightarrow> bool" where
  "vetted_headers cred rq u =
     (\<exists>own. cred (up_method u) (up_url u) = Inr own
       \<and> (\<forall>h \<in> set (up_headers u). h \<in> set own
            \<or> fst h \<in> set FORWARDED_REQUEST_HEADERS \<and> map_of (ir_headers rq) (fst h) = Some (snd h)))"

fun exposed :: "gate \<Rightarrow> gateway_settings \<Rightarrow> a2a_call \<Rightarrow> up_request \<Rightarrow> bool" where
  "exposed G S (Rpc rq) u = (up_method u = ''POST'' \<and> up_url u = gw_upstream_base_url S @ JSONRPC_PATH)"
| "exposed G S (Rest rq) u =
     (up_method u = ir_method rq \<and> g_rest_url G (gw_upstream_base_url S) (ir_raw_path rq) (ir_query rq) = Inr (up_url u)
      \<and> known_unsupported_rest_error (ir_rest_path rq) = None
      \<and> (is_streaming_rest_operation (ir_method rq) (ir_rest_path rq)
         \<or> is_nonstreaming_rest_operation (ir_method rq) (ir_rest_path rq)))"

definition vetted :: "gate \<Rightarrow> gateway_settings \<Rightarrow> credentials \<Rightarrow> a2a_call \<Rightarrow> up_request \<Rightarrow> bool" where
  "vetted G S cred c u =
     (up_body u = ir_body (request_of c) \<and> exposed G S c u \<and> vetted_headers cred (request_of c) u
      \<and> supports_a2a_version G (map_of (ir_headers (request_of c)) ''a2a-version''))"

lemma complete_fresh:
  assumes "\<not> tr_completed t"
  shows "\<exists>n. fst (tracker_complete G True t outcome body g) = g\<lparr>gs_tick := n,
      gs_records := gs_records g @ [\<lparr>et_session_id = tr_session_id t, et_a2a_task_id = task_id_from_response G body,
        et_transport = tr_transport t, et_request_method = tr_request_method t, et_request_hash = tr_request_hash t,
        et_upstream = tr_upstream t, et_started_at = tr_started_at t,
        et_ended_at = w_clock (g_world G) (gs_tick g), et_outcome = outcome\<rparr>]\<rparr>"
  using assms by (auto simp: tracker_complete_def Let_def gs_step_def)

lemma complete_unobserved: "gs_sent (fst (tracker_complete G obs t outcome body g)) = gs_sent g"
  by (simp add: tracker_complete_def Let_def gs_step_def)

definition UNSENT_OUTCOMES :: "string list" where
  "UNSENT_OUTCOMES = [''unsupported_version'', ''unsupported_operation'', ''upstream_unavailable'']"

text \<open>The record of an attempt: its facts, what was sent for it and how it ended.\<close>

definition call_attempt ::
  "gate \<Rightarrow> tracker \<Rightarrow> up_request list \<Rightarrow> gateway \<Rightarrow> gateway \<Rightarrow> external_task_session \<Rightarrow> bool" where
  "call_attempt G t us g g' r =
     (gs_records g' = gs_records g @ [r] \<and> gs_sent g' = gs_sent g @ us
      \<and> et_request_hash r = tr_request_hash t \<and> et_transport r = tr_transport t
      \<and> et_request_method r = tr_request_method t \<and> et_upstream r = tr_upstream t
      \<and> (us = [] \<longrightarrow> et_outcome r \<in> set UNSENT_OUTCOMES))"

lemma attempt_refused:
  assumes "\<not> tr_completed t" "outcome \<in> set UNSENT_OUTCOMES"
  shows "\<exists>r. call_attempt G t [] g (fst (tracker_complete G True t outcome body g)) r \<and> et_outcome r = outcome"
proof -
  obtain n r where "fst (tracker_complete G True t outcome body g) = g\<lparr>gs_tick := n, gs_records := gs_records g @ [r]\<rparr>"
    "r = \<lparr>et_session_id = tr_session_id t, et_a2a_task_id = task_id_from_response G body,
        et_transport = tr_transport t, et_request_method = tr_request_method t, et_request_hash = tr_request_hash t,
        et_upstream = tr_upstream t, et_started_at = tr_started_at t,
        et_ended_at = w_clock (g_world G) (gs_tick g), et_outcome = outcome\<rparr>"
    using complete_fresh [OF assms(1), of G outcome body g] by blast
  then show ?thesis using assms(2) by (intro exI [of _ r]) (simp add: call_attempt_def)
qed

lemma attempt_sent:
  assumes "\<not> tr_completed t" "gs_sent g1 = gs_sent g @ [u]" "gs_records g1 = gs_records g"
  shows "\<exists>r. call_attempt G t [u] g (fst (tracker_complete G True t outcome body g1)) r \<and> et_outcome r = outcome"
proof -
  obtain n r where "fst (tracker_complete G True t outcome body g1) = g1\<lparr>gs_tick := n, gs_records := gs_records g1 @ [r]\<rparr>"
    "r = \<lparr>et_session_id = tr_session_id t, et_a2a_task_id = task_id_from_response G body,
        et_transport = tr_transport t, et_request_method = tr_request_method t, et_request_hash = tr_request_hash t,
        et_upstream = tr_upstream t, et_started_at = tr_started_at t,
        et_ended_at = w_clock (g_world G) (gs_tick g1), et_outcome = outcome\<rparr>"
    using complete_fresh [OF assms(1), of G outcome body g1] by blast
  then show ?thesis using assms(2,3) by (intro exI [of _ r]) (simp add: call_attempt_def)
qed

lemma merged_headers:
  assumes "cred m url = Inr own"
  shows "vetted_headers cred rq \<lparr>up_method = m, up_url = url,
      up_headers = merge_headers own (selected_headers (map_of (ir_headers rq)) FORWARDED_REQUEST_HEADERS), up_body = b\<rparr>"
proof -
  have sel: "fst h \<in> set FORWARDED_REQUEST_HEADERS \<and> map_of (ir_headers rq) (fst h) = Some (snd h)"
    if "h \<in> set (selected_headers (map_of (ir_headers rq)) FORWARDED_REQUEST_HEADERS)" for h
    using that by (auto simp: selected_headers_def present_headers_def split: option.splits)
  show ?thesis
    unfolding vetted_headers_def using assms sel by (auto simp: merge_headers_def)
qed

lemma buffered_attempt:
  assumes "buffered_upstream_response G cred True m url b
      (selected_headers (map_of (ir_headers rq)) FORWARDED_REQUEST_HEADERS) t g = (g', Inr resp)" "\<not> tr_completed t"
  shows "\<exists>us r. call_attempt G t us g g' r \<and> length us \<le> 1
    \<and> (\<forall>u \<in> set us. up_method u = m \<and> up_url u = url \<and> up_body u = b \<and> vetted_headers cred rq u)"
proof (cases "cred m url")
  case (Inl e)
  then have "g' = fst (tracker_complete G True t ''upstream_unavailable'' None g)"
    using assms(1) by (auto simp: buffered_upstream_response_def give_up_def split: if_splits)
  then show ?thesis using attempt_refused [OF assms(2), of "''upstream_unavailable''" G g None]
    by (auto simp: UNSENT_OUTCOMES_def intro: exI [of _ "[]"])
next
  case (Inr own)
  let ?u = "\<lparr>up_method = m, up_url = url,
      up_headers = merge_headers own (selected_headers (map_of (ir_headers rq)) FORWARDED_REQUEST_HEADERS), up_body = b\<rparr>"
  let ?g1 = "gs_step (g\<lparr>gs_sent := gs_sent g @ [?u]\<rparr>)"
  have "\<exists>outcome body. g' = fst (tracker_complete G True t outcome body ?g1)"
    using assms(1) Inr by (auto simp: buffered_upstream_response_def send_upstream_def give_up_def split: up_reply.splits)
  moreover have "gs_sent ?g1 = gs_sent g @ [?u]" "gs_records ?g1 = gs_records g" by (simp_all add: gs_step_def)
  ultimately obtain r where "call_attempt G t [?u] g g' r" using attempt_sent [OF assms(2), of ?g1 g ?u G] by blast
  then show ?thesis using merged_headers [of cred m url, OF Inr] by (intro exI [of _ "[?u]"] exI [of _ r]) simp
qed

lemma streaming_attempt:
  assumes "streaming_upstream_response G cred True m url b
      (selected_headers (map_of (ir_headers rq)) FORWARDED_REQUEST_HEADERS) t g = (g', Inr resp)" "\<not> tr_completed t"
  shows "\<exists>us r. call_attempt G t us g g' r \<and> length us \<le> 1
    \<and> (\<forall>u \<in> set us. up_method u = m \<and> up_url u = url \<and> up_body u = b \<and> vetted_headers cred rq u)"
proof (cases "cred m url")
  case (Inl e)
  then have "g' = fst (tracker_complete G True t ''upstream_unavailable'' None g)"
    using assms(1) by (auto simp: streaming_upstream_response_def give_up_def split: if_splits)
  then show ?thesis using attempt_refused [OF assms(2), of "''upstream_unavailable''" G g None]
    by (auto simp: UNSENT_OUTCOMES_def intro: exI [of _ "[]"])
next
  case (Inr own)
  let ?u = "\<lparr>up_method = m, up_url = url,
      up_headers = merge_headers own (selected_headers (map_of (ir_headers rq)) FORWARDED_REQUEST_HEADERS), up_body = b\<rparr>"
  let ?g1 = "gs_step (g\<lparr>gs_sent := gs_sent g @ [?u]\<rparr>)"
  have "\<exists>outcome body. g' = fst (tracker_complete G True t outcome body ?g1)"
    using assms(1) Inr
    by (auto simp: streaming_upstream_response_def stream_upstream_def give_up_def split: up_stream.splits prod.splits)
  moreover have "gs_sent ?g1 = gs_sent g @ [?u]" "gs_records ?g1 = gs_records g" by (simp_all add: gs_step_def)
  ultimately obtain r where "call_attempt G t [?u] g g' r" using attempt_sent [OF assms(2), of ?g1 g ?u G] by blast
  then show ?thesis using merged_headers [of cred m url, OF Inr] by (intro exI [of _ "[?u]"] exI [of _ r]) simp
qed

text \<open>An exception that escapes leaves neither a record nor a request.\<close>

lemma upstream_escape:
  assumes "buffered_upstream_response G cred obs m url b hs t g = (g', Inl e)
    \<or> streaming_upstream_response G cred obs m url b hs t g = (g', Inl e)"
  shows "g' = g \<and> cred m url = Inl e"
  using assms
  by (auto simp: buffered_upstream_response_def streaming_upstream_response_def give_up_def
      split: sum.splits if_splits up_reply.splits up_stream.splits prod.splits)

lemma new_tracker_Inr:
  assumes "new_tracker G tp m target up hs b g = (g1, Inr t)"
  shows "g1 = gs_step g \<and> \<not> tr_completed t \<and> tr_transport t = tp \<and> tr_request_method t = m \<and> tr_upstream t = up
    \<and> deterministic_request_hash G tp m target hs b = Inr (tr_request_hash t)"
  using assms by (auto simp: new_tracker_def chain_Inr)

lemma attempt_step: "call_attempt G t us (gs_step g) g' r = call_attempt G t us g g' r"
  by (simp add: call_attempt_def gs_step_def)

text \<open>What a call is hashed over.\<close>

fun call_hash :: "gate \<Rightarrow> a2a_call \<Rightarrow> string result" where
  "call_hash G (Rpc rq) = deterministic_request_hash G ''JSONRPC''
     (case json_get (jsonrpc_request G (ir_body rq)) ''method'' PNone of PStr m \<Rightarrow> m | _ \<Rightarrow> ''POST'')
     JSONRPC_PATH (ir_headers rq) (ir_body rq)"
| "call_hash G (Rest rq) = deterministic_request_hash G ''HTTP+JSON'' (ir_method rq) (rest_target rq) (ir_headers rq) (ir_body rq)"

definition accounted ::
  "gate \<Rightarrow> gateway_settings \<Rightarrow> credentials \<Rightarrow> a2a_call \<Rightarrow> gateway \<Rightarrow> gateway \<Rightarrow> bool" where
  "accounted G S cred c g g' =
     (\<exists>us r. gs_records g' = gs_records g @ [r] \<and> gs_sent g' = gs_sent g @ us \<and> length us \<le> 1
       \<and> (\<forall>u \<in> set us. vetted G S cred c u)
       \<and> call_hash G c = Inr (et_request_hash r) \<and> et_upstream r = gw_upstream_base_url S
       \<and> (us = [] \<longrightarrow> et_outcome r \<in> set UNSENT_OUTCOMES))"

lemma accounted_refused:
  assumes "new_tracker G tp m target (gw_upstream_base_url S) hs b g = (g1, Inr t)"
    and "call_hash G c = deterministic_request_hash G tp m target hs b" and "outcome \<in> set UNSENT_OUTCOMES"
  shows "accounted G S cred c g (fst (tracker_complete G True t outcome body g1))"
proof -
  note t = new_tracker_Inr [OF assms(1)]
  obtain r where "call_attempt G t [] g (fst (tracker_complete G True t outcome body g1)) r"
    using attempt_refused [of t outcome G g1 body] t assms(3) by (auto simp: attempt_step)
  then show ?thesis
    unfolding accounted_def using t assms(2) by (intro exI [of _ "[]"] exI [of _ r]) (simp add: call_attempt_def)
qed

lemma accounted_sent:
  assumes "new_tracker G tp m target (gw_upstream_base_url S) hs b g = (g1, Inr t)"
    and "call_hash G c = deterministic_request_hash G tp m target hs b"
    and "\<exists>us r. call_attempt G t us g1 g' r \<and> length us \<le> 1 \<and> (\<forall>u \<in> set us. up_method u = mt \<and> up_url u = url
      \<and> up_body u = ir_body (request_of c) \<and> vetted_headers cred (request_of c) u)"
    and "supports_a2a_version G (map_of (ir_headers (request_of c)) ''a2a-version'')"
    and "\<And>u. up_method u = mt \<Longrightarrow> up_url u = url \<Longrightarrow> exposed G S c u"
  shows "accounted G S cred c g g'"
proof -
  note t = new_tracker_Inr [OF assms(1)]
  obtain us r where a: "call_attempt G t us g1 g' r" "length us \<le> 1" and u: "\<forall>u \<in> set us. up_method u = mt \<and> up_url u = url
      \<and> up_body u = ir_body (request_of c) \<and> vetted_headers cred (request_of c) u" using assms(3) by blast
  have "\<forall>u \<in> set us. vetted G S cred c u" using u assms(4,5) by (simp add: vetted_def)
  with a t assms(2) show ?thesis
    unfolding accounted_def by (intro exI [of _ us] exI [of _ r]) (simp add: call_attempt_def gs_step_def)
qed

lemma sent_by_upstream:
  assumes "(if b then streaming_upstream_response G cred True m url (ir_body rq) hs t g1
      else buffered_upstream_response G cred True m url (ir_body rq) hs t g1) = (g', Inr resp)"
    and "hs = selected_headers (map_of (ir_headers rq)) FORWARDED_REQUEST_HEADERS" and "\<not> tr_completed t"
  shows "\<exists>us r. call_attempt G t us g1 g' r \<and> length us \<le> 1 \<and> (\<forall>u \<in> set us. up_method u = m \<and> up_url u = url
      \<and> up_body u = ir_body rq \<and> vetted_headers cred rq u)"
  using assms buffered_attempt [of G cred m url "ir_body rq" rq t g1 g' resp]
    streaming_attempt [of G cred m url "ir_body rq" rq t g1 g' resp]
  by (auto split: if_splits)

lemma rpc_accounted:
  assumes "proxy_jsonrpc G S cred True rq g = (g', Inr resp)"
  shows "accounted G S cred (Rpc rq) g g'"
proof -
  let ?rpc = "jsonrpc_request G (ir_body rq)"
  let ?m = "case json_get ?rpc ''method'' PNone of PStr m \<Rightarrow> m | _ \<Rightarrow> ''POST''"
  let ?hs = "selected_headers (map_of (ir_headers rq)) FORWARDED_REQUEST_HEADERS"
  let ?url = "gw_upstream_base_url S @ JSONRPC_PATH"
  obtain g1 t where t: "new_tracker G ''JSONRPC'' ?m JSONRPC_PATH (gw_upstream_base_url S) (ir_headers rq) (ir_body rq) g = (g1, Inr t)"
    using assms by (cases "new_tracker G ''JSONRPC'' ?m JSONRPC_PATH (gw_upstream_base_url S) (ir_headers rq) (ir_body rq) g")
      (auto simp: proxy_jsonrpc_def Let_def split: sum.splits)
  note h = assms [unfolded proxy_jsonrpc_def Let_def t prod.case sum.case]
  have hash: "call_hash G (Rpc rq) = deterministic_request_hash G ''JSONRPC'' ?m JSONRPC_PATH (ir_headers rq) (ir_body rq)"
    by simp
  show ?thesis
  proof (cases "supports_a2a_version G (map_of (ir_headers rq) ''a2a-version'')")
    case False
    with h have "g' = fst (tracker_complete G True t ''unsupported_version'' None g1)" by simp
    with accounted_refused [OF t hash, of "''unsupported_version''"] show ?thesis by (simp add: UNSENT_OUTCOMES_def)
  next
    case True
    obtain b where "(if b then streaming_upstream_response G cred True ''POST'' ?url (ir_body rq) ?hs t g1
        else buffered_upstream_response G cred True ''POST'' ?url (ir_body rq) ?hs t g1) = (g', Inr resp)"
    proof -
      let ?x = "if is_json_object ?rpc
          then in_string_set (json_get ?rpc ''method'' PNone) [''SendStreamingMessage'', ''SubscribeToTask''] else Inr False"
      from h True show thesis using that [of True] that [of False] by (cases ?x) (auto split: bool.splits)
    qed
    from sent_by_upstream [OF this refl] new_tracker_Inr [OF t] True show ?thesis
      by (intro accounted_sent [OF t hash]) auto
  qed
qed

lemma rest_accounted:
  assumes "proxy_rest G S cred True rq g = (g', Inr resp)"
  shows "accounted G S cred (Rest rq) g g'"
proof -
  let ?hs = "selected_headers (map_of (ir_headers rq)) FORWARDED_REQUEST_HEADERS"
  let ?st = "is_streaming_rest_operation (ir_method rq) (ir_rest_path rq)"
  obtain url where url: "g_rest_url G (gw_upstream_base_url S) (ir_raw_path rq) (ir_query rq) = Inr url"
    using assms by (auto simp: proxy_rest_def split: if_splits sum.splits)
  obtain g1 t where t: "new_tracker G ''HTTP+JSON'' (ir_method rq) (rest_target rq) (gw_upstream_base_url S) (ir_headers rq)
      (ir_body rq) g = (g1, Inr t)"
    using assms by (auto simp: proxy_rest_def url split: if_splits sum.splits prod.splits)
  have asc: "ascii_text (rest_target rq) = True" using assms by (simp add: proxy_rest_def split: if_splits)
  have h: "(case known_unsupported_rest_error (ir_rest_path rq) of
              Some name \<Rightarrow> (fst (tracker_complete G True t ''unsupported_operation'' None g1), Inr (rest_error G name))
            | None \<Rightarrow>
              if \<not> (?st \<or> is_nonstreaming_rest_operation (ir_method rq) (ir_rest_path rq))
              then (fst (tracker_complete G True t ''unsupported_operation'' None g1), Inr unsupported)
              else if \<not> supports_a2a_version G (map_of (ir_headers rq) ''a2a-version'')
              then (fst (tracker_complete G True t ''unsupported_version'' None g1), Inr (rest_error G ''VersionNotSupportedError''))
              else if ?st then streaming_upstream_response G cred True (ir_method rq) url (ir_body rq) ?hs t g1
              else buffered_upstream_response G cred True (ir_method rq) url (ir_body rq) ?hs t g1) = (g', Inr resp)"
    using assms by (simp only: proxy_rest_def asc url t sum.case prod.case Let_def not_True_eq_False if_False)
  have hash: "call_hash G (Rest rq)
      = deterministic_request_hash G ''HTTP+JSON'' (ir_method rq) (rest_target rq) (ir_headers rq) (ir_body rq)" by simp
  have ref: "accounted G S cred (Rest rq) g g'"
    if "g' = fst (tracker_complete G True t ''unsupported_operation'' None g1)
      \<or> g' = fst (tracker_complete G True t ''unsupported_version'' None g1)"
    using that accounted_refused [OF t hash, of "''unsupported_operation''" cred None]
      accounted_refused [OF t hash, of "''unsupported_version''" cred None] by (auto simp: UNSENT_OUTCOMES_def)
  show ?thesis
  proof (cases "known_unsupported_rest_error (ir_rest_path rq) = None
      \<and> (?st \<or> is_nonstreaming_rest_operation (ir_method rq) (ir_rest_path rq))
      \<and> supports_a2a_version G (map_of (ir_headers rq) ''a2a-version'')")
    case False
    with h show ?thesis by (intro ref) (auto split: option.splits if_splits)
  next
    case True
    with h have "(if ?st then streaming_upstream_response G cred True (ir_method rq) url (ir_body rq) ?hs t g1
        else buffered_upstream_response G cred True (ir_method rq) url (ir_body rq) ?hs t g1) = (g', Inr resp)" by auto
    from sent_by_upstream [OF this refl] new_tracker_Inr [OF t] True url show ?thesis
      by (intro accounted_sent [OF t hash]) auto
  qed
qed

lemma handle_accounted: "gateway_handle G S cred True c g = (g', Inr resp) \<Longrightarrow> accounted G S cred c g g'"
  by (cases c) (simp_all add: rpc_accounted rest_accounted)

lemma handle_escaped:
  assumes "gateway_handle G S cred obs c g = (g', Inl e)"
  shows "gs_records g' = gs_records g \<and> gs_sent g' = gs_sent g"
  using assms
  by (cases c) (auto simp: proxy_jsonrpc_def proxy_rest_def new_tracker_def gs_step_def Let_def
      dest: upstream_escape [OF disjI1] upstream_escape [OF disjI2] split: if_splits sum.splits option.splits bool.splits)

section \<open>A service that records what it answers\<close>

primrec service_run ::
  "('c \<Rightarrow> gateway \<Rightarrow> gateway \<times> out_response result) \<Rightarrow> 'c list \<Rightarrow> gateway \<Rightarrow> gateway \<times> out_response result list" where
  "service_run h [] g = (g, [])"
| "service_run h (c # cs) g =
     (case h c g of (g1, r) \<Rightarrow> case service_run h cs g1 of (g2, rs) \<Rightarrow> (g2, r # rs))"

locale recorded_service =
  fixes handle :: "'c \<Rightarrow> gateway \<Rightarrow> gateway \<times> out_response result"
    and allowed :: "'c \<Rightarrow> up_request \<Rightarrow> bool"
  assumes answered: "handle c g = (g', Inr resp) \<Longrightarrow>
      \<exists>us r. gs_records g' = gs_records g @ [r] \<and> gs_sent g' = gs_sent g @ us \<and> length us \<le> 1
        \<and> (\<forall>u \<in> set us. allowed c u)"
    and escaped: "handle c g = (g', Inl e) \<Longrightarrow> gs_records g' = gs_records g \<and> gs_sent g' = gs_sent g"
begin

lemma step_accounted:
  assumes "handle c g = (g', x)"
  shows "\<exists>us rs. gs_records g' = gs_records g @ rs \<and> length rs = (if isl x then 0 else 1)
    \<and> gs_sent g' = gs_sent g @ us \<and> length us \<le> length rs \<and> (\<forall>u \<in> set us. allowed c u)"
proof (cases x)
  case (Inl e)
  with escaped [of c g g' e] assms show ?thesis by simp
next
  case (Inr resp)
  with answered [of c g g' resp] assms obtain us r where "gs_records g' = gs_records g @ [r]" "gs_sent g' = gs_sent g @ us"
    "length us \<le> 1" "\<forall>u \<in> set us. allowed c u" by blast
  with Inr show ?thesis by (intro exI [of _ us] exI [of _ "[r]"]) simp
qed

lemma run_accounted:
  "service_run handle cs g = (g', xs) \<Longrightarrow>
     \<exists>us rs. gs_records g' = gs_records g @ rs \<and> length rs = length (filter (\<lambda>x. \<not> isl x) xs)
       \<and> gs_sent g' = gs_sent g @ us \<and> length us \<le> length rs \<and> (\<forall>u \<in> set us. \<exists>c \<in> set cs. allowed c u)"
proof (induction cs arbitrary: g g' xs)
  case Nil
  then show ?case by simp
next
  case (Cons c cs)
  obtain g1 x where h: "handle c g = (g1, x)" by force
  obtain ys where r: "service_run handle cs g1 = (g', ys)" "xs = x # ys"
    using Cons.prems by (auto simp: h split: prod.splits)
  obtain us rs where 1: "gs_records g1 = gs_records g @ rs" "length rs = (if isl x then 0 else 1)"
    "gs_sent g1 = gs_sent g @ us" "length us \<le> length rs" "\<forall>u \<in> set us. allowed c u" using step_accounted [OF h] by blast
  obtain us' rs' where 2: "gs_records g' = gs_records g1 @ rs'" "length rs' = length (filter (\<lambda>x. \<not> isl x) ys)"
    "gs_sent g' = gs_sent g1 @ us'" "length us' \<le> length rs'" "\<forall>u \<in> set us'. \<exists>c \<in> set cs. allowed c u"
    using Cons.IH [OF r(1)] by blast
  show ?case
    using 1 2 r(2) by (intro exI [of _ "us @ us'"] exI [of _ "rs @ rs'"]) auto
qed

end

interpretation gw: recorded_service "gateway_handle G S cred True" "vetted G S cred"
proof unfold_locales
  fix c g g' resp
  assume "gateway_handle G S cred True c g = (g', Inr resp)"
  from handle_accounted [OF this] show "\<exists>us r. gs_records g' = gs_records g @ [r] \<and> gs_sent g' = gs_sent g @ us
      \<and> length us \<le> 1 \<and> (\<forall>u \<in> set us. vetted G S cred c u)"
    unfolding accounted_def by blast
next
  fix c g g' e
  assume "gateway_handle G S cred True c g = (g', Inl e)"
  from handle_escaped [OF this] show "gs_records g' = gs_records g \<and> gs_sent g' = gs_sent g" .
qed

section \<open>Headers that do not matter\<close>

definition protocol_part :: "(string \<times> string) list \<Rightarrow> (string \<times> string) list" where
  "protocol_part hs = filter (\<lambda>(n, v). map to_lower n \<in> set FORWARDED_REQUEST_HEADERS) hs"

lemma forwarded_lower: "n \<in> set FORWARDED_REQUEST_HEADERS \<Longrightarrow> map to_lower n = n"
proof -
  have "list_all (\<lambda>n. map to_lower n = n) FORWARDED_REQUEST_HEADERS" by code_simp
  then show "n \<in> set FORWARDED_REQUEST_HEADERS \<Longrightarrow> map to_lower n = n" by (simp add: list_all_iff)
qed

lemma hashed_forwarded: "set HASHED_HEADERS = set FORWARDED_REQUEST_HEADERS"
  by (auto simp: HASHED_HEADERS_def FORWARDED_REQUEST_HEADERS_def)

lemma first_protocol:
  assumes "n \<in> set FORWARDED_REQUEST_HEADERS"
  shows "map_of (protocol_part hs) n = map_of hs n"
  using assms forwarded_lower [OF assms] by (induction hs) (auto simp: protocol_part_def)

lemma last_protocol:
  assumes "n \<in> set FORWARDED_REQUEST_HEADERS"
  shows "map_of (normalized_headers (protocol_part hs)) n = map_of (normalized_headers hs) n"
proof -
  have "map_of acc n = map_of acc' n \<Longrightarrow>
      map_of (fold put_header (protocol_part hs) acc) n = map_of (fold put_header hs acc') n" for acc acc'
  proof (induction hs arbitrary: acc acc')
    case (Cons h hs)
    have "map_of (put_header h acc') n = map_of acc' n" if "map to_lower (fst h) \<notin> set FORWARDED_REQUEST_HEADERS"
      using that assms by (auto simp: put_header_def)
    moreover have "map_of (put_header h acc) n = map_of (put_header h acc') n"
      using Cons.prems by (simp add: put_header_def)
    ultimately show ?case
      using Cons.IH [of acc "put_header h acc'"] Cons.IH [of "put_header h acc" "put_header h acc'"] Cons.prems
      by (simp add: protocol_part_def split_beta)
  qed (simp add: protocol_part_def)
  then show ?thesis by (simp add: normalized_headers_def)
qed

lemma same_present:
  "(\<And>n. n \<in> set names \<Longrightarrow> look n = look' n) \<Longrightarrow> present_headers look names = present_headers look' names"
  by (auto simp: present_headers_def intro!: arg_cong [where f = concat] map_cong)

lemma same_protocol:
  assumes "protocol_part hs = protocol_part hs'"
  shows "selected_headers (map_of hs) FORWARDED_REQUEST_HEADERS = selected_headers (map_of hs') FORWARDED_REQUEST_HEADERS"
    and "deterministic_request_hash G tp m target hs b = deterministic_request_hash G tp m target hs' b"
    and "map_of hs ''a2a-version'' = map_of hs' ''a2a-version''"
proof -
  have first: "map_of hs n = map_of hs' n" if "n \<in> set FORWARDED_REQUEST_HEADERS" for n
    using first_protocol [OF that] assms by metis
  have last': "map_of (normalized_headers hs) n = map_of (normalized_headers hs') n"
    if "n \<in> set FORWARDED_REQUEST_HEADERS" for n
    using last_protocol [OF that] assms by metis
  show "selected_headers (map_of hs) FORWARDED_REQUEST_HEADERS = selected_headers (map_of hs') FORWARDED_REQUEST_HEADERS"
    unfolding selected_headers_def by (rule same_present) (rule first)
  have "present_headers (map_of (normalized_headers hs)) HASHED_HEADERS = present_headers (map_of (normalized_headers hs')) HASHED_HEADERS"
    by (rule same_present) (simp add: last' hashed_forwarded)
  then show "deterministic_request_hash G tp m target hs b = deterministic_request_hash G tp m target hs' b"
    by (simp add: deterministic_request_hash_def)
  show "map_of hs ''a2a-version'' = map_of hs' ''a2a-version''"
    by (rule first) (simp add: FORWARDED_REQUEST_HEADERS_def)
qed

section \<open>Properties\<close>

text \<open>
  C10. Every answered call is accounted for: whatever answer the proxies give, the observer has exactly
  one new record with the hash of the call and the configured upstream, and at most one request went
  upstream. That request carries the caller's body unchanged, goes to the exposed operation with the
  supported protocol version, and each of its headers is either one of the gateway's own credentials or
  one of the five forwarded headers with the caller's value. When nothing was sent, the record says why.
\<close>

theorem proxied_call_accounted:
  assumes "gateway_handle G S cred True c g = (g', Inr resp)"
  shows "\<exists>us r. gs_records g' = gs_records g @ [r] \<and> gs_sent g' = gs_sent g @ us \<and> length us \<le> 1
    \<and> (\<forall>u \<in> set us. up_body u = ir_body (request_of c) \<and> exposed G S c u
         \<and> supports_a2a_version G (map_of (ir_headers (request_of c)) ''a2a-version'')
         \<and> (\<exists>own. cred (up_method u) (up_url u) = Inr own
              \<and> (\<forall>h \<in> set (up_headers u). h \<in> set own
                   \<or> fst h \<in> set FORWARDED_REQUEST_HEADERS \<and> map_of (ir_headers (request_of c)) (fst h) = Some (snd h))))
    \<and> call_hash G c = Inr (et_request_hash r) \<and> et_upstream r = gw_upstream_base_url S
    \<and> (us = [] \<longrightarrow> et_outcome r \<in> {''unsupported_version'', ''unsupported_operation'', ''upstream_unavailable''})"
  using handle_accounted [OF assms]
  by (simp only: accounted_def vetted_def vetted_headers_def UNSENT_OUTCOMES_def list.set) blast

definition demo_gate :: gate where
  "demo_gate = \<lparr>g_world = demo_world,
     g_urlsplit = (\<lambda>u. Some \<lparr>su_scheme = ''https'', su_netloc = ''agent'', su_hostname = Some ''agent'', su_port = Inr None,
        su_username = None, su_password = None, su_query = [], su_fragment = []\<rparr>),
     g_ip_address = (\<lambda>s. None), g_rest_url = (\<lambda>b p q. Inr (b @ p)), g_version = (\<lambda>s. if s = ''1.0'' then Some [1, 0] else None),
     g_loads = (\<lambda>b. Some (if b = [7] then of_dict [(''method'', PList [])] else of_dict [])),
     g_secret = (\<lambda>r. Some ''key''), g_rest_error = (\<lambda>e. PNone),
     g_send = (\<lambda>n u. Reply 200 [(''Content-Type'', ''text'')] [1, 2]), g_stream = (\<lambda>n u. StreamHTTPError)\<rparr>"

definition demo_settings :: gateway_settings where
  "demo_settings = \<lparr>gw_public_base_url = ''https://kin'', gw_upstream_base_url = ''https://agent'',
     gw_credential = \<lparr>cs_mode = ''private'', cs_header_name = None, cs_secret_ref = None, cs_value_prefix = []\<rparr>\<rparr>"

definition demo_call :: "bytes \<Rightarrow> in_request" where
  "demo_call body = \<lparr>ir_method = ''POST'', ir_rest_path = ''message:send'', ir_raw_path = ''/a2a/rest/message:send'', ir_query = [],
     ir_headers = [(''authorization'', ''Bearer me''), (''a2a-version'', ''1.0''), (''accept'', ''*'')], ir_body = body\<rparr>"

definition demo_credentials :: credentials where
  "demo_credentials m url = headers_for demo_gate (SecretBackedCredentialProvider ''X-Key'' ''ref'' [])"

definition idle :: gateway where
  "idle = \<lparr>gs_tick = 0, gs_sent = [], gs_records = []\<rparr>"

theorem proxied_call_accounted_witness:
  "\<exists>r. gs_records (fst (gateway_handle demo_gate demo_settings demo_credentials True (Rest (demo_call [5])) idle)) = [r]
     \<and> et_upstream r = ''https://agent''"
proof -
  let ?x = "gateway_handle demo_gate demo_settings demo_credentials True (Rest (demo_call [5])) idle"
  have "map_option os_status (case snd ?x of Inr r \<Rightarrow> Some r | Inl _ \<Rightarrow> None) = Some 200" by code_simp
  then obtain resp where "?x = (fst ?x, Inr resp)" by (cases ?x) (auto split: sum.splits)
  from proxied_call_accounted [OF this] show ?thesis by (auto simp: idle_def demo_settings_def)
qed

text \<open>
  Over any number of calls, in any order, as many records are made as calls are answered, at most as
  many requests are sent upstream, and each of them is one that some call was allowed to cause.
\<close>

theorem gateway_run_accounted:
  assumes "service_run (gateway_handle G S cred True) cs g = (g', xs)"
  shows "\<exists>us rs. gs_records g' = gs_records g @ rs \<and> length rs = length (filter (\<lambda>x. \<not> isl x) xs)
    \<and> gs_sent g' = gs_sent g @ us \<and> length us \<le> length rs \<and> (\<forall>u \<in> set us. \<exists>c \<in> set cs. vetted G S cred c u)"
  by (rule gw.run_accounted [OF assms])

text \<open>
  C11. The caller's authority has no influence: two calls that differ only in headers outside the five
  protocol headers (such as \<open>Authorization\<close>, \<open>Cookie\<close> or \<open>Host\<close>) have the same effect upstream, the same
  record, including the hash, and the same answer.
\<close>

theorem caller_authority_ignored:
  assumes "protocol_part hs = protocol_part hs'"
  shows "gateway_handle G S cred obs (Rpc (rq\<lparr>ir_headers := hs\<rparr>)) g = gateway_handle G S cred obs (Rpc (rq\<lparr>ir_headers := hs'\<rparr>)) g
    \<and> gateway_handle G S cred obs (Rest (rq\<lparr>ir_headers := hs\<rparr>)) g = gateway_handle G S cred obs (Rest (rq\<lparr>ir_headers := hs'\<rparr>)) g"
proof -
  note same = same_protocol [OF assms]
  have t: "new_tracker G tp m target up hs b g = new_tracker G tp m target up hs' b g" for tp m target up b
    by (simp add: new_tracker_def same(2))
  show ?thesis
    by (cases rq, hypsubst, unfold gateway_handle.simps proxy_jsonrpc_def proxy_rest_def rest_target_def in_request.simps same(1,3) t)
      (intro conjI refl)
qed

theorem caller_authority_ignored_witness:
  "gateway_handle demo_gate demo_settings demo_credentials True (Rest (demo_call [5])) idle
   = gateway_handle demo_gate demo_settings demo_credentials True
       (Rest ((demo_call [5])\<lparr>ir_headers := [(''a2a-version'', ''1.0''), (''cookie'', ''x''), (''accept'', ''*'')]\<rparr>)) idle"
proof -
  have "protocol_part (ir_headers (demo_call [5])) = protocol_part [(''a2a-version'', ''1.0''), (''cookie'', ''x''), (''accept'', ''*'')]"
    by code_simp
  from caller_authority_ignored [OF this, of demo_gate demo_settings demo_credentials True "demo_call [5]" idle] show ?thesis
    by (simp add: demo_call_def)
qed

text \<open>
  A JSON-RPC call whose method is an array or an object ends in an exception, without an answer of the
  protocol and without a record: the method is looked up in a set, which hashes it.
\<close>

theorem unhashable_method_unrecorded:
  "snd (gateway_handle demo_gate demo_settings demo_credentials True (Rpc (demo_call [7])) idle) = Inl TypeError
   \<and> gs_records (fst (gateway_handle demo_gate demo_settings demo_credentials True (Rpc (demo_call [7])) idle)) = []"
  by code_simp

text \<open>A stream that is closed while a chunk is handed over counts as forwarded, though the rest is lost.\<close>

theorem closed_stream_counts_as_forwarded:
  "forward_body (map Chunk cs @ Closed # evs) = (cs, ''forwarded'', Some Closed)"
  by (induction cs) simp_all

text \<open>
  A credential is a harmless header: a provider that could be constructed supplies only headers whose
  name is a token outside the reserved names of the protocol and whose value is not empty and has no line
  break, so it can neither replace the protocol's headers nor smuggle in another one.
\<close>

theorem credential_header_safe:
  assumes "provider_check p = Inr q" and "headers_for G p = Inr hs" and "h \<in> set hs"
  shows "fst h \<noteq> [] \<and> list_all (\<lambda>ch. is_alnum ch \<or> ch = CHR ''-'') (fst h)
    \<and> map to_lower (fst h) \<notin> set RESERVED_UPSTREAM_HEADERS
    \<and> snd h \<noteq> [] \<and> CHR 0x0D \<notin> set (snd h) \<and> CHR 0x0A \<notin> set (snd h)"
proof -
  have safe: "n \<noteq> [] \<and> list_all (\<lambda>ch. is_alnum ch \<or> ch = CHR ''-'') n \<and> map to_lower n \<notin> set RESERVED_UPSTREAM_HEADERS
      \<and> v \<noteq> [] \<and> CHR 0x0D \<notin> set v \<and> CHR 0x0A \<notin> set v" if "validate_header n v = Inr u" for n v u
    using that
    by (auto simp: validate_header_def credential_settings_validate_def validate_header_name_def chain_Inr
        split: sum.splits if_splits)
  obtain u where "validate_header (fst h) (snd h) = Inr u"
    using assms
    by (cases p) (auto simp: provider_check_def headers_for_def chain_Inr split: option.splits if_splits sum.splits)
  from safe [OF this] show ?thesis .
qed

theorem credential_header_safe_witness:
  "CHR 0x0A \<notin> set (snd (''X-Key'', ''key''))"
proof -
  have p: "provider_check (SecretBackedCredentialProvider ''X-Key'' ''ref'' []) = Inr (SecretBackedCredentialProvider ''X-Key'' ''ref'' [])"
    and h: "headers_for demo_gate (SecretBackedCredentialProvider ''X-Key'' ''ref'' []) = Inr [(''X-Key'', ''key'')]"
    by code_simp+
  have "(''X-Key'', ''key'') \<in> set [(''X-Key'', ''key'')]" by simp
  from credential_header_safe [OF p h this] show ?thesis by blast
qed

text \<open>
  The names \<open>Accept\<close> and \<open>Last-Event-ID\<close> are not reserved, although the caller's values of them are forwarded:
  a credential configured under such a name is replaced by what the caller sends.
\<close>

theorem caller_replaces_credential:
  "map up_headers (gs_sent (fst (gateway_handle demo_gate demo_settings
      (\<lambda>m url. headers_for demo_gate (SecretBackedCredentialProvider ''Accept'' ''ref'' [])) True (Rest (demo_call [5])) idle)))
   = [[(''accept'', ''*''), (''a2a-version'', ''1.0'')]]"
  by code_simp

text \<open>
  The administration answers the authenticated only: a successful answer of the private application was
  for a request with a client certificate, or with a bearer token that is the configured secret and is
  not empty.
\<close>

theorem admin_needs_secret:
  assumes "admin_answer G s sp rq = Inr 200"
  shows "if as_authentication s = ''mtls'' then aq_peer_cert rq = Some True
    else \<exists>secret. g_secret G (or_text (as_token_secret_ref s) []) = Some secret \<and> secret \<noteq> []
           \<and> aq_authorization rq = Some (''Bearer '' @ secret)"
proof -
  have auth: "is_authorized G s sp rq = Inr True"
    using assms by (auto simp: admin_answer_def chain_Inr split: if_splits)
  have bearer: "length ''Bearer '' = 7" by simp
  have pre: "a = ''Bearer '' @ drop 7 a" if "starts_with ''Bearer '' a" for a
    using that append_take_drop_id [of "length ''Bearer ''" a] bearer unfolding starts_with_def by (simp only:)
  from auth show ?thesis
    by (auto simp: is_authorized_def compare_digest_def Let_def dest!: pre split: option.splits if_splits)
qed

theorem admin_needs_secret_witness:
  "admin_answer demo_gate \<lparr>as_bind_host = ''localhost'', as_port = 9090, as_authentication = ''token'', as_token_secret_ref = Some ''ref''\<rparr> True
     \<lparr>aq_path = ''/admin/health'', aq_authorization = Some ''Bearer key'', aq_peer_cert = None\<rparr> = Inr 200
   \<and> g_secret demo_gate ''ref'' = Some ''key''"
proof -
  let ?s = "\<lparr>as_bind_host = ''localhost'', as_port = 9090, as_authentication = ''token'', as_token_secret_ref = Some ''ref''\<rparr>"
  let ?rq = "\<lparr>aq_path = ''/admin/health'', aq_authorization = Some ''Bearer key'', aq_peer_cert = None\<rparr>"
  have a: "admin_answer demo_gate ?s True ?rq = Inr 200" by code_simp
  from admin_needs_secret [OF this] a show ?thesis by (auto simp: demo_gate_def)
qed
end
