(* ===== verification/Kin_Mirror.thy ===== *)
theory Kin_Mirror
  imports Kin_Gateway
begin

text \<open>
  The mirror of the upstream's agent card, \<open>kin_gateway/agent_card.py\<close>: fetching the private card over
  validated targets and same-origin redirects, projecting it to the public card, and the cache that
  concurrent requests share.

  The resolver, the HTTP exchanges, URL joining, the protobuf reader and writer, and \<open>str.casefold\<close> are
  fields of \<open>mirror_env\<close>. Every exception of the fetch becomes an \<open>AgentCardMirrorError\<close>, as in \<open>_refresh\<close>; the
  timeout of the whole fetch is one way an exchange can fail.
\<close>

section \<open>Cards\<close>

record a2a_interface =
  if_url :: string
  if_protocol_binding :: string
  if_protocol_version :: string
  if_other :: pyval

record a2a_skill =
  sk_id :: string
  sk_other :: pyval

record a2a_card =
  ac_name :: string
  ac_description :: string
  ac_version :: string
  ac_input_modes :: "string list"
  ac_output_modes :: "string list"
  ac_streaming :: bool
  ac_interfaces :: "a2a_interface list"
  ac_skills :: "a2a_skill list"
  ac_other :: pyval \<comment> \<open>all other fields; \<open>PNone\<close> when they are unset\<close>

record mirror_settings =
  ms_gateway :: gateway_settings
  ms_approved_skill_ids :: "string list"
  ms_trusted_private_hosts :: "string list"
  ms_max_response_bytes :: nat
  ms_max_redirects :: nat
  ms_cache_ttl :: int \<comment> \<open>microseconds, as the readings of the clock\<close>

text \<open>A request for the card; \<open>cq_logical\<close> is the URL it stands for.\<close>

record card_request =
  cq_logical :: string
  cq_url :: string
  cq_credentials :: "(string \<times> string) list"
  cq_target_headers :: "(string \<times> string) list"
  cq_sni_hostname :: "string option"

datatype card_reply =
    CardRedirect "string option" \<comment> \<open>location\<close>
  | CardStatusError
  | CardBody "int option result" "bytes list" \<comment> \<open>declared length, chunks\<close>
  | CardHTTPError

record mirror_env =
  me_gate :: gate
  me_card_url :: "string \<Rightarrow> string result" \<comment> \<open>the URL of the card below a base URL\<close>
  me_join :: "string \<Rightarrow> string \<Rightarrow> string option" \<comment> \<open>\<open>urljoin\<close>\<close>
  me_resolve :: "nat \<Rightarrow> string \<Rightarrow> int \<Rightarrow> ip list option"
  me_pin :: "string \<Rightarrow> string \<Rightarrow> string" \<comment> \<open>the URL with another host\<close>
  me_get :: "nat \<Rightarrow> card_request \<Rightarrow> card_reply"
  me_parse :: "pyval \<Rightarrow> a2a_card option" \<comment> \<open>\<open>ParseDict\<close> and the required fields\<close>
  me_to_dict :: "a2a_card \<Rightarrow> pyval" \<comment> \<open>\<open>MessageToDict\<close>\<close>
  me_dumps :: "pyval \<Rightarrow> string" \<comment> \<open>\<open>json.dumps(v, ensure_ascii=False)\<close>\<close>
  me_casefold :: "string \<Rightarrow> string"

record mirrored_card =
  mc_document :: pyval
  mc_source_sha256 :: string
  mc_public_sha256 :: string

record mirror =
  mi_tick :: nat
  mi_log :: "card_request list"
  mi_cached :: "mirrored_card option"
  mi_expires_at :: int

definition mirror_error :: py_error where
  "mirror_error = AppError ''AgentCardMirrorError''"

definition mi_step :: "mirror \<Rightarrow> mirror" where
  "mi_step s = s\<lparr>mi_tick := Suc (mi_tick s)\<rparr>"

section \<open>Targets\<close>

definition origin :: "mirror_env \<Rightarrow> string \<Rightarrow> (string \<times> string \<times> int) result" where
  "origin E url = (case g_urlsplit (me_gate E) url of
      None \<Rightarrow> Inl mirror_error
    | Some parsed \<Rightarrow>
        if su_scheme parsed \<notin> set [''http'', ''https''] \<or> \<not> otruthy (su_hostname parsed) then Inl mirror_error
        else if su_username parsed \<noteq> None \<or> su_password parsed \<noteq> None then Inl mirror_error
        else case su_port parsed of
          Inl e \<Rightarrow> Inl mirror_error
        | Inr port \<Rightarrow>
            Inr (su_scheme parsed, map to_lower (the (su_hostname parsed)),
                 (case port of
                    None \<Rightarrow> if su_scheme parsed = ''https'' then 443 else 80
                  | Some n \<Rightarrow> if n = 0 then if su_scheme parsed = ''https'' then 443 else 80 else n)))"

definition trusted_host :: "mirror_settings \<Rightarrow> string \<Rightarrow> bool" where
  "trusted_host S host = (map to_lower host \<in> set (map (map to_lower) (ms_trusted_private_hosts S)))"

definition target_addresses :: "mirror_env \<Rightarrow> nat \<Rightarrow> string \<Rightarrow> int \<Rightarrow> ip list result" where
  "target_addresses E n host port = (case g_ip_address (me_gate E) host of
      Some literal \<Rightarrow> Inr [literal]
    | None \<Rightarrow> (case me_resolve E n host port of None \<Rightarrow> Inl mirror_error | Some addresses \<Rightarrow> Inr addresses))"

text \<open>Where to connect to, the \<open>Host\<close> header and the name for TLS. The resolver is asked at most once.\<close>

definition validated_target ::
  "mirror_env \<Rightarrow> mirror_settings \<Rightarrow> nat \<Rightarrow> string \<Rightarrow> (string \<times> (string \<times> string) list \<times> string option) result" where
  "validated_target E S n logical_url = (case g_urlsplit (me_gate E) logical_url of
      None \<Rightarrow> Inl mirror_error
    | Some parsed \<Rightarrow>
        (let host = (case su_hostname parsed of None \<Rightarrow> [] | Some h \<Rightarrow> h) in
         if trusted_host S host then Inr (logical_url, [], None)
         else if su_scheme parsed \<noteq> ''https'' then Inl mirror_error
         else case su_port parsed of
           Inl e \<Rightarrow> Inl mirror_error
         | Inr port \<Rightarrow>
             chain (target_addresses E n host (case port of None \<Rightarrow> 443 | Some p \<Rightarrow> if p = 0 then 443 else p)) (\<lambda>addresses.
             if addresses = [] \<or> list_ex (\<lambda>a. \<not> ip_is_global a) addresses then Inl mirror_error
             else Inr (me_pin E logical_url (ip_text (hd addresses)),
                       [(''Host'', case port of
                           None \<Rightarrow> host
                         | Some p \<Rightarrow> if p \<noteq> 443 then host @ '':'' @ w_str (g_world (me_gate E)) (PInt p) else host)],
                       Some host))))"

section \<open>The fetch\<close>

fun read_chunks :: "nat \<Rightarrow> bytes \<Rightarrow> bytes list \<Rightarrow> bytes result" where
  "read_chunks limit body [] = Inr body"
| "read_chunks limit body (chunk # chunks) =
     (if limit < length (body @ chunk) then Inl mirror_error else read_chunks limit (body @ chunk) chunks)"

definition bounded_body :: "nat \<Rightarrow> int option result \<Rightarrow> bytes list \<Rightarrow> bytes result" where
  "bounded_body limit declared chunks = (case declared of
      Inl e \<Rightarrow> Inl mirror_error
    | Inr (Some n) \<Rightarrow> if int limit < n then Inl mirror_error else read_chunks limit [] chunks
    | Inr None \<Rightarrow> read_chunks limit [] chunks)"

text \<open>The values that must not show up in public: each header value and what follows its first space.\<close>

definition after_space :: "string \<Rightarrow> string" where
  "after_space v = drop 1 (dropWhile (\<lambda>ch. ch \<noteq> CHR '' '') v)"

definition private_values :: "(string \<times> string) list \<Rightarrow> string list" where
  "private_values hs = concat (map (\<lambda>(n, v). if after_space v = [] then [v] else [v, after_space v]) hs)"

fun fetch_document ::
  "mirror_env \<Rightarrow> mirror_settings \<Rightarrow> credentials \<Rightarrow> string \<times> string \<times> int \<Rightarrow> nat \<Rightarrow> string \<Rightarrow> string list \<Rightarrow> mirror
   \<Rightarrow> mirror \<times> (pyval \<times> string list) result" where
  "fetch_document E S cred start left logical_url vals s =
     (case validated_target E S (mi_tick s) logical_url of
        Inl e \<Rightarrow> (mi_step s, Inl mirror_error)
      | Inr (fetch_url, target_headers, sni) \<Rightarrow>
        (case cred ''GET'' logical_url of
           Inl e \<Rightarrow> (mi_step s, Inl mirror_error)
         | Inr credential_headers \<Rightarrow>
           (let vals1 = vals @ private_values credential_headers;
                q = \<lparr>cq_logical = logical_url, cq_url = fetch_url, cq_credentials = credential_headers,
                     cq_target_headers = target_headers, cq_sni_hostname = sni\<rparr>;
                s1 = mi_step (s\<lparr>mi_log := mi_log s @ [q]\<rparr>)
            in case me_get E (mi_tick s) q of
                 CardHTTPError \<Rightarrow> (s1, Inl mirror_error)
               | CardStatusError \<Rightarrow> (s1, Inl mirror_error)
               | CardBody declared chunks \<Rightarrow>
                   (s1, chain (bounded_body (ms_max_response_bytes S) declared chunks) (\<lambda>body.
                          case g_loads (me_gate E) body of None \<Rightarrow> Inl mirror_error | Some document \<Rightarrow> Inr (document, vals1)))
               | CardRedirect location \<Rightarrow>
                   (if \<not> otruthy location then (s1, Inl mirror_error)
                    else case left of
                      0 \<Rightarrow> (s1, Inl mirror_error)
                    | Suc k \<Rightarrow>
                        (case me_join E logical_url (the location) of
                           None \<Rightarrow> (s1, Inl mirror_error)
                         | Some redirected \<Rightarrow>
                             if origin E redirected \<noteq> Inr start then (s1, Inl mirror_error)
                             else fetch_document E S cred start k redirected vals1 s1)))))"

section \<open>The projection\<close>

definition REST_PATH :: string where
  "REST_PATH = ''/a2a/rest''"

definition PUBLIC_INTERFACE_PATHS :: "(string \<times> string) list" where
  "PUBLIC_INTERFACE_PATHS = [(''JSONRPC'', JSONRPC_PATH), (''HTTP+JSON'', REST_PATH)]"

definition public_interfaces :: "mirror_settings \<Rightarrow> a2a_interface list \<Rightarrow> a2a_interface list" where
  "public_interfaces S interfaces = concat (map (\<lambda>i.
     case map_of PUBLIC_INTERFACE_PATHS (if_protocol_binding i) of
       None \<Rightarrow> []
     | Some public_path \<Rightarrow>
         if if_protocol_version i = ''1.0''
         then [i\<lparr>if_url := gw_public_base_url (ms_gateway S) @ public_path\<rparr>] else []) interfaces)"

definition public_part :: "mirror_settings \<Rightarrow> a2a_card \<Rightarrow> a2a_card" where
  "public_part S c = \<lparr>ac_name = ac_name c, ac_description = ac_description c, ac_version = ac_version c,
     ac_input_modes = ac_input_modes c, ac_output_modes = ac_output_modes c, ac_streaming = ac_streaming c,
     ac_interfaces = public_interfaces S (ac_interfaces c),
     ac_skills = filter (\<lambda>k. sk_id k \<in> set (ms_approved_skill_ids S)) (ac_skills c), ac_other = PNone\<rparr>"

definition forbidden_values :: "mirror_env \<Rightarrow> mirror_settings \<Rightarrow> string list \<Rightarrow> string list result" where
  "forbidden_values E S credential_values = (case g_urlsplit (me_gate E) (gw_upstream_base_url (ms_gateway S)) of
      None \<Rightarrow> Inl ValueError
    | Some u \<Rightarrow> Inr ([gw_upstream_base_url (ms_gateway S), su_scheme u @ ''://'' @ su_netloc u] @ credential_values))"

definition ensure_no_private_reference :: "mirror_env \<Rightarrow> mirror_settings \<Rightarrow> pyval \<Rightarrow> string list \<Rightarrow> unit result" where
  "ensure_no_private_reference E S public_document credential_values =
     chain (forbidden_values E S credential_values) (\<lambda>forbidden.
       let serialized = me_casefold E (me_dumps E public_document) in
       if list_ex (\<lambda>value. value \<noteq> [] \<and> occurs_in (me_casefold E value) serialized) forbidden
       then Inl mirror_error else Inr ())"

definition document_hash :: "mirror_env \<Rightarrow> pyval \<Rightarrow> string result" where
  "document_hash E document = (case w_dumps_compact (g_world (me_gate E)) document of
      None \<Rightarrow> Inl ValueError
    | Some canonical \<Rightarrow> Inr (sha256_hex (g_world (me_gate E)) (utf8_encode canonical)))"

definition mirrored :: "mirror_env \<Rightarrow> mirror_settings \<Rightarrow> a2a_card \<Rightarrow> string list \<Rightarrow> mirrored_card result" where
  "mirrored E S c credential_values =
     (let public = public_part S c in
      if ac_interfaces public = [] then Inl mirror_error
      else if ac_skills public = [] then Inl mirror_error
      else chain (ensure_no_private_reference E S (me_to_dict E public) credential_values) (\<lambda>_.
           chain (document_hash E (me_to_dict E c)) (\<lambda>source.
           chain (document_hash E (me_to_dict E public)) (\<lambda>pub.
             Inr \<lparr>mc_document = me_to_dict E public, mc_source_sha256 = source, mc_public_sha256 = pub\<rparr>))))"

definition refresh ::
  "mirror_env \<Rightarrow> mirror_settings \<Rightarrow> credentials \<Rightarrow> mirror \<Rightarrow> mirror \<times> mirrored_card result" where
  "refresh E S cred s = (case me_card_url E (gw_upstream_base_url (ms_gateway S)) of
      Inl e \<Rightarrow> (s, Inl mirror_error)
    | Inr logical_url \<Rightarrow>
        (case origin E logical_url of
           Inl e \<Rightarrow> (s, Inl mirror_error)
         | Inr start \<Rightarrow>
             (case fetch_document E S cred start (ms_max_redirects S) logical_url [] s of
                (s1, Inl e) \<Rightarrow> (s1, Inl e)
              | (s1, Inr (document, credential_values)) \<Rightarrow>
                  (case me_parse E document of
                     None \<Rightarrow> (s1, Inl mirror_error)
                   | Some c \<Rightarrow> (s1, mirrored E S c credential_values)))))"

definition fresh_card :: "mirror \<Rightarrow> int \<Rightarrow> mirrored_card option" where
  "fresh_card s now = (if now < mi_expires_at s then mi_cached s else None)"

text \<open>\<open>public_card\<close> of a task that is not interrupted; \<open>now\<close> is the second reading of the clock.\<close>

definition public_card ::
  "mirror_env \<Rightarrow> mirror_settings \<Rightarrow> credentials \<Rightarrow> int \<Rightarrow> mirror \<Rightarrow> mirror \<times> mirrored_card result" where
  "public_card E S cred now s = (case fresh_card s now of
      Some snapshot \<Rightarrow> (s, Inr snapshot)
    | None \<Rightarrow>
        (case refresh E S cred s of
           (s1, Inl e) \<Rightarrow> (s1, Inl e)
         | (s1, Inr snapshot) \<Rightarrow>
             (s1\<lparr>mi_cached := Some snapshot, mi_expires_at := now + ms_cache_ttl S\<rparr>, Inr snapshot)))"

definition mirrored_agent_card ::
  "mirror_env \<Rightarrow> mirror_settings \<Rightarrow> credentials \<Rightarrow> int \<Rightarrow> mirror \<Rightarrow> mirror \<times> out_response result" where
  "mirrored_agent_card E S cred now s = (case public_card E S cred now s of
      (s1, Inl e) \<Rightarrow>
        (s1, if e = mirror_error
             then Inr \<lparr>os_status = 502, os_headers = [],
                    os_body = JsonBody (of_dict [(''detail'', PStr ''Upstream Agent Card is unavailable or invalid'')])\<rparr>
             else Inl e)
    | (s1, Inr snapshot) \<Rightarrow>
        (s1, Inr \<lparr>os_status = 200,
               os_headers = [(''ETag'', [CHR 0x22] @ ''sha256-'' @ mc_public_sha256 snapshot @ [CHR 0x22]),
                 (''X-KIN-Upstream-Agent-Card-SHA256'', mc_source_sha256 snapshot),
                 (''Cache-Control'', ''public, max-age='' @ w_str (g_world (me_gate E)) (PInt (ms_cache_ttl S div 1000000)))],
               os_body = JsonBody (mc_document snapshot)\<rparr>))"

section \<open>Where the fetch goes\<close>

text \<open>A request is safe when it stays on the origin and goes to a trusted host or to a public address.\<close>

definition safe_request :: "mirror_env \<Rightarrow> mirror_settings \<Rightarrow> credentials \<Rightarrow> string \<times> string \<times> int \<Rightarrow> card_request \<Rightarrow> bool" where
  "safe_request E S cred start q =
     (origin E (cq_logical q) = Inr start \<and> cred ''GET'' (cq_logical q) = Inr (cq_credentials q)
      \<and> (\<exists>u host. g_urlsplit (me_gate E) (cq_logical q) = Some u \<and> su_hostname u = Some host
          \<and> (trusted_host S host \<and> cq_url q = cq_logical q
             \<or> su_scheme u = ''https'' \<and> cq_sni_hostname q = Some host
               \<and> (\<exists>a. ip_is_global a \<and> cq_url q = me_pin E (cq_logical q) (ip_text a)
                    \<and> (g_ip_address (me_gate E) host = Some a
                       \<or> (\<exists>n port as. me_resolve E n host port = Some as \<and> a \<in> set as \<and> list_all ip_is_global as))))))"

lemma origin_host: "origin E url = Inr st \<Longrightarrow> \<exists>u host. g_urlsplit (me_gate E) url = Some u \<and> su_hostname u = Some host"
  by (auto simp: origin_def otruthy_def split: option.splits if_splits)

lemma target_safe:
  assumes "validated_target E S n url = Inr (fetch_url, hs, sni)" and "origin E url = Inr start"
    and "cred ''GET'' url = Inr ch"
  shows "safe_request E S cred start \<lparr>cq_logical = url, cq_url = fetch_url, cq_credentials = ch, cq_target_headers = hs, cq_sni_hostname = sni\<rparr>"
proof -
  obtain u host where u: "g_urlsplit (me_gate E) url = Some u" "su_hostname u = Some host" using origin_host [OF assms(2)] by blast
  have "trusted_host S host \<and> fetch_url = url
      \<or> su_scheme u = ''https'' \<and> sni = Some host
        \<and> (\<exists>a. ip_is_global a \<and> fetch_url = me_pin E url (ip_text a)
             \<and> (g_ip_address (me_gate E) host = Some a
                \<or> (\<exists>n port as. me_resolve E n host port = Some as \<and> a \<in> set as \<and> list_all ip_is_global as)))"
  proof (cases "trusted_host S host")
    case True
    with assms(1) u show ?thesis by (simp add: validated_target_def Let_def)
  next
    case False
    note v = assms(1) [unfolded validated_target_def u option.case Let_def, simplified False if_False]
    have https: "su_scheme u = ''https''" using v by (cases "su_scheme u = ''https''") simp_all
    obtain port where port: "su_port u = Inr port" using v https by (cases "su_port u") simp_all
    let ?p = "case port of None \<Rightarrow> 443 | Some p \<Rightarrow> if p = 0 then 443 else p"
    obtain as where as: "target_addresses E n host ?p = Inr as"
      using v https port by (auto simp: chain_Inr)
    have g: "as \<noteq> []" "list_all ip_is_global as" and f: "fetch_url = me_pin E url (ip_text (hd as))" "sni = Some host"
      using v https port as by (auto simp: list_ex_iff list_all_iff split: if_splits)
    have a: "hd as \<in> set as" "ip_is_global (hd as)" using g by (simp_all add: list_all_iff)
    have "g_ip_address (me_gate E) host = Some (hd as) \<or> me_resolve E n host ?p = Some as"
      using as by (auto simp: target_addresses_def split: option.splits)
    with https f g a show ?thesis by blast
  qed
  with u assms(2,3) show ?thesis by (simp add: safe_request_def)
qed

lemma chunks_bounded: "read_chunks limit body chunks = Inr b \<Longrightarrow> length body \<le> limit \<Longrightarrow> length b \<le> limit"
  by (induction chunks arbitrary: body) (auto split: if_splits)

lemma body_bounded: "bounded_body limit declared chunks = Inr b \<Longrightarrow> length b \<le> limit"
  using chunks_bounded [of limit "[]"] by (auto simp: bounded_body_def split: sum.splits option.splits if_splits)

declare fetch_document.simps [simp del]

text \<open>One exchange of the fetch: it fails before the request, ends with it, or goes on at a redirect.\<close>

lemma fetch_step:
  assumes "fetch_document E S cred start left url vals s = (s', r)" and "origin E url = Inr start"
  obtains (none) e where "mi_log s' = mi_log s" and "r = Inl e"
  | (failed) q e where "safe_request E S cred start q" and "mi_log s' = mi_log s @ [q]" and "r = Inl e"
  | (read) q document body where "safe_request E S cred start q" and "mi_log s' = mi_log s @ [q]"
      and "r = Inr (document, vals @ private_values (cq_credentials q))"
      and "length body \<le> ms_max_response_bytes S" and "g_loads (me_gate E) body = Some document"
  | (redirect) q k url' where "safe_request E S cred start q" and "left = Suc k" and "origin E url' = Inr start"
      and "fetch_document E S cred start k url' (vals @ private_values (cq_credentials q))
             (mi_step (s\<lparr>mi_log := mi_log s @ [q]\<rparr>)) = (s', r)"
proof (cases "validated_target E S (mi_tick s) url")
  case (Inl e)
  with assms(1) none show thesis by (auto simp: fetch_document.simps mi_step_def)
next
  case (Inr t)
  obtain fetch_url hs sni where t: "t = (fetch_url, hs, sni)" by (cases t)
  show thesis
  proof (cases "cred ''GET'' url")
    case (Inl e)
    with assms(1) Inr t none show thesis by (auto simp: fetch_document.simps [of E S cred start left] mi_step_def)
  next
    case ch: (Inr ch)
    let ?q = "\<lparr>cq_logical = url, cq_url = fetch_url, cq_credentials = ch, cq_target_headers = hs, cq_sni_hostname = sni\<rparr>"
    let ?s1 = "mi_step (s\<lparr>mi_log := mi_log s @ [?q]\<rparr>)"
    have q: "safe_request E S cred start ?q" by (rule target_safe [where cred = cred, OF Inr [unfolded t] assms(2) ch])
    have log: "mi_log ?s1 = mi_log s @ [?q]" by (simp add: mi_step_def)
    note f = assms(1) [unfolded fetch_document.simps [of E S cred start left] Inr t ch sum.case prod.case Let_def]
    show thesis
    proof (cases "me_get E (mi_tick s) ?q")
      case (CardRedirect location)
      note f' = f [unfolded CardRedirect card_reply.case]
      show thesis
      proof (cases "\<exists>k url'. otruthy location \<and> left = Suc k \<and> me_join E url (the location) = Some url'
          \<and> origin E url' = Inr start")
        case True
        then obtain k url' where k: "otruthy location" "left = Suc k" "me_join E url (the location) = Some url'"
          "origin E url' = Inr start" by blast
        from f' k show thesis by (intro redirect [OF q k(2,4)]) simp
      next
        case False
        with f' have "s' = ?s1 \<and> (\<exists>e. r = Inl e)" by (auto split: if_splits nat.splits option.splits)
        with log q failed show thesis by blast
      qed
    next
      case CardStatusError
      with f log q failed show thesis by auto
    next
      case (CardBody declared chunks)
      note f' = f [unfolded CardBody card_reply.case]
      show thesis
      proof (cases r)
        case (Inl e)
        with f' log q failed show thesis by auto
      next
        case (Inr x)
        with f' obtain body where "bounded_body (ms_max_response_bytes S) declared chunks = Inr body"
          "g_loads (me_gate E) body = Some (fst x)" "snd x = vals @ private_values ch" "s' = ?s1"
          by (auto simp: chain_Inr split: option.splits)
        with Inr log q body_bounded show thesis by (intro read [OF q, of "fst x" body]) (auto simp: prod_eq_iff)
      qed
    next
      case CardHTTPError
      with f log q failed show thesis by auto
    qed
  qed
qed

lemma fetch_safe:
  "fetch_document E S cred start left url vals s = (s', r) \<Longrightarrow> origin E url = Inr start \<Longrightarrow>
    \<exists>log. mi_log s' = mi_log s @ log \<and> length log \<le> Suc left \<and> (\<forall>q \<in> set log. safe_request E S cred start q)
      \<and> (\<forall>document vs. r = Inr (document, vs) \<longrightarrow> set vals \<subseteq> set vs
           \<and> (\<forall>q \<in> set log. set (private_values (cq_credentials q)) \<subseteq> set vs)
           \<and> (\<exists>body. length body \<le> ms_max_response_bytes S \<and> g_loads (me_gate E) body = Some document))"
proof (induction left arbitrary: url vals s rule: less_induct)
  case (less left)
  show ?case
  proof (rule fetch_step [OF less.prems])
    show ?case if "mi_log s' = mi_log s" "r = Inl e" for e using that by simp
    show ?case if "safe_request E S cred start q" "mi_log s' = mi_log s @ [q]" "r = Inl e" for q e
      using that by simp
    show ?case if "safe_request E S cred start q" "mi_log s' = mi_log s @ [q]"
      "r = Inr (document, vals @ private_values (cq_credentials q))" "length body \<le> ms_max_response_bytes S"
      "g_loads (me_gate E) body = Some document" for q document body
      using that by auto
    fix q k url'
    assume q: "safe_request E S cred start q" "left = Suc k" and o1: "origin E url' = Inr start"
      and f: "fetch_document E S cred start k url' (vals @ private_values (cq_credentials q))
        (mi_step (s\<lparr>mi_log := mi_log s @ [q]\<rparr>)) = (s', r)"
    have "k < left" using q(2) by simp
    from less.IH [OF this f o1] obtain log where
      log: "mi_log s' = mi_log (mi_step (s\<lparr>mi_log := mi_log s @ [q]\<rparr>)) @ log" "length log \<le> Suc k"
        "\<forall>q \<in> set log. safe_request E S cred start q"
      and res: "\<forall>document vs. r = Inr (document, vs) \<longrightarrow> set (vals @ private_values (cq_credentials q)) \<subseteq> set vs
           \<and> (\<forall>q \<in> set log. set (private_values (cq_credentials q)) \<subseteq> set vs)
           \<and> (\<exists>body. length body \<le> ms_max_response_bytes S \<and> g_loads (me_gate E) body = Some document)" by blast
    show ?case
      using log q res by (intro exI [of _ "q # log"]) (auto simp: mi_step_def)
  qed
qed

section \<open>The cache under concurrent requests\<close>

text \<open>
  Every request for the card is a task of one event loop. A task looks at the cache, waits for the lock,
  looks again, and fetches while it holds the lock; between these steps other tasks run and time passes.
  A task can be cancelled while it waits or fetches. The list \<open>ca_stored\<close> remembers the snapshots that
  were stored, with the clock reading of their fetch.
\<close>

datatype card_task = Arriving | Waiting | Fetching int | Served mirrored_card | Ended

record cache =
  ca_cached :: "mirrored_card option"
  ca_expires_at :: int
  ca_lock :: "nat option"
  ca_task :: "nat \<Rightarrow> card_task"
  ca_clock :: int
  ca_stored :: "(int \<times> mirrored_card) list"

definition ca_fresh :: "cache \<Rightarrow> mirrored_card option" where
  "ca_fresh c = (if ca_clock c < ca_expires_at c then ca_cached c else None)"

definition set_task :: "nat \<Rightarrow> card_task \<Rightarrow> cache \<Rightarrow> cache" where
  "set_task i t c = c\<lparr>ca_task := (ca_task c)(i := t)\<rparr>"

inductive cache_step :: "int \<Rightarrow> cache \<Rightarrow> cache \<Rightarrow> bool" for ttl where
  clock: "ca_clock c \<le> t \<Longrightarrow> cache_step ttl c (c\<lparr>ca_clock := t\<rparr>)"
| hit: "ca_task c i = Arriving \<Longrightarrow> ca_fresh c = Some m \<Longrightarrow> cache_step ttl c (set_task i (Served m) c)"
| miss: "ca_task c i = Arriving \<Longrightarrow> ca_fresh c = None \<Longrightarrow> cache_step ttl c (set_task i Waiting c)"
| locked_hit: "ca_task c i = Waiting \<Longrightarrow> ca_lock c = None \<Longrightarrow> ca_fresh c = Some m
    \<Longrightarrow> cache_step ttl c (set_task i (Served m) c)"
| locked_miss: "ca_task c i = Waiting \<Longrightarrow> ca_lock c = None \<Longrightarrow> ca_fresh c = None
    \<Longrightarrow> cache_step ttl c (set_task i (Fetching (ca_clock c)) (c\<lparr>ca_lock := Some i\<rparr>))"
| store: "ca_task c i = Fetching now \<Longrightarrow> ca_lock c = Some i
    \<Longrightarrow> cache_step ttl c (set_task i (Served m) (c\<lparr>ca_cached := Some m, ca_expires_at := now + ttl, ca_lock := None,
          ca_stored := ca_stored c @ [(now, m)]\<rparr>))"
| fail: "ca_task c i = Fetching now \<Longrightarrow> ca_lock c = Some i \<Longrightarrow> cache_step ttl c (set_task i Ended (c\<lparr>ca_lock := None\<rparr>))"
| cancel: "ca_task c i = Waiting \<Longrightarrow> cache_step ttl c (set_task i Ended c)"

definition empty_cache :: "int \<Rightarrow> cache" where
  "empty_cache now = \<lparr>ca_cached = None, ca_expires_at = 0, ca_lock = None, ca_task = (\<lambda>i. Arriving), ca_clock = now, ca_stored = []\<rparr>"

definition cache_inv :: "int \<Rightarrow> cache \<Rightarrow> bool" where
  "cache_inv ttl c =
     ((\<forall>i now. ca_task c i = Fetching now \<longrightarrow> ca_lock c = Some i
         \<and> (ca_stored c \<noteq> [] \<longrightarrow> fst (last (ca_stored c)) + ttl \<le> now))
      \<and> (if ca_stored c = [] then ca_cached c = None
         else ca_cached c = Some (snd (last (ca_stored c))) \<and> ca_expires_at c = fst (last (ca_stored c)) + ttl)
      \<and> (\<forall>i m. ca_task c i = Served m \<longrightarrow> m \<in> snd ` set (ca_stored c))
      \<and> sorted_wrt (\<lambda>a b. fst a + ttl \<le> fst b) (ca_stored c))"

lemma inv_stored_fresh:
  assumes "cache_inv ttl c" "ca_fresh c = Some m"
  shows "m \<in> snd ` set (ca_stored c)"
  using assms by (auto simp: cache_inv_def ca_fresh_def split: if_splits)

lemma inv_not_fresh:
  assumes "cache_inv ttl c" "ca_fresh c = None" "ca_stored c \<noteq> []"
  shows "fst (last (ca_stored c)) + ttl \<le> ca_clock c"
  using assms by (auto simp: cache_inv_def ca_fresh_def split: if_splits)

lemma stored_before_last:
  assumes "sorted_wrt (\<lambda>a b. fst a + ttl \<le> fst b) xs" "(0::int) \<le> ttl" "a \<in> set xs" "fst (last xs) + ttl \<le> now"
  shows "fst a + ttl \<le> now"
proof (cases "a = last xs")
  case True
  with assms(4) show ?thesis by simp
next
  case False
  from assms(3) have "xs \<noteq> []" by auto
  then have x: "xs = butlast xs @ [last xs]" by simp
  with assms(3) False have "a \<in> set (butlast xs)" by (metis in_set_butlast_appendI UnE set_append set_ConsD empty_iff list.set(1))
  with assms(1) have "fst a + ttl \<le> fst (last xs)" by (subst (asm) x) (auto simp: sorted_wrt_append)
  with assms(2,4) show ?thesis by simp
qed

lemma cache_inv_step:
  assumes "cache_step ttl c c'" "cache_inv ttl c" "0 \<le> ttl"
  shows "cache_inv ttl c'"
  using assms(1)
proof cases
  case (clock t)
  with assms(2) show ?thesis by (auto simp: cache_inv_def)
next
  case (hit i m)
  with assms(2) inv_stored_fresh [OF assms(2)] show ?thesis by (auto simp: cache_inv_def set_task_def)
next
  case (miss i)
  with assms(2) show ?thesis by (auto simp: cache_inv_def set_task_def)
next
  case (locked_hit i m)
  with assms(2) inv_stored_fresh [OF assms(2)] show ?thesis by (auto simp: cache_inv_def set_task_def)
next
  case (locked_miss i)
  with assms(2) inv_not_fresh [OF assms(2)] show ?thesis by (auto simp: cache_inv_def set_task_def split: if_splits)
next
  case (store i now m)
  have s: "sorted_wrt (\<lambda>a b. fst a + ttl \<le> fst b) (ca_stored c)" using assms(2) by (simp add: cache_inv_def)
  have prev: "fst (last (ca_stored c)) + ttl \<le> now" if "ca_stored c \<noteq> []"
    using assms(2) store(2) that by (simp add: cache_inv_def)
  have before: "fst a + ttl \<le> now" if "a \<in> set (ca_stored c)" for a
    using prev [OF length_pos_if_in_set [OF that, THEN length_greater_0_conv [THEN iffD1]]]
    by (rule stored_before_last [OF s assms(3) that])
  have others: "ca_task c j \<noteq> Fetching n" if "j \<noteq> i" for j n
    using assms(2) store(3) that by (auto simp: cache_inv_def)
  have served: "m' \<in> snd ` set (ca_stored c @ [(now, m)])" if "((ca_task c)(i := Served m)) j = Served m'" for j m'
    using assms(2) that by (cases "j = i") (auto simp: cache_inv_def)
  have c': "ca_task c' = (ca_task c)(i := Served m)" "ca_stored c' = ca_stored c @ [(now, m)]"
    "ca_cached c' = Some m" "ca_expires_at c' = now + ttl" using store(1) by (simp_all add: set_task_def)
  have "((ca_task c)(i := Served m)) j \<noteq> Fetching n" for j n using others by simp
  moreover have "sorted_wrt (\<lambda>a b. fst a + ttl \<le> fst b) (ca_stored c @ [(now, m)])"
    using s before by (simp add: sorted_wrt_append)
  ultimately show ?thesis unfolding cache_inv_def c' using served by simp
next
  case (fail i now)
  have "((ca_task c)(i := Ended)) j \<noteq> Fetching n" for j n
    using assms(2) fail(3) by (auto simp: cache_inv_def)
  moreover have "m' \<in> snd ` set (ca_stored c)" if "((ca_task c)(i := Ended)) j = Served m'" for j m'
    using assms(2) that by (auto simp: cache_inv_def split: if_splits)
  ultimately show ?thesis
    unfolding fail(1) using assms(2) by (simp add: cache_inv_def set_task_def)
next
  case (cancel i)
  with assms(2) show ?thesis by (auto simp: cache_inv_def set_task_def)
qed

lemma cache_inv_reachable:
  assumes "(cache_step ttl)\<^sup>*\<^sup>* (empty_cache now) c" "0 \<le> ttl"
  shows "cache_inv ttl c"
  using assms(1)
proof (induction rule: rtranclp_induct)
  case base
  show ?case by (simp add: cache_inv_def empty_cache_def)
next
  case (step c c')
  with cache_inv_step assms(2) show ?case by blast
qed

section \<open>The sequential view is a run of the concurrent one\<close>

lemma fetch_keeps_cache:
  "fetch_document E S cred start left url vals s = (s', r) \<Longrightarrow> mi_cached s' = mi_cached s \<and> mi_expires_at s' = mi_expires_at s"
proof (induction left arbitrary: url vals s rule: less_induct)
  case (less left)
  show ?case
    using less.prems [unfolded fetch_document.simps [of E S cred start left]]
    by (auto simp: mi_step_def Let_def split: sum.splits prod.splits card_reply.splits if_splits nat.splits option.splits
        dest!: less.IH [rotated])
qed

lemma refresh_keeps_cache:
  "refresh E S cred s = (s', r) \<Longrightarrow> mi_cached s' = mi_cached s \<and> mi_expires_at s' = mi_expires_at s"
  by (auto simp: refresh_def split: sum.splits prod.splits option.splits dest!: fetch_keeps_cache)

section \<open>Properties\<close>

text \<open>
  C12. The fetch of the card is confined: whatever the upstream, its redirects and the resolver answer, a
  refresh makes at most one request more than the configured redirects; each is for a URL with the origin
  of the configured upstream, carries the credentials for that URL, and connects to a host the owner
  trusts or, over HTTPS under the host's own TLS name, to an address that is public, as are all addresses
  the resolver gave with it.
\<close>

theorem card_fetch_confined:
  assumes "refresh E S cred s = (s', r)"
  shows "\<exists>log. mi_log s' = mi_log s @ log \<and> length log \<le> Suc (ms_max_redirects S)
    \<and> (\<forall>q \<in> set log. \<exists>url start. me_card_url E (gw_upstream_base_url (ms_gateway S)) = Inr url \<and> origin E url = Inr start
         \<and> origin E (cq_logical q) = Inr start \<and> cred ''GET'' (cq_logical q) = Inr (cq_credentials q)
         \<and> (\<exists>u host. g_urlsplit (me_gate E) (cq_logical q) = Some u \<and> su_hostname u = Some host
              \<and> (trusted_host S host \<and> cq_url q = cq_logical q
                 \<or> su_scheme u = ''https'' \<and> cq_sni_hostname q = Some host
                   \<and> (\<exists>a. ip_is_global a \<and> cq_url q = me_pin E (cq_logical q) (ip_text a)
                        \<and> (g_ip_address (me_gate E) host = Some a
                           \<or> (\<exists>n port as. me_resolve E n host port = Some as \<and> a \<in> set as \<and> list_all ip_is_global as))))))"
proof (cases "\<exists>url start. me_card_url E (gw_upstream_base_url (ms_gateway S)) = Inr url \<and> origin E url = Inr start")
  case True
  then obtain url start where u: "me_card_url E (gw_upstream_base_url (ms_gateway S)) = Inr url" "origin E url = Inr start" by blast
  obtain s1 x where f: "fetch_document E S cred start (ms_max_redirects S) url [] s = (s1, x)" by force
  have "s' = s1" using assms by (auto simp: refresh_def u f split: sum.splits prod.splits option.splits)
  with fetch_safe [OF f u(2)] obtain log where "mi_log s' = mi_log s @ log" "length log \<le> Suc (ms_max_redirects S)"
    "\<forall>q \<in> set log. safe_request E S cred start q" by blast
  with u show ?thesis unfolding safe_request_def by (intro exI [of _ log]) (cases start, simp)
next
  case False
  then have "s' = s" using assms by (auto simp: refresh_def split: sum.splits)
  then show ?thesis by simp
qed

text \<open>
  C13. The public card discloses nothing private: the served document is written from a card that has only
  approved skills, at least one of them, only interfaces of protocol version 1.0 under the public base
  URL, and no other field set; and its text contains neither the upstream's base URL nor any credential
  that was sent to fetch it, as a whole or after its scheme word, up to letter case.
\<close>

theorem public_card_discloses_nothing:
  assumes "refresh E S cred s = (s', Inr m)"
  shows "\<exists>public log. mc_document m = me_to_dict E public \<and> mi_log s' = mi_log s @ log
    \<and> ac_skills public \<noteq> [] \<and> (\<forall>k \<in> set (ac_skills public). sk_id k \<in> set (ms_approved_skill_ids S))
    \<and> ac_interfaces public \<noteq> [] \<and> ac_other public = PNone
    \<and> (\<forall>i \<in> set (ac_interfaces public). if_protocol_version i = ''1.0''
         \<and> (\<exists>path \<in> {JSONRPC_PATH, REST_PATH}. if_url i = gw_public_base_url (ms_gateway S) @ path))
    \<and> (\<forall>v \<in> insert (gw_upstream_base_url (ms_gateway S)) (\<Union>q \<in> set log. set (private_values (cq_credentials q))).
         v \<noteq> [] \<longrightarrow> \<not> occurs_in (me_casefold E v) (me_casefold E (me_dumps E (mc_document m))))"
proof -
  obtain url start where u: "me_card_url E (gw_upstream_base_url (ms_gateway S)) = Inr url" "origin E url = Inr start"
    using assms by (auto simp: refresh_def split: sum.splits)
  obtain s1 x where f: "fetch_document E S cred start (ms_max_redirects S) url [] s = (s1, x)" by force
  note r = assms [unfolded refresh_def u f sum.case prod.case]
  obtain document vs where x: "x = Inr (document, vs)" using r by (cases x) auto
  note r' = r [unfolded x sum.case prod.case]
  obtain c where c: "me_parse E document = Some c" using r' by (cases "me_parse E document") simp_all
  have m: "mirrored E S c vs = Inr m" and s1: "s1 = s'" using r' by (simp_all add: c)
  obtain log where log: "mi_log s' = mi_log s @ log" "\<forall>q \<in> set log. set (private_values (cq_credentials q)) \<subseteq> set vs"
    using fetch_safe [OF f [unfolded x s1] u(2)] by (elim exE conjE) simp
  let ?p = "public_part S c"
  have doc: "mc_document m = me_to_dict E ?p" and ne: "ac_interfaces ?p \<noteq> []" "ac_skills ?p \<noteq> []"
    and clean: "ensure_no_private_reference E S (me_to_dict E ?p) vs = Inr ()"
    using m by (auto simp: mirrored_def Let_def chain_Inr split: if_splits)
  have forb: "\<not> occurs_in (me_casefold E v) (me_casefold E (me_dumps E (mc_document m)))"
    if "v \<in> insert (gw_upstream_base_url (ms_gateway S)) (set vs)" "v \<noteq> []" for v
    using clean that unfolding ensure_no_private_reference_def doc
    by (auto simp: chain_Inr forbidden_values_def Let_def list_ex_iff split: option.splits if_splits)
  have i: "if_protocol_version i = ''1.0'' \<and> (\<exists>path \<in> {JSONRPC_PATH, REST_PATH}. if_url i = gw_public_base_url (ms_gateway S) @ path)"
    if "i \<in> set (ac_interfaces ?p)" for i
    using that by (auto simp: public_part_def public_interfaces_def PUBLIC_INTERFACE_PATHS_def split: option.splits if_splits)
  show ?thesis
    using doc log ne forb i by (intro exI [of _ ?p] exI [of _ log]) (auto simp: public_part_def)
qed

definition demo_mirror_env :: mirror_env where
  "demo_mirror_env = \<lparr>me_gate = demo_gate, me_card_url = (\<lambda>b. Inr (b @ ''/card'')), me_join = (\<lambda>u l. Some l),
     me_resolve = (\<lambda>n h p. Some [\<lparr>ip_text = ''8.8.8.8'', ip_is_global = True, ip_is_private = False, ip_is_loopback = False,
        ip_is_link_local = False\<rparr>]),
     me_pin = (\<lambda>u h. ''https://'' @ h @ ''/card''),
     me_get = (\<lambda>n q. if n = 0 then CardRedirect (Some ''https://agent/other'') else CardBody (Inr None) [[1], [2]]),
     me_parse = (\<lambda>v. Some \<lparr>ac_name = ''Ann'', ac_description = [], ac_version = ''1'', ac_input_modes = [], ac_output_modes = [],
        ac_streaming = True,
        ac_interfaces = [\<lparr>if_url = ''https://agent/rpc'', if_protocol_binding = ''JSONRPC'', if_protocol_version = ''1.0'', if_other = PNone\<rparr>],
        ac_skills = [\<lparr>sk_id = ''ask'', sk_other = PNone\<rparr>, \<lparr>sk_id = ''root'', sk_other = PNone\<rparr>], ac_other = PNone\<rparr>),
     me_to_dict = (\<lambda>c. PStr (concat (map sk_id (ac_skills c)))),
     me_dumps = (\<lambda>v. case v of PStr x \<Rightarrow> x | _ \<Rightarrow> []), me_casefold = map to_lower\<rparr>"

definition demo_mirror_settings :: mirror_settings where
  "demo_mirror_settings = \<lparr>ms_gateway = demo_settings, ms_approved_skill_ids = [''ask''], ms_trusted_private_hosts = [],
     ms_max_response_bytes = 10, ms_max_redirects = 3, ms_cache_ttl = 60\<rparr>"

definition demo_refresh :: "mirror \<times> mirrored_card result" where
  "demo_refresh = refresh demo_mirror_env demo_mirror_settings demo_credentials
     \<lparr>mi_tick = 0, mi_log = [], mi_cached = None, mi_expires_at = 0\<rparr>"

theorem card_fetch_confined_witness:
  "map cq_url (mi_log (fst demo_refresh)) = [''https://8.8.8.8/card'', ''https://8.8.8.8/card'']
   \<and> (\<lambda>q. origin demo_mirror_env (cq_logical q)) ` set (mi_log (fst demo_refresh)) \<subseteq> {origin demo_mirror_env ''https://agent/card''}"
proof -
  have m: "map cq_url (mi_log (fst demo_refresh)) = [''https://8.8.8.8/card'', ''https://8.8.8.8/card'']" by code_simp
  obtain log where "mi_log (fst demo_refresh) = log" and "\<forall>q \<in> set log. \<exists>url start.
      me_card_url demo_mirror_env (gw_upstream_base_url (ms_gateway demo_mirror_settings)) = Inr url
      \<and> origin demo_mirror_env url = Inr start \<and> origin demo_mirror_env (cq_logical q) = Inr start"
    using card_fetch_confined [OF surjective_pairing [of demo_refresh, unfolded demo_refresh_def]]
    unfolding demo_refresh_def by (elim exE conjE) (simp, blast)
  with m show ?thesis
    by (fastforce simp: demo_mirror_env_def demo_mirror_settings_def demo_settings_def)
qed

theorem public_card_discloses_nothing_witness:
  "\<exists>m. snd demo_refresh = Inr m \<and> mc_document m = PStr ''ask''
     \<and> \<not> occurs_in (map to_lower ''https://agent'') (map to_lower (me_dumps demo_mirror_env (mc_document m)))"
proof -
  have d: "map_option mc_document (case snd demo_refresh of Inr m \<Rightarrow> Some m | Inl _ \<Rightarrow> None) = Some (PStr ''ask'')" by code_simp
  then obtain m where m: "snd demo_refresh = Inr m" "mc_document m = PStr ''ask''" by (auto split: sum.splits)
  then have "demo_refresh = (fst demo_refresh, Inr m)" by (metis prod.collapse)
  from public_card_discloses_nothing [OF this [unfolded demo_refresh_def]]
  have "\<not> occurs_in (me_casefold demo_mirror_env ''https://agent'')
      (me_casefold demo_mirror_env (me_dumps demo_mirror_env (mc_document m)))"
    by (elim exE conjE) (simp add: demo_mirror_settings_def demo_settings_def)
  then show ?thesis using m by (simp add: demo_mirror_env_def)
qed

text \<open>
  The card is refreshed once per lifetime of the cache: in every run of concurrent requests, however
  they interleave with each other, with failures and with cancellations, at most one request fetches at a
  time, the fetches of two stored snapshots begin at least the time to live apart, and every served
  snapshot is one that was stored.
\<close>

theorem card_refreshed_once_per_ttl:
  assumes "(cache_step ttl)\<^sup>*\<^sup>* (empty_cache now) c" and "0 \<le> ttl"
  shows "(\<forall>i j n n'. ca_task c i = Fetching n \<longrightarrow> ca_task c j = Fetching n' \<longrightarrow> i = j)
    \<and> (\<forall>a b. a < b \<longrightarrow> b < length (ca_stored c) \<longrightarrow> fst (ca_stored c ! a) + ttl \<le> fst (ca_stored c ! b))
    \<and> (\<forall>i m. ca_task c i = Served m \<longrightarrow> m \<in> snd ` set (ca_stored c))"
proof -
  have "cache_inv ttl c" by (rule cache_inv_reachable [OF assms])
  then have l: "\<And>i n. ca_task c i = Fetching n \<Longrightarrow> ca_lock c = Some i"
    and s: "sorted_wrt (\<lambda>a b. fst a + ttl \<le> fst b) (ca_stored c)"
    and v: "\<And>i m. ca_task c i = Served m \<Longrightarrow> m \<in> snd ` set (ca_stored c)" unfolding cache_inv_def by blast+
  have "i = j" if "ca_task c i = Fetching n" "ca_task c j = Fetching n'" for i j n n'
    using l [OF that(1)] l [OF that(2)] by simp
  with s v show ?thesis by (simp add: sorted_wrt_iff_nth_less)
qed

definition demo_snapshot :: mirrored_card where
  "demo_snapshot = \<lparr>mc_document = PNone, mc_source_sha256 = [], mc_public_sha256 = []\<rparr>"

theorem card_refreshed_once_per_ttl_witness:
  "\<exists>c. (cache_step 60)\<^sup>*\<^sup>* (empty_cache 0) c \<and> ca_task c 0 = Served demo_snapshot \<and> demo_snapshot \<in> snd ` set (ca_stored c)"
proof -
  let ?c1 = "set_task 0 Waiting (empty_cache 0)"
  let ?c2 = "set_task 0 (Fetching (ca_clock ?c1)) (?c1\<lparr>ca_lock := Some 0\<rparr>)"
  let ?c3 = "set_task 0 (Served demo_snapshot) (?c2\<lparr>ca_cached := Some demo_snapshot, ca_expires_at := 0 + 60, ca_lock := None,
      ca_stored := ca_stored ?c2 @ [(0, demo_snapshot)]\<rparr>)"
  have "cache_step 60 (empty_cache 0) ?c1" by (rule cache_step.miss) (simp_all add: empty_cache_def ca_fresh_def)
  moreover have "cache_step 60 ?c1 ?c2"
    by (rule cache_step.locked_miss) (simp_all add: empty_cache_def ca_fresh_def set_task_def)
  moreover have "cache_step 60 ?c2 ?c3"
    by (rule cache_step.store) (simp_all add: empty_cache_def set_task_def)
  ultimately have run: "(cache_step 60)\<^sup>*\<^sup>* (empty_cache 0) ?c3" by (meson rtranclp.rtrancl_into_rtrancl rtranclp.rtrancl_refl)
  have "ca_task ?c3 0 = Served demo_snapshot" by (simp add: set_task_def)
  with card_refreshed_once_per_ttl [OF run] run show ?thesis by (intro exI [of _ ?c3]) simp
qed

text \<open>
  A request that is not interrupted is a run of the concurrent cache: \<open>public_card\<close>, executed as one
  call on the same cache contents, ends with the cache and the answer of a sequence of steps in which only
  this task moves, so what holds of all runs holds of it.
\<close>

theorem uninterrupted_card_is_a_run:
  assumes "public_card E S cred now s = (s', r)" and "ca_task c i = Arriving" and "ca_lock c = None"
    and "ca_clock c = now" and "ca_cached c = mi_cached s" and "ca_expires_at c = mi_expires_at s"
  shows "\<exists>c'. (cache_step (ms_cache_ttl S))\<^sup>*\<^sup>* c c' \<and> ca_cached c' = mi_cached s' \<and> ca_expires_at c' = mi_expires_at s'
    \<and> ca_lock c' = None \<and> ca_task c' = (ca_task c)(i := (case r of Inr m \<Rightarrow> Served m | Inl e \<Rightarrow> Ended))"
proof -
  let ?step = "cache_step (ms_cache_ttl S)"
  have fresh: "ca_fresh c = fresh_card s now" using assms(4,5,6) by (simp add: ca_fresh_def fresh_card_def)
  show ?thesis
  proof (cases "fresh_card s now")
    case (Some m)
    then have "s' = s" "r = Inr m" using assms(1) by (simp_all add: public_card_def)
    moreover have "?step\<^sup>*\<^sup>* c (set_task i (Served m) c)"
      by (rule r_into_rtranclp) (rule cache_step.hit [OF assms(2)], simp add: fresh Some)
    ultimately show ?thesis
      using assms(3,5,6) by (intro exI [of _ "set_task i (Served m) c"]) (simp add: set_task_def)
  next
    case None
    let ?c1 = "set_task i Waiting c"
    let ?c2 = "set_task i (Fetching (ca_clock ?c1)) (?c1\<lparr>ca_lock := Some i\<rparr>)"
    have fresh1: "ca_fresh ?c1 = fresh_card s now" using fresh by (auto simp: ca_fresh_def set_task_def)
    have "?step c ?c1" by (rule cache_step.miss [OF assms(2)]) (simp add: fresh None)
    moreover have "?step ?c1 ?c2"
      by (rule cache_step.locked_miss) (simp_all add: fresh1 None, simp_all add: set_task_def assms(3))
    ultimately have two: "?step\<^sup>*\<^sup>* c ?c2" by (meson rtranclp.rtrancl_into_rtrancl rtranclp.rtrancl_refl)
    have f2: "ca_task ?c2 i = Fetching now" "ca_lock ?c2 = Some i" by (simp_all add: set_task_def assms(4))
    obtain s1 x where rf: "refresh E S cred s = (s1, x)" by force
    note keep = refresh_keeps_cache [OF rf]
    show ?thesis
    proof (cases x)
      case (Inl e)
      then have "s' = s1" "r = Inl e" using assms(1) None rf by (simp_all add: public_card_def)
      moreover have "?step\<^sup>*\<^sup>* c (set_task i Ended (?c2\<lparr>ca_lock := None\<rparr>))"
        using two cache_step.fail [OF f2] by (rule rtranclp.rtrancl_into_rtrancl)
      ultimately show ?thesis
        using keep assms(5,6) by (intro exI [of _ "set_task i Ended (?c2\<lparr>ca_lock := None\<rparr>)"]) (simp add: set_task_def)
    next
      case (Inr m)
      let ?c3 = "set_task i (Served m) (?c2\<lparr>ca_cached := Some m, ca_expires_at := now + ms_cache_ttl S, ca_lock := None,
          ca_stored := ca_stored ?c2 @ [(now, m)]\<rparr>)"
      have "s' = s1\<lparr>mi_cached := Some m, mi_expires_at := now + ms_cache_ttl S\<rparr>" "r = Inr m"
        using assms(1) None rf Inr by (simp_all add: public_card_def)
      moreover have "?step\<^sup>*\<^sup>* c ?c3"
        using two cache_step.store [OF f2] by (rule rtranclp.rtrancl_into_rtrancl)
      ultimately show ?thesis by (intro exI [of _ ?c3]) (simp add: set_task_def)
    qed
  qed
qed

theorem uninterrupted_card_is_a_run_witness:
  "\<exists>c'. (cache_step 60)\<^sup>*\<^sup>* (empty_cache 5) c' \<and> ca_expires_at c' = 65"
proof -
  let ?s = "\<lparr>mi_tick = 0, mi_log = [], mi_cached = None, mi_expires_at = 0\<rparr>"
  let ?x = "public_card demo_mirror_env demo_mirror_settings demo_credentials 5 ?s"
  have e: "mi_expires_at (fst ?x) = 65" by code_simp
  have "ca_task (empty_cache 5) 0 = Arriving" "ca_lock (empty_cache 5) = None" "ca_clock (empty_cache 5) = 5"
    "ca_cached (empty_cache 5) = mi_cached ?s" "ca_expires_at (empty_cache 5) = mi_expires_at ?s"
    by (simp_all add: empty_cache_def)
  from uninterrupted_card_is_a_run [OF surjective_pairing [of ?x] this] e show ?thesis
    by (auto simp: demo_mirror_settings_def)
qed

end
