(* ===== verification/Kin_Tasks.thy ===== *)
theory Kin_Tasks
  imports Kin_Backend Kin_Offers
begin

text \<open>
  The task protocol of \<open>kin-node/kin/node/routes.py\<close>: tasks created and messages sent by other nodes, the
  draft the local agent makes of an answer, and the automatic answer under the policy of the contact.

  The tables of this protocol are the record \<open>tasks\<close>. Each request has its own connection, so writes that
  are not committed when an exception escapes are rolled back. What the other node and the relay answer and
  the keys are fields of \<open>task_env\<close>, the backend is the one of \<open>Kin_Backend\<close>. A value taken unchecked from a
  JSON body is a \<open>pyval\<close>, stored as the text SQLite makes of it; binding a list or a dictionary raises. A
  second task under an identifier already used is refused by the primary key.
\<close>

section \<open>Tables\<close>

record v1_contact =
  vc_username :: string
  vc_public_key :: "string option"
  vc_x25519_public_key :: "string option"
  vc_endpoint :: "string option"
  vc_autonomy_level :: "string option"
  vc_fingerprint_verified_at :: "string option"

record task_row =
  tk_task_id :: string
  tk_contact_username :: string
  tk_goal :: string
  tk_context_json :: string
  tk_status :: "string option"
  tk_result_json :: "string option"
  tk_draft_content :: "string option"
  tk_draft_message_type :: "string option"
  tk_agent_name :: "string option"
  tk_peer_agent_name :: "string option"
  tk_peer_task_id :: "string option"
  tk_origin_ref_id :: "string option"
  tk_created_at :: string
  tk_updated_at :: string

record message_row =
  mg_message_id :: string
  mg_task_id :: string
  mg_from_username :: string
  mg_content :: string
  mg_message_type :: "string option"
  mg_created_at :: string
  mg_signature :: string

record tasks =
  td_identity :: "string option"
  td_contacts :: "v1_contact list"
  td_tasks :: "task_row list"
  td_messages :: "message_row list"
  td_tick :: nat
  td_sent :: "(string \<times> pyval) list" \<comment> \<open>automatic answers that left the node: URL and status or blob\<close>

record create_request =
  cr_goal :: string
  cr_context :: pydict
  cr_requester_username :: string

record send_request =
  sd_from_username :: string
  sd_content :: string
  sd_message_type :: string
  sd_origin_ref_id :: "string option"

datatype direct_reply =
    DirectStatus pyval
  | DirectUnreachable \<comment> \<open>\<open>httpx.RequestError\<close>\<close>
  | DirectRefused \<comment> \<open>an error status, or no status in the answer\<close>
  | DirectCrash py_error \<comment> \<open>any other exception, as for an answer that is no object\<close>

record task_env =
  te_world :: world
  te_backend :: backend_env
  te_private_key :: "bytes option"
  te_x25519_key :: "bytes option"
  te_direct :: "nat \<Rightarrow> string \<Rightarrow> bytes \<Rightarrow> direct_reply"
  te_relay :: "nat \<Rightarrow> string \<Rightarrow> bytes \<Rightarrow> bool" \<comment> \<open>whether the relay took the blob\<close>
  te_relay_url :: string
  te_error_text :: "py_error \<Rightarrow> string" \<comment> \<open>\<open>str(e)\<close>\<close>

definition MAX_TASK_MESSAGES :: nat where
  "MAX_TASK_MESSAGES = 10"

definition td_step :: "tasks \<Rightarrow> tasks" where
  "td_step d = d\<lparr>td_tick := Suc (td_tick d)\<rparr>"

definition update_task :: "string \<Rightarrow> (task_row \<Rightarrow> task_row) \<Rightarrow> tasks \<Rightarrow> tasks" where
  "update_task tid f d = d\<lparr>td_tasks := map (\<lambda>r. if tk_task_id r = tid then f r else r) (td_tasks d)\<rparr>"

definition now_iso :: "task_env \<Rightarrow> tasks \<Rightarrow> string" where
  "now_iso E d = w_isoformat (te_world E) (w_clock (te_world E) (td_tick d))"

definition find_contact :: "tasks \<Rightarrow> string \<Rightarrow> v1_contact option" where
  "find_contact d un = find (\<lambda>c. vc_username c = un) (td_contacts d)"

definition find_task :: "tasks \<Rightarrow> string \<Rightarrow> task_row option" where
  "find_task d tid = find (\<lambda>r. tk_task_id r = tid) (td_tasks d)"

definition insert_message ::
  "task_env \<Rightarrow> string \<Rightarrow> string \<Rightarrow> string \<Rightarrow> string option \<Rightarrow> string \<Rightarrow> string \<Rightarrow> tasks \<Rightarrow> tasks" where
  "insert_message E tid un content mt now signature d =
     td_step (d\<lparr>td_messages := td_messages d @ [\<lparr>mg_message_id = w_uuid (te_world E) (td_tick d), mg_task_id = tid,
       mg_from_username = un, mg_content = content, mg_message_type = mt, mg_created_at = now, mg_signature = signature\<rparr>]\<rparr>)"

section \<open>Automatic answers\<close>

definition answer_payload :: "string \<Rightarrow> string option \<Rightarrow> string \<Rightarrow> pydict" where
  "answer_payload own origin_ref_id content =
     [(''from_username'', PStr own), (''content'', PStr content), (''message_type'', PStr ''answer'')]
     @ (if otruthy origin_ref_id then [(''origin_ref_id'', PStr (the origin_ref_id))] else [])"

definition rstrip_path :: "string \<Rightarrow> string" where
  "rstrip_path s = rev (dropWhile (\<lambda>ch. ch = CHR ''/'') (rev s))"

text \<open>Over the relay: no key, a key that is no hexadecimal, no key of one's own or a refusal keep the draft.\<close>

definition relay_answer ::
  "task_env \<Rightarrow> string \<Rightarrow> string option \<Rightarrow> string \<Rightarrow> bytes \<Rightarrow> bytes \<Rightarrow> tasks \<Rightarrow> tasks \<times> pyval option result" where
  "relay_answer E contact_username x25519 target payload signature d =
     (if \<not> otruthy x25519 then (d, Inr None)
      else case (te_x25519_key E, fromhex (the x25519),
                 w_dumps_tight (te_world E) (of_dict [(''type'', PStr ''send_message''), (''task_id'', PStr target),
                   (''payload_bytes'', PStr (hexdigest payload)), (''signature'', PStr (hexdigest signature))])) of
        (Some priv, Some pub, Some envelope) \<Rightarrow>
          (let blob = encrypt_for_recipient (te_world E) priv pub (td_tick d) (utf8_encode envelope);
               url = rstrip_path (te_relay_url E) @ ''/relay/mailbox/'' @ contact_username;
               d1 = td_step (d\<lparr>td_sent := td_sent d @ [(url, PStr (hexdigest blob))]\<rparr>)
           in if te_relay E (td_tick d) url blob then (d1, Inr (Some (PStr ''queued-relay''))) else (d1, Inr None))
      | _ \<Rightarrow> (d, Inr None))"

definition transmit_answer ::
  "task_env \<Rightarrow> string \<Rightarrow> string option \<Rightarrow> string option \<Rightarrow> string \<Rightarrow> bytes \<Rightarrow> bytes \<Rightarrow> tasks \<Rightarrow> tasks \<times> pyval option result" where
  "transmit_answer E contact_username endpoint x25519 target payload signature d =
     (case endpoint of
        None \<Rightarrow> (d, Inl (AppError ''AttributeError''))
      | Some ep \<Rightarrow>
          (let url = rstrip_path ep @ ''/tasks/'' @ target @ ''/messages'';
               d1 = td_step (d\<lparr>td_sent := td_sent d @ [(url, PStr (hexdigest payload))]\<rparr>)
           in case te_direct E (td_tick d) url payload of
                DirectStatus st \<Rightarrow> (d1, Inr (Some st))
              | DirectUnreachable \<Rightarrow> relay_answer E contact_username x25519 target payload signature d1
              | DirectRefused \<Rightarrow> (d1, Inr None)
              | DirectCrash e \<Rightarrow> (d1, Inl e)))"

definition auto_relay_information_response ::
  "task_env \<Rightarrow> string \<Rightarrow> string \<Rightarrow> string option \<Rightarrow> string option \<Rightarrow> string \<Rightarrow> tasks \<Rightarrow> tasks \<times> pyval option result" where
  "auto_relay_information_response E tid contact_username endpoint x25519 content d =
     (case (td_identity d, find_task d tid) of
        (Some own, Some task) \<Rightarrow>
          (case (te_private_key E, w_dumps_tight (te_world E) (of_dict (answer_payload own (tk_origin_ref_id task) content))) of
             (Some key, Some body_json) \<Rightarrow>
               (let payload = utf8_encode body_json;
                    signature = c_ed_sign (w_crypto (te_world E)) key payload;
                    now = now_iso E d
                in case transmit_answer E contact_username endpoint x25519 (or_text (tk_peer_task_id task) tid) payload signature (td_step d) of
                     (d1, Inl e) \<Rightarrow> (d1, Inl e)
                   | (d1, Inr None) \<Rightarrow> (d1, Inr None)
                   | (d1, Inr (Some st)) \<Rightarrow>
                       (let d2 = insert_message E tid own content (Some ''answer'') now (hexdigest signature) d1 in
                        case sql_text (te_world E) st of
                          Inl e \<Rightarrow> (d2, Inl e)
                        | Inr status \<Rightarrow>
                            (update_task tid (\<lambda>r. r\<lparr>tk_status := status, tk_draft_content := None, tk_draft_message_type := None,
                                tk_updated_at := now\<rparr>) d2, Inr (Some st))))
           | _ \<Rightarrow> (d, Inr None))
      | _ \<Rightarrow> (d, Inr None))"

section \<open>Drafts\<close>

definition fail_task :: "string \<Rightarrow> string \<Rightarrow> string \<Rightarrow> tasks \<Rightarrow> tasks" where
  "fail_task tid result now d =
     update_task tid (\<lambda>r. r\<lparr>tk_status := Some ''failed'', tk_result_json := Some result, tk_updated_at := now\<rparr>) d"

definition set_draft :: "string \<Rightarrow> string \<Rightarrow> string \<Rightarrow> string \<Rightarrow> tasks \<Rightarrow> tasks" where
  "set_draft tid content mt now d =
     update_task tid (\<lambda>r. r\<lparr>tk_status := Some ''input-required'', tk_draft_content := Some content,
       tk_draft_message_type := Some mt, tk_updated_at := now\<rparr>) d"

definition auto_relay_allowed :: "v1_contact option \<Rightarrow> bool \<Rightarrow> string \<Rightarrow> bool" where
  "auto_relay_allowed contact question mt =
     (question \<and> mt = ''answer'' \<and> (case contact of None \<Rightarrow> False | Some c \<Rightarrow> vc_autonomy_level c = Some ''auto_relay_info''))"

text \<open>\<open>type(e).__name__\<close>.\<close>

fun error_name :: "py_error \<Rightarrow> string" where
  "error_name ValueError = ''ValueError''"
| "error_name TypeError = ''TypeError''"
| "error_name KeyError = ''KeyError''"
| "error_name UnboundLocalError = ''UnboundLocalError''"
| "error_name ValidationError = ''ValidationError''"
| "error_name IntegrityError = ''IntegrityError''"
| "error_name RuntimeError = ''RuntimeError''"
| "error_name (AppError name) = name"

definition error_payload :: "task_env \<Rightarrow> py_error \<Rightarrow> pyval" where
  "error_payload E e =
     of_dict [(''error'', PStr (if error_name e \<in> set [''SecretNotFoundError'', ''JSONDecodeError'', ''ValidationError'', ''OpenAIError'']
                 then ''backend error'' else ''unhandled exception: '' @ error_name e)),
              (''detail'', PStr (te_error_text E e))]"

text \<open>
  The draft of the agent, and the answer that may leave without review; whatever is raised fails the task.
\<close>

definition draft_reply ::
  "task_env \<Rightarrow> string \<Rightarrow> backend \<Rightarrow> string \<Rightarrow> pydict \<Rightarrow> string list \<Rightarrow> string \<Rightarrow> v1_contact option \<Rightarrow> bool \<Rightarrow> string
   \<Rightarrow> tasks \<Rightarrow> tasks \<times> pyval" where
  "draft_reply E tid b goal context history contact_username contact question now d =
     (let q = \<lparr>br_task_goal = goal, br_context = context, br_conversation_history = history\<rparr>;
          (n, reply) = generate_response (te_backend E) b q (td_tick d);
          d0 = d\<lparr>td_tick := n\<rparr>;
          crash = (\<lambda>e d. (fail_task tid (or_text (w_dumps_plain (te_world E) (error_payload E e)) []) now d, PStr ''failed''))
      in case reply of
        Inl e \<Rightarrow> crash e d0
      | Inr (content, mt) \<Rightarrow>
          (let d1 = set_draft tid content mt now d0 in
           if \<not> auto_relay_allowed contact question mt then (d1, PStr ''input-required'')
           else case auto_relay_information_response E tid contact_username (vc_endpoint (the contact))
                       (vc_x25519_public_key (the contact)) content d1 of
                  (d2, Inl e) \<Rightarrow> crash e d2
                | (d2, Inr None) \<Rightarrow> (d2, PStr ''input-required'')
                | (d2, Inr (Some st)) \<Rightarrow> (d2, st)))"

section \<open>Requests\<close>

definition verify_signature_v1 :: "world \<Rightarrow> bytes \<Rightarrow> bytes \<Rightarrow> bytes \<Rightarrow> bool" where
  "verify_signature_v1 W public_key message signature =
     (length public_key = 32 \<and> c_ed_verify (w_crypto W) public_key signature message)"

text \<open>
  The sender of a body: a verified contact whose key verifies the signature over the raw bytes. The left
  value is the status code of the refusal; a stored key that is missing or no hexadecimal raises.
\<close>

definition authenticate :: "world \<Rightarrow> string option \<Rightarrow> string \<Rightarrow> bytes \<Rightarrow> tasks \<Rightarrow> (int + v1_contact) result" where
  "authenticate W x_signature un raw d =
     (if \<not> otruthy x_signature then Inr (Inl 401)
      else (case fromhex (the x_signature) of
        None \<Rightarrow> Inr (Inl 401)
      | Some sig \<Rightarrow>
          (case find_contact d un of
             None \<Rightarrow> Inr (Inl 403)
           | Some c \<Rightarrow>
               if vc_fingerprint_verified_at c = None then Inr (Inl 403)
               else (case vc_public_key c of
                 None \<Rightarrow> Inl TypeError
               | Some hex \<Rightarrow>
                   (case fromhex hex of
                      None \<Rightarrow> Inl ValueError
                    | Some pk \<Rightarrow> if verify_signature_v1 W pk raw sig then Inr (Inr c) else Inr (Inl 401))))))"

definition selected_agent :: "(string \<times> agent_config) list result \<Rightarrow> string option result" where
  "selected_agent loaded =
     (case loaded of
        Inl e \<Rightarrow> if e = AgentLoadingError then Inr None else Inl e
      | Inr roster \<Rightarrow> Inr (if roster = [] then None else Some (first_agent roster)))"

definition history_line :: "string \<Rightarrow> string \<Rightarrow> string \<Rightarrow> string" where
  "history_line un mt content = un @ '' ('' @ mt @ ''): '' @ content"

definition process_create_task ::
  "task_env \<Rightarrow> create_request \<Rightarrow> bytes \<Rightarrow> string option \<Rightarrow> string option \<Rightarrow> tasks \<Rightarrow> tasks \<times> (int \<times> pyval) result" where
  "process_create_task E body raw x_signature local_ref_id d =
     (case authenticate (te_world E) x_signature (cr_requester_username body) raw d of
        Inl e \<Rightarrow> (d, Inl e)
      | Inr (Inl code) \<Rightarrow> (d, Inr (code, PNone))
      | Inr (Inr contact) \<Rightarrow>
          (let tid = w_uuid (te_world E) (td_tick d); now = now_iso E d; roster = load_agent_roster (be_files (te_backend E));
               peer_agent = dget (cr_context body) ''peer_agent_name'';
               mt = dget_default (cr_context body) ''message_type'' (PStr ''question'')
           in case (if cr_context body = [] then Some ''{}'' else w_dumps_plain (te_world E) (of_dict (cr_context body)),
                    sql_text (te_world E) peer_agent, sql_text (te_world E) mt, selected_agent roster) of
                (None, _, _, _) \<Rightarrow> (d, Inl TypeError)
              | (_, _, _, Inl e) \<Rightarrow> (d, Inl e)
              | (_, Inl e, _, _) \<Rightarrow> (d, Inl e)
              | (_, _, Inl e, _) \<Rightarrow> (d, Inl e)
              | (Some context_json, Inr peer_agent_name, Inr message_type, Inr agent) \<Rightarrow>
                  if tid \<in> tk_task_id ` set (td_tasks d) then (d, Inl IntegrityError)
                  else let row = \<lparr>tk_task_id = tid, tk_contact_username = cr_requester_username body, tk_goal = cr_goal body,
                             tk_context_json = context_json, tk_status = Some ''submitted'', tk_result_json = None,
                             tk_draft_content = None, tk_draft_message_type = None, tk_agent_name = agent,
                             tk_peer_agent_name = peer_agent_name, tk_peer_task_id = None, tk_origin_ref_id = local_ref_id,
                             tk_created_at = now, tk_updated_at = now\<rparr>;
                           d1 = insert_message E tid (cr_requester_username body) (cr_goal body) message_type now (the x_signature)
                                  (td_step (d\<lparr>td_tasks := td_tasks d @ [row]\<rparr>))
                       in case get_agent_backend roster agent of
                            Inl e \<Rightarrow> (d1, Inl e)
                          | Inr b \<Rightarrow> (case draft_reply E tid b (cr_goal body) (cr_context body)
                                 [history_line (cr_requester_username body) (str_of (te_world E) mt) (cr_goal body)] (cr_requester_username body)
                                 (Some contact) (mt = PStr ''question'') now d1 of
                            (d2, st) \<Rightarrow> (d2, Inr (200, st)))))"

definition closed :: "task_row \<Rightarrow> bool" where
  "closed row = (tk_status row \<in> {Some ''completed'', Some ''failed''})"

text \<open>The row of a message: by identifier or peer identifier, else by its origin, which records the peer's.\<close>

definition locate_task :: "string \<Rightarrow> string option \<Rightarrow> tasks \<Rightarrow> tasks \<times> task_row option" where
  "locate_task tid origin_ref_id d =
     (case find (\<lambda>r. tk_task_id r = tid \<or> tk_peer_task_id r = Some tid) (td_tasks d) of
        Some row \<Rightarrow> (d, Some row)
      | None \<Rightarrow>
          if \<not> otruthy origin_ref_id then (d, None)
          else (case find_task d (the origin_ref_id) of
            None \<Rightarrow> (d, None)
          | Some row \<Rightarrow> (update_task (the origin_ref_id) (\<lambda>r. r\<lparr>tk_peer_task_id := Some tid\<rparr>) d, Some row)))"

definition task_history :: "string \<Rightarrow> tasks \<Rightarrow> string list" where
  "task_history tid d =
     map (\<lambda>m. history_line (mg_from_username m) (case mg_message_type m of None \<Rightarrow> ''None'' | Some mt \<Rightarrow> mt) (mg_content m))
       (sort_key mg_created_at (filter (\<lambda>m. mg_task_id m = tid) (td_messages d)))"

definition message_count :: "string \<Rightarrow> tasks \<Rightarrow> nat" where
  "message_count tid d = length (filter (\<lambda>m. mg_task_id m = tid) (td_messages d))"

definition deliver_message ::
  "task_env \<Rightarrow> task_row \<Rightarrow> send_request \<Rightarrow> string \<Rightarrow> tasks \<Rightarrow> tasks \<times> (int \<times> pyval) result" where
  "deliver_message E row body x_signature d =
     (let tid = tk_task_id row; now = now_iso E d;
          d1 = insert_message E tid (sd_from_username body) (sd_content body) (Some (sd_message_type body)) now x_signature (td_step d)
      in if sd_message_type body = ''finalize_accept''
         then (case w_dumps_plain (te_world E) (of_dict [(''outcome'', PStr (sd_content body)), (''finalized_by'', PStr (sd_from_username body))]) of
                 None \<Rightarrow> (d, Inl TypeError)
               | Some result \<Rightarrow>
                   (update_task tid (\<lambda>r. r\<lparr>tk_status := Some ''completed'', tk_draft_content := None, tk_draft_message_type := None,
                      tk_result_json := Some result, tk_updated_at := now\<rparr>) d1, Inr (200, PStr ''completed'')))
         else if sd_message_type body = ''finalize_proposal''
         then (set_draft tid (sd_content body) ''finalize_proposal'' now d1, Inr (200, PStr ''input-required''))
         else let d2 = update_task tid (\<lambda>r. r\<lparr>tk_status := Some ''working'', tk_updated_at := now\<rparr>) d1 in
           case (if tk_context_json row = [] then Some [] else Option.bind (w_loads (te_world E) (tk_context_json row)) as_str_dict) of
             None \<Rightarrow> (d2, Inl ValueError)
           | Some context \<Rightarrow>
               (case get_agent_backend (load_agent_roster (be_files (te_backend E))) (tk_agent_name row) of
                  Inl e \<Rightarrow> (d2, Inl e)
                | Inr b \<Rightarrow>
                    (case draft_reply E tid b (tk_goal row) context (task_history tid d2) (tk_contact_username row)
                            (find_contact d2 (tk_contact_username row)) (sd_message_type body = ''question'') now d2 of
                       (d3, st) \<Rightarrow> (d3, Inr (200, st)))))"

definition process_send_message ::
  "task_env \<Rightarrow> string \<Rightarrow> send_request \<Rightarrow> bytes \<Rightarrow> string option \<Rightarrow> tasks \<Rightarrow> tasks \<times> (int \<times> pyval) result" where
  "process_send_message E path_id body raw x_signature d =
     (case locate_task path_id (sd_origin_ref_id body) d of
        (d0, None) \<Rightarrow> (d0, Inr (404, PNone))
      | (d0, Some row) \<Rightarrow>
          if closed row then (d0, Inr (409, PNone))
          else (case authenticate (te_world E) x_signature (sd_from_username body) raw d0 of
            Inl e \<Rightarrow> (d0, Inl e)
          | Inr (Inl code) \<Rightarrow> (d0, Inr (code, PNone))
          | Inr (Inr contact) \<Rightarrow>
              if MAX_TASK_MESSAGES \<le> message_count (tk_task_id row) d0
              then (case w_dumps_plain (te_world E) (of_dict [(''reason'', PStr ''round_limit_reached''),
                           (''round_count'', PInt (int (message_count (tk_task_id row) d0)))]) of
                      None \<Rightarrow> (d0, Inl TypeError)
                    | Some result \<Rightarrow> (fail_task (tk_task_id row) result (now_iso E d0) (td_step d0), Inr (200, PStr ''failed'')))
              else deliver_message E row body (the x_signature) d0))"

text \<open>\<open>GET /tasks/{id}\<close>: status, result, draft and history, to whoever names the task.\<close>

definition get_task_status :: "world \<Rightarrow> string \<Rightarrow> tasks \<Rightarrow> (int \<times> pydict) result" where
  "get_task_status W tid d =
     (case find (\<lambda>r. tk_task_id r = tid \<or> tk_peer_task_id r = Some tid) (td_tasks d) of
        None \<Rightarrow> Inr (404, [(''detail'', PStr (''Task with ID '' @ [CHR 0x27] @ tid @ [CHR 0x27] @ '' not found.''))])
      | Some row \<Rightarrow>
          (let draft = (if otruthy (tk_draft_content row) \<and> otruthy (tk_draft_message_type row)
                        then of_dict [(''content'', PStr (the (tk_draft_content row))),
                                      (''message_type'', PStr (the (tk_draft_message_type row)))]
                        else PNone);
               text_value = (\<lambda>v. case v of None \<Rightarrow> PNone | Some s \<Rightarrow> PStr s);
               history = map (\<lambda>m. of_dict [(''from_username'', PStr (mg_from_username m)), (''content'', PStr (mg_content m)),
                             (''message_type'', text_value (mg_message_type m)), (''created_at'', PStr (mg_created_at m))])
                           (sort_key mg_created_at (filter (\<lambda>m. mg_task_id m = tk_task_id row) (td_messages d)))
           in case (if otruthy (tk_result_json row) then w_loads W (the (tk_result_json row)) else Some PNone) of
                None \<Rightarrow> Inl ValueError
              | Some result \<Rightarrow>
                  Inr (200, [(''status'', text_value (tk_status row)), (''history'', PList history),
                             (''result'', result), (''draft'', draft)])))"

section \<open>Requests in sequence\<close>

datatype task_request =
    CreateTask create_request bytes "string option"
  | SendMessage string send_request bytes "string option"

fun request_sender :: "task_request \<Rightarrow> string" where
  "request_sender (CreateTask body raw sig) = cr_requester_username body"
| "request_sender (SendMessage path_id body raw sig) = sd_from_username body"

fun request_body :: "task_request \<Rightarrow> bytes" where
  "request_body (CreateTask body raw sig) = raw"
| "request_body (SendMessage path_id body raw sig) = raw"

fun request_signature :: "task_request \<Rightarrow> string option" where
  "request_signature (CreateTask body raw sig) = sig"
| "request_signature (SendMessage path_id body raw sig) = sig"

fun request_asks :: "task_request \<Rightarrow> bool" where
  "request_asks (CreateTask body raw sig) = (dget_default (cr_context body) ''message_type'' (PStr ''question'') = PStr ''question'')"
| "request_asks (SendMessage path_id body raw sig) = (sd_message_type body = ''question'')"

text \<open>The routes \<open>POST /tasks\<close> and \<open>POST /tasks/{id}/messages\<close>.\<close>

fun handle_request :: "task_env \<Rightarrow> task_request \<Rightarrow> tasks \<Rightarrow> tasks \<times> (int \<times> pyval) result" where
  "handle_request E (CreateTask body raw sig) d = process_create_task E body raw sig None d"
| "handle_request E (SendMessage path_id body raw sig) d = process_send_message E path_id body raw sig d"

fun task_run :: "task_env \<Rightarrow> task_request list \<Rightarrow> tasks \<Rightarrow> tasks" where
  "task_run E [] d = d"
| "task_run E (q # qs) d = task_run E qs (fst (handle_request E q d))"

section \<open>What an operation on a task touches\<close>

definition appended_for :: "string \<Rightarrow> nat \<Rightarrow> message_row list \<Rightarrow> message_row list \<Rightarrow> bool" where
  "appended_for tid k ms ms' = (\<exists>new. ms' = ms @ new \<and> (\<forall>m\<in>set new. mg_task_id m = tid) \<and> length new \<le> k)"

definition touches :: "string \<Rightarrow> nat \<Rightarrow> tasks \<Rightarrow> tasks \<Rightarrow> bool" where
  "touches tid k d d' \<longleftrightarrow> td_contacts d' = td_contacts d
     \<and> list_all2 (\<lambda>r r'. tk_task_id r' = tk_task_id r \<and> (tk_task_id r \<noteq> tid \<longrightarrow> r' = r)) (td_tasks d) (td_tasks d')
     \<and> appended_for tid k (td_messages d) (td_messages d')"

lemma appended_for_trans:
  assumes "appended_for tid j a b" and "appended_for tid k b c"
  shows "appended_for tid (j + k) a c"
  using assms unfolding appended_for_def by fastforce

lemma appended_for_refl [simp]: "appended_for tid k ms ms"
  by (simp add: appended_for_def)

lemma touches_refl [simp]: "touches tid k d d"
  by (simp add: touches_def list_all2_refl)

lemma touches_trans:
  assumes "touches tid j a b" and "touches tid k b c"
  shows "touches tid (j + k) a c"
proof -
  have "list_all2 (\<lambda>r r'. tk_task_id r' = tk_task_id r \<and> (tk_task_id r \<noteq> tid \<longrightarrow> r' = r)) (td_tasks a) (td_tasks c)"
    using assms unfolding touches_def
    by (elim conjE) (rule list_all2_trans [rotated], assumption+, auto)
  with assms show ?thesis
    unfolding touches_def by (auto intro: appended_for_trans)
qed

lemmas touches_after = touches_trans [where k = 0, unfolded add_0_right]
lemmas touches_before = touches_trans [where j = 0, unfolded add_0]

lemma touches_mono: "touches tid j d d' \<Longrightarrow> j \<le> k \<Longrightarrow> touches tid k d d'"
  by (fastforce simp: touches_def appended_for_def)

lemma touches_unchanged:
  assumes "td_contacts d' = td_contacts d" "td_tasks d' = td_tasks d" "td_messages d' = td_messages d"
  shows "touches tid k d d'"
  using assms by (simp add: touches_def list_all2_refl)

lemma touches_update:
  assumes "\<And>r. tk_task_id (f r) = tk_task_id r"
  shows "touches tid k d (update_task tid f d)"
  using assms by (simp add: touches_def update_task_def list_all2_map2 list_all2_refl)

lemma touches_insert: "touches tid 1 d (insert_message E tid un content mt now sig d)"
  by (simp add: touches_def insert_message_def td_step_def list_all2_refl appended_for_def)

lemma touches_step [simp]: "touches tid k d (td_step d)"
  by (rule touches_unchanged) (simp_all add: td_step_def)

definition tables_kept :: "tasks \<Rightarrow> tasks \<Rightarrow> bool" where
  "tables_kept d d' \<longleftrightarrow> td_contacts d' = td_contacts d \<and> td_tasks d' = td_tasks d \<and> td_messages d' = td_messages d"

lemma tables_kept_touches: "tables_kept d d' \<Longrightarrow> touches tid k d d'"
  by (simp add: tables_kept_def touches_unchanged)

lemma tables_kept_step [simp]: "tables_kept d (td_step d)"
  by (simp add: tables_kept_def td_step_def)

lemma relay_answer_tables: "tables_kept d (fst (relay_answer E un x target payload sig d))"
  by (simp add: relay_answer_def tables_kept_def td_step_def Let_def split: option.split)

lemma transmit_answer_tables: "tables_kept d (fst (transmit_answer E un ep x target payload sig d))"
proof (cases ep)
  case None
  then show ?thesis by (simp add: transmit_answer_def tables_kept_def)
next
  case (Some e)
  then show ?thesis
    using relay_answer_tables
    by (auto simp: transmit_answer_def Let_def tables_kept_def td_step_def split: direct_reply.split)
qed

lemma auto_relay_touches: "touches tid 1 d (fst (auto_relay_information_response E tid un ep x content d))"
proof -
  have 1: "touches tid 0 d (fst (transmit_answer E un ep x target payload sig (td_step d)))" for target payload sig
    by (rule touches_after [OF touches_step tables_kept_touches [OF transmit_answer_tables]])
  show ?thesis
  proof (cases "td_identity d = None \<or> find_task d tid = None \<or> te_private_key E = None")
    case True
    then show ?thesis by (auto simp: auto_relay_information_response_def split: option.split)
  next
    case False
    then obtain own task key where known: "td_identity d = Some own" "find_task d tid = Some task" "te_private_key E = Some key"
      by auto
    show ?thesis
    proof (cases "w_dumps_tight (te_world E) (of_dict (answer_payload own (tk_origin_ref_id task) content))")
      case None
      with known show ?thesis by (simp add: auto_relay_information_response_def)
    next
      case (Some js)
      let ?payload = "utf8_encode js"
      let ?sig = "c_ed_sign (w_crypto (te_world E)) key ?payload"
      obtain d1 r where sent: "transmit_answer E un ep x (or_text (tk_peer_task_id task) tid) ?payload ?sig (td_step d) = (d1, r)"
        by fastforce
      have first: "touches tid 0 d d1"
        using 1 [of "or_text (tk_peer_task_id task) tid" ?payload ?sig] by (simp add: sent)
      have inserted: "touches tid 1 d (insert_message E tid own content mt now sig d1)" for mt now sig
        by (rule touches_before [OF first touches_insert])
      have updated: "touches tid 1 d (update_task tid f (insert_message E tid own content mt now sig d1))"
        if "\<And>r. tk_task_id (f r) = tk_task_id r" for f mt now sig
        by (rule touches_after [OF inserted touches_update]) (rule that)
      show ?thesis
        using known Some sent first inserted updated touches_mono [OF first]
        by (auto simp: auto_relay_information_response_def Let_def split: sum.split option.split)
    qed
  qed
qed

lemma draft_reply_touches: "touches tid 1 d (fst (draft_reply E tid b goal ctx hist un contact q now d))"
proof -
  have ticked: "touches tid 0 d (d\<lparr>td_tick := n\<rparr>)" for n
    by (rule touches_unchanged) simp_all
  have failed: "touches tid 1 d (fail_task tid j now d')" if "touches tid 1 d d'" for j d'
    unfolding fail_task_def by (rule touches_after [OF that touches_update]) simp
  have drafted: "touches tid 0 d (set_draft tid reply mt now (d\<lparr>td_tick := n\<rparr>))" for reply mt n
    unfolding set_draft_def by (rule touches_after [OF ticked touches_update]) simp
  obtain n r where reply: "generate_response (te_backend E) b
      \<lparr>br_task_goal = goal, br_context = ctx, br_conversation_history = hist\<rparr> (td_tick d) = (n, r)" by fastforce
  show ?thesis
  proof (cases r)
    case (Inl e)
    with reply show ?thesis
      using failed [OF touches_mono [OF ticked]] by (simp add: draft_reply_def Let_def)
  next
    case (Inr x)
    obtain content mt where x: "x = (content, mt)" by fastforce
    obtain d2 y where auto: "auto_relay_information_response E tid un (vc_endpoint (the contact))
        (vc_x25519_public_key (the contact)) content (set_draft tid content mt now (d\<lparr>td_tick := n\<rparr>)) = (d2, y)"
      by fastforce
    then have "touches tid 1 d d2"
      using touches_before [OF drafted auto_relay_touches] by (metis fst_conv)
    with reply Inr x auto failed drafted [THEN touches_mono, of 1] show ?thesis
      by (auto simp: draft_reply_def Let_def split: sum.split option.split)
  qed
qed

lemma deliver_message_touches: "touches (tk_task_id row) 2 d (fst (deliver_message E row body sig d))"
proof -
  let ?tid = "tk_task_id row"
  have inserted: "touches ?tid 1 d (insert_message E ?tid un content mt now sig (td_step d))" for un content mt now
    by (rule touches_before [OF touches_step touches_insert])
  have updated: "touches ?tid 1 d (update_task ?tid f (insert_message E ?tid un content mt now sig (td_step d)))"
    if "\<And>r. tk_task_id (f r) = tk_task_id r" for f un content mt now
    by (rule touches_after [OF inserted touches_update]) (rule that)
  have drafted: "touches ?tid 1 d (set_draft ?tid c m now (insert_message E ?tid un content mt now sig (td_step d)))"
    for c m un content mt now
    unfolding set_draft_def by (rule updated) simp
  have replied: "touches ?tid 2 d (fst (draft_reply E ?tid b goal ctx hist un' contact q now'
      (update_task ?tid f (insert_message E ?tid un content mt now sig (td_step d)))))"
    if "\<And>r. tk_task_id (f r) = tk_task_id r" for b goal ctx hist un' contact q now' f un content mt now
    using touches_trans [OF updated [where f = f] draft_reply_touches] that by (simp add: numeral_2_eq_2)
  show ?thesis
    unfolding deliver_message_def Let_def
    using updated [THEN touches_mono, of _ 2] drafted [THEN touches_mono, of 2] replied
    by (auto split: option.split prod.split sum.split simp: prod_eq_iff)
qed

section \<open>The invariant of the tables\<close>

definition tasks_ok :: "tasks \<Rightarrow> bool" where
  "tasks_ok d \<longleftrightarrow> distinct (map tk_task_id (td_tasks d))
     \<and> (\<forall>m\<in>set (td_messages d). mg_task_id m \<in> tk_task_id ` set (td_tasks d))
     \<and> (\<forall>t\<in>tk_task_id ` set (td_tasks d). message_count t d \<le> MAX_TASK_MESSAGES + 1)"

lemma touches_ids: "touches tid k d d' \<Longrightarrow> map tk_task_id (td_tasks d') = map tk_task_id (td_tasks d)"
  unfolding touches_def list_all2_conv_all_nth by (auto intro!: nth_equalityI)

lemma touches_count:
  assumes "touches tid k d d'"
  shows "message_count tid d' \<le> message_count tid d + k" and "t \<noteq> tid \<Longrightarrow> message_count t d' = message_count t d"
  using assms by (auto simp: touches_def appended_for_def message_count_def filter_empty_conv intro: le_trans [OF length_filter_le])

lemma touches_ok:
  assumes "touches tid k d d'" and "tasks_ok d" and "tid \<in> tk_task_id ` set (td_tasks d)"
    and "message_count tid d + k \<le> MAX_TASK_MESSAGES + 1"
  shows "tasks_ok d'"
proof -
  have ids: "tk_task_id ` set (td_tasks d') = tk_task_id ` set (td_tasks d)"
    using touches_ids [OF assms(1)] by (metis list.set_map)
  have "message_count t d' \<le> MAX_TASK_MESSAGES + 1" if "t \<in> tk_task_id ` set (td_tasks d)" for t
    using that assms touches_count [OF assms(1)] unfolding tasks_ok_def by (cases "t = tid") auto
  moreover have "mg_task_id m \<in> tk_task_id ` set (td_tasks d)" if "m \<in> set (td_messages d')" for m
    using that assms unfolding touches_def appended_for_def tasks_ok_def by auto
  ultimately show ?thesis
    using assms(2) touches_ids [OF assms(1)] unfolding tasks_ok_def ids by simp
qed

definition forget_peer :: "task_row \<Rightarrow> task_row" where
  "forget_peer r = r\<lparr>tk_peer_task_id := None\<rparr>"

text \<open>What the requests write, apart from the identifier the other node uses for a task.\<close>

definition task_contents :: "tasks \<Rightarrow> task_row list \<times> message_row list \<times> (string \<times> pyval) list" where
  "task_contents d = (map forget_peer (td_tasks d), td_messages d, td_sent d)"

lemma forget_peer_id [simp]: "tk_task_id (forget_peer r) = tk_task_id r"
  by (simp add: forget_peer_def)

lemma locate_contents:
  assumes "locate_task tid origin d = (d0, x)"
  shows "task_contents d0 = task_contents d" and "td_contacts d0 = td_contacts d" and "td_tick d0 = td_tick d"
  using assms
  by (auto simp: locate_task_def task_contents_def update_task_def forget_peer_def split: option.splits if_splits)

lemma locate_member:
  assumes "locate_task tid origin d = (d0, Some row)"
  shows "row \<in> set (td_tasks d)"
  using assms by (auto simp: locate_task_def find_task_def find_Some_iff split: option.splits if_splits)

lemma contents_ids:
  assumes "task_contents d' = task_contents d"
  shows "map tk_task_id (td_tasks d') = map tk_task_id (td_tasks d)"
proof -
  have "map (tk_task_id \<circ> forget_peer) (td_tasks d') = map (tk_task_id \<circ> forget_peer) (td_tasks d)"
    using assms unfolding task_contents_def by (metis list.map_comp prod.inject)
  then show ?thesis by (simp add: comp_def)
qed

lemma contents_ok:
  assumes "task_contents d' = task_contents d" and "tasks_ok d"
  shows "tasks_ok d'"
proof -
  have ids: "tk_task_id ` set (td_tasks d') = tk_task_id ` set (td_tasks d)"
    using contents_ids [OF assms(1)] by (metis list.set_map)
  have "td_messages d' = td_messages d"
    using assms(1) by (simp add: task_contents_def)
  then show ?thesis
    using assms(2) contents_ids [OF assms(1)] unfolding tasks_ok_def message_count_def ids by simp
qed

lemma contents_keep:
  assumes "task_contents d' = task_contents d" and "row \<in> set (td_tasks d)"
  shows "(\<exists>row'\<in>set (td_tasks d'). forget_peer row' = forget_peer row)
    \<and> filter (\<lambda>m. mg_task_id m = tk_task_id row) (td_messages d') = filter (\<lambda>m. mg_task_id m = tk_task_id row) (td_messages d)"
proof -
  have "forget_peer ` set (td_tasks d') = forget_peer ` set (td_tasks d)" and m: "td_messages d' = td_messages d"
    using assms(1) unfolding task_contents_def by (metis list.set_map prod.inject)+
  then show ?thesis using assms(2) by (metis (no_types, lifting) imageE image_eqI)
qed

lemma touches_keeps:
  assumes "touches tid k d d'" and "row \<in> set (td_tasks d)" and "tk_task_id row \<noteq> tid"
  shows "row \<in> set (td_tasks d')
    \<and> filter (\<lambda>m. mg_task_id m = tk_task_id row) (td_messages d') = filter (\<lambda>m. mg_task_id m = tk_task_id row) (td_messages d)"
proof
  obtain i where i: "i < length (td_tasks d)" "td_tasks d ! i = row"
    using assms(2) by (auto simp: in_set_conv_nth)
  then have "i < length (td_tasks d')" "td_tasks d' ! i = row"
    using assms(1,3) by (auto simp: touches_def list_all2_conv_all_nth)
  then show "row \<in> set (td_tasks d')" by auto
  show "filter (\<lambda>m. mg_task_id m = tk_task_id row) (td_messages d') = filter (\<lambda>m. mg_task_id m = tk_task_id row) (td_messages d)"
    using assms(1,3) by (auto simp: touches_def appended_for_def filter_empty_conv)
qed

section \<open>What a request does\<close>

definition signed_by_verified :: "world \<Rightarrow> tasks \<Rightarrow> string \<Rightarrow> bytes \<Rightarrow> string option \<Rightarrow> bool" where
  "signed_by_verified W d un raw x_signature \<longleftrightarrow>
     (\<exists>c hex pk sig. find_contact d un = Some c \<and> vc_fingerprint_verified_at c \<noteq> None \<and> vc_public_key c = Some hex
        \<and> fromhex hex = Some pk \<and> Option.bind x_signature fromhex = Some sig
        \<and> length pk = 32 \<and> c_ed_verify (w_crypto W) pk sig raw)"

lemma authenticate_sound:
  assumes "authenticate W x_signature un raw d = Inr (Inr c)"
  shows "signed_by_verified W d un raw x_signature" and "find_contact d un = Some c"
proof -
  from assms have "otruthy x_signature" by (auto simp: authenticate_def split: if_splits)
  then obtain xs where xs: "x_signature = Some xs" by (cases x_signature) (simp_all add: otruthy_def)
  from assms xs obtain sig where sig: "fromhex xs = Some sig"
    by (cases "fromhex xs") (simp_all add: authenticate_def split: if_splits)
  from assms xs sig obtain c' where c': "find_contact d un = Some c'"
    by (cases "find_contact d un") (simp_all add: authenticate_def split: if_splits)
  from assms xs sig c' have verified: "vc_fingerprint_verified_at c' \<noteq> None"
    by (auto simp add: authenticate_def split: if_splits)
  from assms xs sig c' verified obtain hex where hex: "vc_public_key c' = Some hex"
    by (cases "vc_public_key c'") (simp_all add: authenticate_def split: if_splits)
  from assms xs sig c' verified hex obtain pk where pk: "fromhex hex = Some pk"
    by (cases "fromhex hex") (simp_all add: authenticate_def split: if_splits)
  from assms xs sig c' verified hex pk have "verify_signature_v1 W pk raw sig" and c: "c' = c"
    by (simp_all add: authenticate_def split: if_splits)
  with xs sig c' verified hex pk show "signed_by_verified W d un raw x_signature"
    unfolding signed_by_verified_def verify_signature_v1_def
    by (intro exI [of _ c'] exI [of _ hex] exI [of _ pk] exI [of _ sig]) auto
  show "find_contact d un = Some c" using c c' by simp
qed

lemma find_contact_cong: "td_contacts d' = td_contacts d \<Longrightarrow> find_contact d' un = find_contact d un"
  by (simp add: find_contact_def)

lemma signed_by_verified_cong:
  "td_contacts d' = td_contacts d \<Longrightarrow> signed_by_verified W d' un raw s = signed_by_verified W d un raw s"
  by (simp add: signed_by_verified_def find_contact_def)

text \<open>A message is refused with at most the peer's identifier recorded, or it works on one open task.\<close>

lemma send_message_cases:
  assumes "process_send_message E path_id body raw sig d = (d', r)"
  obtains (refused) "task_contents d' = task_contents d" and "td_contacts d' = td_contacts d"
  | (accepted) d0 row where "task_contents d0 = task_contents d" and "td_contacts d0 = td_contacts d"
      and "row \<in> set (td_tasks d)" and "\<not> closed row"
      and "signed_by_verified (te_world E) d (sd_from_username body) raw sig"
      and "touches (tk_task_id row) 0 d0 d' \<and> td_sent d' = td_sent d0
        \<or> message_count (tk_task_id row) d0 < MAX_TASK_MESSAGES \<and> deliver_message E row body (the sig) d0 = (d', r)"
proof -
  obtain d0 x where located: "locate_task path_id (sd_origin_ref_id body) d = (d0, x)" by fastforce
  note same = locate_contents [OF located]
  show ?thesis
  proof (cases x)
    case None
    with assms located same show ?thesis by (intro refused) (auto simp: process_send_message_def)
  next
    case (Some row)
    show ?thesis
    proof (cases "closed row")
      case True
      with assms located Some same show ?thesis by (intro refused) (auto simp: process_send_message_def)
    next
      case False
      show ?thesis
      proof (cases "authenticate (te_world E) sig (sd_from_username body) raw d0")
        case (Inl e)
        with assms located Some False same show ?thesis by (intro refused) (auto simp: process_send_message_def)
      next
        case (Inr b)
        show ?thesis
        proof (cases b)
          case (Inl code)
          with Inr assms located Some False same show ?thesis by (intro refused) (auto simp: process_send_message_def)
        next
          case b: (Inr c)
          have signed: "signed_by_verified (te_world E) d (sd_from_username body) raw sig"
            using authenticate_sound(1) [OF Inr [unfolded b]] signed_by_verified_cong [OF same(2)] by simp
          have failed: "touches t 0 d0 (fail_task t result now (td_step d0))" for t result now
            unfolding fail_task_def by (rule touches_after [OF touches_step touches_update]) simp
          have sent: "td_sent (fail_task t result now (td_step d0)) = td_sent d0" for t result now
            by (simp add: fail_task_def update_task_def td_step_def)
          show ?thesis
            using assms located Some False Inr b signed failed sent same locate_member [OF located [unfolded Some]]
            by (intro accepted [of d0 row]) (auto simp: process_send_message_def split: if_splits option.splits)
        qed
      qed
    qed
  qed
qed

lemma selected_agent_backend:
  assumes "selected_agent loaded = Inr agent"
  shows "\<exists>b. get_agent_backend loaded name = Inr b"
  using assms by (auto simp: selected_agent_def get_agent_backend_def split: sum.splits if_splits option.split)

text \<open>A request for a task is refused and changes nothing, or it adds one row and works on that row.\<close>

lemma create_task_cases:
  assumes "process_create_task E body raw sig ref d = (d', r)"
  obtains (refused) "d' = d"
  | (accepted) c row d1 mt ctx hist now b where
      "signed_by_verified (te_world E) d (cr_requester_username body) raw sig"
      and "find_contact d (cr_requester_username body) = Some c"
      and "tk_task_id row \<notin> tk_task_id ` set (td_tasks d)"
      and "d1 = insert_message E (tk_task_id row) (cr_requester_username body) (cr_goal body) mt now (the sig)
                  (td_step (d\<lparr>td_tasks := td_tasks d @ [row]\<rparr>))"
      and "d' = fst (draft_reply E (tk_task_id row) b (cr_goal body) ctx hist (cr_requester_username body) (Some c)
                  (dget_default (cr_context body) ''message_type'' (PStr ''question'') = PStr ''question'') now d1)"
proof (cases "authenticate (te_world E) sig (cr_requester_username body) raw d")
  case (Inl e)
  with assms show ?thesis by (intro refused) (auto simp: process_create_task_def)
next
  case (Inr b)
  show ?thesis
  proof (cases b)
    case (Inl code)
    with Inr assms show ?thesis by (intro refused) (auto simp: process_create_task_def)
  next
    case b: (Inr c)
    note auth = authenticate_sound [OF Inr [unfolded b]]
    let ?W = "te_world E"
    let ?tid = "w_uuid ?W (td_tick d)"
    let ?mt = "dget_default (cr_context body) ''message_type'' (PStr ''question'')"
    let ?roster = "load_agent_roster (be_files (te_backend E))"
    obtain js pa mt sel where parts:
      "js = (if cr_context body = [] then Some ''{}'' else w_dumps_plain ?W (of_dict (cr_context body)))"
      "pa = sql_text ?W (dget (cr_context body) ''peer_agent_name'')" "mt = sql_text ?W ?mt" "sel = selected_agent ?roster"
      by simp
    note body_def = assms [unfolded process_create_task_def Let_def Inr b, simplified sum.case, folded parts]
    show ?thesis
    proof (cases "(\<exists>context_json peer mt' agent. js = Some context_json \<and> pa = Inr peer \<and> mt = Inr mt' \<and> sel = Inr agent)
        \<and> ?tid \<notin> tk_task_id ` set (td_tasks d)")
      case False
      then show ?thesis
        using body_def by (intro refused, cases js; cases pa; cases mt; cases sel) auto
    next
      case True
      then obtain context_json peer mt' agent where ok: "js = Some context_json" "pa = Inr peer" "mt = Inr mt'" "sel = Inr agent"
        and fresh: "?tid \<notin> tk_task_id ` set (td_tasks d)" by blast
      obtain bk where bk: "get_agent_backend ?roster agent = Inr bk"
        using selected_agent_backend [of ?roster agent] ok(4) parts(4) by auto
      let ?now = "now_iso E d"
      let ?row = "\<lparr>tk_task_id = ?tid, tk_contact_username = cr_requester_username body, tk_goal = cr_goal body,
        tk_context_json = context_json, tk_status = Some ''submitted'', tk_result_json = None, tk_draft_content = None,
        tk_draft_message_type = None, tk_agent_name = agent, tk_peer_agent_name = peer, tk_peer_task_id = None,
        tk_origin_ref_id = ref, tk_created_at = ?now, tk_updated_at = ?now\<rparr>"
      show ?thesis
        using body_def fresh unfolding ok
        by (intro accepted [OF auth, where row = ?row and mt = mt' and now = ?now and b = bk and ctx = "cr_context body"
              and hist = "[history_line (cr_requester_username body) (str_of ?W ?mt) (cr_goal body)]", OF _ refl])
          (simp_all add: bk split: prod.splits)
    qed
  qed
qed

section \<open>Where an automatic answer goes\<close>

definition answer_address :: "task_env \<Rightarrow> string \<Rightarrow> string option \<Rightarrow> string \<Rightarrow> bool" where
  "answer_address E un ep u \<longleftrightarrow> u = rstrip_path (te_relay_url E) @ ''/relay/mailbox/'' @ un
     \<or> (\<exists>e target. ep = Some e \<and> u = rstrip_path e @ ''/tasks/'' @ target @ ''/messages'')"

definition sent_only :: "(string \<Rightarrow> bool) \<Rightarrow> tasks \<Rightarrow> tasks \<Rightarrow> bool" where
  "sent_only P d d' \<longleftrightarrow> (\<exists>new. td_sent d' = td_sent d @ new \<and> (\<forall>x\<in>set new. P (fst x)))"

lemma sent_only_same: "td_sent d' = td_sent d \<Longrightarrow> sent_only P d d'"
  by (simp add: sent_only_def)

lemma sent_only_trans: "sent_only P a b \<Longrightarrow> sent_only P b c \<Longrightarrow> sent_only P a c"
  unfolding sent_only_def by fastforce

lemma sent_only_cong: "sent_only P a b \<Longrightarrow> td_sent a' = td_sent a \<Longrightarrow> td_sent b' = td_sent b \<Longrightarrow> sent_only P a' b'"
  by (simp add: sent_only_def)

lemma sent_frame [simp]:
  "td_sent (td_step d) = td_sent d" "td_sent (update_task tid f d) = td_sent d"
  "td_sent (insert_message E tid un content mt now sig d) = td_sent d"
  "td_sent (fail_task tid j now d) = td_sent d" "td_sent (set_draft tid c kind now d) = td_sent d"
  by (simp_all add: td_step_def update_task_def insert_message_def fail_task_def set_draft_def)

lemma relay_answer_sent: "sent_only (answer_address E un ep) d (fst (relay_answer E un x target payload sig d))"
  by (auto simp: relay_answer_def sent_only_def answer_address_def Let_def td_step_def split: option.split)

lemma transmit_answer_sent: "sent_only (answer_address E un ep) d (fst (transmit_answer E un ep x target payload sig d))"
proof (cases ep)
  case None
  then show ?thesis by (simp add: transmit_answer_def sent_only_same)
next
  case (Some e)
  let ?url = "rstrip_path e @ ''/tasks/'' @ target @ ''/messages''"
  let ?d1 = "td_step (d\<lparr>td_sent := td_sent d @ [(?url, PStr (hexdigest payload))]\<rparr>)"
  have "answer_address E un ep ?url"
    unfolding answer_address_def Some by blast
  then have first: "sent_only (answer_address E un ep) d ?d1"
    by (simp add: sent_only_def td_step_def)
  show ?thesis
    using first sent_only_trans [OF first relay_answer_sent] Some
    by (simp add: transmit_answer_def Let_def split: direct_reply.split)
qed

lemma auto_relay_sent:
  "sent_only (answer_address E un ep) d (fst (auto_relay_information_response E tid un ep x content d))"
proof -
  have "sent_only (answer_address E un ep) d d'"
    if "transmit_answer E un ep x target payload sig (td_step d) = (d1, r)" "td_sent d' = td_sent d1" for target payload sig d1 r d'
    using transmit_answer_sent [of E un ep "td_step d" x target payload sig] that by (simp add: sent_only_def)
  then show ?thesis
    unfolding auto_relay_information_response_def Let_def
    by (auto split: option.split sum.split prod.split simp: sent_only_same)
qed

lemma draft_reply_sent:
  "sent_only (\<lambda>u. auto_relay_allowed contact q ''answer'' \<and> answer_address E un (vc_endpoint (the contact)) u) d
     (fst (draft_reply E tid b goal ctx hist un contact q now d))"
proof -
  obtain n r where reply: "generate_response (te_backend E) b
      \<lparr>br_task_goal = goal, br_context = ctx, br_conversation_history = hist\<rparr> (td_tick d) = (n, r)" by fastforce
  show ?thesis
  proof (cases r)
    case (Inl e)
    with reply show ?thesis by (simp add: draft_reply_def Let_def sent_only_same)
  next
    case (Inr x)
    obtain content mt where x: "x = (content, mt)" by fastforce
    let ?d1 = "set_draft tid content mt now (d\<lparr>td_tick := n\<rparr>)"
    obtain d2 y where auto: "auto_relay_information_response E tid un (vc_endpoint (the contact))
        (vc_x25519_public_key (the contact)) content ?d1 = (d2, y)" by fastforce
    have out: "sent_only (answer_address E un (vc_endpoint (the contact))) ?d1 d2"
      using auto_relay_sent [of E un "vc_endpoint (the contact)" ?d1 tid "vc_x25519_public_key (the contact)" content]
      by (simp add: auto)
    show ?thesis
    proof (cases "auto_relay_allowed contact q mt")
      case False
      with reply Inr x show ?thesis by (simp add: draft_reply_def Let_def sent_only_same)
    next
      case True
      then have "auto_relay_allowed contact q ''answer''" by (auto simp: auto_relay_allowed_def)
      with out have "sent_only (\<lambda>u. auto_relay_allowed contact q ''answer'' \<and> answer_address E un (vc_endpoint (the contact)) u) d d2"
        by (simp add: sent_only_def)
      with reply Inr x True auto show ?thesis
        by (auto simp: draft_reply_def Let_def sent_only_def split: sum.split option.split)
    qed
  qed
qed

section \<open>Two verified contacts and two tasks\<close>

definition demo_key :: "string \<Rightarrow> string" where
  "demo_key digits = concat (replicate 32 digits)"

definition demo_v1_contact :: "string \<Rightarrow> string \<Rightarrow> string option \<Rightarrow> v1_contact" where
  "demo_v1_contact un digits level =
     \<lparr>vc_username = un, vc_public_key = Some (demo_key digits), vc_x25519_public_key = None, vc_endpoint = Some ''h'',
      vc_autonomy_level = level, vc_fingerprint_verified_at = Some ''t''\<rparr>"

definition demo_task :: "string \<Rightarrow> string \<Rightarrow> task_row" where
  "demo_task tid status =
     \<lparr>tk_task_id = tid, tk_contact_username = ''bob'', tk_goal = ''g'', tk_context_json = [], tk_status = Some status,
      tk_result_json = None, tk_draft_content = None, tk_draft_message_type = None, tk_agent_name = Some ''b'',
      tk_peer_agent_name = None, tk_peer_task_id = None, tk_origin_ref_id = None, tk_created_at = [], tk_updated_at = []\<rparr>"

definition demo_tasks :: tasks where
  "demo_tasks = \<lparr>td_identity = Some ''me'',
     td_contacts = [demo_v1_contact ''bob'' ''05'' (Some ''auto_relay_info''), demo_v1_contact ''eve'' ''06'' None],
     td_tasks = [demo_task ''open'' ''working'', demo_task ''shut'' ''completed''], td_messages = [], td_tick = 1, td_sent = []\<rparr>"

definition demo_task_env :: task_env where
  "demo_task_env = \<lparr>te_world = demo_light_world, te_backend = demo_backend\<lparr>be_files := Some (take 1 demo_agent_files)\<rparr>,
     te_private_key = Some [5], te_x25519_key = None, te_direct = (\<lambda>n u b. DirectStatus (PStr ''working'')),
     te_relay = (\<lambda>n u b. False), te_relay_url = [], te_error_text = error_name\<rparr>"

definition demo_send :: "string \<Rightarrow> string \<Rightarrow> string \<Rightarrow> string \<Rightarrow> task_request" where
  "demo_send un digits tid mt =
     SendMessage tid \<lparr>sd_from_username = un, sd_content = ''c'', sd_message_type = mt, sd_origin_ref_id = None\<rparr> [7]
       (Some (demo_key digits @ ''07''))"

definition demo_create :: task_request where
  "demo_create = CreateTask \<lparr>cr_goal = ''g'', cr_context = [], cr_requester_username = ''bob''\<rparr> [7] (Some (demo_key ''05'' @ ''07''))"

lemma demo_tasks_ok: "tasks_ok demo_tasks"
  by (simp add: tasks_ok_def demo_tasks_def demo_task_def message_count_def)

section \<open>Properties\<close>

lemma create_task_ok:
  assumes "process_create_task E body raw sig ref d = (d', r)" and ok: "tasks_ok d"
  shows "tasks_ok d' \<and> (\<forall>row\<in>set (td_tasks d). row \<in> set (td_tasks d')
    \<and> filter (\<lambda>m. mg_task_id m = tk_task_id row) (td_messages d') = filter (\<lambda>m. mg_task_id m = tk_task_id row) (td_messages d))"
  using assms(1)
proof (cases rule: create_task_cases)
  case refused
  then show ?thesis using ok by simp
next
  case (accepted c row d1 mt ctx hist now b)
  let ?d0 = "td_step (d\<lparr>td_tasks := td_tasks d @ [row]\<rparr>)"
  have d0: "td_tasks ?d0 = td_tasks d @ [row]" "td_messages ?d0 = td_messages d" by (simp_all add: td_step_def)
  have t: "touches (tk_task_id row) 2 ?d0 d'"
    unfolding accepted(4,5) using touches_trans [OF touches_insert draft_reply_touches] by (simp add: numeral_2_eq_2)
  have none: "filter (\<lambda>m. mg_task_id m = tk_task_id row) (td_messages d) = []"
    using ok accepted(3) unfolding tasks_ok_def filter_empty_conv by metis
  have ok0: "tasks_ok ?d0"
    using ok accepted(3) none unfolding tasks_ok_def message_count_def d0 by auto
  have "tasks_ok d'"
    using touches_ok [OF t ok0] none by (simp add: d0 message_count_def MAX_TASK_MESSAGES_def)
  moreover have "r' \<in> set (td_tasks d')
      \<and> filter (\<lambda>m. mg_task_id m = tk_task_id r') (td_messages d') = filter (\<lambda>m. mg_task_id m = tk_task_id r') (td_messages d)"
    if member: "r' \<in> set (td_tasks d)" for r'
  proof -
    have other: "tk_task_id r' \<noteq> tk_task_id row" using imageI [OF member, of tk_task_id] accepted(3) by metis
    show ?thesis
      using touches_keeps [OF t _ other] member by (simp add: d0)
  qed
  ultimately show ?thesis by blast
qed

lemma send_message_ok:
  assumes "process_send_message E path_id body raw sig d = (d', r)" and ok: "tasks_ok d"
  shows "tasks_ok d' \<and> (\<forall>row\<in>set (td_tasks d). closed row \<longrightarrow> (\<exists>row'\<in>set (td_tasks d'). forget_peer row' = forget_peer row)
    \<and> filter (\<lambda>m. mg_task_id m = tk_task_id row) (td_messages d') = filter (\<lambda>m. mg_task_id m = tk_task_id row) (td_messages d))"
  using assms(1)
proof (cases rule: send_message_cases)
  case refused
  then show ?thesis using contents_ok [OF refused(1) ok] contents_keep [OF refused(1)] by blast
next
  case (accepted d0 row)
  let ?tid = "tk_task_id row"
  have ok0: "tasks_ok d0" by (rule contents_ok [OF accepted(1) ok])
  have ids: "?tid \<in> tk_task_id ` set (td_tasks d0)"
    using accepted(3) contents_ids [OF accepted(1)] by (metis image_eqI list.set_map)
  obtain k where t: "touches ?tid k d0 d'" and k: "message_count ?tid d0 + k \<le> MAX_TASK_MESSAGES + 1"
    using accepted(6)
  proof
    assume "touches ?tid 0 d0 d' \<and> td_sent d' = td_sent d0"
    moreover have "message_count ?tid d0 \<le> MAX_TASK_MESSAGES + 1"
      using ok0 ids unfolding tasks_ok_def by (elim conjE) (rule bspec)
    ultimately show ?thesis using that [of 0] by simp
  next
    assume "message_count ?tid d0 < MAX_TASK_MESSAGES \<and> deliver_message E row body (the sig) d0 = (d', r)"
    then show ?thesis using that [of 2] deliver_message_touches [of row d0 E body "the sig"] by simp
  qed
  have "(\<exists>row'\<in>set (td_tasks d'). forget_peer row' = forget_peer r')
      \<and> filter (\<lambda>m. mg_task_id m = tk_task_id r') (td_messages d') = filter (\<lambda>m. mg_task_id m = tk_task_id r') (td_messages d)"
    if r': "r' \<in> set (td_tasks d)" "closed r'" for r'
  proof -
    have "tk_task_id r' \<noteq> ?tid"
      using r' accepted(3,4) ok unfolding tasks_ok_def by (metis distinct_map inj_on_def)
    moreover obtain r0 where r0: "r0 \<in> set (td_tasks d0)" "forget_peer r0 = forget_peer r'"
      and m0: "td_messages d0 = td_messages d"
      using contents_keep [OF accepted(1) r'(1)] accepted(1) by (auto simp: task_contents_def)
    moreover have "tk_task_id r0 = tk_task_id r'" using r0(2) by (metis forget_peer_id)
    ultimately show ?thesis using touches_keeps [OF t r0(1)] by auto
  qed
  then show ?thesis using touches_ok [OF t ok0 ids k] by blast
qed

definition kept :: "task_row \<Rightarrow> tasks \<Rightarrow> tasks \<Rightarrow> bool" where
  "kept row d d' \<longleftrightarrow> (\<exists>row'\<in>set (td_tasks d'). forget_peer row' = forget_peer row)
    \<and> filter (\<lambda>m. mg_task_id m = tk_task_id row) (td_messages d') = filter (\<lambda>m. mg_task_id m = tk_task_id row) (td_messages d)"

lemma handle_request_ok:
  assumes "tasks_ok d"
  shows "tasks_ok (fst (handle_request E q d))"
    and "row \<in> set (td_tasks d) \<Longrightarrow> closed row \<Longrightarrow> kept row d (fst (handle_request E q d))"
proof -
  have "tasks_ok (fst (handle_request E q d))
      \<and> (row \<in> set (td_tasks d) \<longrightarrow> closed row \<longrightarrow> kept row d (fst (handle_request E q d)))"
  proof (cases q)
    case (CreateTask body raw sig)
    obtain d' r where step: "process_create_task E body raw sig None d = (d', r)" by fastforce
    show ?thesis
      using create_task_ok [OF step assms] step CreateTask unfolding kept_def by auto
  next
    case (SendMessage path_id body raw sig)
    obtain d' r where step: "process_send_message E path_id body raw sig d = (d', r)" by fastforce
    show ?thesis
      using send_message_ok [OF step assms] step SendMessage unfolding kept_def by auto
  qed
  then show "tasks_ok (fst (handle_request E q d))"
    and "row \<in> set (td_tasks d) \<Longrightarrow> closed row \<Longrightarrow> kept row d (fst (handle_request E q d))" by blast+
qed

lemma create_task_sent:
  assumes "process_create_task E body raw sig ref d = (d', r)"
  defines "un \<equiv> cr_requester_username body" and "asks \<equiv> dget_default (cr_context body) ''message_type'' (PStr ''question'') = PStr ''question''"
  shows "sent_only (\<lambda>u. auto_relay_allowed (find_contact d un) asks ''answer''
    \<and> answer_address E un (vc_endpoint (the (find_contact d un))) u) d d'"
  using assms(1)
proof (cases rule: create_task_cases)
  case refused
  then show ?thesis by (simp add: sent_only_same)
next
  case (accepted c row d1 mt ctx hist now b)
  have "td_sent d = td_sent d1" unfolding accepted(4) by simp
  then show ?thesis
    unfolding accepted(2,5) un_def asks_def option.sel
    by (rule sent_only_cong [OF draft_reply_sent [of "Some c", unfolded option.sel] _ refl])
qed

lemma deliver_message_sent:
  defines "contact d row \<equiv> find_contact d (tk_contact_username row)"
  assumes "deliver_message E row body sig d = (d', r)"
  shows "sent_only (\<lambda>u. auto_relay_allowed (contact d row) (sd_message_type body = ''question'') ''answer''
    \<and> answer_address E (tk_contact_username row) (vc_endpoint (the (contact d row))) u) d d'"
proof (cases "td_sent d' = td_sent d")
  case True
  then show ?thesis by (rule sent_only_same)
next
  case False
  let ?tid = "tk_task_id row" and ?now = "now_iso E d"
  let ?d2 = "update_task ?tid (\<lambda>r. r\<lparr>tk_status := Some ''working'', tk_updated_at := ?now\<rparr>)
    (insert_message E ?tid (sd_from_username body) (sd_content body) (Some (sd_message_type body)) ?now sig (td_step d))"
  from False assms(2) obtain bk ctx st where reply: "draft_reply E ?tid bk (tk_goal row) ctx
      (task_history ?tid ?d2) (tk_contact_username row) (find_contact ?d2 (tk_contact_username row))
      (sd_message_type body = ''question'') ?now ?d2 = (d', st)"
    unfolding deliver_message_def Let_def by (auto split: if_splits option.splits prod.splits sum.splits)
  have "find_contact ?d2 un = find_contact d un" for un
    by (rule find_contact_cong) (simp add: update_task_def insert_message_def td_step_def)
  moreover have "td_sent ?d2 = td_sent d" by simp
  ultimately show ?thesis
    using draft_reply_sent [of "find_contact ?d2 (tk_contact_username row)" "sd_message_type body = ''question''" E
        "tk_contact_username row" ?d2 ?tid bk "tk_goal row" ctx "task_history ?tid ?d2" ?now]
    unfolding reply contact_def fst_conv by (simp add: sent_only_def)
qed

lemma allowed_answer:
  assumes "sent_only (\<lambda>u. auto_relay_allowed (find_contact d un) asks ''answer''
      \<and> answer_address E un (vc_endpoint (the (find_contact d un))) u) d d'"
    and "out \<in> set (drop (length (td_sent d)) (td_sent d'))"
  shows "asks \<and> (\<exists>c\<in>set (td_contacts d). vc_autonomy_level c = Some ''auto_relay_info''
    \<and> answer_address E (vc_username c) (vc_endpoint c) (fst out))"
proof -
  have allowed: "auto_relay_allowed (find_contact d un) asks ''answer''"
    and address: "answer_address E un (vc_endpoint (the (find_contact d un))) (fst out)"
    using assms unfolding sent_only_def by auto
  from allowed obtain c where c: "find_contact d un = Some c" "vc_autonomy_level c = Some ''auto_relay_info''" "asks"
    unfolding auto_relay_allowed_def by (cases "find_contact d un") simp_all
  moreover have "c \<in> set (td_contacts d)" "vc_username c = un"
    using c(1) by (auto simp: find_contact_def find_Some_iff)
  ultimately show ?thesis using address by auto
qed





text \<open>
  A closed task is final: whatever requests follow, the row of a task that was completed or failed
  keeps every column but the identifier the other node uses, and no message is added to it.
\<close>

theorem closed_task_final:
  assumes "tasks_ok d" and "row \<in> set (td_tasks d)" and "closed row"
  shows "(\<exists>row'\<in>set (td_tasks (task_run E qs d)). forget_peer row' = forget_peer row)
    \<and> filter (\<lambda>m. mg_task_id m = tk_task_id row) (td_messages (task_run E qs d))
      = filter (\<lambda>m. mg_task_id m = tk_task_id row) (td_messages d)"
  using assms
proof (induction qs arbitrary: d row)
  case (Cons q qs)
  let ?d' = "fst (handle_request E q d)"
  have ok: "tasks_ok ?d'" and kept: "kept row d ?d'"
    using handle_request_ok Cons.prems by blast+
  from kept obtain row' where row': "row' \<in> set (td_tasks ?d')" "forget_peer row' = forget_peer row"
    unfolding kept_def by blast
  have "tk_status (forget_peer row') = tk_status (forget_peer row)" "tk_task_id (forget_peer row') = tk_task_id (forget_peer row)"
    using row'(2) by simp_all
  then have same: "closed row'" "tk_task_id row' = tk_task_id row"
    using Cons.prems(3) by (simp_all add: forget_peer_def closed_def)
  show ?case
    using Cons.IH [OF ok row'(1) same(1)] kept row'(2) same(2) unfolding kept_def by simp
qed auto

theorem closed_task_final_witness:
  "closed (demo_task ''shut'' ''completed'')
    \<and> (\<exists>row'\<in>set (td_tasks (task_run demo_task_env [demo_send ''bob'' ''05'' ''shut'' ''question''] demo_tasks)).
        forget_peer row' = forget_peer (demo_task ''shut'' ''completed''))"
proof -
  have 1: "demo_task ''shut'' ''completed'' \<in> set (td_tasks demo_tasks)" "closed (demo_task ''shut'' ''completed'')"
    by (simp_all add: demo_tasks_def closed_def demo_task_def)
  show ?thesis using closed_task_final [OF demo_tasks_ok 1] 1(2) by blast
qed



section \<open>Behaviour worth knowing\<close>

text \<open>
  The signature is checked against the contact the body names, not against the contact of the task: any
  verified contact completes a task it has no part in.
\<close>

lemma foreign_contact_completes_task:
  "find_task demo_tasks ''open'' = Some (demo_task ''open'' ''working'') \<and> tk_contact_username (demo_task ''open'' ''working'') = ''bob''
    \<and> map_option tk_status (find_task (fst (handle_request demo_task_env (demo_send ''eve'' ''06'' ''open'' ''finalize_accept'') demo_tasks)) ''open'')
      = Some (Some ''completed'')"
  by code_simp

text \<open>The identifier the other node uses is recorded before the signature is looked at.\<close>

lemma peer_identifier_set_unsigned:
  "snd (process_send_message demo_task_env ''x'' \<lparr>sd_from_username = ''nobody'', sd_content = [], sd_message_type = ''answer'',
      sd_origin_ref_id = Some ''open''\<rparr> [] None demo_tasks) = Inr (401, PNone)
    \<and> map_option tk_peer_task_id (find_task (fst (process_send_message demo_task_env ''x'' \<lparr>sd_from_username = ''nobody'',
        sd_content = [], sd_message_type = ''answer'', sd_origin_ref_id = Some ''open''\<rparr> [] None demo_tasks)) ''open'')
      = Some (Some ''x'')"
  by code_simp

text \<open>The tenth message may be followed by an automatic answer: a task holds eleven messages.\<close>

definition demo_nine :: tasks where
  "demo_nine = demo_tasks\<lparr>td_messages := replicate 9 \<lparr>mg_message_id = [], mg_task_id = ''open'', mg_from_username = ''bob'',
     mg_content = [], mg_message_type = Some ''question'', mg_created_at = [], mg_signature = []\<rparr>\<rparr>"

lemma eleventh_message:
  "message_count ''open'' (fst (handle_request demo_task_env (demo_send ''bob'' ''05'' ''open'' ''question'') demo_nine)) = 11"
  by code_simp

end
