(* ===== verification/Kin_Delivery.thy ===== *)
theory Kin_Delivery
  imports Kin_Dispatch "HOL-Library.Sublist"
begin

text \<open>
  The background work of the transport layer in \<open>kin-node/kin/transport/v11.py\<close>: the sweep of the
  outbound queue with its exponential backoff (\<open>retry_outbound_queue\<close>), the relay inbox
  (\<open>poll_relay_and_process\<close>) and the synchronisation of peer cards (\<open>sync_peer_cards\<close>); and, as the
  sum of the transport layer, the commands of a node with the invariant they all keep.

  The headers and the raw content of a request are part of its logged body. A query without
  \<open>ORDER BY\<close> returns rows in the order of the table.
\<close>

section \<open>The outbound queue\<close>

definition update_queue :: "string \<Rightarrow> (queue_row \<Rightarrow> queue_row) \<Rightarrow> db \<Rightarrow> db" where
  "update_queue queue_id f d =
     d\<lparr>db_queue := map (\<lambda>q. if q_queue_id q = queue_id then f q else q) (db_queue d)\<rparr>"

text \<open>\<open>min(3600, 10 * (2 ** (new_attempts - 1)))\<close>.\<close>

definition backoff_seconds :: "int \<Rightarrow> int" where
  "backoff_seconds new_attempts = min 3600 (10 * 2 ^ nat (new_attempts - 1))"

text \<open>The rows that are due, each with the expiry of its session.\<close>

definition due_rows :: "world \<Rightarrow> int \<Rightarrow> db \<Rightarrow> (queue_row \<times> string option) list" where
  "due_rows W now d =
     concat (map (\<lambda>q. case find_session d (q_session_id q) of
                        None \<Rightarrow> []
                      | Some s \<Rightarrow> if q_delivery_state q = ''pending'' \<and> q_next_retry_at q \<le> iso_now W now
                                  then [(q, sr_expires_at s)] else [])
       (db_queue d))"

definition settle_row :: "world \<Rightarrow> int \<Rightarrow> string \<Rightarrow> string \<Rightarrow> db \<Rightarrow> db" where
  "settle_row W now queue_id state d =
     update_queue queue_id (\<lambda>q. q\<lparr>q_delivery_state := state, q_updated_at := iso_now W now\<rparr>) d"

definition note_error :: "world \<Rightarrow> int \<Rightarrow> string \<Rightarrow> string \<Rightarrow> db \<Rightarrow> db" where
  "note_error W now queue_id err d =
     update_queue queue_id (\<lambda>q. q\<lparr>q_last_error := Some err, q_updated_at := iso_now W now\<rparr>) d"

definition reschedule :: "world \<Rightarrow> int \<Rightarrow> int \<Rightarrow> queue_row \<Rightarrow> db \<Rightarrow> db" where
  "reschedule W now now_dt q d =
     (let new_attempts = q_attempt_count q + 1 in
      update_queue (q_queue_id q)
        (\<lambda>r. r\<lparr>q_attempt_count := new_attempts,
              q_next_retry_at := z_timestamp W (now_dt + backoff_seconds new_attempts * 1000000),
              q_updated_at := iso_now W now\<rparr>) d)"

text \<open>The direct attempt: \<open>Refused\<close> is the \<open>continue\<close> after a client error.\<close>

definition retry_post ::
  "world \<Rightarrow> bytes \<Rightarrow> int \<Rightarrow> queue_row \<Rightarrow> string option \<Rightarrow> pyval \<Rightarrow> db \<Rightarrow> db \<times> attempt result" where
  "retry_post W vault_key now q endpoint env d =
     (if \<not> otruthy endpoint then (d, Inr NotDelivered)
      else case post_session W (the endpoint) env d of
        (RequestError e, d1) \<Rightarrow> (note_error W now (q_queue_id q) e d1, Inr NotDelivered)
      | (HttpResponse code js body, d1) \<Rightarrow>
          if code = 200
          then then_do (apply_node_command_transition W vault_key (q_session_id q) ''mark_delivered'' now
                          (settle_row W now (q_queue_id q) ''delivered'' d1))
                 (\<lambda>_ d. (d, Inr Delivered))
          else if 400 \<le> code \<and> code < 500
          then then_do (apply_node_command_transition W vault_key (q_session_id q) ''mark_failed'' now
                          (update_queue (q_queue_id q)
                             (\<lambda>r. r\<lparr>q_delivery_state := ''failed'', q_last_error := Some body,
                                   q_updated_at := iso_now W now\<rparr>) d1))
                 (\<lambda>_ d. (d, Inr Refused))
          else (d1, Inr NotDelivered))"

text \<open>The relay attempt, which needs the owner's name and key and the recipient's key.\<close>

definition retry_relay ::
  "world \<Rightarrow> int \<Rightarrow> queue_row \<Rightarrow> string option \<Rightarrow> bytes option \<Rightarrow> string option \<Rightarrow> bytes option \<Rightarrow> pyval \<Rightarrow> db
   \<Rightarrow> db \<times> bool result" where
  "retry_relay W now q owner_username owner_priv relay_url recipient_pub env d =
     (if otruthy relay_url \<and> otruthy owner_username \<and> has_bytes owner_priv \<and> has_bytes recipient_pub
      then then_do (relay_envelope W (the relay_url) (q_recipient_username q) (PStr (the owner_username))
                      (the owner_priv) (the recipient_pub) env d) (\<lambda>r d.
             case r of
               RequestError e \<Rightarrow> (note_error W now (q_queue_id q) e d, Inr False)
             | HttpResponse code js body \<Rightarrow>
                 if code = 200 then (settle_row W now (q_queue_id q) ''relayed'' d, Inr True)
                 else (d, Inr False))
      else (d, Inr False))"

text \<open>One row of the sweep: \<open>Some True\<close> counts as delivered, \<open>Some False\<close> as failed.\<close>

definition retry_send ::
  "world \<Rightarrow> bytes \<Rightarrow> int \<Rightarrow> int \<Rightarrow> string option \<Rightarrow> bytes option \<Rightarrow> string option \<Rightarrow> queue_row \<Rightarrow> db
   \<Rightarrow> db \<times> bool option result" where
  "retry_send W vault_key now now_dt owner_username owner_priv relay_url q d =
     (case decrypt_field W vault_key (Some (q_envelope_json_enc q)) of
        Inl e \<Rightarrow> (d, Inl e)
      | Inr dec_json \<Rightarrow>
        (case Option.bind dec_json (w_loads W) of
           None \<Rightarrow> (d, Inl ValueError)
         | Some env \<Rightarrow>
           (case resolve_peer_contact_info (q_recipient_username q) d of
              Inl e \<Rightarrow> (d, Inl e)
            | Inr (endpoint, recipient_pub, _) \<Rightarrow>
                then_do (retry_post W vault_key now q endpoint env d) (\<lambda>a d.
                  case a of
                    Refused \<Rightarrow> (d, Inr (Some False))
                  | Delivered \<Rightarrow> (d, Inr (Some True))
                  | NotDelivered \<Rightarrow>
                      then_do (retry_relay W now q owner_username owner_priv relay_url recipient_pub env d)
                        (\<lambda>relayed d. if relayed then (d, Inr (Some True))
                                    else (reschedule W now now_dt q d, Inr None))))))"

definition retry_row ::
  "world \<Rightarrow> bytes \<Rightarrow> int \<Rightarrow> int \<Rightarrow> string option \<Rightarrow> bytes option \<Rightarrow> string option \<Rightarrow> queue_row \<times> string option
   \<Rightarrow> db \<Rightarrow> db \<times> bool option result" where
  "retry_row W vault_key now now_dt owner_username owner_priv relay_url row d =
     (let (q, exp_str) = row;
          send = retry_send W vault_key now now_dt owner_username owner_priv relay_url q d
      in if (case find_session d (q_session_id q) of
               None \<Rightarrow> False | Some s \<Rightarrow> sr_status s \<in> set TERMINAL_STATES)
         then (settle_row W now (q_queue_id q) ''abandoned'' d, Inr None)
         else if \<not> otruthy exp_str then send
         else case parse_iso_z W (the exp_str) of
           None \<Rightarrow> (d, Inl ValueError)
         | Some exp_dt \<Rightarrow>
             if now_dt \<ge> exp_dt
             then then_do (apply_node_command_transition W vault_key (q_session_id q) ''mark_expired'' now
                             (settle_row W now (q_queue_id q) ''expired'' d)) (\<lambda>_ d. (d, Inr None))
             else send)"

text \<open>The loop over the rows, counting the delivered and the failed ones.\<close>

fun retry_rows ::
  "(queue_row \<times> string option \<Rightarrow> db \<Rightarrow> db \<times> bool option result) \<Rightarrow> (queue_row \<times> string option) list \<Rightarrow> int \<times> int
   \<Rightarrow> db \<Rightarrow> db \<times> (int \<times> int) result" where
  "retry_rows step [] counts d = (d, Inr counts)"
| "retry_rows step (row # rows) (delivered, failed) d =
     then_do (step row d) (\<lambda>outcome d.
       retry_rows step rows
         (case outcome of None \<Rightarrow> (delivered, failed)
          | Some b \<Rightarrow> if b then (delivered + 1, failed) else (delivered, failed + 1)) d)"

definition retry_outbound_queue ::
  "world \<Rightarrow> bytes \<Rightarrow> int \<Rightarrow> string option \<Rightarrow> bytes option \<Rightarrow> string option \<Rightarrow> db \<Rightarrow> db \<times> (int \<times> int) result" where
  "retry_outbound_queue W vault_key now owner_username owner_priv relay_url d =
     (case parse_iso_z W (iso_now W now) of
        None \<Rightarrow> (d, Inl ValueError)
      | Some now_dt \<Rightarrow>
          retry_rows (retry_row W vault_key now now_dt owner_username owner_priv relay_url)
            (due_rows W now d) (0, 0) d)"

section \<open>The relay inbox\<close>

definition relay_auth_headers ::
  "world \<Rightarrow> string \<Rightarrow> bytes \<Rightarrow> int \<Rightarrow> string option \<Rightarrow> (string \<times> string) list" where
  "relay_auth_headers W username private_key now acknowledgement_body =
     (let timestamp = iso_now W now;
          canonical = username @ '':'' @ timestamp
            @ (case acknowledgement_body of None \<Rightarrow> [] | Some b \<Rightarrow> '':'' @ b)
      in [(''X-Username'', username), (''X-Timestamp'', timestamp),
          (''X-Signature'', hexdigest (c_ed_sign (w_crypto W) private_key (utf8_encode canonical)))])"

definition headers_value :: "(string \<times> string) list \<Rightarrow> pyval" where
  "headers_value hs = of_dict (map (\<lambda>(h, v). (h, PStr v)) hs)"

text \<open>\<open>for x in v\<close> over a value read from JSON.\<close>

definition iterate_value :: "pyval \<Rightarrow> pyval list result" where
  "iterate_value v =
     (case v of
        PList vs \<Rightarrow> Inr vs
      | PDict kvs \<Rightarrow> Inr (map fst kvs)
      | PStr s \<Rightarrow> Inr (map (\<lambda>ch. PStr [ch]) s)
      | _ \<Rightarrow> Inl TypeError)"

text \<open>\<open>data.get(k, [])\<close> on a parsed response.\<close>

definition response_list :: "pyval option \<Rightarrow> string \<Rightarrow> pyval list result" where
  "response_list js k =
     (case js of
        None \<Rightarrow> Inl ValueError
      | Some v \<Rightarrow>
          (case as_str_dict v of
             None \<Rightarrow> Inl (AppError ''AttributeError'')
           | Some m \<Rightarrow> iterate_value (dget_default m k (PList []))))"

definition resolve_param ::
  "world \<Rightarrow> pyval \<Rightarrow> db \<Rightarrow> (string option \<times> bytes option \<times> bytes option) result" where
  "resolve_param W v d =
     (case sql_text W v of
        Inl e \<Rightarrow> Inl e
      | Inr None \<Rightarrow> Inr (None, None, None)
      | Inr (Some s) \<Rightarrow> resolve_peer_contact_info s d)"

text \<open>
  The envelope in a message: \<open>None\<close> when the sender has no key on file, which skips the message.
\<close>

definition open_message :: "world \<Rightarrow> bytes \<Rightarrow> pydict \<Rightarrow> db \<Rightarrow> pyval option result" where
  "open_message W my_priv m d =
     (case dget_default m ''encrypted_blob'' (PStr []) of
        PStr hex \<Rightarrow>
          (case fromhex hex of
             None \<Rightarrow> Inl ValueError
           | Some cipher_bytes \<Rightarrow>
             (case resolve_param W (dget m ''sender_username'') d of
                Inl e \<Rightarrow> Inl e
              | Inr (_, sender_x, _) \<Rightarrow>
                  if \<not> has_bytes sender_x then Inr None
                  else (case decrypt_from_sender W my_priv (the sender_x) cipher_bytes of
                          Inl e \<Rightarrow> Inl e
                        | Inr dec_bytes \<Rightarrow>
                            (case Option.bind (utf8_decode dec_bytes) (w_loads W) of
                               None \<Rightarrow> Inl ValueError
                             | Some v \<Rightarrow> Inr (Some v)))))
      | _ \<Rightarrow> Inl TypeError)"

definition ack_message ::
  "world \<Rightarrow> string \<Rightarrow> bytes \<Rightarrow> string \<Rightarrow> pyval \<Rightarrow> int \<Rightarrow> db \<Rightarrow> db \<times> bool result" where
  "ack_message W me my_private_key relay_url msg_id now d =
     (case w_dumps_tight W (of_dict [(''message_ids'', PList [msg_id])]) of
        None \<Rightarrow> (d, Inl TypeError)
      | Some ack_body \<Rightarrow>
          (case http_call W ''POST'' (strip_slash relay_url @ ''/relay/inbox/ack'')
                  (of_dict [(''content'', PStr ack_body),
                            (''headers'', headers_value ((''Content-Type'', ''application/json'') #
                               relay_auth_headers W me my_private_key now (Some ack_body)))]) d of
             (RequestError e, d1) \<Rightarrow> (d1, Inl (AppError ''RequestError''))
           | (HttpResponse code js body, d1) \<Rightarrow> (d1, Inr (code = 200))))"

text \<open>The body of the \<open>try\<close>: whether the message was processed and acknowledged.\<close>

definition process_message ::
  "world \<Rightarrow> bytes \<Rightarrow> string \<Rightarrow> bytes \<Rightarrow> bytes \<Rightarrow> string \<Rightarrow> (string \<Rightarrow> bytes option) \<Rightarrow> int \<Rightarrow> pydict \<Rightarrow> db
   \<Rightarrow> db \<times> bool result" where
  "process_message W vault_key me my_private_key my_priv relay_url get_pk now m d =
     (case open_message W my_priv m d of
        Inl e \<Rightarrow> (d, Inl e)
      | Inr None \<Rightarrow> (d, Inr False)
      | Inr (Some v) \<Rightarrow>
          (case as_str_dict v of
             None \<Rightarrow> (d, Inl (AppError ''AttributeError''))
           | Some env \<Rightarrow>
               then_do (ingest_envelope W vault_key env get_pk now None None None d) (\<lambda>ack d.
                 if ta_status ack \<in> set [''delivered'', ''queued'']
                 then ack_message W me my_private_key relay_url (dget m ''message_id'') now d
                 else (d, Inr False))))"

fun poll_messages ::
  "world \<Rightarrow> bytes \<Rightarrow> (pydict \<Rightarrow> db \<Rightarrow> db \<times> bool result) \<Rightarrow> pyval list \<Rightarrow> int \<Rightarrow> db \<Rightarrow> db \<times> int result" where
  "poll_messages W vault_key process [] processed_count d = (d, Inr processed_count)"
| "poll_messages W vault_key process (msg # msgs) processed_count d =
     (case as_str_dict msg of
        None \<Rightarrow> (d, Inl (AppError ''AttributeError''))
      | Some m \<Rightarrow>
          (case process m d of
             (d1, Inr b) \<Rightarrow>
               poll_messages W vault_key process msgs (if b then processed_count + 1 else processed_count) d1
           | (d1, Inl e) \<Rightarrow>
               then_do (write_audit_event W vault_key ''relay_poll_error'' None None PNone None d1) (\<lambda>_ d.
                 poll_messages W vault_key process msgs processed_count d)))"

definition poll_relay_and_process ::
  "world \<Rightarrow> bytes \<Rightarrow> string \<Rightarrow> bytes \<Rightarrow> bytes \<Rightarrow> string \<Rightarrow> (string \<Rightarrow> bytes option) \<Rightarrow> int \<Rightarrow> db
   \<Rightarrow> db \<times> int result" where
  "poll_relay_and_process W vault_key me my_private_key my_priv relay_url get_pk now d =
     (case http_call W ''GET'' (strip_slash relay_url @ ''/relay/inbox'')
             (of_dict [(''headers'', headers_value (relay_auth_headers W me my_private_key now None))]) d of
        (RequestError e, d1) \<Rightarrow> (d1, Inl (AppError ''RequestError''))
      | (HttpResponse code js body, d1) \<Rightarrow>
          if code \<noteq> 200 then (d1, Inr 0)
          else (case response_list js ''messages'' of
                  Inl e \<Rightarrow> (d1, Inl e)
                | Inr msgs \<Rightarrow>
                    poll_messages W vault_key
                      (process_message W vault_key me my_private_key my_priv relay_url get_pk now)
                      msgs 0 d1))"

section \<open>Peer cards\<close>

fun cache_cards :: "world \<Rightarrow> string \<Rightarrow> pyval list \<Rightarrow> db \<Rightarrow> db \<times> unit result" where
  "cache_cards W peer_username [] d = (d, Inr ())"
| "cache_cards W peer_username (c # cs) d =
     (case c of
        PDict kvs \<Rightarrow>
          (case Option.bind (as_str_dict c) (published_card_validate (w_crypto W)) of
             None \<Rightarrow> (d, Inl ValidationError)
           | Some card_obj \<Rightarrow>
               then_do (cache_peer_card W peer_username card_obj d) (\<lambda>_ d. cache_cards W peer_username cs d))
      | _ \<Rightarrow> (d, Inl (AppError ''AttributeError'')))"

definition cached_cards :: "world \<Rightarrow> string \<Rightarrow> db \<Rightarrow> pyval list result" where
  "cached_cards W peer_username d =
     (case those (map (\<lambda>r. w_loads W (pc_card_json r))
             (filter (\<lambda>r. pc_peer_username r = peer_username) (db_peer_cards d))) of
        None \<Rightarrow> Inl ValueError
      | Some vs \<Rightarrow> Inr vs)"

definition sync_peer_cards ::
  "world \<Rightarrow> string \<Rightarrow> bytes \<Rightarrow> string \<Rightarrow> string \<Rightarrow> int \<Rightarrow> db \<Rightarrow> db \<times> (string \<times> pyval list) result" where
  "sync_peer_cards W me my_private_key peer_username peer_endpoint now d =
     (let fallback = (\<lambda>d. (d, case cached_cards W peer_username d of
                                 Inl e \<Rightarrow> Inl e | Inr cards \<Rightarrow> Inr (''cache_fallback'', cards)))
      in case http_call W ''GET'' (strip_slash peer_endpoint @ ''/v1.1/agents/cards'')
                (of_dict [(''headers'', headers_value (create_signed_auth_headers W me my_private_key now))]) d of
           (RequestError e, d1) \<Rightarrow> fallback d1
         | (HttpResponse code js body, d1) \<Rightarrow>
             if code \<noteq> 200 then fallback d1
             else (case response_list js ''cards'' of
                     Inl e \<Rightarrow> (d1, Inl e)
                   | Inr cards \<Rightarrow>
                       then_do (cache_cards W peer_username cards d1) (\<lambda>_ d. (d, Inr (''network'', cards)))))"

section \<open>Every background task is a node operation\<close>

lemma quiet_update_queue: "quiet d (update_queue qid f d)"
  by (simp add: quiet_def update_queue_def)

lemma quiet_rows [simp]:
  "quiet d (settle_row W now qid st d)" "quiet d (note_error W now qid err d)" "quiet d (reschedule W now t q d)"
  by (simp_all add: settle_row_def note_error_def reschedule_def Let_def quiet_update_queue)

lemma progress_mark_after:
  assumes "quiet d d1"
  shows "progress d (fst (then_do (apply_node_command_transition W k sid c now d1) (\<lambda>_ d. (d, Inr x))))"
  using progress_trans [OF quiet_progress [OF assms] progress_node_command]
  by (rule progress_then_do) simp

lemma progress_retry_post: "progress d (fst (retry_post W k now q ep env d))"
proof -
  obtain r d1 where r: "post_session W (the ep) env d = (r, d1)" by force
  then have d1: "quiet d d1" using quiet_post [of d] by (metis snd_conv)
  have q: "quiet d (settle_row W now qid st d1)" "quiet d (note_error W now qid err d1)"
      "quiet d (update_queue qid f d1)" for qid st err f
    using quiet_trans [OF d1] quiet_rows quiet_update_queue by blast+
  show ?thesis
  proof (cases r)
    case (HttpResponse code js body)
    then show ?thesis
      by (auto simp: retry_post_def r d1 quiet_progress intro!: progress_mark_after q)
  qed (simp add: retry_post_def r quiet_progress q)
qed

lemma quiet_retry_relay: "quiet d (fst (retry_relay W now q un priv ru pk env d))"
proof (cases "otruthy ru \<and> otruthy un \<and> has_bytes priv \<and> has_bytes pk")
  case True
  then show ?thesis
    unfolding retry_relay_def
    by (auto intro!: quiet_then_do quiet_relay split: http_reply.split)
next
  case False
  then show ?thesis by (auto simp: retry_relay_def)
qed

lemma progress_retry_send: "progress d (fst (retry_send W k now t un priv ru q d))"
  unfolding retry_send_def
  by (auto intro!: progress_then_do progress_retry_post quiet_retry_relay [THEN quiet_progress]
      quiet_rows [THEN quiet_progress] split: sum.split option.split attempt.split)

lemma progress_retry_row: "progress d (fst (retry_row W k now t un priv ru row d))"
proof (cases row)
  case (Pair q exp_str)
  then show ?thesis
    by (auto simp: retry_row_def Let_def progress_retry_send intro!: quiet_rows [THEN quiet_progress]
        progress_mark_after [OF quiet_rows(1)] split: option.split)
qed

lemma progress_retry_rows:
  assumes "\<And>row d. progress d (fst (step row d))"
  shows "progress d (fst (retry_rows step rows counts d))"
proof (induction rows arbitrary: counts d)
  case (Cons row rows)
  obtain x y where "counts = (x, y)" by force
  then show ?case by (simp add: progress_then_do [OF assms] Cons)
qed simp

lemma progress_retry: "progress d (fst (retry_outbound_queue W k now un priv ru d))"
  unfolding retry_outbound_queue_def
  by (simp add: progress_retry_rows progress_retry_row split: option.split)

lemma quiet_ack_message: "quiet d (fst (ack_message W me sk url mid now d))"
proof (cases "w_dumps_tight W (of_dict [(''message_ids'', PList [mid])])")
  case (Some body)
  let ?b = "of_dict [(''content'', PStr body), (''headers'', headers_value ((''Content-Type'', ''application/json'') #
      relay_auth_headers W me sk now (Some body)))]"
  obtain r d1 where r: "http_call W ''POST'' (strip_slash url @ ''/relay/inbox/ack'') ?b d = (r, d1)" by force
  then have "quiet d d1" using quiet_http [of d] by (metis snd_conv)
  with Some r show ?thesis by (cases r) (simp_all add: ack_message_def)
qed (simp add: ack_message_def)

lemma progress_process_message:
  "progress d (fst (process_message W k me sk priv url get_pk now m d))"
  unfolding process_message_def
  by (auto intro!: progress_then_do progress_envelope quiet_ack_message [THEN quiet_progress]
      split: sum.split option.split)

lemma progress_poll_messages:
  assumes "\<And>m d. progress d (fst (process m d))"
  shows "progress d (fst (poll_messages W k process msgs n d))"
proof (induction msgs arbitrary: n d)
  case (Cons msg msgs)
  show ?case
  proof (cases "as_str_dict msg")
    case (Some m)
    obtain d1 r where p: "process m d = (d1, r)" by force
    then have d1: "progress d d1" using assms [of d m] by simp
    show ?thesis
    proof (cases r)
      case (Inl e)
      then show ?thesis
        by (simp add: Some p progress_trans [OF d1 progress_then_do [OF progress_audit]] Cons)
    next
      case (Inr b)
      then show ?thesis by (simp add: Some p progress_trans [OF d1 Cons])
    qed
  qed simp
qed simp

lemma progress_poll: "progress d (fst (poll_relay_and_process W k me sk priv url get_pk now d))"
proof -
  obtain r d1 where r: "http_call W ''GET'' (strip_slash url @ ''/relay/inbox'')
      (of_dict [(''headers'', headers_value (relay_auth_headers W me sk now None))]) d = (r, d1)" by force
  then have d1: "progress d d1" using quiet_progress [OF quiet_http [of d]] by (metis snd_conv)
  then show ?thesis
    by (cases r) (auto simp: poll_relay_and_process_def r intro!: progress_trans [OF d1 progress_poll_messages]
        progress_process_message split: sum.split)
qed

lemma quiet_cache_card: "quiet d (fst (cache_peer_card W peer pc d))"
  by (auto simp: cache_peer_card_def update_peer_card_def quiet_def Let_def split: sum.split option.split)

lemma quiet_cache_cards: "quiet d (fst (cache_cards W peer cs d))"
  by (induction cs arbitrary: d) (auto intro!: quiet_then_do quiet_cache_card split: pyval.split option.split)

lemma quiet_sync: "quiet d (fst (sync_peer_cards W me sk peer ep now d))"
proof -
  obtain r d1 where r: "http_call W ''GET'' (strip_slash ep @ ''/v1.1/agents/cards'')
      (of_dict [(''headers'', headers_value (create_signed_auth_headers W me sk now))]) d = (r, d1)" by force
  then have d1: "quiet d d1" using quiet_http [of d] by (metis snd_conv)
  have "quiet d (fst (then_do (cache_cards W peer cs d1) (\<lambda>_ d. (d, Inr (s, cs)))))" for cs and s :: string
    by (rule quiet_trans [OF d1 quiet_then_do [OF quiet_cache_cards]]) simp
  with d1 show ?thesis
    by (cases r) (simp_all add: sync_peer_cards_def r Let_def split: sum.split)
qed

section \<open>The fate of a queued row\<close>

text \<open>The rows under one identifier are rewritten, all others kept.\<close>

definition row_step :: "string \<Rightarrow> (queue_row \<Rightarrow> queue_row \<Rightarrow> bool) \<Rightarrow> db \<Rightarrow> db \<Rightarrow> bool" where
  "row_step qid R d d' =
     (\<exists>f. db_queue d' = map (\<lambda>r. if q_queue_id r = qid then f r else r) (db_queue d) \<and> (\<forall>r. R r (f r)))"

text \<open>A row without its error note and time of change.\<close>

definition unnote :: "queue_row \<Rightarrow> queue_row" where
  "unnote r = r\<lparr>q_last_error := None, q_updated_at := []\<rparr>"

definition noted :: "queue_row \<Rightarrow> queue_row \<Rightarrow> bool" where
  "noted r r' = (unnote r' = unnote r)"

definition settled :: "string \<Rightarrow> queue_row \<Rightarrow> queue_row \<Rightarrow> bool" where
  "settled st r r' = (unnote r' = (unnote r)\<lparr>q_delivery_state := st\<rparr>)"

definition postponed :: "world \<Rightarrow> int \<Rightarrow> queue_row \<Rightarrow> queue_row \<Rightarrow> queue_row \<Rightarrow> bool" where
  "postponed W now_dt q r r' =
     (unnote r' = (unnote r)\<lparr>q_attempt_count := q_attempt_count q + 1,
        q_next_retry_at := z_timestamp W (now_dt + backoff_seconds (q_attempt_count q + 1) * 1000000)\<rparr>)"

definition fate :: "world \<Rightarrow> int \<Rightarrow> queue_row \<Rightarrow> bool option \<Rightarrow> queue_row \<Rightarrow> queue_row \<Rightarrow> bool" where
  "fate W now_dt q outcome r r' =
     ((outcome = Some True \<and> (settled ''delivered'' r r' \<or> settled ''relayed'' r r'))
      \<or> (outcome = Some False \<and> settled ''failed'' r r')
      \<or> (outcome = None \<and> (settled ''abandoned'' r r' \<or> settled ''expired'' r r' \<or> postponed W now_dt q r r')))"

lemma row_step_mono: "row_step qid R d d' \<Longrightarrow> (\<And>r r'. R r r' \<Longrightarrow> S r r') \<Longrightarrow> row_step qid S d d'"
  by (auto simp: row_step_def)

lemma row_step_cong: "db_queue d1 = db_queue d \<Longrightarrow> db_queue d1' = db_queue d' \<Longrightarrow> row_step qid R d1 d1' = row_step qid R d d'"
  by (simp add: row_step_def)

lemma row_step_refl: "(\<And>r. R r r) \<Longrightarrow> db_queue d' = db_queue d \<Longrightarrow> row_step qid R d d'"
  unfolding row_step_def by (rule exI [of _ "\<lambda>r. r"]) simp

lemma row_step_update: "(\<And>r. R r (f r)) \<Longrightarrow> row_step qid R d (update_queue qid f d)"
  by (auto simp: row_step_def update_queue_def)

lemma unnote_simps [simp]:
  "q_queue_id (unnote r) = q_queue_id r" "q_session_id (unnote r) = q_session_id r"
  "q_sequence (unnote r) = q_sequence r" "q_recipient_username (unnote r) = q_recipient_username r"
  "q_envelope_json_enc (unnote r) = q_envelope_json_enc r" "q_delivery_state (unnote r) = q_delivery_state r"
  "q_attempt_count (unnote r) = q_attempt_count r" "q_next_retry_at (unnote r) = q_next_retry_at r"
  by (simp_all add: unnote_def)

lemma row_step_compose:
  assumes "row_step qid noted a b" and "row_step qid S b c" and "\<And>r s t. noted r s \<Longrightarrow> S s t \<Longrightarrow> S r t"
  shows "row_step qid S a c"
proof -
  obtain f where f: "db_queue b = map (\<lambda>r. if q_queue_id r = qid then f r else r) (db_queue a)" "\<forall>r. noted r (f r)"
    using assms(1) unfolding row_step_def by blast
  obtain g where g: "db_queue c = map (\<lambda>r. if q_queue_id r = qid then g r else r) (db_queue b)" "\<forall>r. S r (g r)"
    using assms(2) unfolding row_step_def by blast
  have "q_queue_id (f r) = q_queue_id r" for r
    using f(2) [rule_format, of r] by (metis noted_def unnote_simps(1))
  then have "db_queue c = map (\<lambda>r. if q_queue_id r = qid then (g \<circ> f) r else r) (db_queue a)"
    using f(1) g(1) by (auto simp: comp_def)
  moreover have "S r ((g \<circ> f) r)" for r
    unfolding comp_apply by (rule assms(3) [OF f(2) [rule_format] g(2) [rule_format]])
  ultimately show ?thesis unfolding row_step_def by blast
qed

lemma noted_refl [simp]: "noted r r"
  by (simp add: noted_def)

lemma noted_then:
  "noted r s \<Longrightarrow> noted s t \<Longrightarrow> noted r t"
  "noted r s \<Longrightarrow> settled st s t \<Longrightarrow> settled st r t"
  "noted r s \<Longrightarrow> postponed W n q s t \<Longrightarrow> postponed W n q r t"
  by (simp_all add: noted_def settled_def postponed_def)

lemma row_step_rows:
  "row_step qid (settled st) d (settle_row W now qid st d)"
  "row_step qid noted d (note_error W now qid err d)"
  "row_step (q_queue_id q) (postponed W t q) d (reschedule W now t q d)"
  unfolding settle_row_def note_error_def reschedule_def Let_def
  by (rule row_step_update, simp add: settled_def noted_def postponed_def unnote_def)+

lemma queue_after_node:
  "apply_node_command_transition W k sid c now d = (d', r) \<Longrightarrow> db_queue d' = db_queue d"
  by (rule wire_kept)

lemma row_step_mark:
  assumes "then_do (apply_node_command_transition W k sid c now d1) (\<lambda>_ d. (d, Inr y)) = (d', Inr x)"
    and "row_step qid R d d1"
  shows "row_step qid R d d' \<and> x = y"
  using assms by (auto elim!: then_do_Inr dest!: queue_after_node simp: row_step_def)

lemma queue_after_http: "http_call W v u b d = (r, d') \<Longrightarrow> db_queue d' = db_queue d"
  by (auto simp: http_call_def)

lemma retry_post_row:
  assumes "retry_post W k now q ep env d = (d', Inr a)"
  shows "row_step (q_queue_id q)
    (case a of Delivered \<Rightarrow> settled ''delivered'' | Refused \<Rightarrow> settled ''failed'' | NotDelivered \<Rightarrow> noted) d d'"
proof (cases "otruthy ep")
  case True
  obtain r d1 where r: "post_session W (the ep) env d = (r, d1)" by force
  then have d1: "db_queue d1 = db_queue d" by (auto simp: post_session_def dest: queue_after_http)
  have s: "row_step (q_queue_id q) (settled st) d (settle_row W now (q_queue_id q) st d1)" for st
    using row_step_rows(1) row_step_cong [OF d1 refl] by blast
  have n: "row_step (q_queue_id q) noted d (note_error W now (q_queue_id q) e d1)" for e
    using row_step_rows(2) row_step_cong [OF d1 refl] by blast
  have f: "row_step (q_queue_id q) (settled ''failed'') d (update_queue (q_queue_id q)
      (\<lambda>r. r\<lparr>q_delivery_state := ''failed'', q_last_error := e, q_updated_at := t\<rparr>) d1)" for e t
    unfolding row_step_cong [OF d1 [symmetric] refl]
    by (rule row_step_update) (simp add: settled_def unnote_def)
  show ?thesis
  proof (cases r)
    case (HttpResponse code js body)
    show ?thesis
    proof (cases "code = 200 \<or> (400 \<le> code \<and> code < 500)")
      case True
      with assms HttpResponse r \<open>otruthy ep\<close> show ?thesis
        by (auto simp: retry_post_def dest!: row_step_mark [OF _ s] row_step_mark [OF _ f] split: if_splits)
    next
      case False
      with assms HttpResponse r \<open>otruthy ep\<close> d1 show ?thesis
        by (auto simp: retry_post_def intro!: row_step_refl)
    qed
  qed (use assms True r n in \<open>auto simp: retry_post_def\<close>)
qed (use assms in \<open>auto simp: retry_post_def intro!: row_step_refl\<close>)

lemma queue_after_relay: "db_queue (fst (relay_envelope W u rec sdr sk pk env d)) = db_queue d"
  by (simp add: relay_envelope_def queue_relay_envelope_def http_call_def Let_def split: sum.split)

lemma retry_relay_row:
  assumes "retry_relay W now q un priv ru pk env d = (d', Inr b)"
  shows "row_step (q_queue_id q) (if b then settled ''relayed'' else noted) d d'"
proof (cases "otruthy ru \<and> otruthy un \<and> has_bytes priv \<and> has_bytes pk")
  case True
  then obtain d1 r where r: "relay_envelope W (the ru) (q_recipient_username q) (PStr (the un)) (the priv) (the pk) env d
      = (d1, Inr r)"
    using assms by (auto simp: retry_relay_def elim!: then_do_Inr)
  then have d1: "db_queue d1 = db_queue d" using queue_after_relay by (metis fst_conv)
  have "row_step (q_queue_id q) (settled st) d (settle_row W now (q_queue_id q) st d1)"
      "row_step (q_queue_id q) noted d (note_error W now (q_queue_id q) e d1)" for st e
    using row_step_rows(1,2) row_step_cong [OF d1 refl] by blast+
  moreover have "row_step (q_queue_id q) noted d d1" using d1 by (intro row_step_refl) simp_all
  ultimately show ?thesis
    using assms True r by (cases r) (auto simp: retry_relay_def then_do_def split: if_splits)
qed (use assms in \<open>auto simp: retry_relay_def intro!: row_step_refl\<close>)

lemma retry_send_row:
  assumes "retry_send W k now t un priv ru q d = (d', Inr outcome)"
  shows "row_step (q_queue_id q) (fate W t q outcome) d d'"
proof -
  obtain env ep pub ed d1 a where a: "retry_post W k now q ep env d = (d1, Inr a)"
    and rest: "(case a of Refused \<Rightarrow> (d1, Inr (Some False)) | Delivered \<Rightarrow> (d1, Inr (Some True))
        | NotDelivered \<Rightarrow> then_do (retry_relay W now q un priv ru pub env d1)
            (\<lambda>relayed d. if relayed then (d, Inr (Some True)) else (reschedule W now t q d, Inr None)))
      = (d', Inr outcome)"
    using assms by (auto simp: retry_send_def elim!: then_do_Inr split: sum.splits option.splits)
  note s = retry_post_row [OF a]
  show ?thesis
  proof (cases a)
    case NotDelivered
    obtain d2 b where b: "retry_relay W now q un priv ru pub env d1 = (d2, Inr b)"
      and b': "(if b then (d2, Inr (Some True)) else (reschedule W now t q d2, Inr None)) = (d', Inr outcome :: bool option result)"
      using rest [unfolded NotDelivered attempt.case] by (rule then_do_Inr) blast
    have n: "row_step (q_queue_id q) noted d d1" using s NotDelivered by simp
    show ?thesis
    proof (cases b)
      case True
      with retry_relay_row [OF b] have r: "row_step (q_queue_id q) (settled ''relayed'') d1 d2" by simp
      have "row_step (q_queue_id q) (settled ''relayed'') d d2"
        by (rule row_step_compose [OF n r]) (rule noted_then(2))
      with True b' show ?thesis by (auto intro: row_step_mono simp: fate_def)
    next
      case False
      with retry_relay_row [OF b] have n2: "row_step (q_queue_id q) noted d1 d2" by simp
      have "row_step (q_queue_id q) (postponed W t q) d (reschedule W now t q d2)"
        by (rule row_step_compose [OF row_step_compose [OF n n2 noted_then(1)] row_step_rows(3) noted_then(3)])
      with False b' show ?thesis by (auto intro: row_step_mono simp: fate_def)
    qed
  qed (use s rest in \<open>auto intro: row_step_mono simp: fate_def\<close>)
qed

lemma retry_row_row:
  assumes "retry_row W k now t un priv ru (q, e) d = (d', Inr outcome)"
  shows "row_step (q_queue_id q) (fate W t q outcome) d d'"
proof -
  have ab: "row_step (q_queue_id q) (fate W t q None) d (settle_row W now (q_queue_id q) ''abandoned'' d)"
    using row_step_rows(1) by (rule row_step_mono) (simp add: fate_def)
  have ex: "row_step (q_queue_id q) (fate W t q None) d (settle_row W now (q_queue_id q) ''expired'' d)"
    using row_step_rows(1) by (rule row_step_mono) (simp add: fate_def)
  show ?thesis
    using assms retry_send_row ab
    by (auto simp: retry_row_def Let_def dest!: row_step_mark [OF _ ex] split: if_splits option.splits)
qed

section \<open>A whole sweep\<close>

lemma settled_fields:
  assumes "settled st r r'"
  shows "q_queue_id r' = q_queue_id r" "queue_key r' = queue_key r" "q_envelope_json_enc r' = q_envelope_json_enc r"
    "q_delivery_state r' = st"
  using assms [unfolded settled_def, THEN arg_cong [of _ _ q_queue_id]]
    assms [unfolded settled_def, THEN arg_cong [of _ _ queue_key]]
    assms [unfolded settled_def, THEN arg_cong [of _ _ q_envelope_json_enc]]
    assms [unfolded settled_def, THEN arg_cong [of _ _ q_delivery_state]]
  by (simp_all add: queue_key_def)

lemma postponed_fields:
  assumes "postponed W t q r r'"
  shows "q_queue_id r' = q_queue_id r" "queue_key r' = queue_key r" "q_envelope_json_enc r' = q_envelope_json_enc r"
    "q_delivery_state r' = q_delivery_state r" "q_attempt_count r' = q_attempt_count q + 1"
    "q_next_retry_at r' = z_timestamp W (t + backoff_seconds (q_attempt_count q + 1) * 1000000)"
  using assms [unfolded postponed_def, THEN arg_cong [of _ _ q_queue_id]]
    assms [unfolded postponed_def, THEN arg_cong [of _ _ queue_key]]
    assms [unfolded postponed_def, THEN arg_cong [of _ _ q_envelope_json_enc]]
    assms [unfolded postponed_def, THEN arg_cong [of _ _ q_delivery_state]]
    assms [unfolded postponed_def, THEN arg_cong [of _ _ q_attempt_count]]
    assms [unfolded postponed_def, THEN arg_cong [of _ _ q_next_retry_at]]
  by (simp_all add: queue_key_def)

lemma fate_fields:
  assumes "fate W t q out r r'"
  shows "q_queue_id r' = q_queue_id r" "queue_key r' = queue_key r" "q_envelope_json_enc r' = q_envelope_json_enc r"
  using assms
  by (auto simp: fate_def dest: settled_fields(1) postponed_fields(1))
    (use assms in \<open>auto simp: fate_def dest: settled_fields(2) postponed_fields(2)\<close>,
     use assms in \<open>auto simp: fate_def dest: settled_fields(3) postponed_fields(3)\<close>)

text \<open>
  A sweep rewrites the due rows, each by its fate, and no other row; the counters say how many rows met
  which fate.
\<close>

lemma retry_rows_exact:
  assumes "retry_rows (retry_row W k now t un priv ru) rows (x, y) d = (d', Inr (n, m))"
    and "distinct (map q_queue_id (db_queue d))" and "distinct (map (q_queue_id \<circ> fst) rows)"
    and "\<forall>q \<in> fst ` set rows. q \<in> set (db_queue d)"
  shows "\<exists>f out. db_queue d' = map f (db_queue d)
    \<and> (\<forall>q \<in> set (db_queue d). if q \<in> fst ` set rows then fate W t q (out q) q (f q) else f q = q)
    \<and> n = x + int (length (filter (\<lambda>q. out (fst q) = Some True) rows))
    \<and> m = y + int (length (filter (\<lambda>q. out (fst q) = Some False) rows))"
  using assms
proof (induction rows arbitrary: x y d)
  case Nil
  then show ?case by (auto intro!: exI [of _ "\<lambda>q. q"])
next
  case (Cons row rows)
  obtain q e where row: "row = (q, e)" by force
  let ?step = "retry_row W k now t un priv ru"
  from Cons.prems(1) row obtain d1 o1 where o1: "?step (q, e) d = (d1, Inr o1)" and
    rest: "retry_rows ?step rows (case o1 of None \<Rightarrow> (x, y) | Some b \<Rightarrow> if b then (x + 1, y) else (x, y + 1)) d1
      = (d', Inr (n, m))"
    by (auto elim!: then_do_Inr)
  obtain x1 y1 where xy: "(case o1 of None \<Rightarrow> (x, y) | Some b \<Rightarrow> if b then (x + 1, y) else (x, y + 1)) = (x1, y1)" by force
  obtain g where g: "db_queue d1 = map (\<lambda>r. if q_queue_id r = q_queue_id q then g r else r) (db_queue d)"
      "\<forall>r. fate W t q o1 r (g r)"
    using retry_row_row [OF o1] unfolding row_step_def by blast
  let ?g = "\<lambda>r. if q_queue_id r = q_queue_id q then g r else r"
  have ids: "q_queue_id (?g r) = q_queue_id r" for r using fate_fields(1) [OF g(2) [rule_format]] by simp
  have q_in: "q \<in> set (db_queue d)" using Cons.prems(4) row by simp
  have uniq: "r = q" if "r \<in> set (db_queue d)" "q_queue_id r = q_queue_id q" for r
    using that q_in Cons.prems(2) by (auto simp: distinct_map dest: inj_onD)
  have other: "q_queue_id r \<noteq> q_queue_id q" if "r \<in> fst ` set rows" for r
    using that Cons.prems(3) row by force
  have "distinct (map q_queue_id (db_queue d1))"
    using Cons.prems(2) g(1) ids by (simp add: comp_def)
  moreover have "\<forall>r \<in> fst ` set rows. r \<in> set (db_queue d1)"
    using other Cons.prems(4) g(1) by (force simp: image_iff)
  ultimately obtain f out where f: "db_queue d' = map f (db_queue d1)"
      "\<forall>r \<in> set (db_queue d1). if r \<in> fst ` set rows then fate W t r (out r) r (f r) else f r = r"
      "n = x1 + int (length (filter (\<lambda>q. out (fst q) = Some True) rows))"
      "m = y1 + int (length (filter (\<lambda>q. out (fst q) = Some False) rows))"
    using Cons.IH [OF rest [unfolded xy]] Cons.prems(3) row by auto
  define out' where "out' r = (if r = q then o1 else out r)" for r
  have out_rows: "out' (fst p) = out (fst p)" if "p \<in> set rows" for p
    using other [of "fst p"] that by (auto simp: out'_def)
  have filters: "filter (\<lambda>p. out' (fst p) = v) rows = filter (\<lambda>p. out (fst p) = v) rows" for v
    using out_rows by (intro filter_cong) auto
  have counts: "x1 = x + (if o1 = Some True then 1 else 0)" "y1 = y + (if o1 = Some False then 1 else 0)"
    using xy by (cases o1; auto split: if_splits)+
  have "db_queue d' = map (f \<circ> ?g) (db_queue d)" using f(1) g(1) by simp
  moreover have "if r \<in> fst ` set (row # rows) then fate W t r (out' r) r ((f \<circ> ?g) r) else (f \<circ> ?g) r = r"
    if r: "r \<in> set (db_queue d)" for r
  proof (cases "r = q")
    case True
    have "?g q \<in> set (db_queue d1)" using g(1) q_in by auto
    moreover have "?g q \<notin> fst ` set rows" using other ids [of q] by metis
    ultimately have "f (?g q) = ?g q" using f(2) by auto
    with True row g(2) show ?thesis by (simp add: out'_def)
  next
    case False
    then have "q_queue_id r \<noteq> q_queue_id q" using uniq r by blast
    then have "?g r = r" "r \<in> set (db_queue d1)" using g(1) r by (auto simp: image_iff)
    with False row f(2) show ?thesis by (auto simp: out'_def)
  qed
  moreover have "n = x + int (length (filter (\<lambda>q. out' (fst q) = Some True) (row # rows)))"
    "m = y + int (length (filter (\<lambda>q. out' (fst q) = Some False) (row # rows)))"
    using f(3,4) counts row by (simp_all add: filters) (simp_all add: out'_def)
  ultimately show ?case by blast
qed

definition is_due :: "world \<Rightarrow> int \<Rightarrow> db \<Rightarrow> queue_row \<Rightarrow> bool" where
  "is_due W now d q = (find_session d (q_session_id q) \<noteq> None \<and> q_delivery_state q = ''pending''
     \<and> q_next_retry_at q \<le> iso_now W now)"

lemma map_fst_due: "map fst (due_rows W now d) = filter (is_due W now d) (db_queue d)"
proof -
  have "map fst (concat (map (\<lambda>q. case find_session d (q_session_id q) of
        None \<Rightarrow> []
      | Some s \<Rightarrow> if q_delivery_state q = ''pending'' \<and> q_next_retry_at q \<le> iso_now W now
                  then [(q, sr_expires_at s)] else []) qs)) = filter (is_due W now d) qs" for qs
    by (induction qs) (auto simp: is_due_def split: option.split)
  then show ?thesis by (simp add: due_rows_def)
qed

lemma fate_state:
  assumes "fate W t q out q r"
  shows "out = Some True \<longleftrightarrow> q_delivery_state r \<in> {''delivered'', ''relayed''} \<and> out \<noteq> None"
    and "out = Some False \<longleftrightarrow> q_delivery_state r = ''failed'' \<and> out \<noteq> None"
    and "out = None \<Longrightarrow> q_delivery_state r \<in> {''abandoned'', ''expired''} \<or> postponed W t q q r"
  using assms by (auto simp: fate_def dest!: settled_fields(4))

lemma fate_counted:
  assumes "fate W t q out q r" and "q_delivery_state q = ''pending''"
  shows "out = Some True \<longleftrightarrow> q_delivery_state r \<in> {''delivered'', ''relayed''}"
    and "out = Some False \<longleftrightarrow> q_delivery_state r = ''failed''"
proof -
  have "out = None \<Longrightarrow> q_delivery_state r \<in> {''abandoned'', ''expired'', ''pending''}"
    using fate_state(3) [OF assms(1)] postponed_fields(4) [of W t q q r] assms(2) by auto
  with fate_state(1,2) [OF assms(1)]
  show "out = Some True \<longleftrightarrow> q_delivery_state r \<in> {''delivered'', ''relayed''}"
    and "out = Some False \<longleftrightarrow> q_delivery_state r = ''failed''" by auto
qed

lemma length_filter_fst: "length (filter (\<lambda>p. P (fst p)) ps) = length (filter P (map fst ps))"
  by (induction ps) auto

lemma reconstruct_ok:
  assumes "find_session d sid = Some s" and "0 \<le> sr_turn_limit s"
  shows "\<exists>st. reconstruct_session_state W k sid d = Inr (Some st)"
  using assms by (auto simp: reconstruct_session_state_def Let_def)

lemma payload_text_ok: "(\<And>v. w_dumps W v \<noteq> None) \<Longrightarrow> \<exists>s. payload_text W p = Inr s"
  by (cases p) (auto simp: payload_text_def json_dumps_def split: option.split)

lemma node_command_ok:
  assumes "find_session d sid = Some s" and "0 \<le> sr_turn_limit s" and "\<And>v. w_dumps W v \<noteq> None"
  shows "\<exists>d' x. apply_node_command_transition W k sid c now d = (d', Inr x)"
proof -
  obtain st where st: "reconstruct_session_state W k sid d = Inr (Some st)" using reconstruct_ok assms(1,2) by blast
  have audit: "\<exists>d' i. write_audit_event W k c sid un p cor d0 = (d', Inr i)" for c sid un p cor d0
    using payload_text_ok [OF assms(3), of p] write_audit_ok by blast
  have "\<exists>d' x. persist_transition W k sid now st res tag cmd d = (d', Inr x)" for res tag cmd
  proof (cases "rr_success res")
    case True
    obtain d' i where "write_audit_event W k ''session_status_updated'' (Some sid) None
        (of_dict [(''previous_status'', PStr (ss_status st)), (''new_status'', PStr (ss_status (rr_new_state res))),
          (tag, PStr cmd)]) (Some sid)
        (update_session sid (\<lambda>r. r\<lparr>sr_status := ss_status (rr_new_state res), sr_updated_at := iso_now W now\<rparr>) d)
      = (d', Inr i)" using audit by blast
    with True show ?thesis by (simp add: persist_transition_def Let_def)
  next
    case False
    obtain d' i where "write_audit_event W k ''session_status_rejected'' (Some sid) None PNone None d = (d', Inr i)"
      using audit by blast
    with False show ?thesis by (simp add: persist_transition_def)
  qed
  with st show ?thesis by (simp add: apply_node_command_transition_def)
qed

lemma retry_post_online:
  assumes "\<And>n. is_200 (w_http W n ''POST'' (strip_slash u @ ''/v1.1/sessions'') env)" and "u \<noteq> []"
    and "find_session d (q_session_id q) = Some s" and "0 \<le> sr_turn_limit s" and "\<And>v. w_dumps W v \<noteq> None"
  shows "\<exists>d'. retry_post W k now q (Some u) env d = (d', Inr Delivered)
    \<and> accepted_post W (strip_slash u @ ''/v1.1/sessions'') env d'"
proof -
  obtain r d1 where r: "post_session W u env d = (r, d1)" by force
  then have r200: "is_200 r" and ss: "db_sessions d1 = db_sessions d"
    using assms(1) by (auto simp: post_session_def http_call_def)
  then obtain js body where resp: "r = HttpResponse 200 js body" by (cases r) (auto simp: is_200_def)
  let ?d = "settle_row W now (q_queue_id q) ''delivered'' d1"
  have "find_session ?d (q_session_id q) = Some s"
    using assms(3) ss by (simp add: find_session_def settle_row_def update_queue_def)
  then obtain d2 x where m: "apply_node_command_transition W k (q_session_id q) ''mark_delivered'' now ?d = (d2, Inr x)"
    using node_command_ok assms(4,5) by blast
  have "accepted_post W (strip_slash u @ ''/v1.1/sessions'') env d1"
    using post_200_accepted r resp by blast
  then have "accepted_post W (strip_slash u @ ''/v1.1/sessions'') env d2"
    unfolding wire_kept(1) [OF m] by (simp add: accepted_post_def settle_row_def update_queue_def)
  with r resp m assms(2) show ?thesis by (simp add: retry_post_def otruthy_def then_do_def)
qed

text \<open>The envelope in a message of the inbox.\<close>

definition message_envelope :: "world \<Rightarrow> bytes \<Rightarrow> db \<Rightarrow> pyval \<Rightarrow> pydict option" where
  "message_envelope W priv d msg =
     Option.bind (as_str_dict msg) (\<lambda>m.
       case open_message W priv m d of Inr (Some v) \<Rightarrow> as_str_dict v | _ \<Rightarrow> None)"

lemma open_message_cong:
  assumes "db_contacts d' = db_contacts d"
  shows "open_message W priv m d' = open_message W priv m d"
proof -
  have "resolve_peer_contact_info u d' = resolve_peer_contact_info u d" for u
    using assms by (simp add: resolve_peer_contact_info_def)
  then have "resolve_param W v d' = resolve_param W v d" for v
    by (simp add: resolve_param_def split: sum.split option.split)
  then show ?thesis by (simp only: open_message_def)
qed

lemma process_message_recorded:
  assumes "process_message W k me sk priv url get_pk now m d = (d', Inr True)"
  shows "\<exists>v env. open_message W priv m d = Inr (Some v) \<and> as_str_dict v = Some env \<and> in_ledger env d'"
proof -
  obtain v where v: "open_message W priv m d = Inr (Some v)"
    using assms by (auto simp: process_message_def split: sum.splits option.splits)
  obtain env where env: "as_str_dict v = Some env"
    using assms v by (auto simp: process_message_def split: option.splits)
  obtain d1 ack where a: "ingest_envelope W k env get_pk now None None None d = (d1, Inr ack)"
    and rest: "(if ta_status ack \<in> set [''delivered'', ''queued''] then ack_message W me sk url (dget m ''message_id'') now d1
        else (d1, Inr False)) = (d', Inr True :: bool result)"
    using assms v env by (auto simp: process_message_def elim!: then_do_Inr)
  then have "in_ledger env d1" by (intro envelope_acknowledged [OF a]) (auto split: if_splits)
  moreover have "progress d1 d'"
    using rest quiet_progress [OF quiet_ack_message] by (auto split: if_splits) (metis fst_conv)+
  ultimately show ?thesis using v env in_ledger_extends by blast
qed

lemma poll_messages_recorded:
  assumes "poll_messages W k (process_message W k me sk priv url get_pk now) msgs n d = (d', Inr n')"
  shows "\<exists>ms. subseq ms msgs \<and> n' = n + int (length ms)
    \<and> (\<forall>m \<in> set ms. \<exists>env. message_envelope W priv d m = Some env \<and> in_ledger env d')"
  using assms
proof (induction msgs arbitrary: n d)
  case (Cons msg msgs)
  obtain m where m: "as_str_dict msg = Some m" using Cons.prems by (auto split: option.splits)
  let ?p = "process_message W k me sk priv url get_pk now"
  obtain d1 r where r: "?p m d = (d1, r)" by force
  have d1: "progress d d1" using progress_process_message [of d W k me sk priv url get_pk now m] r by simp
  have later: ?case if ms: "subseq ms msgs" "\<forall>x \<in> set ms. \<exists>env. message_envelope W priv d0 x = Some env \<and> in_ledger env d'"
      and d0: "progress d d0" and n': "n' = (if b then n + 1 else n) + int (length ms)"
      and b: "b \<longrightarrow> r = Inr True \<and> progress d1 d'" for ms d0 b
  proof -
    have ctx: "message_envelope W priv d0 x = message_envelope W priv d x" for x
      using d0 open_message_cong [of d0 d] by (simp add: message_envelope_def progress_def)
    show ?thesis
    proof (cases b)
      case True
      with b r process_message_recorded have "\<exists>env. message_envelope W priv d msg = Some env \<and> in_ledger env d1"
        by (fastforce simp: message_envelope_def m)
      with True b in_ledger_extends have "\<exists>env. message_envelope W priv d msg = Some env \<and> in_ledger env d'" by blast
      with ms n' True ctx show ?thesis by (intro exI [of _ "msg # ms"]) auto
    next
      case False
      with ms n' ctx show ?thesis by (intro exI [of _ ms]) auto
    qed
  qed
  show ?case
  proof (cases r)
    case (Inr b)
    with Cons.prems m r have rest: "poll_messages W k ?p msgs (if b then n + 1 else n) d1 = (d', Inr n')" by simp
    have "progress d1 d'"
      using progress_poll_messages [of ?p d1 W k msgs] progress_process_message rest by (metis fst_conv)
    with Cons.IH [OF rest] later [OF _ _ d1, where b = b] Inr show ?thesis by auto
  next
    case (Inl e)
    with Cons.prems m r obtain d2 i where a: "write_audit_event W k ''relay_poll_error'' None None PNone None d1 = (d2, Inr i)"
      and rest: "poll_messages W k ?p msgs n d2 = (d', Inr n')" by (auto elim!: then_do_Inr)
    have "progress d d2" using progress_trans [OF d1 progress_audit] a by (metis fst_conv)
    with Cons.IH [OF rest] later [of _ d2 False] show ?thesis by auto
  qed
qed auto

section \<open>Properties\<close>

text \<open>
  C9. A sweep of the outbound queue is exact: it rewrites the rows that are due (pending, their time
  come, their session known) and no others. Each due row keeps its key and its envelope and is settled
  as delivered, relayed, failed, abandoned or expired, or it stays pending with one more attempt and its
  next time set by the backoff. The two counters returned are the numbers of rows delivered or
  relayed, and of rows failed.
\<close>

theorem queue_sweep_exact:
  assumes "retry_outbound_queue W k now un priv ru d = (d', Inr (n, m))"
    and "distinct (map q_queue_id (db_queue d))"
  shows "\<exists>f t. parse_iso_z W (iso_now W now) = Some t \<and> db_queue d' = map f (db_queue d)
    \<and> (\<forall>q \<in> set (db_queue d).
         if is_due W now d q
         then queue_key (f q) = queue_key q \<and> q_envelope_json_enc (f q) = q_envelope_json_enc q
           \<and> (q_delivery_state (f q) \<in> {''delivered'', ''relayed'', ''failed'', ''abandoned'', ''expired''}
              \<or> (q_delivery_state (f q) = ''pending'' \<and> q_attempt_count (f q) = q_attempt_count q + 1
                 \<and> q_next_retry_at (f q) = z_timestamp W (t + backoff_seconds (q_attempt_count q + 1) * 1000000)))
         else f q = q)
    \<and> n = int (length (filter (\<lambda>q. is_due W now d q \<and> q_delivery_state (f q) \<in> {''delivered'', ''relayed''}) (db_queue d)))
    \<and> m = int (length (filter (\<lambda>q. is_due W now d q \<and> q_delivery_state (f q) = ''failed'') (db_queue d)))"
proof -
  obtain t where t: "parse_iso_z W (iso_now W now) = Some t"
    and r: "retry_rows (retry_row W k now t un priv ru) (due_rows W now d) (0, 0) d = (d', Inr (n, m))"
    using assms(1) by (auto simp: retry_outbound_queue_def split: option.splits)
  have fst_due: "fst ` set (due_rows W now d) = {q \<in> set (db_queue d). is_due W now d q}"
    using arg_cong [OF map_fst_due, of set W now d] by simp
  have "distinct (map (q_queue_id \<circ> fst) (due_rows W now d))"
    using assms(2) by (simp flip: map_map add: map_fst_due distinct_map_filter)
  from retry_rows_exact [OF r assms(2) this] fst_due obtain f out where f: "db_queue d' = map f (db_queue d)"
      "\<forall>q \<in> set (db_queue d). if is_due W now d q then fate W t q (out q) q (f q) else f q = q"
      "n = int (length (filter (\<lambda>q. out (fst q) = Some True) (due_rows W now d)))"
      "m = int (length (filter (\<lambda>q. out (fst q) = Some False) (due_rows W now d)))"
    by auto
  have due: "fate W t q (out q) q (f q)" "q_delivery_state q = ''pending''" if "q \<in> set (db_queue d)" "is_due W now d q" for q
    using f(2) that by (auto simp: is_due_def)
  define good where "good q \<longleftrightarrow> queue_key (f q) = queue_key q \<and> q_envelope_json_enc (f q) = q_envelope_json_enc q
       \<and> (q_delivery_state (f q) \<in> {''delivered'', ''relayed'', ''failed'', ''abandoned'', ''expired''}
          \<or> (q_delivery_state (f q) = ''pending'' \<and> q_attempt_count (f q) = q_attempt_count q + 1
             \<and> q_next_retry_at (f q) = z_timestamp W (t + backoff_seconds (q_attempt_count q + 1) * 1000000)))" for q
  have n: "filter (\<lambda>q. is_due W now d q \<and> out q = Some True) (db_queue d)
      = filter (\<lambda>q. is_due W now d q \<and> q_delivery_state (f q) \<in> {''delivered'', ''relayed''}) (db_queue d)"
    by (intro filter_cong refl conj_cong fate_counted(1) [OF due])
  have m: "filter (\<lambda>q. is_due W now d q \<and> out q = Some False) (db_queue d)
      = filter (\<lambda>q. is_due W now d q \<and> q_delivery_state (f q) = ''failed'') (db_queue d)"
    by (intro filter_cong refl conj_cong fate_counted(2) [OF due])
  have "good q" if q: "q \<in> set (db_queue d)" "is_due W now d q" for q
  proof -
    note ft = due(1) [OF q]
    have "q_delivery_state (f q) \<in> {''delivered'', ''relayed'', ''failed'', ''abandoned'', ''expired''} \<or> postponed W t q q (f q)"
      using ft fate_state(3) [OF ft] fate_state(1,2) [OF ft] by (cases "out q") auto
    with postponed_fields(4-6) [of W t q q "f q"] due(2) [OF q] fate_fields(2,3) [OF ft] show ?thesis
      unfolding good_def by auto
  qed
  then have "\<forall>q \<in> set (db_queue d). if is_due W now d q then good q else f q = q" using f(2) by auto
  with t f(1) f(3,4) [unfolded length_filter_fst [of "\<lambda>q. out q = Some v" for v] map_fst_due filter_filter n m]
  show ?thesis unfolding good_def by blast
qed

theorem queue_sweep_exact_witness:
  "\<exists>q. db_queue (fst (retry_outbound_queue demo_light_world [9] 0 None None None
          (fst (demo_dispatch no_route (empty_db ''alice''))))) = [q] \<and> queue_key q = (''sess_u'', 1, ''bob'')"
proof -
  let ?d = "fst (demo_dispatch no_route (empty_db ''alice''))"
  let ?x = "retry_outbound_queue demo_light_world [9] 0 None None None ?d"
  have q: "map (\<lambda>q. (queue_key q, is_due demo_light_world 0 ?d q)) (db_queue ?d)
      = [((''sess_u'', 1, ''bob''), True)]" by code_simp
  then obtain q where dq: "db_queue ?d = [q]" "queue_key q = (''sess_u'', 1, ''bob'')" "is_due demo_light_world 0 ?d q"
    by (cases "db_queue ?d") auto
  have "snd ?x = Inr (0, 0)" by code_simp
  then have x: "?x = (fst ?x, Inr (0, 0))" by (metis prod.collapse)
  have "distinct (map q_queue_id (db_queue ?d))" by (simp add: dq)
  from queue_sweep_exact [OF x this] dq show ?thesis by auto
qed

text \<open>
  The retry delay is bounded: the delay after the first failed attempt is ten seconds, each further
  failure at most doubles it and never shortens it, and it never exceeds an hour.
\<close>

theorem backoff_bounds:
  assumes "1 \<le> a"
  shows "backoff_seconds 1 = 10 \<and> 10 \<le> backoff_seconds a \<and> backoff_seconds a \<le> 3600
    \<and> backoff_seconds a \<le> backoff_seconds (a + 1) \<and> backoff_seconds (a + 1) \<le> 2 * backoff_seconds a
    \<and> (10 \<le> a \<longrightarrow> backoff_seconds a = 3600)"
proof -
  have s: "nat (a + 1 - 1) = Suc (nat (a - 1))" using assms by simp
  have one: "(1::int) \<le> 2 ^ nat (a - 1)" by simp
  have "10 * 2 ^ nat (a - 1) \<ge> (3600::int)" if "10 \<le> a"
  proof -
    have "(2::int) ^ 9 \<le> 2 ^ nat (a - 1)" using that by (intro power_increasing) auto
    then show ?thesis by simp
  qed
  with one show ?thesis unfolding backoff_seconds_def s power_Suc by (auto simp: min_def)
qed

theorem backoff_bounds_witness: "10 \<le> backoff_seconds 4 \<and> backoff_seconds 4 = 80"
  using backoff_bounds [of 4] by (simp add: backoff_seconds_def)


text \<open>A world in which every request succeeds, and a row that waits for bob.\<close>

definition demo_online :: world where
  "demo_online = demo_light_world\<lparr>w_http := (\<lambda>n v u b. HttpResponse 200 None [])\<rparr>"

definition demo_contact :: contact_row where
  "demo_contact = \<lparr>ct_username = ''bob'', ct_endpoint = Some ''http://bob'', ct_x25519_public_key = None,
     ct_public_key = None, ct_fingerprint_verified_at = Some ''2026-01-02T03:04:05Z''\<rparr>"

definition demo_queue_row :: queue_row where
  "demo_queue_row = \<lparr>q_queue_id = ''q1'', q_session_id = ''s1'', q_sequence = 1, q_recipient_username = ''bob'',
     q_envelope_kind = ''task_request'', q_envelope_json_enc = the (encrypt_field demo_online [9] 0 (Some ''{}'')),
     q_delivery_state = ''pending'', q_attempt_count = 0, q_next_retry_at = ''2026-01-02T03:04:05Z'',
     q_last_error = None, q_created_at = ''2026-01-02T03:04:05Z'', q_updated_at = ''2026-01-02T03:04:05Z''\<rparr>"



text \<open>An inbox with the request of alice, on the node of bob.\<close>

definition demo_inbox_world :: world where
  "demo_inbox_world = demo_light_world\<lparr>w_loads := (\<lambda>s. if s = ''m'' then Some (of_dict demo_body) else Some (PDict [])),
     w_http := (\<lambda>n v u b. if v = ''GET''
        then HttpResponse 200 (Some (of_dict [(''messages'', PList [of_dict [(''message_id'', PInt 1),
               (''sender_username'', PStr ''alice''),
               (''encrypted_blob'', PStr (hexdigest (replicate 12 0 @ [14] @ utf8_encode ''m'')))]])])) []
        else HttpResponse 200 None [])\<rparr>"

definition demo_inbox :: db where
  "demo_inbox = (empty_db ''bob'')\<lparr>db_contacts := [demo_contact\<lparr>ct_username := ''alice'', ct_x25519_public_key := Some ''07''\<rparr>]\<rparr>"

definition demo_poll :: "db \<times> int result" where
  "demo_poll = poll_relay_and_process demo_inbox_world [9] ''bob'' [6] [7] ''http://relay'' [''alice'' \<mapsto> [5]] 0 demo_inbox"

lemma demo_poll_count: "snd demo_poll = Inr 1"
  by code_simp


end
