(* ===== verification/Kin_Node.thy ===== *)
theory Kin_Node
  imports Kin_Delivery
begin

text \<open>
  The routes of a node for the session protocol (\<open>kin-node/kin/node/routes.py\<close>: agent card, capabilities,
  published cards, envelopes) and one pass of the background synchronisation (\<open>kin-node/kin/node/app.py\<close>).

  The public key of the identity, settings and keychain are fields of \<open>node_env\<close>. The connection of a
  request is the state of the database; what an exception rolls back when it is closed is not undone here.
  A stored contact key that is no 32 bytes of hexadecimal raises where a route reads it; inside the
  ingestion of an envelope it counts as missing.
\<close>

record node_env =
  ne_world :: world
  ne_identity_keys :: "(string \<times> string option) list" \<comment> \<open>username and public key of \<open>identity\<close>\<close>
  ne_protocol_version :: "string option"
  ne_setting :: "string \<Rightarrow> string option"
  ne_vault_key :: "bytes option" \<comment> \<open>\<open>get_or_create_vault_key\<close>, \<open>None\<close> when it raises\<close>
  ne_private_key :: "bytes option"
  ne_x25519_key :: "bytes option"
  ne_relay_url :: string

definition CONSTANT_VAULT_KEY :: bytes where
  "CONSTANT_VAULT_KEY = replicate 32 48"

section \<open>Discovery\<close>

definition get_agent_card :: "node_env \<Rightarrow> int \<times> pydict" where
  "get_agent_card E =
     (case ne_identity_keys E of
        [] \<Rightarrow> (404, [(''detail'', PStr ''KIN identity is not initialized.'')])
      | (username, public_key) # _ \<Rightarrow>
          (200, [(''name'', PStr username), (''username'', PStr username),
                 (''public_key'', case public_key of None \<Rightarrow> PNone | Some k \<Rightarrow> PStr k),
                 (''endpoint'', PStr (case ne_setting E ''public_endpoint'' of None \<Rightarrow> ''http://127.0.0.1:8321'' | Some u \<Rightarrow> u)),
                 (''capabilities'', PList [PStr ''info_request'', PStr ''negotiation'']),
                 (''protocol_version'', PStr (or_text (ne_protocol_version E) ''1.1''))]))"

definition own_capabilities :: capability_ad where
  "own_capabilities = \<lparr>cad_protocol_version = ''1.1'',
     cad_supported_features = [''session_v1'', ''jcs_signatures'', ''vault_gcm'', ''direct_transport'', ''relay_fallback''],
     cad_max_turn_limit = 12\<rparr>"

definition get_v11_capabilities :: "int \<times> pydict" where
  "get_v11_capabilities = (200, capability_ad_dump own_capabilities)"

section \<open>Published cards\<close>

text \<open>The key of a verified contact; a malformed one raises.\<close>

definition contact_key :: "db \<Rightarrow> string \<Rightarrow> bytes option result" where
  "contact_key d un =
     (case find (\<lambda>r. ct_username r = un) (db_contacts d) of
        None \<Rightarrow> Inr None
      | Some r \<Rightarrow>
          if otruthy (ct_public_key r) \<and> otruthy (ct_fingerprint_verified_at r) then ed_key (ct_public_key r) else Inr None)"

definition key_or_none :: "bytes option result \<Rightarrow> bytes option" where
  "key_or_none r = (case r of Inl _ \<Rightarrow> None | Inr k \<Rightarrow> k)"

definition AUTH_MAX_AGE :: int where
  "AUTH_MAX_AGE = 300"

fun parse_cards :: "world \<Rightarrow> listed_card list \<Rightarrow> pyval list result" where
  "parse_cards W [] = Inr []"
| "parse_cards W (c # cs) =
     (if \<not> otruthy (lc_published_card_json c) then parse_cards W cs
      else (case w_loads W (the (lc_published_card_json c)) of
              None \<Rightarrow> Inl ValueError
            | Some v \<Rightarrow> (case parse_cards W cs of Inl e \<Rightarrow> Inl e | Inr vs \<Rightarrow> Inr (v # vs))))"

definition get_published_agent_cards ::
  "node_env \<Rightarrow> (string \<times> string) list \<Rightarrow> int \<Rightarrow> db \<Rightarrow> (int \<times> pydict) result" where
  "get_published_agent_cards E headers now d =
     (case verify_signed_auth_headers (ne_world E) headers (\<lambda>un. key_or_none (contact_key d un)) now AUTH_MAX_AGE of
        Authenticated un \<Rightarrow>
          (case parse_cards (ne_world E) (list_cards (ne_world E) False d) of
             Inl e \<Rightarrow> Inl e
           | Inr cards \<Rightarrow>
               Inr (200, [(''schema_version'', PStr ''1.1''),
                          (''owner_username'', case db_identity d of [] \<Rightarrow> PStr ''unknown''
                             | u # _ \<Rightarrow> (case u of None \<Rightarrow> PNone | Some s \<Rightarrow> PStr s)),
                          (''cards'', PList cards)]))
      | UnknownUser \<Rightarrow>
          (case contact_key d (the (header_get headers ''x-username'')) of
             Inl e \<Rightarrow> Inl e
           | Inr _ \<Rightarrow> Inr (403, []))
      | _ \<Rightarrow> Inr (403, []))"

section \<open>Envelopes\<close>

definition envelope_key :: "node_env \<Rightarrow> db \<Rightarrow> string \<Rightarrow> bytes option" where
  "envelope_key E d un =
     (case map_of (ne_identity_keys E) un of
        Some k \<Rightarrow> if otruthy k then key_or_none (ed_key k) else key_or_none (contact_key d un)
      | None \<Rightarrow> key_or_none (contact_key d un))"

definition ack_status_code :: "transport_ack \<Rightarrow> int" where
  "ack_status_code ack =
     (if ta_status ack \<noteq> ''rejected'' then 200
      else case ta_error_code ack of
        None \<Rightarrow> 400
      | Some code \<Rightarrow>
          if code \<in> set [''INVALID_SIGNATURE'', ''PUBLIC_KEY_NOT_FOUND''] then 401
          else if code \<in> set [''UNPAIRED_SENDER'', ''UNAUTHORIZED_ACTOR'', ''UNAUTHORIZED_AGENT'', ''UNAUTHORIZED_ROLE_ACTION''] then 403
          else if code \<in> set [''DUPLICATE_SEQUENCE'', ''OUT_OF_ORDER_SEQUENCE'', ''INVALID_STATE_TRANSITION'', ''TERMINAL_STATE_IMMUTABLE''] then 409
          else 400)"

definition process_v11_session_envelope ::
  "node_env \<Rightarrow> pydict \<Rightarrow> int \<Rightarrow> db \<Rightarrow> db \<times> (int \<times> transport_ack) result" where
  "process_v11_session_envelope E raw now d =
     (let vault_key = (case ne_vault_key E of None \<Rightarrow> CONSTANT_VAULT_KEY | Some k \<Rightarrow> k)
      in then_do (ingest_envelope (ne_world E) vault_key raw (envelope_key E d) now None None None d)
           (\<lambda>ack d. (d, Inr (ack_status_code ack, ack))))"

section \<open>Background synchronisation\<close>

definition sync_key :: "node_env \<Rightarrow> string \<Rightarrow> bytes \<Rightarrow> db \<Rightarrow> string \<Rightarrow> bytes option" where
  "sync_key E me sk d un =
     (if un = me then Some (c_ed_public (w_crypto (ne_world E)) sk)
      else case find (\<lambda>r. ct_username r = un \<and> ct_fingerprint_verified_at r \<noteq> None) (db_contacts d) of
        None \<Rightarrow> None
      | Some r \<Rightarrow> key_or_none (ed_key (ct_public_key r)))"

text \<open>One pass: the queue, then the inbox. Whatever is raised is logged and ends the pass.\<close>

definition synchronize_once :: "node_env \<Rightarrow> int \<Rightarrow> db \<Rightarrow> db" where
  "synchronize_once E now d =
     (case db_identity d of
        (Some me) # _ \<Rightarrow>
          (case (ne_private_key E, ne_x25519_key E, ne_vault_key E) of
             (Some sk, Some priv, Some vault_key) \<Rightarrow>
               (let url = strip_slash (ne_relay_url E)
                in case retry_outbound_queue (ne_world E) vault_key now (Some me) (Some priv) (Some url) d of
                     (d1, Inl e) \<Rightarrow> d1
                   | (d1, Inr _) \<Rightarrow>
                       fst (poll_relay_and_process (ne_world E) vault_key me sk priv url (sync_key E me sk d1) now d1))
           | _ \<Rightarrow> d)
      | _ \<Rightarrow> d)"

section \<open>The routes and the pass are operations of the node\<close>

lemma progress_route: "progress d (fst (process_v11_session_envelope E raw now d))"
  unfolding process_v11_session_envelope_def Let_def
  using progress_envelope by (rule progress_then_do) simp

lemma progress_pass: "progress d (synchronize_once E now d)"
proof (cases "(\<exists>me us. db_identity d = Some me # us) \<and> ne_private_key E \<noteq> None \<and> ne_x25519_key E \<noteq> None \<and> ne_vault_key E \<noteq> None")
  case False
  then show ?thesis
    unfolding synchronize_once_def by (auto split: list.split option.split)
next
  case True
  then obtain me us sk priv key where known: "db_identity d = Some me # us" "ne_private_key E = Some sk"
    "ne_x25519_key E = Some priv" "ne_vault_key E = Some key" by auto
  let ?url = "strip_slash (ne_relay_url E)"
  obtain d1 r where retry: "retry_outbound_queue (ne_world E) key now (Some me) (Some priv) (Some ?url) d = (d1, r)" by fastforce
  have p1: "progress d d1"
    using progress_retry [of d "ne_world E" key now "Some me" "Some priv" "Some ?url"] by (simp add: retry)
  have "progress d (fst (poll_relay_and_process (ne_world E) key me sk priv ?url (sync_key E me sk d1) now d1))"
    by (rule progress_trans [OF p1 progress_poll])
  with p1 known retry show ?thesis by (cases r) (simp_all add: synchronize_once_def Let_def)
qed

interpretation envelope_route: node_operation "\<lambda>(E, raw, now) d. process_v11_session_envelope E raw now d"
  by unfold_locales (metis case_prod_conv fst_conv prod_cases3 progress_route)

interpretation background_pass: node_operation "\<lambda>(E, now) d. (synchronize_once E now d, Inr ())"
  by unfold_locales (auto simp: progress_pass)

section \<open>Who sees the published cards\<close>

lemma parse_cards_published:
  assumes "parse_cards W cs = Inr vs" and "v \<in> set vs"
  shows "\<exists>c\<in>set cs. \<exists>js. lc_published_card_json c = Some js \<and> w_loads W js = Some v"
  using assms
proof (induction cs arbitrary: vs)
  case (Cons c cs)
  show ?case
  proof (cases "otruthy (lc_published_card_json c)")
    case False
    with Cons show ?thesis by simp
  next
    case True
    then obtain js where js: "lc_published_card_json c = Some js" by (cases "lc_published_card_json c") (simp_all add: otruthy_def)
    with Cons.prems True obtain x ws where "w_loads W js = Some x" "parse_cards W cs = Inr ws" "vs = x # ws"
      by (cases "w_loads W js"; cases "parse_cards W cs") simp_all
    with Cons.IH [of ws] Cons.prems(2) js show ?thesis by auto
  qed
qed simp

lemma authenticated_contact:
  assumes "verify_signed_auth_headers W hs (\<lambda>un. key_or_none (contact_key d un)) now age = Authenticated u"
  shows "\<exists>c ts t sig pk. c \<in> set (db_contacts d) \<and> ct_username c = u \<and> otruthy (ct_fingerprint_verified_at c)
    \<and> ed_key (ct_public_key c) = Inr (Some pk) \<and> header_get hs ''x-username'' = Some u \<and> header_get hs ''x-timestamp'' = Some ts
    \<and> parse_iso_z W ts = Some t \<and> \<bar>now - t\<bar> \<le> age * 1000000 \<and> c_ed_verify (w_crypto W) pk sig (auth_message u ts)"
proof -
  from assms obtain ts t sig pk where h: "header_get hs ''x-username'' = Some u" "header_get hs ''x-timestamp'' = Some ts"
    "parse_iso_z W ts = Some t" "\<bar>now - t\<bar> \<le> age * 1000000" "key_or_none (contact_key d u) = Some pk"
    "c_ed_verify (w_crypto W) pk sig (auth_message u ts)"
    by (auto simp: verify_signed_auth_headers_def Let_def otruthy_def split: if_splits option.splits sum.splits)
  from h(5) have key: "contact_key d u = Inr (Some pk)" by (cases "contact_key d u") (simp_all add: key_or_none_def)
  then obtain c where c: "find (\<lambda>r. ct_username r = u) (db_contacts d) = Some c"
    by (cases "find (\<lambda>r. ct_username r = u) (db_contacts d)") (simp_all add: contact_key_def)
  with key have "otruthy (ct_fingerprint_verified_at c)" "ed_key (ct_public_key c) = Inr (Some pk)"
    by (simp_all add: contact_key_def split: if_splits)
  moreover have "c \<in> set (db_contacts d)" "ct_username c = u" using c by (auto simp: find_Some_iff)
  ultimately show ?thesis using h by blast
qed


definition demo_node_env :: node_env where
  "demo_node_env = \<lparr>ne_world = demo_world, ne_identity_keys = [], ne_protocol_version = None, ne_setting = (\<lambda>k. None),
     ne_vault_key = Some [9], ne_private_key = None, ne_x25519_key = None, ne_relay_url = []\<rparr>"

definition demo_card_request :: "(string \<times> string) list" where
  "demo_card_request = create_signed_auth_headers demo_world ''alice'' (replicate 32 5) 0"

definition demo_contacts_db :: db where
  "demo_contacts_db = (empty_db ''bob'')\<lparr>db_contacts := [\<lparr>ct_username = ''alice'', ct_endpoint = None, ct_x25519_public_key = None,
     ct_public_key = Some (concat (replicate 32 ''05'')), ct_fingerprint_verified_at = Some ''t''\<rparr>]\<rparr>"


text \<open>
  A rejected envelope is never answered as a success, and the code of the answer tells an unknown key from a
  sender without standing and from a conflict.
\<close>

theorem envelope_answer_codes:
  assumes "process_v11_session_envelope E raw now d = (d', Inr (code, ack))"
  shows "code = 200 \<longleftrightarrow> ta_status ack \<noteq> ''rejected''"
proof -
  from assms have "code = ack_status_code ack"
    by (auto simp: process_v11_session_envelope_def then_do_def Let_def split: prod.splits sum.splits)
  then show ?thesis by (simp add: ack_status_code_def split: option.split)
qed

text \<open>When the keychain fails the route goes on with a key everybody knows.\<close>

lemma keychain_failure_constant_key:
  assumes "ne_vault_key E = None"
  shows "process_v11_session_envelope E raw now d = process_v11_session_envelope (E\<lparr>ne_vault_key := Some (replicate 32 48)\<rparr>) raw now d"
  using assms by (simp add: process_v11_session_envelope_def envelope_key_def [abs_def] CONSTANT_VAULT_KEY_def)

end
