(* ===== verification/Kin_Relay.thy ===== *)
theory Kin_Relay
  imports Kin_Delivery
begin

text \<open>
  The relay and directory service, \<open>kin-relay/kin_relay/routes.py\<close>: registration and lookup of users,
  delivery into a mailbox, and the inbox with its signed acknowledgements; and how it works together
  with the node's side of \<open>transport/v11.py\<close>.

  The state is the committed content of the two tables of \<open>db.py\<close> with the sequence of
  \<open>AUTOINCREMENT\<close>. A request handler opens a connection, and what it does not commit is rolled back
  when the connection closes. An \<open>HTTPException\<close> is a left value with its status code; an uncaught
  exception is status 500. Request bodies have passed their pydantic models.
\<close>

section \<open>Tables\<close>

record directory_entry =
  de_username :: string
  de_public_key :: string
  de_x25519_public_key :: string
  de_endpoint :: string

record mail =
  ml_message_id :: int
  ml_username :: string
  ml_sender_username :: string
  ml_encrypted_blob :: string
  ml_received_at :: string
  ml_expires_at :: string

record relay =
  rl_directory :: "directory_entry list"
  rl_mailbox :: "mail list"
  rl_last_id :: int

definition create_schema :: relay where
  "create_schema = \<lparr>rl_directory = [], rl_mailbox = [], rl_last_id = 0\<rparr>"

definition find_entry :: "relay \<Rightarrow> string \<Rightarrow> directory_entry option" where
  "find_entry R username = find (\<lambda>e. de_username e = username) (rl_directory R)"

section \<open>Directory\<close>

definition register_endpoint :: "directory_entry \<Rightarrow> relay \<Rightarrow> relay \<times> (int + unit)" where
  "register_endpoint body R =
     (case find_entry R (de_username body) of
        Some row \<Rightarrow>
          if de_public_key row \<noteq> de_public_key body then (R, Inl 409)
          else (R\<lparr>rl_directory := map (\<lambda>e. if de_username e = de_username body
                    then e\<lparr>de_endpoint := de_endpoint body, de_x25519_public_key := de_x25519_public_key body\<rparr>
                    else e) (rl_directory R)\<rparr>, Inr ())
      | None \<Rightarrow> (R\<lparr>rl_directory := rl_directory R @ [body]\<rparr>, Inr ()))"

definition lookup_endpoint :: "string \<Rightarrow> relay \<Rightarrow> int + directory_entry" where
  "lookup_endpoint username R = (case find_entry R username of None \<Rightarrow> Inl 404 | Some e \<Rightarrow> Inr e)"

section \<open>Mailboxes\<close>

definition MAILBOX_DAYS :: int where
  "MAILBOX_DAYS = 7"

definition deliver_to_mailbox ::
  "world \<Rightarrow> int \<Rightarrow> string \<Rightarrow> string \<Rightarrow> string \<Rightarrow> relay \<Rightarrow> relay \<times> (int + unit)" where
  "deliver_to_mailbox W now username sender_username encrypted_blob R =
     (case find_entry R username of
        None \<Rightarrow> (R, Inl 404)
      | Some _ \<Rightarrow>
          (R\<lparr>rl_mailbox := rl_mailbox R @
               [\<lparr>ml_message_id = rl_last_id R + 1, ml_username = username, ml_sender_username = sender_username,
                 ml_encrypted_blob = encrypted_blob, ml_received_at = w_isoformat W now,
                 ml_expires_at = w_isoformat W (now + MAILBOX_DAYS * 86400 * 1000000)\<rparr>],
             rl_last_id := rl_last_id R + 1\<rparr>, Inr ()))"

definition REPLAY_WINDOW_MINUTES :: int where
  "REPLAY_WINDOW_MINUTES = 5"

definition authenticate_inbox_request ::
  "world \<Rightarrow> int \<Rightarrow> string option \<Rightarrow> string option \<Rightarrow> string option \<Rightarrow> bytes option \<Rightarrow> relay \<Rightarrow> int + string" where
  "authenticate_inbox_request W now x_username x_signature x_timestamp signed_message R =
     (case (x_username, x_signature, x_timestamp) of
        (Some username, Some signature, Some ts) \<Rightarrow>
          (case w_aware W ts of
             None \<Rightarrow> Inl 400
           | Some timestamp \<Rightarrow>
               if \<bar>now - timestamp\<bar> > REPLAY_WINDOW_MINUTES * 60 * 1000000 then Inl 401
               else (case find_entry R username of
                       None \<Rightarrow> Inl 401
                     | Some row \<Rightarrow>
                         (case (fromhex (de_public_key row), fromhex signature) of
                            (Some pub, Some sig) \<Rightarrow>
                              if length pub = 32
                                 \<and> c_ed_verify (w_crypto W) pub sig
                                     (case signed_message of
                                        Some (b # bs) \<Rightarrow> b # bs
                                      | _ \<Rightarrow> utf8_encode (username @ '':'' @ ts))
                              then Inr username else Inl 401
                          | _ \<Rightarrow> Inl 401)))
      | _ \<Rightarrow> Inl 400)"

text \<open>
  The inbox. Expired mail of the user is deleted, but the deletion is committed only when there is
  mail left to return.
\<close>

definition fetch_inbox ::
  "world \<Rightarrow> int \<Rightarrow> string option \<Rightarrow> string option \<Rightarrow> string option \<Rightarrow> relay \<Rightarrow> relay \<times> (int + mail list)" where
  "fetch_inbox W now x_username x_signature x_timestamp R =
     (case authenticate_inbox_request W now x_username x_signature x_timestamp None R of
        Inl code \<Rightarrow> (R, Inl code)
      | Inr username \<Rightarrow>
          (let now_str = w_isoformat W now;
               kept = filter (\<lambda>m. \<not> (ml_username m = username \<and> ml_expires_at m < now_str)) (rl_mailbox R);
               rows = sort_key ml_received_at
                        (filter (\<lambda>m. ml_username m = username \<and> ml_expires_at m \<ge> now_str) kept)
           in if rows = [] then (R, Inr []) else (R\<lparr>rl_mailbox := kept\<rparr>, Inr rows)))"

definition opt_text :: "string option \<Rightarrow> string" where
  "opt_text x = (case x of None \<Rightarrow> ''None'' | Some s \<Rightarrow> s)"

definition ids_value :: "int list \<Rightarrow> pyval" where
  "ids_value ids = of_dict [(''message_ids'', PList (map PInt ids))]"

definition acknowledge_inbox ::
  "world \<Rightarrow> int \<Rightarrow> int list \<Rightarrow> string option \<Rightarrow> string option \<Rightarrow> string option \<Rightarrow> relay \<Rightarrow> relay \<times> (int + int)" where
  "acknowledge_inbox W now ids x_username x_signature x_timestamp R =
     (case w_dumps_tight W (ids_value ids) of
        None \<Rightarrow> (R, Inl 500)
      | Some ack_payload \<Rightarrow>
        (case authenticate_inbox_request W now x_username x_signature x_timestamp
                (Some (utf8_encode (opt_text x_username @ '':'' @ opt_text x_timestamp @ '':'' @ ack_payload))) R of
           Inl code \<Rightarrow> (R, Inl code)
         | Inr username \<Rightarrow>
             if ids = [] then (R, Inr 0)
             else if \<not> list_all sqlite_int ids then (R, Inl 500)
             else (let gone = (\<lambda>m. ml_username m = username \<and> ml_message_id m \<in> set ids) in
                   (R\<lparr>rl_mailbox := filter (\<lambda>m. \<not> gone m) (rl_mailbox R)\<rparr>,
                    Inr (int (length (filter gone (rl_mailbox R))))))))"

section \<open>The service\<close>

datatype relay_request =
    Register directory_entry
  | Lookup string
  | Deliver string string string
  | Inbox "string option" "string option" "string option"
  | Acknowledge "int list" "string option" "string option" "string option"

text \<open>One request served at a time, at the time \<open>now\<close>.\<close>

fun serve :: "world \<Rightarrow> int \<times> relay_request \<Rightarrow> relay \<Rightarrow> relay" where
  "serve W (now, Register body) R = fst (register_endpoint body R)"
| "serve W (now, Lookup u) R = R"
| "serve W (now, Deliver u s b) R = fst (deliver_to_mailbox W now u s b R)"
| "serve W (now, Inbox u s t) R = fst (fetch_inbox W now u s t R)"
| "serve W (now, Acknowledge ids u s t) R = fst (acknowledge_inbox W now ids u s t R)"

text \<open>Names are unique, and mail is numbered upwards, for registered users only.\<close>

definition relay_inv :: "relay \<Rightarrow> bool" where
  "relay_inv R =
     (distinct (map de_username (rl_directory R)) \<and> sorted_wrt (<) (map ml_message_id (rl_mailbox R))
      \<and> (\<forall>m \<in> set (rl_mailbox R). ml_message_id m \<le> rl_last_id R \<and> find_entry R (ml_username m) \<noteq> None))"

section \<open>The contract of a store-and-forward service\<close>

text \<open>
  What the users of a mailbox service rely on: an invariant, keys that are never reassigned, and mail
  that stays until a request that may remove it.
\<close>

locale store_and_forward =
  fixes step :: "'q \<Rightarrow> 's \<Rightarrow> 's"
    and inv :: "'s \<Rightarrow> bool"
    and key_of :: "'s \<Rightarrow> string \<Rightarrow> string option"
    and holds :: "'s \<Rightarrow> mail \<Rightarrow> bool"
    and removes :: "'q \<Rightarrow> 's \<Rightarrow> mail \<Rightarrow> bool"
  assumes inv_step: "inv s \<Longrightarrow> inv (step q s)"
    and key_step: "inv s \<Longrightarrow> key_of s u = Some k \<Longrightarrow> key_of (step q s) u = Some k"
    and holds_step: "holds s m \<Longrightarrow> \<not> removes q s m \<Longrightarrow> holds (step q s) m"
begin

definition lost_in :: "'q list \<Rightarrow> 's \<Rightarrow> mail \<Rightarrow> bool" where
  "lost_in qs s m = (\<exists>i < length qs. removes (qs ! i) (fold step (take i qs) s) m)"

lemma lost_in_Cons: "lost_in (q # qs) s m \<longleftrightarrow> removes q s m \<or> lost_in qs (step q s) m"
  unfolding lost_in_def by (auto simp: less_Suc_eq_0_disj)

lemma run_inv: "inv s \<Longrightarrow> inv (fold step qs s)"
  by (induction qs arbitrary: s) (auto intro: inv_step)

lemma run_key: "inv s \<Longrightarrow> key_of s u = Some k \<Longrightarrow> key_of (fold step qs s) u = Some k"
  by (induction qs arbitrary: s) (auto intro: inv_step key_step)

lemma run_holds: "holds s m \<Longrightarrow> \<not> lost_in qs s m \<Longrightarrow> holds (fold step qs s) m"
  by (induction qs arbitrary: s) (auto simp: lost_in_Cons intro: holds_step)

end

section \<open>The relay keeps the contract\<close>

lemma find_entry_update:
  assumes "\<And>e. de_username (f e) = de_username e"
  shows "find_entry (R\<lparr>rl_directory := map (\<lambda>e. if de_username e = u then f e else e) (rl_directory R)\<rparr>) v
    = map_option (\<lambda>e. if v = u then f e else e) (find_entry R v)"
proof -
  have "find (\<lambda>e. de_username e = v) (map (\<lambda>e. if de_username e = u then f e else e) es)
      = map_option (\<lambda>e. if v = u then f e else e) (find (\<lambda>e. de_username e = v) es)" for es
    by (induction es) (auto simp: assms)
  then show ?thesis by (simp add: find_entry_def)
qed

lemma find_entry_mailbox [simp]:
  "find_entry (R\<lparr>rl_mailbox := ms\<rparr>) u = find_entry R u"
  "find_entry (R\<lparr>rl_mailbox := ms, rl_last_id := n\<rparr>) u = find_entry R u"
  by (simp_all add: find_entry_def)

definition key_of :: "relay \<Rightarrow> string \<Rightarrow> string option" where
  "key_of R u = map_option de_public_key (find_entry R u)"

lemma register_cases:
  assumes "register_endpoint body R = (R', r)"
  shows "rl_mailbox R' = rl_mailbox R \<and> rl_last_id R' = rl_last_id R
    \<and> (distinct (map de_username (rl_directory R)) \<longrightarrow> distinct (map de_username (rl_directory R')))
    \<and> (\<forall>u. find_entry R u \<noteq> None \<longrightarrow> key_of R' u = key_of R u)"
proof (cases "find_entry R (de_username body)")
  case None
  then have new: "de_username body \<notin> de_username ` set (rl_directory R)" by (auto simp: find_entry_def find_None_iff)
  have R': "R' = R\<lparr>rl_directory := rl_directory R @ [body]\<rparr>" using assms None by (auto simp: register_endpoint_def)
  have "find_entry R' u = find_entry R u" if "find_entry R u \<noteq> None" for u
    using that by (auto simp: R' find_entry_def find_snoc)
  with new R' show ?thesis by (auto simp: key_of_def)
next
  case (Some row)
  let ?f = "\<lambda>e. e\<lparr>de_endpoint := de_endpoint body, de_x25519_public_key := de_x25519_public_key body\<rparr>"
  show ?thesis
  proof (cases "de_public_key row = de_public_key body")
    case True
    with assms Some have R': "R' = R\<lparr>rl_directory := map (\<lambda>e. if de_username e = de_username body then ?f e else e) (rl_directory R)\<rparr>"
      by (auto simp: register_endpoint_def)
    have "map de_username (rl_directory R') = map de_username (rl_directory R)"
        "rl_mailbox R' = rl_mailbox R" "rl_last_id R' = rl_last_id R" by (simp_all add: R')
    moreover have "key_of R' u = key_of R u" for u
      unfolding R' key_of_def by (subst find_entry_update) (auto simp: option.map_comp comp_def intro: option.map_cong)
    ultimately show ?thesis by simp
  qed (use assms Some in \<open>auto simp: register_endpoint_def\<close>)
qed

lemma fetch_cases:
  assumes "fetch_inbox W now u sg ts R = (R', r)"
  shows "R' = R \<or> (\<exists>name. authenticate_inbox_request W now u sg ts None R = Inr name
    \<and> R' = R\<lparr>rl_mailbox := filter (\<lambda>m. \<not> (ml_username m = name \<and> ml_expires_at m < w_isoformat W now)) (rl_mailbox R)\<rparr>)"
  using assms by (auto simp: fetch_inbox_def Let_def split: sum.splits if_splits)

lemma acknowledge_cases:
  assumes "acknowledge_inbox W now ids u sg ts R = (R', r)"
  shows "R' = R \<or> (\<exists>name body. w_dumps_tight W (ids_value ids) = Some body
    \<and> authenticate_inbox_request W now u sg ts
        (Some (utf8_encode (opt_text u @ '':'' @ opt_text ts @ '':'' @ body))) R = Inr name
    \<and> R' = R\<lparr>rl_mailbox := filter (\<lambda>m. \<not> (ml_username m = name \<and> ml_message_id m \<in> set ids)) (rl_mailbox R)\<rparr>)"
  using assms by (auto simp: acknowledge_inbox_def Let_def split: option.splits sum.splits if_splits)

text \<open>What a request may remove: mail its signer owns, when it has expired or is named.\<close>

fun relay_removes :: "world \<Rightarrow> int \<times> relay_request \<Rightarrow> relay \<Rightarrow> mail \<Rightarrow> bool" where
  "relay_removes W (now, Inbox u sg ts) R m =
     (authenticate_inbox_request W now u sg ts None R = Inr (ml_username m) \<and> ml_expires_at m < w_isoformat W now)"
| "relay_removes W (now, Acknowledge ids u sg ts) R m =
     (ml_message_id m \<in> set ids
      \<and> (\<exists>body. w_dumps_tight W (ids_value ids) = Some body
           \<and> authenticate_inbox_request W now u sg ts
               (Some (utf8_encode (opt_text u @ '':'' @ opt_text ts @ '':'' @ body))) R = Inr (ml_username m)))"
| "relay_removes W _ R m = False"

lemma relay_inv_filter: "relay_inv R \<Longrightarrow> relay_inv (R\<lparr>rl_mailbox := filter P (rl_mailbox R)\<rparr>)"
  by (auto simp: relay_inv_def sorted_wrt_map intro!: sorted_wrt_filter)

lemma find_entry_kept: "find_entry R u \<noteq> None \<Longrightarrow> key_of R' u = key_of R u \<Longrightarrow> find_entry R' u \<noteq> None"
  by (auto simp: key_of_def)

lemma relay_inv_serve: "relay_inv R \<Longrightarrow> relay_inv (serve W q R)"
proof (induction W q R rule: serve.induct)
  case (1 W now body R)
  obtain R' r where r: "register_endpoint body R = (R', r)" by force
  have "find_entry R' u \<noteq> None" if "find_entry R u \<noteq> None" for u
    using register_cases [OF r] find_entry_kept that by blast
  with register_cases [OF r] 1 show ?case by (simp add: relay_inv_def r del: not_None_eq)
next
  case (3 W now u s b R)
  then show ?case
    by (force simp: relay_inv_def deliver_to_mailbox_def sorted_wrt_append split: option.split)
next
  case (4 W now u sg ts R)
  obtain R' r where r: "fetch_inbox W now u sg ts R = (R', r)" by force
  from fetch_cases [OF r] relay_inv_filter [OF 4] 4 show ?case by (auto simp: r)
next
  case (5 W now ids u sg ts R)
  obtain R' r where r: "acknowledge_inbox W now ids u sg ts R = (R', r)" by force
  from acknowledge_cases [OF r] relay_inv_filter [OF 5] 5 show ?case by (auto simp: r)
qed simp

lemma relay_key_serve: "key_of R u = Some k \<Longrightarrow> key_of (serve W q R) u = Some k"
proof (induction W q R rule: serve.induct)
  case (1 W now body R)
  obtain R' r where r: "register_endpoint body R = (R', r)" by force
  from register_cases [OF r] 1 show ?case by (auto simp: key_of_def r)
next
  case (3 W now v s b R)
  then show ?case by (simp add: deliver_to_mailbox_def key_of_def split: option.split)
next
  case (4 W now v sg ts R)
  obtain R' r where r: "fetch_inbox W now v sg ts R = (R', r)" by force
  from fetch_cases [OF r] 4 show ?case by (auto simp: r key_of_def)
next
  case (5 W now ids v sg ts R)
  obtain R' r where r: "acknowledge_inbox W now ids v sg ts R = (R', r)" by force
  from acknowledge_cases [OF r] 5 show ?case by (auto simp: r key_of_def)
qed simp

lemma relay_holds_serve:
  "m \<in> set (rl_mailbox R) \<Longrightarrow> \<not> relay_removes W q R m \<Longrightarrow> m \<in> set (rl_mailbox (serve W q R))"
proof (induction W q R rule: serve.induct)
  case (1 W now body R)
  obtain R' r where r: "register_endpoint body R = (R', r)" by force
  from register_cases [OF r] 1 show ?case by (simp add: r)
next
  case (3 W now u s b R)
  then show ?case by (simp add: deliver_to_mailbox_def split: option.split)
next
  case (4 W now u sg ts R)
  obtain R' r where r: "fetch_inbox W now u sg ts R = (R', r)" by force
  from fetch_cases [OF r] 4 show ?case by (auto simp: r)
next
  case (5 W now ids u sg ts R)
  obtain R' r where r: "acknowledge_inbox W now ids u sg ts R = (R', r)" by force
  from acknowledge_cases [OF r] 5 show ?case by (auto simp: r)
qed simp

interpretation relay_service: store_and_forward "serve W" relay_inv key_of "\<lambda>R m. m \<in> set (rl_mailbox R)" "relay_removes W"
  for W
  by unfold_locales (simp_all add: relay_inv_serve relay_key_serve relay_holds_serve)

text \<open>The same, written out for the relay.\<close>

definition removed_in :: "world \<Rightarrow> (int \<times> relay_request) list \<Rightarrow> relay \<Rightarrow> mail \<Rightarrow> bool" where
  "removed_in W qs R m = (\<exists>i < length qs. relay_removes W (qs ! i) (fold (serve W) (take i qs) R) m)"

lemma relay_mail_waits:
  "m \<in> set (rl_mailbox R) \<Longrightarrow> \<not> removed_in W qs R m \<Longrightarrow> m \<in> set (rl_mailbox (fold (serve W) qs R))"
  using relay_service.run_holds [of m R W qs] by (simp add: removed_in_def relay_service.lost_in_def)

section \<open>Node and relay\<close>

lemma hex_value_digit: "n < 16 \<Longrightarrow> hex_value (hex_digit n) = Some n \<and> \<not> ascii_space (hex_digit n)"
proof -
  have "\<forall>n \<in> set [0..<16]. hex_value (hex_digit n) = Some n \<and> \<not> ascii_space (hex_digit n)" by code_simp
  then show "n < 16 \<Longrightarrow> ?thesis" by simp
qed

lemma fromhex_hexdigest [simp]: "fromhex (hexdigest bs) = Some bs"
proof (induction bs)
  case (Cons b bs)
  have lt: "unat b div 16 < 16" "unat b mod 16 < 16"
    using bytes_bounded [of "[b]"] by auto
  have "hexdigest (b # bs) = hex_digit (unat b div 16) # hex_digit (unat b mod 16) # hexdigest bs"
    by (simp add: hexdigest_def)
  moreover have "(of_nat (unat b div 16 * 16 + unat b mod 16) :: byte) = b"
    unfolding div_mult_mod_eq by simp
  ultimately show ?case
    using Cons hex_value_digit [OF lt(1)] hex_value_digit [OF lt(2)] by (simp del: of_nat_add of_nat_mult)
qed (simp add: hexdigest_def)

lemma relay_header_fields:
  "map_of (relay_auth_headers W me sk now b) ''X-Username'' = Some me"
  "map_of (relay_auth_headers W me sk now b) ''X-Timestamp'' = Some (iso_now W now)"
  "map_of (relay_auth_headers W me sk now b) ''X-Signature'' = Some (hexdigest (c_ed_sign (w_crypto W) sk
     (utf8_encode (me @ '':'' @ iso_now W now @ (case b of None \<Rightarrow> [] | Some t \<Rightarrow> '':'' @ t)))))"
  by (simp_all add: relay_auth_headers_def Let_def)

text \<open>A registered key pair whose signatures verify.\<close>

definition registered :: "world \<Rightarrow> relay \<Rightarrow> string \<Rightarrow> bytes \<Rightarrow> bool" where
  "registered W R me sk =
     (key_of R me = Some (hexdigest (c_ed_public (w_crypto W) sk)) \<and> length (c_ed_public (w_crypto W) sk) = 32
      \<and> (\<forall>m. c_ed_verify (w_crypto W) (c_ed_public (w_crypto W) sk) (c_ed_sign (w_crypto W) sk m) m))"

lemma node_headers_accepted:
  assumes "registered W R me sk" and "w_aware W (iso_now W now) = Some t" and "\<bar>rnow - t\<bar> \<le> 300 * 1000000"
    and "utf8_encode (me @ '':'' @ iso_now W now @ (case b of None \<Rightarrow> [] | Some t \<Rightarrow> '':'' @ t)) =
      (case msg of Some (x # xs) \<Rightarrow> x # xs | _ \<Rightarrow> utf8_encode (me @ '':'' @ iso_now W now))"
  shows "authenticate_inbox_request W rnow (map_of (relay_auth_headers W me sk now b) ''X-Username'')
      (map_of (relay_auth_headers W me sk now b) ''X-Signature'')
      (map_of (relay_auth_headers W me sk now b) ''X-Timestamp'') msg R = Inr me"
proof -
  obtain row where row: "find_entry R me = Some row" "de_public_key row = hexdigest (c_ed_public (w_crypto W) sk)"
    using assms(1) by (auto simp: registered_def key_of_def)
  show ?thesis
    unfolding relay_header_fields authenticate_inbox_request_def
    using assms row by (simp add: registered_def REPLAY_WINDOW_MINUTES_def)
qed

lemma utf8_encode_Nil_iff: "utf8_encode s = [] \<longleftrightarrow> s = []"
  by (cases s) (simp_all add: utf8_encode_def utf8_char_def Let_def)

lemma fetch_returns:
  assumes "m \<in> set (rl_mailbox R)" and "authenticate_inbox_request W now name sg ts None R = Inr (ml_username m)"
    and "w_isoformat W now \<le> ml_expires_at m"
  shows "\<exists>rows. snd (fetch_inbox W now name sg ts R) = Inr rows \<and> m \<in> set rows"
proof -
  define rows where "rows = sort_key ml_received_at (filter (\<lambda>x. ml_username x = ml_username m \<and> ml_expires_at x \<ge> w_isoformat W now)
      (filter (\<lambda>x. \<not> (ml_username x = ml_username m \<and> ml_expires_at x < w_isoformat W now)) (rl_mailbox R)))"
  have m: "m \<in> set rows" using assms(1,3) by (auto simp: rows_def)
  have f: "fetch_inbox W now name sg ts R = (if rows = [] then (R, Inr []) else (R\<lparr>rl_mailbox :=
      filter (\<lambda>x. \<not> (ml_username x = ml_username m \<and> ml_expires_at x < w_isoformat W now)) (rl_mailbox R)\<rparr>, Inr rows))"
    unfolding fetch_inbox_def assms(2) sum.case Let_def rows_def by (rule refl)
  from m have "rows \<noteq> []" by auto
  then show ?thesis unfolding f using m by simp
qed

section \<open>Properties\<close>

text \<open>
  The directory never reassigns a name: whatever requests the relay serves, names stay unique, mail
  stays numbered in strictly increasing order and addressed to registered users, and a name keeps
  the public key of its first registration.
\<close>

theorem relay_names_permanent:
  "relay_inv (fold (serve W) qs create_schema)
   \<and> (\<forall>u k. key_of (fold (serve W) qs create_schema) u = Some k \<longrightarrow>
        key_of (fold (serve W) (qs @ later) create_schema) u = Some k)"
proof -
  have i: "relay_inv create_schema" by (simp add: relay_inv_def create_schema_def)
  then have j: "relay_inv (fold (serve W) qs create_schema)" by (rule relay_service.run_inv)
  with relay_service.run_key [OF j] show ?thesis by simp
qed

theorem relay_names_permanent_witness:
  "key_of (fold (serve demo_world) ([(0, Register \<lparr>de_username = ''bob'', de_public_key = ''06'',
        de_x25519_public_key = ''07'', de_endpoint = ''http://bob''\<rparr>)] @
      [(1, Register \<lparr>de_username = ''bob'', de_public_key = ''08'', de_x25519_public_key = ''07'',
        de_endpoint = ''http://mallory''\<rparr>)]) create_schema) ''bob'' = Some ''06''"
proof -
  let ?qs = "[(0, Register \<lparr>de_username = ''bob'', de_public_key = ''06'',
        de_x25519_public_key = ''07'', de_endpoint = ''http://bob''\<rparr>)]"
  have "key_of (fold (serve demo_world) ?qs create_schema) ''bob'' = Some ''06''"
    by (simp add: key_of_def find_entry_def register_endpoint_def create_schema_def)
  with relay_names_permanent [of demo_world ?qs] show ?thesis by blast
qed

text \<open>
  C29. Mail waits for its owner: a delivered message is given its own number, and as long as no
  served request is an acknowledgement of that number, or a fetch after expiry, each signed with the
  owner's key, it stays in the mailbox and every authenticated fetch of the owner before the expiry
  returns it.
\<close>

theorem mail_waits_for_its_owner:
  assumes "deliver_to_mailbox W t u sdr blob R = (R1, Inr ())" and "relay_inv R"
  shows "\<exists>m. ml_username m = u \<and> ml_sender_username m = sdr \<and> ml_encrypted_blob m = blob
    \<and> (\<forall>m' \<in> set (rl_mailbox R). ml_message_id m' < ml_message_id m)
    \<and> (\<forall>qs now name sg ts. \<not> removed_in W qs R1 m
         \<and> authenticate_inbox_request W now name sg ts None (fold (serve W) qs R1) = Inr u
         \<and> w_isoformat W now \<le> w_isoformat W (t + 7 * 86400 * 1000000) \<longrightarrow>
           (\<exists>rows. snd (fetch_inbox W now name sg ts (fold (serve W) qs R1)) = Inr rows \<and> m \<in> set rows))"
proof -
  define m where "m = \<lparr>ml_message_id = rl_last_id R + 1, ml_username = u, ml_sender_username = sdr,
      ml_encrypted_blob = blob, ml_received_at = w_isoformat W t,
      ml_expires_at = w_isoformat W (t + MAILBOX_DAYS * 86400 * 1000000)\<rparr>"
  have m: "m \<in> set (rl_mailbox R1)"
    using assms(1) by (auto simp: deliver_to_mailbox_def m_def split: option.splits)
  have new: "\<forall>m' \<in> set (rl_mailbox R). ml_message_id m' < ml_message_id m"
    using assms(2) by (auto simp: relay_inv_def m_def)
  have u: "ml_username m = u" "ml_expires_at m = w_isoformat W (t + 7 * 86400 * 1000000)"
    by (simp_all add: m_def MAILBOX_DAYS_def)
  show ?thesis
    using new relay_mail_waits [OF m] fetch_returns [of m _ W, unfolded u]
    by (intro exI [of _ m] conjI allI impI) (auto simp: m_def)
qed

definition demo_entry :: directory_entry where
  "demo_entry = \<lparr>de_username = ''bob'', de_public_key = hexdigest (replicate 32 6), de_x25519_public_key = ''07'',
     de_endpoint = ''http://bob''\<rparr>"

definition demo_relay :: relay where
  "demo_relay = \<lparr>rl_directory = [demo_entry], rl_mailbox = [], rl_last_id = 0\<rparr>"

lemma demo_relay_inv: "relay_inv demo_relay"
  by (simp add: relay_inv_def demo_relay_def)

lemma demo_registered: "registered demo_world demo_relay ''bob'' (replicate 32 6)"
  by (simp add: registered_def key_of_def find_entry_def demo_relay_def demo_entry_def demo_world_def demo_crypto_def)

lemma registered_cong: "rl_directory R' = rl_directory R \<Longrightarrow> registered W R' me sk = registered W R me sk"
  by (simp add: registered_def key_of_def find_entry_def)

definition demo_delivered :: relay where
  "demo_delivered = fst (deliver_to_mailbox demo_world 0 ''bob'' ''alice'' ''00'' demo_relay)"

theorem mail_waits_for_its_owner_witness:
  "\<exists>h rows m. snd (fetch_inbox demo_world 0 (map_of h ''X-Username'') (map_of h ''X-Signature'') (map_of h ''X-Timestamp'')
      demo_delivered) = Inr rows \<and> m \<in> set rows \<and> ml_encrypted_blob m = ''00''"
proof -
  have d: "deliver_to_mailbox demo_world 0 ''bob'' ''alice'' ''00'' demo_relay = (demo_delivered, Inr ())"
    by (simp add: demo_delivered_def deliver_to_mailbox_def demo_relay_def demo_entry_def find_entry_def)
  let ?h = "relay_auth_headers demo_world ''bob'' (replicate 32 6) 0 None"
  have "rl_directory demo_delivered = rl_directory demo_relay"
    by (simp add: demo_delivered_def deliver_to_mailbox_def split: option.split)
  then have "registered demo_world demo_delivered ''bob'' (replicate 32 6)"
    using demo_registered registered_cong by metis
  then have auth: "authenticate_inbox_request demo_world 0 (map_of ?h ''X-Username'') (map_of ?h ''X-Signature'')
      (map_of ?h ''X-Timestamp'') None demo_delivered = Inr ''bob''"
    by (rule node_headers_accepted [where t = 0]) (simp_all add: demo_world_def)
  obtain m where m: "ml_encrypted_blob m = ''00''"
    and f: "\<forall>qs now name sg ts. \<not> removed_in demo_world qs demo_delivered m
         \<and> authenticate_inbox_request demo_world now name sg ts None (fold (serve demo_world) qs demo_delivered) = Inr ''bob''
         \<and> w_isoformat demo_world now \<le> w_isoformat demo_world (0 + 7 * 86400 * 1000000) \<longrightarrow>
           (\<exists>rows. snd (fetch_inbox demo_world now name sg ts (fold (serve demo_world) qs demo_delivered)) = Inr rows \<and> m \<in> set rows)"
    using mail_waits_for_its_owner [OF d demo_relay_inv] by (elim exE conjE)
  have "\<not> removed_in demo_world [] demo_delivered m" by (simp add: removed_in_def)
  moreover have "w_isoformat demo_world 0 \<le> w_isoformat demo_world (0 + 7 * 86400 * 1000000)" by (simp add: demo_world_def)
  ultimately show ?thesis
    using f [rule_format, of "[]" 0 "map_of ?h ''X-Username''" "map_of ?h ''X-Signature''" "map_of ?h ''X-Timestamp''"] auth m
    by (intro exI [of _ ?h]) auto
qed

text \<open>
  C32. Node and relay agree on signatures: with the node's key registered and the clocks within five
  minutes, the headers the node makes for its inbox authenticate it, and the acknowledgement it sends
  for a message removes exactly the mail with that number from its own mailbox.
\<close>

theorem node_acknowledgement_honoured:
  assumes "registered W R me sk" and "w_aware W (iso_now W now) = Some t" and "\<bar>rnow - t\<bar> \<le> 300 * 1000000"
    and "w_dumps_tight W (ids_value [i]) = Some body" and "sqlite_int i"
  shows "authenticate_inbox_request W rnow (map_of (relay_auth_headers W me sk now None) ''X-Username'')
      (map_of (relay_auth_headers W me sk now None) ''X-Signature'')
      (map_of (relay_auth_headers W me sk now None) ''X-Timestamp'') None R = Inr me
    \<and> acknowledge_inbox W rnow [i] (map_of (relay_auth_headers W me sk now (Some body)) ''X-Username'')
      (map_of (relay_auth_headers W me sk now (Some body)) ''X-Signature'')
      (map_of (relay_auth_headers W me sk now (Some body)) ''X-Timestamp'') R
      = (R\<lparr>rl_mailbox := filter (\<lambda>m. \<not> (ml_username m = me \<and> ml_message_id m = i)) (rl_mailbox R)\<rparr>,
         Inr (int (length (filter (\<lambda>m. ml_username m = me \<and> ml_message_id m = i) (rl_mailbox R)))))"
proof
  show "authenticate_inbox_request W rnow (map_of (relay_auth_headers W me sk now None) ''X-Username'')
      (map_of (relay_auth_headers W me sk now None) ''X-Signature'')
      (map_of (relay_auth_headers W me sk now None) ''X-Timestamp'') None R = Inr me"
    by (rule node_headers_accepted [OF assms(1-3)]) simp
next
  let ?msg = "utf8_encode (me @ '':'' @ iso_now W now @ '':'' @ body)"
  have ne: "?msg \<noteq> []" by (simp add: utf8_encode_Nil_iff)
  then obtain x xs where x: "?msg = x # xs" by (cases ?msg) auto
  have "authenticate_inbox_request W rnow (map_of (relay_auth_headers W me sk now (Some body)) ''X-Username'')
      (map_of (relay_auth_headers W me sk now (Some body)) ''X-Signature'')
      (map_of (relay_auth_headers W me sk now (Some body)) ''X-Timestamp'') (Some ?msg) R = Inr me"
    by (rule node_headers_accepted [OF assms(1-3)]) (use x in simp)
  then show "acknowledge_inbox W rnow [i] (map_of (relay_auth_headers W me sk now (Some body)) ''X-Username'')
      (map_of (relay_auth_headers W me sk now (Some body)) ''X-Signature'')
      (map_of (relay_auth_headers W me sk now (Some body)) ''X-Timestamp'') R
      = (R\<lparr>rl_mailbox := filter (\<lambda>m. \<not> (ml_username m = me \<and> ml_message_id m = i)) (rl_mailbox R)\<rparr>,
         Inr (int (length (filter (\<lambda>m. ml_username m = me \<and> ml_message_id m = i) (rl_mailbox R)))))"
    using assms(4,5) by (simp add: acknowledge_inbox_def relay_header_fields(1,2) opt_text_def)
qed

theorem node_acknowledgement_honoured_witness:
  "\<exists>h. snd (acknowledge_inbox demo_world 0 [1] (map_of h ''X-Username'') (map_of h ''X-Signature'') (map_of h ''X-Timestamp'')
      demo_relay) = Inr 0"
proof -
  have "w_dumps_tight demo_world (ids_value [1]) = Some ''{}''" "sqlite_int 1" "w_aware demo_world (iso_now demo_world 0) = Some 0"
    by (simp_all add: demo_world_def sqlite_int_def)
  from node_acknowledgement_honoured [OF demo_registered this(3) _ this(1,2), of 0]
  have "snd (acknowledge_inbox demo_world 0 [1] (map_of (relay_auth_headers demo_world ''bob'' (replicate 32 6) 0 (Some ''{}'')) ''X-Username'')
      (map_of (relay_auth_headers demo_world ''bob'' (replicate 32 6) 0 (Some ''{}'')) ''X-Signature'')
      (map_of (relay_auth_headers demo_world ''bob'' (replicate 32 6) 0 (Some ''{}'')) ''X-Timestamp'') demo_relay) = Inr 0"
    by (simp add: demo_relay_def)
  then show ?thesis by blast
qed


text \<open>The empty envelope of alice, relayed to bob.\<close>

definition demo_wire :: db where
  "demo_wire = (empty_db ''alice'')\<lparr>db_wire := [(''POST'', ''/relay/mailbox/bob'',
     of_dict [(''sender_username'', PStr ''alice''), (''encrypted_blob'',
       PStr (hexdigest (encrypt_for_recipient demo_online [7] [7] 0 (utf8_encode ''{}''))))])]\<rparr>"


end
