(* ===== verification/Kin_Identity.thy ===== *)
theory Kin_Identity
  imports Kin_Relay
begin

text \<open>
  The identity of a profile: \<open>kin-node/kin/identity/storage.py\<close> (secrets in the system keychain),
  \<open>keys.py\<close> (derivation of the key pairs), \<open>setup.py\<close> (first run), \<open>fingerprint.py\<close> and \<open>resolver.py\<close> (the
  boundary between profiles).

  The keychain is a state: its backend and its entries. The BIP39 library (phrases, seeds, word list) is a
  record of parameters; \<open>Path.resolve\<close> of a joined path is a parameter of the resolver.
\<close>

section \<open>The keychain\<close>

record keychain =
  kc_backend :: string \<comment> \<open>fully qualified class of the active backend\<close>
  kc_test_backend :: bool \<comment> \<open>\<open>KIN_TEST_BACKEND\<close> is set\<close>
  kc_entries :: "((string \<times> string) \<times> string) list"
  kc_tick :: nat

definition SECURE_BACKENDS :: "string list" where
  "SECURE_BACKENDS = [''keyring.backends.Windows.WinVaultKeyring'', ''keyring.backends.macOS.Keychain'',
     ''keyring.backends.SecretService.Keyring'', ''keyring.backends.kwallet.DBusKeyring'']"

definition assert_secure_backend :: "keychain \<Rightarrow> unit result" where
  "assert_secure_backend kc =
     (if kc_test_backend kc \<or> kc_backend kc \<in> set SECURE_BACKENDS then Inr ()
      else Inl (AppError ''InsecureBackendError''))"

definition get_password :: "keychain \<Rightarrow> string \<Rightarrow> string \<Rightarrow> string option" where
  "get_password kc service user = map_of (kc_entries kc) (service, user)"

definition set_password :: "string \<Rightarrow> string \<Rightarrow> string \<Rightarrow> keychain \<Rightarrow> keychain" where
  "set_password service user secret kc = kc\<lparr>kc_entries := AList.update (service, user) secret (kc_entries kc)\<rparr>"

definition get_private_key_service :: "string \<Rightarrow> string" where
  "get_private_key_service profile = ''kin-'' @ profile @ ''-private-key''"

definition get_x25519_private_key_service :: "string \<Rightarrow> string" where
  "get_x25519_private_key_service profile = ''kin-'' @ profile @ ''-x25519-private-key''"

definition get_vault_key_service :: "string \<Rightarrow> string" where
  "get_vault_key_service profile = ''kin-'' @ profile @ ''-vault-key''"

definition get_llm_api_key_service :: "string \<Rightarrow> string \<Rightarrow> string" where
  "get_llm_api_key_service profile provider = ''kin-'' @ profile @ ''-llm-'' @ lower provider"

definition save_secret :: "string \<Rightarrow> string \<Rightarrow> string \<Rightarrow> keychain \<Rightarrow> keychain \<times> unit result" where
  "save_secret service user secret kc =
     (case assert_secure_backend kc of
        Inl e \<Rightarrow> (kc, Inl e)
      | Inr _ \<Rightarrow> (set_password service user secret kc, Inr ()))"

definition load_hex :: "string \<Rightarrow> string \<Rightarrow> keychain \<Rightarrow> bytes result" where
  "load_hex service user kc =
     (case Option.bind (get_password kc service user) fromhex of
        None \<Rightarrow> Inl (AppError ''SecretNotFoundError'')
      | Some b \<Rightarrow> Inr b)"

definition save_private_key :: "string \<Rightarrow> bytes \<Rightarrow> keychain \<Rightarrow> keychain \<times> unit result" where
  "save_private_key profile private_key kc =
     save_secret (get_private_key_service profile) ''private_key'' (hexdigest private_key) kc"

definition load_private_key :: "string \<Rightarrow> keychain \<Rightarrow> bytes result" where
  "load_private_key profile kc = load_hex (get_private_key_service profile) ''private_key'' kc"

definition save_x25519_private_key :: "string \<Rightarrow> bytes \<Rightarrow> keychain \<Rightarrow> keychain \<times> unit result" where
  "save_x25519_private_key profile private_key kc =
     save_secret (get_x25519_private_key_service profile) ''x25519_private_key'' (hexdigest private_key) kc"

definition load_x25519_private_key :: "string \<Rightarrow> keychain \<Rightarrow> bytes result" where
  "load_x25519_private_key profile kc = load_hex (get_x25519_private_key_service profile) ''x25519_private_key'' kc"

definition save_llm_api_key :: "string \<Rightarrow> string \<Rightarrow> string \<Rightarrow> keychain \<Rightarrow> keychain \<times> unit result" where
  "save_llm_api_key profile provider api_key kc =
     save_secret (get_llm_api_key_service profile provider) ''api_key'' api_key kc"

definition stored_llm_api_key :: "string \<Rightarrow> string \<Rightarrow> keychain \<Rightarrow> string result" where
  "stored_llm_api_key profile provider kc =
     (case get_password kc (get_llm_api_key_service profile provider) ''api_key'' of
        None \<Rightarrow> Inl (AppError ''SecretNotFoundError'')
      | Some k \<Rightarrow> Inr k)"

text \<open>\<open>get_or_create_vault_key\<close>: 32 random bytes on first use, read at the index \<open>kc_tick\<close>.\<close>

definition get_or_create_vault_key :: "(nat \<Rightarrow> bytes) \<Rightarrow> string \<Rightarrow> keychain \<Rightarrow> keychain \<times> bytes result" where
  "get_or_create_vault_key urandom profile kc =
     (case assert_secure_backend kc of
        Inl e \<Rightarrow> (kc, Inl e)
      | Inr _ \<Rightarrow>
          (case get_password kc (get_vault_key_service profile) ''vault_key'' of
             None \<Rightarrow>
               (let key_bytes = urandom (kc_tick kc) in
                (set_password (get_vault_key_service profile) ''vault_key'' (hexdigest key_bytes) (kc\<lparr>kc_tick := Suc (kc_tick kc)\<rparr>),
                 Inr key_bytes))
           | Some hex \<Rightarrow>
               (kc, case fromhex hex of None \<Rightarrow> Inl (AppError ''SecretNotFoundError'') | Some b \<Rightarrow> Inr b)))"

section \<open>Keys and the first run\<close>

record mnemonic =
  mn_generate :: "nat \<Rightarrow> string" \<comment> \<open>a phrase of 128 bits of entropy\<close>
  mn_check :: "string \<Rightarrow> bool"
  mn_seed :: "string \<Rightarrow> bytes" \<comment> \<open>\<open>to_seed\<close> with an empty passphrase\<close>
  mn_wordlist :: "string list"

definition derive_key_pair :: "world \<Rightarrow> mnemonic \<Rightarrow> string \<Rightarrow> (bytes \<times> bytes) result" where
  "derive_key_pair W M phrase =
     (if \<not> mn_check M phrase then Inl ValueError
      else let seed = w_hkdf W ''kin-ed25519-key-derivation'' (mn_seed M phrase)
           in Inr (seed, c_ed_public (w_crypto W) seed))"

definition derive_x25519_key_pair :: "world \<Rightarrow> mnemonic \<Rightarrow> string \<Rightarrow> (bytes \<times> bytes) result" where
  "derive_x25519_key_pair W M phrase =
     (if \<not> mn_check M phrase then Inl ValueError
      else let seed = w_hkdf W ''kin-x25519-key-derivation'' (mn_seed M phrase)
           in Inr (seed, w_x25519_public W seed))"

definition setup_new_identity :: "world \<Rightarrow> mnemonic \<Rightarrow> string \<Rightarrow> keychain \<Rightarrow> keychain \<times> string result" where
  "setup_new_identity W M profile kc =
     (let phrase = mn_generate M (kc_tick kc); kc0 = kc\<lparr>kc_tick := Suc (kc_tick kc)\<rparr>
      in case derive_key_pair W M phrase of
           Inl e \<Rightarrow> (kc0, Inl e)
         | Inr (private_key, _) \<Rightarrow>
             (case save_private_key profile private_key kc0 of
                (kc1, Inl e) \<Rightarrow> (kc1, Inl e)
              | (kc1, Inr _) \<Rightarrow> (kc1, Inr phrase)))"

text \<open>\<open>s.split()\<close>.\<close>

fun split_words :: "string \<Rightarrow> string \<Rightarrow> string list" where
  "split_words cur [] = (if cur = [] then [] else [rev cur])"
| "split_words cur (ch # s) =
     (if is_space ch then (if cur = [] then split_words [] s else rev cur # split_words [] s)
      else split_words (ch # cur) s)"

definition verify_phrase_confirmation :: "string \<Rightarrow> int list \<Rightarrow> string list \<Rightarrow> bool" where
  "verify_phrase_confirmation phrase word_indices user_input =
     (let ws = split_words [] (strip phrase)
      in length word_indices = length user_input
         \<and> list_all (\<lambda>(idx, w). 0 \<le> idx \<and> idx < int (length ws) \<and> strip (lower (ws ! nat idx)) = strip (lower w))
             (zip word_indices user_input))"

section \<open>Fingerprints\<close>

definition key_word :: "mnemonic \<Rightarrow> bytes \<Rightarrow> nat \<Rightarrow> string" where
  "key_word M digest i = mn_wordlist M ! ((unat (digest ! (2 * i)) * 256 + unat (digest ! (2 * i + 1))) mod 2048)"

definition fingerprint_words :: "world \<Rightarrow> mnemonic \<Rightarrow> bytes \<Rightarrow> bytes \<Rightarrow> string list" where
  "fingerprint_words W M a b =
     (let ks = sort [a, b]; digest = take 8 (c_sha256 (w_crypto W) (ks ! 0 @ ks ! 1))
      in map (key_word M digest) [0, 1, 2, 3])"

definition compute_fingerprint :: "world \<Rightarrow> mnemonic \<Rightarrow> bytes \<Rightarrow> bytes \<Rightarrow> string" where
  "compute_fingerprint W M a b = join_with (CHR ''-'') (fingerprint_words W M a b)"

section \<open>The boundary between profiles\<close>

record resolver =
  rs_active :: string
  rs_profile_dir :: "string list"

definition PROFILE_NAME_REGEX :: "string \<Rightarrow> bool" where
  "PROFILE_NAME_REGEX = at_dollar (\<lambda>s. s \<noteq> [] \<and> list_all (\<lambda>ch. is_alnum ch \<or> ch = CHR ''_'' \<or> ch = CHR ''-'') s)"

text \<open>Paths are lists of resolved segments; \<open>res\<close> is \<open>resolve\<close> of a directory joined with a relative path.\<close>

definition make_resolver :: "(string list \<Rightarrow> string \<Rightarrow> string list) \<Rightarrow> string \<Rightarrow> string list \<Rightarrow> resolver result" where
  "make_resolver res active root =
     (if \<not> PROFILE_NAME_REGEX active then Inl ValueError
      else Inr \<lparr>rs_active = active, rs_profile_dir = res root (''profiles/'' @ active)\<rparr>)"

definition boundary_check :: "resolver \<Rightarrow> string \<Rightarrow> unit result" where
  "boundary_check R target_profile =
     (if \<not> PROFILE_NAME_REGEX target_profile then Inl ValueError
      else if target_profile \<noteq> rs_active R then Inl (AppError ''AccessBoundaryViolation'')
      else Inr ())"

definition resolve_profile_path ::
  "(string list \<Rightarrow> string \<Rightarrow> string list) \<Rightarrow> resolver \<Rightarrow> string \<Rightarrow> string \<Rightarrow> string list result" where
  "resolve_profile_path res R target_profile relative_path =
     (case boundary_check R target_profile of
        Inl e \<Rightarrow> Inl e
      | Inr _ \<Rightarrow>
          (let resolved = res (rs_profile_dir R) relative_path
           in if take (length (rs_profile_dir R)) resolved = rs_profile_dir R then Inr resolved
              else Inl (AppError ''AccessBoundaryViolation'')))"

definition resolve_keychain_service :: "resolver \<Rightarrow> string \<Rightarrow> string \<Rightarrow> string option \<Rightarrow> string result" where
  "resolve_keychain_service R target_profile service_type provider =
     (case boundary_check R target_profile of
        Inl e \<Rightarrow> Inl e
      | Inr _ \<Rightarrow>
          if service_type = ''private_key'' then Inr (get_private_key_service (rs_active R))
          else if service_type = ''x25519_private_key'' then Inr (get_x25519_private_key_service (rs_active R))
          else if service_type = ''llm_api_key'' \<and> otruthy provider
          then Inr (get_llm_api_key_service (rs_active R) (the provider))
          else Inl ValueError)"

section \<open>Lemmas\<close>

lemma get_set_password:
  "get_password (set_password s u v kc) s' u' = (if s' = s \<and> u' = u then Some v else get_password kc s' u')"
  by (simp add: get_password_def set_password_def update_conv')

lemma set_password_backend [simp]:
  "kc_backend (set_password s u v kc) = kc_backend kc" "kc_test_backend (set_password s u v kc) = kc_test_backend kc"
  by (simp_all add: set_password_def)

lemma save_secret_ok:
  assumes "save_secret service user secret kc = (kc', Inr ())"
  shows "kc' = set_password service user secret kc" and "assert_secure_backend kc = Inr ()"
  using assms by (auto simp: save_secret_def split: sum.splits)

lemma load_hex_stored: "load_hex s u (set_password s u (hexdigest b) kc) = Inr b"
  by (simp add: load_hex_def get_set_password fromhex_hexdigest)

section \<open>Properties\<close>

text \<open>
  Secrets survive the keychain: a private key that was saved loads as the same bytes, and saving it
  changes no other entry; on a backend that is neither an allowed credential manager nor a marked test
  double nothing is written and the call raises. The vault key is made once: asking again returns the same
  key and writes nothing.
\<close>

theorem secrets_roundtrip:
  assumes "save_private_key profile sk kc = (kc', r)" and "get_or_create_vault_key urandom profile kc = (kc1, Inr key)"
  shows "r = Inr () \<and> load_private_key profile kc' = Inr sk
    \<and> (\<forall>s u. (s, u) \<noteq> (get_private_key_service profile, ''private_key'') \<longrightarrow> get_password kc' s u = get_password kc s u)
    \<and> get_or_create_vault_key urandom profile kc1 = (kc1, Inr key)
    \<and> (kc_test_backend kc \<or> kc_backend kc \<in> set SECURE_BACKENDS)"
proof -
  have secure: "kc_test_backend kc \<or> kc_backend kc \<in> set SECURE_BACKENDS"
    using assms(2) by (auto simp: get_or_create_vault_key_def assert_secure_backend_def split: if_splits)
  then have ok: "assert_secure_backend kc = Inr ()" by (simp add: assert_secure_backend_def)
  with assms(1) have kc': "kc' = set_password (get_private_key_service profile) ''private_key'' (hexdigest sk) kc" "r = Inr ()"
    by (simp_all add: save_private_key_def save_secret_def)
  have again: "get_or_create_vault_key urandom profile kc1 = (kc1, Inr key)"
  proof (cases "get_password kc (get_vault_key_service profile) ''vault_key''")
    case None
    with assms(2) ok have "kc1 = set_password (get_vault_key_service profile) ''vault_key'' (hexdigest key) (kc\<lparr>kc_tick := Suc (kc_tick kc)\<rparr>)"
      by (auto simp: get_or_create_vault_key_def Let_def)
    then show ?thesis
      using secure by (simp add: get_or_create_vault_key_def assert_secure_backend_def get_set_password fromhex_hexdigest)
  next
    case (Some hex)
    with assms(2) ok show ?thesis by (auto simp: get_or_create_vault_key_def split: option.splits)
  qed
  show ?thesis
    using secure again kc' by (simp add: load_private_key_def load_hex_stored get_set_password)
qed

definition demo_keychain :: keychain where
  "demo_keychain = \<lparr>kc_backend = ''keyring.backends.macOS.Keychain'', kc_test_backend = False, kc_entries = [], kc_tick = 0\<rparr>"

theorem secrets_roundtrip_witness:
  "load_private_key ''p'' (fst (save_private_key ''p'' [1, 255] demo_keychain)) = Inr [1, 255]
    \<and> snd (get_or_create_vault_key (\<lambda>n. [7]) ''p'' demo_keychain) = Inr [7]"
proof -
  have v: "get_or_create_vault_key (\<lambda>n. [7]) ''p'' demo_keychain
      = (fst (get_or_create_vault_key (\<lambda>n. [7]) ''p'' demo_keychain), Inr [7])"
    by (simp add: get_or_create_vault_key_def demo_keychain_def assert_secure_backend_def SECURE_BACKENDS_def get_password_def Let_def)
  have s: "save_private_key ''p'' [1, 255] demo_keychain
      = (fst (save_private_key ''p'' [1, 255] demo_keychain), snd (save_private_key ''p'' [1, 255] demo_keychain))" by simp
  from secrets_roundtrip [OF s v] v show ?thesis by (metis snd_conv)
qed

text \<open>An insecure backend receives no secret, whatever is saved.\<close>

theorem insecure_backend_refused:
  assumes "\<not> kc_test_backend kc" and "kc_backend kc \<notin> set SECURE_BACKENDS"
  shows "save_private_key profile sk kc = (kc, Inl (AppError ''InsecureBackendError''))"
    and "save_x25519_private_key profile sk kc = (kc, Inl (AppError ''InsecureBackendError''))"
    and "save_llm_api_key profile provider k kc = (kc, Inl (AppError ''InsecureBackendError''))"
    and "get_or_create_vault_key urandom profile kc = (kc, Inl (AppError ''InsecureBackendError''))"
  using assms
  by (simp_all add: save_private_key_def save_x25519_private_key_def save_llm_api_key_def get_or_create_vault_key_def
      save_secret_def assert_secure_backend_def)

text \<open>
  C18. An identity can be recovered: when the first run returns a recovery phrase, deriving the key pair from
  that phrase gives the very private key the keychain now holds for the profile, and the public key that
  verifies its signatures.
\<close>

theorem identity_recoverable:
  assumes "setup_new_identity W M profile kc = (kc', Inr phrase)"
    and "\<And>sk m. c_ed_verify (w_crypto W) (c_ed_public (w_crypto W) sk) (c_ed_sign (w_crypto W) sk m) m"
  shows "\<exists>sk pk. derive_key_pair W M phrase = Inr (sk, pk) \<and> load_private_key profile kc' = Inr sk
    \<and> (\<forall>m. c_ed_verify (w_crypto W) pk (c_ed_sign (w_crypto W) sk m) m)"
proof -
  let ?kc = "kc\<lparr>kc_tick := Suc (kc_tick kc)\<rparr>"
  from assms(1) obtain sk pk where keys: "derive_key_pair W M (mn_generate M (kc_tick kc)) = Inr (sk, pk)"
    by (auto simp: setup_new_identity_def Let_def split: sum.splits)
  with assms(1) have saved: "save_private_key profile sk ?kc = (kc', Inr ())" and phrase: "phrase = mn_generate M (kc_tick kc)"
    by (auto simp: setup_new_identity_def Let_def split: prod.splits sum.splits)
  have "kc' = set_password (get_private_key_service profile) ''private_key'' (hexdigest sk) ?kc"
    using save_secret_ok(1) saved by (simp add: save_private_key_def)
  then have "load_private_key profile kc' = Inr sk" by (simp add: load_private_key_def load_hex_stored)
  moreover have "pk = c_ed_public (w_crypto W) sk"
    using keys by (auto simp: derive_key_pair_def Let_def split: if_splits)
  ultimately show ?thesis using keys phrase assms(2) by auto
qed

definition demo_mnemonic :: mnemonic where
  "demo_mnemonic = \<lparr>mn_generate = (\<lambda>n. ''a b''), mn_check = (\<lambda>s. True), mn_seed = (\<lambda>s. [5]), mn_wordlist = replicate 2048 ''w''\<rparr>"

theorem identity_recoverable_witness:
  "snd (setup_new_identity demo_world demo_mnemonic ''p'' demo_keychain) = Inr ''a b''
    \<and> load_private_key ''p'' (fst (setup_new_identity demo_world demo_mnemonic ''p'' demo_keychain)) = Inr [5]"
proof -
  have s: "setup_new_identity demo_world demo_mnemonic ''p'' demo_keychain
      = (fst (setup_new_identity demo_world demo_mnemonic ''p'' demo_keychain), Inr ''a b'')"
    by (simp add: setup_new_identity_def demo_mnemonic_def derive_key_pair_def save_private_key_def save_secret_def
        assert_secure_backend_def demo_keychain_def SECURE_BACKENDS_def Let_def)
  have v: "\<And>sk m. c_ed_verify (w_crypto demo_world) (c_ed_public (w_crypto demo_world) sk) (c_ed_sign (w_crypto demo_world) sk m) m"
    by (simp add: demo_world_def demo_crypto_def)
  have d: "derive_key_pair demo_world demo_mnemonic ''a b'' = Inr ([5], [5])"
    by (simp add: derive_key_pair_def demo_mnemonic_def demo_world_def demo_crypto_def Let_def)
  from identity_recoverable [OF s v] d s show ?thesis by (metis Pair_inject snd_conv sum.inject(2))
qed

text \<open>
  Both sides of a pairing read the same fingerprint, four words of the list, whoever computes it.
\<close>

theorem fingerprint_symmetric:
  assumes "length (mn_wordlist M) = 2048"
  shows "compute_fingerprint W M a b = compute_fingerprint W M b a"
    and "length (fingerprint_words W M a b) = 4" and "set (fingerprint_words W M a b) \<subseteq> set (mn_wordlist M)"
proof -
  have "sort [a, b] = sort [b, a]"
    by (cases "a \<le> b"; cases "b \<le> a") auto
  then show "compute_fingerprint W M a b = compute_fingerprint W M b a"
    by (simp only: compute_fingerprint_def fingerprint_words_def)
  show "length (fingerprint_words W M a b) = 4" by (simp add: fingerprint_words_def Let_def)
  have "key_word M digest i \<in> set (mn_wordlist M)" for digest i
    unfolding key_word_def using assms by (intro nth_mem) simp
  then show "set (fingerprint_words W M a b) \<subseteq> set (mn_wordlist M)"
    by (auto simp: fingerprint_words_def Let_def)
qed

text \<open>
  A resolver serves its own profile only: a path it returns lies below the directory of the active profile,
  and a service it names belongs to the active profile.
\<close>

theorem resolver_keeps_boundary:
  shows "resolve_profile_path res R target rel = Inr path \<Longrightarrow>
      target = rs_active R \<and> take (length (rs_profile_dir R)) path = rs_profile_dir R"
    and "resolve_keychain_service R target st provider = Inr service \<Longrightarrow>
      target = rs_active R \<and> service \<in> {get_private_key_service target, get_x25519_private_key_service target}
        \<union> range (get_llm_api_key_service target)"
  by (auto simp: resolve_profile_path_def resolve_keychain_service_def boundary_check_def Let_def split: if_splits)

text \<open>Service names are not separated: two profiles share the entry of an API key.\<close>

lemma api_key_services_collide:
  "PROFILE_NAME_REGEX ''a'' \<and> PROFILE_NAME_REGEX ''a-llm-b'' \<and> ''a'' \<noteq> ''a-llm-b''
    \<and> get_llm_api_key_service ''a'' ''b-llm-c'' = get_llm_api_key_service ''a-llm-b'' ''c''"
  by code_simp

text \<open>A profile name may end in a line break.\<close>

lemma profile_name_with_newline: "PROFILE_NAME_REGEX (''a'' @ [NEWLINE])"
  by code_simp

end
