(* ===== verification/Kin_Migrations.thy ===== *)
theory Kin_Migrations
  imports Kin_Prelude
begin

text \<open>
  The schema of a profile and the runner of its migrations, \<open>kin-node/kin/storage/migrations.py\<close>, with
  \<open>create_schema\<close>, \<open>get_setting\<close> and \<open>set_setting\<close> of \<open>storage/db.py\<close>.

  A schema is the list of its tables with their columns, its indexes and triggers, and the rows of
  \<open>schema_migrations\<close> (\<open>None\<close> before that table exists). A script is the list of its statements; column types,
  defaults and constraints are left out. The scripts are run by \<open>executescript\<close>, which commits the open
  transaction first: each statement is committed on its own, and a rollback does not undo it. Checksums are a
  parameter, and so is whether a statement fails for a reason outside the schema (a full disk, a lock).
\<close>

section \<open>Statements\<close>

datatype sql_stmt =
    CreateTable string "string list"
  | AddColumn string string
  | RenameColumn string string string
  | CreateIndex string string "string list"
  | CreateTrigger string string

record migration_row =
  mr_version :: nat
  mr_name :: string
  mr_checksum :: string

record schema =
  sm_tables :: "(string \<times> string list) list"
  sm_indexes :: "string list"
  sm_triggers :: "string list"
  sm_versions :: "migration_row list option"

definition OperationalError :: py_error where
  "OperationalError = AppError ''OperationalError''"

definition set_columns :: "string \<Rightarrow> string list \<Rightarrow> schema \<Rightarrow> schema" where
  "set_columns t cols s = s\<lparr>sm_tables := map (\<lambda>(n, cs). (n, if n = t then cols else cs)) (sm_tables s)\<rparr>"

fun exec_stmt :: "sql_stmt \<Rightarrow> schema \<Rightarrow> schema result" where
  "exec_stmt (CreateTable t cols) s =
     Inr (if t \<in> fst ` set (sm_tables s) then s else s\<lparr>sm_tables := sm_tables s @ [(t, cols)]\<rparr>)"
| "exec_stmt (AddColumn t c) s =
     (case map_of (sm_tables s) t of
        None \<Rightarrow> Inl OperationalError
      | Some cols \<Rightarrow> if c \<in> set cols then Inl OperationalError else Inr (set_columns t (cols @ [c]) s))"
| "exec_stmt (RenameColumn t a b) s =
     (case map_of (sm_tables s) t of
        None \<Rightarrow> Inl OperationalError
      | Some cols \<Rightarrow>
          if a \<notin> set cols \<or> b \<in> set cols then Inl OperationalError
          else Inr (set_columns t (map (\<lambda>c. if c = a then b else c) cols) s))"
| "exec_stmt (CreateIndex i t cs) s =
     (if i \<in> set (sm_indexes s) then Inr s
      else case map_of (sm_tables s) t of
        None \<Rightarrow> Inl OperationalError
      | Some cols \<Rightarrow> if set cs \<subseteq> set cols then Inr (s\<lparr>sm_indexes := sm_indexes s @ [i]\<rparr>) else Inl OperationalError)"
| "exec_stmt (CreateTrigger n t) s =
     (if n \<in> set (sm_triggers s) then Inr s
      else if t \<notin> fst ` set (sm_tables s) then Inl OperationalError
      else Inr (s\<lparr>sm_triggers := sm_triggers s @ [n]\<rparr>))"

text \<open>The statements of a script, from the \<open>i\<close>-th on; what was executed before a failure stays.\<close>

fun executescript :: "(nat \<Rightarrow> bool) \<Rightarrow> nat \<Rightarrow> sql_stmt list \<Rightarrow> schema \<Rightarrow> schema \<times> unit result" where
  "executescript fault i [] s = (s, Inr ())"
| "executescript fault i (st # sts) s =
     (if fault i then (s, Inl OperationalError)
      else case exec_stmt st s of
        Inl e \<Rightarrow> (s, Inl e)
      | Inr s' \<Rightarrow> executescript fault (Suc i) sts s')"

section \<open>The scripts\<close>

definition MIGRATION_0001 :: "sql_stmt list" where
  "MIGRATION_0001 =
    [CreateTable ''identity'' [''username'', ''public_key'', ''keychain_ref'', ''protocol_version''],
     CreateTable ''contacts'' [''username'', ''display_name'', ''public_key'', ''x25519_public_key'', ''endpoint'',
       ''autonomy_level'', ''fingerprint_verified_at''],
     CreateTable ''tasks'' [''task_id'', ''contact_username'', ''goal'', ''context_json'', ''status'', ''created_at'', ''updated_at'',
       ''result_json'', ''draft_content'', ''draft_message_type'', ''agent_name'', ''peer_agent_name'', ''peer_task_id'', ''origin_ref_id''],
     CreateTable ''messages'' [''message_id'', ''task_id'', ''from_username'', ''content'', ''message_type'', ''created_at'', ''signature''],
     CreateTable ''settings'' [''key'', ''value''],
     CreateTable ''processed_relay_messages'' [''message_id'', ''processed_at'']]"

definition MIGRATION_0002 :: "sql_stmt list" where
  "MIGRATION_0002 =
    [CreateTable ''agents'' [''agent_id'', ''name'', ''adapter_type'', ''local_card_json'', ''published_card_json'', ''enabled'',
       ''availability'', ''created_at'', ''updated_at''],
     CreateTable ''sessions'' [''session_id'', ''type'', ''owner_username'', ''peer_username'', ''status'', ''objective'', ''sender_agent_id'',
       ''receiver_agent_id'', ''participant_snapshot_json'', ''turn_limit'', ''created_at'', ''updated_at'', ''terminal_result_json''],
     CreateIndex ''idx_sessions_status_updated'' ''sessions'' [''status'', ''updated_at''],
     CreateTable ''session_events'' [''event_id'', ''session_id'', ''event_order'', ''sequence'', ''actor_username'', ''actor_agent_id'',
       ''kind'', ''visibility'', ''payload_json'', ''signature'', ''created_at''],
     CreateIndex ''idx_session_events_session_order'' ''session_events'' [''session_id'', ''event_order''],
     CreateTable ''artifacts'' [''artifact_id'', ''session_id'', ''sha256'', ''mime_type'', ''bytes_encrypted'', ''metadata_json'',
       ''offered_by'', ''created_at''],
     CreateIndex ''idx_artifacts_sha256'' ''artifacts'' [''sha256''],
     CreateTable ''approvals'' [''approval_id'', ''session_id'', ''agent_id'', ''action_class'', ''request_json'', ''decision'',
       ''decided_at'', ''expires_at''],
     CreateIndex ''idx_approvals_expires_at'' ''approvals'' [''expires_at''],
     CreateTable ''audit_events'' [''audit_id'', ''correlation_id'', ''session_id'', ''category'', ''actor_username'', ''summary'',
       ''payload_json'', ''created_at''],
     CreateIndex ''idx_audit_events_session'' ''audit_events'' [''session_id''],
     CreateIndex ''idx_audit_events_created'' ''audit_events'' [''created_at''],
     CreateTrigger ''trg_session_events_no_update'' ''session_events'',
     CreateTrigger ''trg_session_events_no_delete'' ''session_events'',
     CreateTrigger ''trg_audit_events_no_update'' ''audit_events'',
     CreateTrigger ''trg_audit_events_no_delete'' ''audit_events'']"

definition MIGRATION_0003 :: "sql_stmt list" where
  "MIGRATION_0003 =
    [AddColumn ''agents'' ''card_version'',
     CreateTable ''peer_agent_cards'' [''peer_username'', ''agent_id'', ''card_json'', ''content_hash'', ''status'', ''first_seen_at'', ''last_seen_at''],
     CreateIndex ''idx_peer_agent_cards_status'' ''peer_agent_cards'' [''status'']]"

definition MIGRATION_0004 :: "sql_stmt list" where
  "MIGRATION_0004 =
    [CreateTable ''outbound_envelope_queue'' [''queue_id'', ''session_id'', ''sequence'', ''recipient_username'', ''envelope_kind'',
       ''envelope_json_enc'', ''delivery_state'', ''attempt_count'', ''next_retry_at'', ''last_error'', ''created_at'', ''updated_at''],
     CreateIndex ''idx_outbound_queue_pending'' ''outbound_envelope_queue'' [''delivery_state'', ''next_retry_at''],
     AddColumn ''sessions'' ''expires_at'']"

definition MIGRATION_0005 :: "sql_stmt list" where
  "MIGRATION_0005 =
    [RenameColumn ''sessions'' ''owner_username'' ''initiator_username'',
     RenameColumn ''sessions'' ''peer_username'' ''receiver_username'',
     CreateTable ''peer_capabilities'' [''peer_username'', ''capability_json'', ''fetched_at'']]"

definition MIGRATION_0006 :: "sql_stmt list" where
  "MIGRATION_0006 = [AddColumn ''approvals'' ''consumed_at'']"

definition MIGRATION_0007 :: "sql_stmt list" where
  "MIGRATION_0007 =
    [AddColumn ''sessions'' ''runtime_budget_seconds'', AddColumn ''sessions'' ''artifact_bytes_budget'',
     AddColumn ''sessions'' ''cumulative_artifact_bytes'', AddColumn ''sessions'' ''cost_budget_estimate'',
     AddColumn ''sessions'' ''cumulative_cost_estimate'']"

definition MIGRATION_0008 :: "sql_stmt list" where
  "MIGRATION_0008 =
    [CreateTable ''context_pantry_refs'' [''ref_id'', ''encrypted_path'', ''size_bytes'', ''expires_at'', ''created_at''],
     CreateTable ''context_packs'' [''pack_id'', ''name'', ''items_json_enc'', ''created_at'', ''updated_at'']]"

definition MIGRATION_0009 :: "sql_stmt list" where
  "MIGRATION_0009 =
    [CreateTable ''agent_reservations'' [''reservation_id'', ''agent_id'', ''owner_username'', ''starts_at'', ''ends_at'', ''status'', ''created_at''],
     CreateIndex ''idx_agent_reservations_window'' ''agent_reservations'' [''agent_id'', ''starts_at'', ''ends_at'', ''status''],
     CreateTable ''playbooks'' [''playbook_id'', ''name'', ''source_session_id'', ''template_json_enc'', ''created_at'', ''updated_at'']]"

record migration =
  mi_version :: nat
  mi_name :: string
  mi_script :: "sql_stmt list"

definition ALL_MIGRATIONS :: "migration list" where
  "ALL_MIGRATIONS =
    [\<lparr>mi_version = 1, mi_name = ''v1_baseline'', mi_script = MIGRATION_0001\<rparr>,
     \<lparr>mi_version = 2, mi_name = ''v11_session_records'', mi_script = MIGRATION_0002\<rparr>,
     \<lparr>mi_version = 3, mi_name = ''v11_agent_registry_extensions'', mi_script = MIGRATION_0003\<rparr>,
     \<lparr>mi_version = 4, mi_name = ''v11_transport_and_queue'', mi_script = MIGRATION_0004\<rparr>,
     \<lparr>mi_version = 5, mi_name = ''v11_session_column_renames'', mi_script = MIGRATION_0005\<rparr>,
     \<lparr>mi_version = 6, mi_name = ''v11_approval_consumed_at'', mi_script = MIGRATION_0006\<rparr>,
     \<lparr>mi_version = 7, mi_name = ''v11_session_budgets'', mi_script = MIGRATION_0007\<rparr>,
     \<lparr>mi_version = 8, mi_name = ''v11_context_pantry_refs'', mi_script = MIGRATION_0008\<rparr>,
     \<lparr>mi_version = 9, mi_name = ''v11_collaboration_depth'', mi_script = MIGRATION_0009\<rparr>]"

section \<open>The runner\<close>

datatype migration_error =
    UnrecognizedTables "string list"
  | MissingColumns string "string list"
  | ChecksumDrift nat
  | MigrationFailed nat

record migration_report =
  rp_applied :: "nat list"
  rp_skipped :: "nat list"
  rp_starting_version :: nat
  rp_ending_version :: nat
  rp_errors :: "migration_error list"

record migration_env =
  ge_checksum :: "nat \<Rightarrow> string" \<comment> \<open>SHA-256 of the script of a version\<close>
  ge_fault :: "nat \<Rightarrow> nat \<Rightarrow> bool" \<comment> \<open>version and statement\<close>

definition LEGACY_TABLES :: "string list" where
  "LEGACY_TABLES = [''identity'', ''contacts'', ''tasks'', ''messages'', ''settings'']"

definition has_legacy_tables :: "schema \<Rightarrow> bool" where
  "has_legacy_tables s = list_ex (\<lambda>(t, _). t \<in> set LEGACY_TABLES) (sm_tables s)"

definition is_legacy_unmigrated_profile :: "schema \<Rightarrow> bool" where
  "is_legacy_unmigrated_profile s = (sm_versions s = None \<and> has_legacy_tables s)"

definition ALLOWED_V1_TABLES :: "string list" where
  "ALLOWED_V1_TABLES = [''schema_migrations'', ''identity'', ''contacts'', ''tasks'', ''messages'', ''settings'', ''processed_relay_messages'']"

definition REQUIRED_COLUMNS :: "(string \<times> string list) list" where
  "REQUIRED_COLUMNS =
    [(''identity'', [''username'', ''public_key'']),
     (''contacts'', [''username'', ''display_name'', ''public_key'']),
     (''tasks'', [''task_id'', ''contact_username'', ''goal'', ''context_json'', ''status'', ''created_at'', ''updated_at'', ''result_json'',
        ''draft_content'', ''draft_message_type'']),
     (''messages'', [''message_id'', ''task_id'', ''from_username'', ''content'', ''message_type'', ''created_at'', ''signature'']),
     (''settings'', [''key'', ''value'']),
     (''processed_relay_messages'', [''message_id'', ''processed_at''])]"

definition missing_columns :: "schema \<Rightarrow> string \<times> string list \<Rightarrow> migration_error option" where
  "missing_columns s req =
     (case map_of (sm_tables s) (fst req) of
        None \<Rightarrow> None
      | Some cols \<Rightarrow>
          (let missing = filter (\<lambda>c. c \<notin> set cols) (snd req)
           in if missing = [] then None else Some (MissingColumns (fst req) (sort missing))))"

definition validate_legacy :: "schema \<Rightarrow> migration_error option" where
  "validate_legacy s =
     (let extra = filter (\<lambda>t. t \<notin> set ALLOWED_V1_TABLES) (map fst (sm_tables s))
      in if extra \<noteq> [] then Some (UnrecognizedTables (sort extra))
         else find (\<lambda>_. True) (List.map_filter (missing_columns s) REQUIRED_COLUMNS))"

definition OPTIONAL_TASK_COLUMNS :: "string list" where
  "OPTIONAL_TASK_COLUMNS = [''agent_name'', ''peer_agent_name'', ''peer_task_id'', ''origin_ref_id'']"

definition add_task_columns :: "schema \<Rightarrow> schema" where
  "add_task_columns s =
     (case map_of (sm_tables s) ''tasks'' of
        None \<Rightarrow> s
      | Some cols \<Rightarrow> set_columns ''tasks'' (cols @ filter (\<lambda>c. c \<notin> set cols) OPTIONAL_TASK_COLUMNS) s)"

definition record_migration :: "migration_env \<Rightarrow> migration \<Rightarrow> schema \<Rightarrow> schema" where
  "record_migration G m s =
     s\<lparr>sm_versions := map_option (\<lambda>rows. rows @ [\<lparr>mr_version = mi_version m, mr_name = mi_name m, mr_checksum = ge_checksum G (mi_version m)\<rparr>])
        (sm_versions s)\<rparr>"

definition validate_and_backfill_legacy_v1 ::
  "migration_env \<Rightarrow> migration \<Rightarrow> schema \<Rightarrow> schema \<times> migration_error option result" where
  "validate_and_backfill_legacy_v1 G m1 s =
     (case validate_legacy s of
        Some e \<Rightarrow> (s, Inr (Some e))
      | None \<Rightarrow>
          (case executescript (ge_fault G (mi_version m1)) 0 (mi_script m1) (add_task_columns s) of
             (s', Inl e) \<Rightarrow> (s', Inl e)
           | (s', Inr _) \<Rightarrow> (record_migration G m1 s', Inr None)))"

definition recorded_checksum :: "schema \<Rightarrow> nat \<Rightarrow> string option" where
  "recorded_checksum s v =
     map_option mr_checksum (find (\<lambda>r. mr_version r = v) (case sm_versions s of None \<Rightarrow> [] | Some rows \<Rightarrow> rows))"

definition max_version :: "schema \<Rightarrow> nat" where
  "max_version s = foldr max (map mr_version (case sm_versions s of None \<Rightarrow> [] | Some rows \<Rightarrow> rows)) 0"

definition drifted :: "migration_env \<Rightarrow> schema \<Rightarrow> migration \<Rightarrow> bool" where
  "drifted G s m = (case recorded_checksum s (mi_version m) of None \<Rightarrow> False | Some c \<Rightarrow> c \<noteq> ge_checksum G (mi_version m))"

text \<open>The pending migrations in order; the first failure ends the loop.\<close>

fun apply_pending :: "migration_env \<Rightarrow> migration list \<Rightarrow> migration_report \<Rightarrow> schema \<Rightarrow> schema \<times> migration_report" where
  "apply_pending G [] rep s = (s, rep)"
| "apply_pending G (m # ms) rep s =
     (case executescript (ge_fault G (mi_version m)) 0 (mi_script m) s of
        (s', Inl e) \<Rightarrow> (s', rep\<lparr>rp_errors := rp_errors rep @ [MigrationFailed (mi_version m)]\<rparr>)
      | (s', Inr _) \<Rightarrow>
          apply_pending G ms (rep\<lparr>rp_applied := rp_applied rep @ [mi_version m]\<rparr>) (record_migration G m s'))"

definition run_pending :: "migration_env \<Rightarrow> migration_report \<Rightarrow> schema \<Rightarrow> schema \<times> migration_report" where
  "run_pending G rep0 s =
     (let rep = rep0\<lparr>rp_starting_version := max_version s\<rparr>
      in case find (drifted G s) ALL_MIGRATIONS of
           Some m \<Rightarrow>
             (s, rep\<lparr>rp_skipped := filter (\<lambda>v. v < mi_version m \<and> recorded_checksum s v \<noteq> None \<and> v \<notin> set (rp_applied rep))
                   (map mi_version ALL_MIGRATIONS), rp_errors := [ChecksumDrift (mi_version m)]\<rparr>)
         | None \<Rightarrow>
             (let rep1 = rep\<lparr>rp_skipped := filter (\<lambda>v. recorded_checksum s v \<noteq> None \<and> v \<notin> set (rp_applied rep))
                    (map mi_version ALL_MIGRATIONS)\<rparr>;
                  (s', rep2) = apply_pending G (filter (\<lambda>m. recorded_checksum s (mi_version m) = None) ALL_MIGRATIONS) rep1 s
              in (s', rep2\<lparr>rp_ending_version := max_version s'\<rparr>)))"

definition empty_report :: migration_report where
  "empty_report = \<lparr>rp_applied = [], rp_skipped = [], rp_starting_version = 0, rp_ending_version = 0, rp_errors = []\<rparr>"

definition run_migrations :: "migration_env \<Rightarrow> schema \<Rightarrow> schema \<times> migration_report result" where
  "run_migrations G s =
     (case sm_versions s of
        Some rows \<Rightarrow> (case run_pending G empty_report s of (s', rep) \<Rightarrow> (s', Inr rep))
      | None \<Rightarrow>
          (let s0 = s\<lparr>sm_versions := Some []\<rparr> in
           if \<not> has_legacy_tables s then (case run_pending G empty_report s0 of (s', rep) \<Rightarrow> (s', Inr rep))
           else (case validate_and_backfill_legacy_v1 G (hd ALL_MIGRATIONS) s0 of
                   (s1, Inl e) \<Rightarrow> (s1, Inl e)
                 | (s1, Inr (Some e)) \<Rightarrow> (s1, Inr (empty_report\<lparr>rp_errors := [e]\<rparr>))
                 | (s1, Inr None) \<Rightarrow>
                     (case run_pending G (empty_report\<lparr>rp_applied := [1]\<rparr>) s1 of (s', rep) \<Rightarrow> (s', Inr rep)))))"

text \<open>\<open>create_schema\<close>: a legacy profile is left alone unless its migration is asked for.\<close>

definition create_profile_schema :: "migration_env \<Rightarrow> bool \<Rightarrow> schema \<Rightarrow> schema \<times> unit result" where
  "create_profile_schema G allow_legacy_migration s =
     (if \<not> allow_legacy_migration \<and> is_legacy_unmigrated_profile s then (s, Inl (AppError ''LegacyProfileMigrationRequired''))
      else (case run_migrations G s of
              (s', Inl e) \<Rightarrow> (s', Inl e)
            | (s', Inr rep) \<Rightarrow> (s', if rp_errors rep = [] then Inr () else Inl RuntimeError)))"

section \<open>Settings\<close>

text \<open>The table \<open>settings\<close> of a profile, its key unique: a new key is appended, an old one keeps its place.\<close>

definition get_setting :: "(string \<times> string) list \<Rightarrow> string \<Rightarrow> string option \<Rightarrow> string option" where
  "get_setting settings key dflt = (case map_of settings key of Some v \<Rightarrow> Some v | None \<Rightarrow> dflt)"

definition set_setting :: "string \<Rightarrow> string \<Rightarrow> (string \<times> string) list \<Rightarrow> (string \<times> string) list" where
  "set_setting key v settings = AList.update key v settings"

lemma get_after_set: "get_setting (set_setting key v settings) k dflt = (if k = key then Some v else get_setting settings k dflt)"
  by (simp add: get_setting_def set_setting_def update_conv')

lemma set_keeps_keys_unique: "distinct (map fst settings) \<Longrightarrow> distinct (map fst (set_setting key v settings))"
  by (simp add: set_setting_def distinct_update)

section \<open>Bookkeeping\<close>

lemma set_columns_frame [simp]:
  "sm_versions (set_columns t cols s) = sm_versions s" "sm_indexes (set_columns t cols s) = sm_indexes s"
  "sm_triggers (set_columns t cols s) = sm_triggers s"
  by (simp_all add: set_columns_def)

lemma exec_stmt_versions:
  assumes "exec_stmt st s = Inr s'"
  shows "sm_versions s' = sm_versions s"
  using assms by (cases st) (auto split: option.splits if_splits)

lemma executescript_versions: "sm_versions (fst (executescript fault i sts s)) = sm_versions s"
proof (induction sts arbitrary: i s)
  case (Cons st sts)
  show ?case
  proof (cases "exec_stmt st s")
    case (Inr s')
    with Cons exec_stmt_versions [OF Inr] show ?thesis by simp
  qed simp
qed simp

lemma recorded_after:
  assumes "sm_versions s \<noteq> None"
  shows "recorded_checksum (record_migration G m s) v =
    (if recorded_checksum s v = None \<and> v = mi_version m then Some (ge_checksum G v) else recorded_checksum s v)"
  using assms by (auto simp: recorded_checksum_def record_migration_def find_snoc split: option.splits)

lemma recorded_cong: "sm_versions s' = sm_versions s \<Longrightarrow> recorded_checksum s' v = recorded_checksum s v"
  by (simp add: recorded_checksum_def)

definition up_to_date :: "migration_env \<Rightarrow> schema \<Rightarrow> migration list \<Rightarrow> bool" where
  "up_to_date G s ms = (sm_versions s \<noteq> None
     \<and> (\<forall>m\<in>set ms. recorded_checksum s (mi_version m) = Some (ge_checksum G (mi_version m))))"

lemma apply_pending_success:
  assumes "apply_pending G ms rep s = (s', rep')" and "rp_errors rep' = []" and "sm_versions s \<noteq> None"
    and "\<forall>m\<in>set ms. recorded_checksum s (mi_version m) = None \<or> recorded_checksum s (mi_version m) = Some (ge_checksum G (mi_version m))"
  shows "up_to_date G s' ms \<and> (\<forall>v c. recorded_checksum s v = Some c \<longrightarrow> recorded_checksum s' v = Some c)"
  using assms
proof (induction ms arbitrary: rep s)
  case Nil
  then show ?case by (simp add: up_to_date_def)
next
  case (Cons m ms)
  obtain s1 r where script: "executescript (ge_fault G (mi_version m)) 0 (mi_script m) s = (s1, r)" by fastforce
  have same: "sm_versions s1 = sm_versions s"
    using executescript_versions [of "ge_fault G (mi_version m)" 0 "mi_script m" s] by (simp add: script)
  have "r = Inr ()"
    using Cons.prems(1,2) script by (cases r) auto
  let ?s2 = "record_migration G m s1"
  have step: "apply_pending G ms (rep\<lparr>rp_applied := rp_applied rep @ [mi_version m]\<rparr>) ?s2 = (s', rep')"
    using Cons.prems(1) script \<open>r = Inr ()\<close> by simp
  have known: "sm_versions ?s2 \<noteq> None"
    using Cons.prems(3) same by (simp add: record_migration_def)
  have rec: "recorded_checksum ?s2 v = (if recorded_checksum s v = None \<and> v = mi_version m then Some (ge_checksum G v)
      else recorded_checksum s v)" for v
    unfolding recorded_after [OF Cons.prems(3) [folded same], of G m v] recorded_cong [OF same] by simp
  have "up_to_date G s' ms \<and> (\<forall>v c. recorded_checksum ?s2 v = Some c \<longrightarrow> recorded_checksum s' v = Some c)"
    by (rule Cons.IH [OF step Cons.prems(2) known]) (use Cons.prems(4) rec in auto)
  moreover have "recorded_checksum ?s2 (mi_version m) = Some (ge_checksum G (mi_version m))"
    using rec Cons.prems(4) by auto
  ultimately show ?case using rec by (auto simp: up_to_date_def)
qed

lemma run_pending_success:
  assumes "run_pending G rep0 s = (s', rep)" and "rp_errors rep = []" and "sm_versions s \<noteq> None"
  shows "up_to_date G s' ALL_MIGRATIONS"
proof -
  let ?pending = "filter (\<lambda>m. recorded_checksum s (mi_version m) = None) ALL_MIGRATIONS"
  have clean: "find (drifted G s) ALL_MIGRATIONS = None"
    using assms(1,2) by (cases "find (drifted G s) ALL_MIGRATIONS") (auto simp: run_pending_def Let_def)
  then have old: "recorded_checksum s (mi_version m) = Some (ge_checksum G (mi_version m))"
    if "m \<in> set ALL_MIGRATIONS" "recorded_checksum s (mi_version m) \<noteq> None" for m
    using that by (auto simp: find_None_iff drifted_def)
  from assms(1) clean obtain rep1 rep2 where app: "apply_pending G ?pending rep1 s = (s', rep2)"
      and "rp_errors rep = rp_errors rep2"
    by (auto simp: run_pending_def Let_def split: prod.splits)
  with assms(2,3) have "up_to_date G s' ?pending \<and> (\<forall>v c. recorded_checksum s v = Some c \<longrightarrow> recorded_checksum s' v = Some c)"
    by (intro apply_pending_success) auto
  then show ?thesis using old by (fastforce simp: up_to_date_def)
qed

lemma run_pending_done:
  assumes "up_to_date G s ALL_MIGRATIONS"
  shows "run_pending G empty_report s = (s, empty_report\<lparr>rp_starting_version := max_version s, rp_ending_version := max_version s,
    rp_skipped := map mi_version ALL_MIGRATIONS\<rparr>)"
proof -
  have "find (drifted G s) ALL_MIGRATIONS = None"
    using assms by (simp add: find_None_iff drifted_def up_to_date_def)
  moreover have "filter (\<lambda>m. recorded_checksum s (mi_version m) = None) ALL_MIGRATIONS = []"
    using assms by (simp add: filter_empty_conv up_to_date_def)
  moreover have "filter (\<lambda>v. recorded_checksum s v \<noteq> None) (map mi_version ALL_MIGRATIONS) = map mi_version ALL_MIGRATIONS"
    using assms by (auto simp: filter_id_conv up_to_date_def)
  ultimately show ?thesis by (simp add: run_pending_def Let_def empty_report_def)
qed

section \<open>Properties\<close>

text \<open>
  C20. Migrating is idempotent: once a run has reported no error, from whatever schema it started, another run
  of the same scripts applies nothing, reports all nine versions as skipped and leaves the schema and the
  record of migrations exactly as they are, whatever would fail if a statement were executed.
\<close>

theorem migrations_idempotent:
  assumes "run_migrations G s = (s', Inr rep)" and "rp_errors rep = []"
  shows "run_migrations (G\<lparr>ge_fault := fault\<rparr>) s' = (s', Inr (empty_report\<lparr>rp_starting_version := max_version s',
    rp_ending_version := max_version s', rp_skipped := [1, 2, 3, 4, 5, 6, 7, 8, 9]\<rparr>))"
proof -
  obtain s0 rep0 where run: "run_pending G rep0 s0 = (s', rep)" "sm_versions s0 \<noteq> None"
  proof (cases "sm_versions s")
    case (Some rows)
    then show ?thesis using that [of empty_report s] assms(1) by (simp add: run_migrations_def split: prod.splits)
  next
    case None
    let ?s0 = "s\<lparr>sm_versions := Some []\<rparr>"
    show ?thesis
    proof (cases "has_legacy_tables s")
      case False
      then show ?thesis using that [of empty_report ?s0] assms(1) None by (simp add: run_migrations_def Let_def split: prod.splits)
    next
      case True
      obtain s1 x where filled: "validate_and_backfill_legacy_v1 G (hd ALL_MIGRATIONS) ?s0 = (s1, x)" by fastforce
      with assms None True have x: "x = Inr None"
        by (cases x) (auto simp: run_migrations_def Let_def split: option.splits)
      obtain s2 y where script: "executescript (ge_fault G (mi_version (hd ALL_MIGRATIONS))) 0 (mi_script (hd ALL_MIGRATIONS)) (add_task_columns ?s0) = (s2, y)"
        by fastforce
      have "sm_versions s2 = sm_versions (add_task_columns ?s0)"
        using executescript_versions [of "ge_fault G (mi_version (hd ALL_MIGRATIONS))" 0 "mi_script (hd ALL_MIGRATIONS)" "add_task_columns ?s0"]
        unfolding script by simp
      then have "sm_versions s2 = Some []" by (simp add: add_task_columns_def split: option.splits)
      moreover have "s1 = record_migration G (hd ALL_MIGRATIONS) s2"
        using filled x script by (auto simp: validate_and_backfill_legacy_v1_def split: option.splits sum.splits)
      ultimately have "sm_versions s1 \<noteq> None" by (simp add: record_migration_def)
      then show ?thesis
        using that [of "empty_report\<lparr>rp_applied := [1]\<rparr>" s1] assms(1) None True filled x
        by (simp add: run_migrations_def Let_def split: prod.splits)
    qed
  qed
  have settled: "up_to_date G s' ALL_MIGRATIONS"
    by (rule run_pending_success [OF run(1) assms(2) run(2)])
  then have "up_to_date (G\<lparr>ge_fault := fault\<rparr>) s' ALL_MIGRATIONS" by (simp add: up_to_date_def)
  moreover have "map mi_version ALL_MIGRATIONS = [1, 2, 3, 4, 5, 6, 7, 8, 9]" by (simp add: ALL_MIGRATIONS_def)
  moreover obtain rows where "sm_versions s' = Some rows" using settled by (auto simp: up_to_date_def)
  ultimately show ?thesis by (simp add: run_migrations_def run_pending_done)
qed

text \<open>An empty profile, and a profile of the first release with an old contact table.\<close>

definition empty_schema :: schema where
  "empty_schema = \<lparr>sm_tables = [], sm_indexes = [], sm_triggers = [], sm_versions = None\<rparr>"

definition demo_migration_env :: migration_env where
  "demo_migration_env = \<lparr>ge_checksum = (\<lambda>v. replicate v (CHR ''c'')), ge_fault = (\<lambda>v i. False)\<rparr>"

theorem migrations_idempotent_witness:
  "\<exists>s' rep. run_migrations demo_migration_env empty_schema = (s', Inr rep) \<and> rp_applied rep = [1, 2, 3, 4, 5, 6, 7, 8, 9]
    \<and> fst (run_migrations demo_migration_env s') = s'"
proof -
  have "(case run_migrations demo_migration_env empty_schema of
      (s', Inr rep) \<Rightarrow> rp_errors rep = [] \<and> rp_applied rep = [1, 2, 3, 4, 5, 6, 7, 8, 9] | _ \<Rightarrow> False)" by code_simp
  then obtain s' rep where run: "run_migrations demo_migration_env empty_schema = (s', Inr rep)" "rp_errors rep = []"
    "rp_applied rep = [1, 2, 3, 4, 5, 6, 7, 8, 9]"
    by (cases "run_migrations demo_migration_env empty_schema"; cases "snd (run_migrations demo_migration_env empty_schema)") simp_all
  from migrations_idempotent [OF run(1,2), of "ge_fault demo_migration_env"] run show ?thesis by auto
qed

section \<open>What a complete run gives\<close>

text \<open>Statements of a script leave tables alone that they do not name.\<close>

fun stmt_table :: "sql_stmt \<Rightarrow> string" where
  "stmt_table (CreateTable t cols) = t"
| "stmt_table (AddColumn t c) = t"
| "stmt_table (RenameColumn t a b) = t"
| "stmt_table (CreateIndex i t cs) = t"
| "stmt_table (CreateTrigger n t) = t"

definition beside :: "(string \<times> string list) list \<Rightarrow> schema \<Rightarrow> schema" where
  "beside V s = s\<lparr>sm_tables := V @ sm_tables s\<rparr>"

lemma beside_columns:
  assumes "t \<notin> fst ` set V"
  shows "beside V (set_columns t cols s) = set_columns t cols (beside V s)"
proof -
  have "map (\<lambda>(n, cs). (n, if n = t then cols else cs)) V = V"
    using assms by (intro map_idI) (auto simp: image_iff split: prod.splits)
  then show ?thesis by (simp add: beside_def set_columns_def)
qed

lemma exec_beside:
  assumes "stmt_table st \<notin> fst ` set V"
  shows "exec_stmt st (beside V s) = map_sum id (beside V) (exec_stmt st s)"
proof -
  have lookup: "map_of (sm_tables (beside V s)) (stmt_table st) = map_of (sm_tables s) (stmt_table st)"
    using assms by (simp add: beside_def map_add_def map_of_eq_None_iff [THEN iffD2] split: option.split)
  have member: "stmt_table st \<in> fst ` set (sm_tables (beside V s)) \<longleftrightarrow> stmt_table st \<in> fst ` set (sm_tables s)"
    using assms by (auto simp: beside_def)
  show ?thesis
    using lookup member beside_columns assms
    by (cases st) (auto simp: beside_def split: option.split)
qed

definition no_fault :: "nat \<Rightarrow> bool" where
  "no_fault i = False"

lemma script_beside:
  assumes "\<forall>st\<in>set sts. stmt_table st \<notin> fst ` set V"
  shows "executescript no_fault i sts (beside V s) = map_prod (beside V) id (executescript no_fault i sts s)"
  using assms
proof (induction sts arbitrary: i s)
  case (Cons st sts)
  then show ?case
    using exec_beside [of st V s] by (cases "exec_stmt st s") (simp_all add: no_fault_def)
qed simp

lemma script_shift: "executescript no_fault j zs z = executescript no_fault k zs z"
  by (induction zs arbitrary: j k z) (auto simp: no_fault_def split: sum.split)

lemma script_append:
  "executescript no_fault i (xs @ ys) s =
     (case executescript no_fault i xs s of (u, Inl e) \<Rightarrow> (u, Inl e) | (u, Inr _) \<Rightarrow> executescript no_fault 0 ys u)"
proof (induction xs arbitrary: i s)
  case Nil
  show ?case using script_shift [of i ys s 0] by simp
next
  case (Cons x xs)
  then show ?case by (cases "exec_stmt x s") (simp_all add: no_fault_def [of i])
qed

lemma exec_forget: "exec_stmt st (s\<lparr>sm_versions := v\<rparr>) = map_sum id (\<lambda>s. s\<lparr>sm_versions := v\<rparr>) (exec_stmt st s)"
  by (cases st) (auto simp: set_columns_def split: option.split)

lemma script_forget:
  "executescript fault i sts (s\<lparr>sm_versions := v\<rparr>) = map_prod (\<lambda>s. s\<lparr>sm_versions := v\<rparr>) id (executescript fault i sts s)"
proof (induction sts arbitrary: i s)
  case (Cons st sts)
  then show ?case by (cases "exec_stmt st s") (simp_all add: exec_forget)
qed simp

definition row_of :: "migration_env \<Rightarrow> migration \<Rightarrow> migration_row" where
  "row_of G m = \<lparr>mr_version = mi_version m, mr_name = mi_name m, mr_checksum = ge_checksum G (mi_version m)\<rparr>"

lemma apply_clean:
  assumes "ge_fault G = (\<lambda>v. no_fault)" and "sm_versions s = Some rows"
    and "executescript no_fault 0 (concat (map mi_script ms)) s = (t, Inr ())"
  shows "apply_pending G ms rep s = (t\<lparr>sm_versions := Some (rows @ map (row_of G) ms)\<rparr>,
    rep\<lparr>rp_applied := rp_applied rep @ map mi_version ms\<rparr>)"
  using assms(2,3)
proof (induction ms arbitrary: rep s rows t)
  case Nil
  then show ?case by (cases t) auto
next
  case (Cons m ms)
  obtain u where u: "executescript no_fault 0 (mi_script m) s = (u, Inr ())" "executescript no_fault 0 (concat (map mi_script ms)) u = (t, Inr ())"
    using Cons.prems(2) script_append [of 0 "mi_script m" "concat (map mi_script ms)" s]
    by (auto split: prod.splits sum.splits)
  have rows: "sm_versions u = Some rows"
    using executescript_versions [of no_fault 0 "mi_script m" s] u(1) Cons.prems(1) by simp
  let ?u = "record_migration G m u" and ?rows = "rows @ [row_of G m]"
  have rec: "?u = u\<lparr>sm_versions := Some ?rows\<rparr>" by (simp add: record_migration_def rows row_of_def)
  have "executescript no_fault 0 (concat (map mi_script ms)) ?u = (t\<lparr>sm_versions := Some ?rows\<rparr>, Inr ())"
    unfolding rec script_forget u(2) by simp
  moreover have "sm_versions ?u = Some ?rows" by (simp add: rec)
  ultimately show ?case
    using Cons.IH [of ?u ?rows "t\<lparr>sm_versions := Some ?rows\<rparr>" "rep\<lparr>rp_applied := rp_applied rep @ [mi_version m]\<rparr>"] u(1) assms(1) by simp
qed

text \<open>A script that only creates tables keeps those that exist and adds the others.\<close>

lemma creates_tables:
  "\<exists>u. executescript no_fault i (map (\<lambda>(t, cols). CreateTable t cols) cs) s = (u, Inr ())
     \<and> map_of (sm_tables u) = map_of cs ++ map_of (sm_tables s)
     \<and> fst ` set (sm_tables u) = fst ` set (sm_tables s) \<union> fst ` set cs
     \<and> sm_indexes u = sm_indexes s \<and> sm_triggers u = sm_triggers s \<and> sm_versions u = sm_versions s"
proof (induction cs arbitrary: i s)
  case (Cons x cs)
  obtain t cols where x: "x = (t, cols)" by (cases x)
  define s1 where "s1 = (if t \<in> fst ` set (sm_tables s) then s else s\<lparr>sm_tables := sm_tables s @ [(t, cols)]\<rparr>)"
  have frame: "sm_indexes s1 = sm_indexes s" "sm_triggers s1 = sm_triggers s" "sm_versions s1 = sm_versions s"
    "fst ` set (sm_tables s1) = insert t (fst ` set (sm_tables s))"
    by (auto simp: s1_def)
  have "map_of (sm_tables s1) = [t \<mapsto> cols] ++ map_of (sm_tables s)"
  proof (cases "t \<in> fst ` set (sm_tables s)")
    case True
    then have "map_of (sm_tables s) t \<noteq> None" by (simp add: map_of_eq_None_iff)
    then show ?thesis using True by (auto simp: s1_def map_add_def split: option.split)
  qed (simp add: s1_def)
  then have "map_of cs ++ map_of (sm_tables s1) = map_of (x # cs) ++ map_of (sm_tables s)" by (simp add: x map_add_def fun_eq_iff split: option.split)
  moreover have "executescript no_fault i (map (\<lambda>(t, cols). CreateTable t cols) (x # cs)) s
      = executescript no_fault (Suc i) (map (\<lambda>(t, cols). CreateTable t cols) cs) s1"
    by (simp add: x s1_def no_fault_def [of i])
  moreover obtain u where "executescript no_fault (Suc i) (map (\<lambda>(t, cols). CreateTable t cols) cs) s1 = (u, Inr ())"
      "map_of (sm_tables u) = map_of cs ++ map_of (sm_tables s1)" "fst ` set (sm_tables u) = fst ` set (sm_tables s1) \<union> fst ` set cs"
      "sm_indexes u = sm_indexes s1" "sm_triggers u = sm_triggers s1" "sm_versions u = sm_versions s1"
    using Cons.IH [of "Suc i" s1] by blast
  ultimately show ?case using frame by (intro exI [of _ u] conjI) (simp_all only: x list.simps image_insert fst_conv Un_insert_left Un_insert_right)
qed simp

text \<open>The tables of the later versions with the columns they have after version nine.\<close>

definition V11_TABLES :: "(string \<times> string list) list" where
  "V11_TABLES =
    [(''agents'', [''agent_id'', ''name'', ''adapter_type'', ''local_card_json'', ''published_card_json'', ''enabled'',
        ''availability'', ''created_at'', ''updated_at'', ''card_version'']),
     (''sessions'', [''session_id'', ''type'', ''initiator_username'', ''receiver_username'', ''status'', ''objective'', ''sender_agent_id'',
        ''receiver_agent_id'', ''participant_snapshot_json'', ''turn_limit'', ''created_at'', ''updated_at'', ''terminal_result_json'',
        ''expires_at'', ''runtime_budget_seconds'', ''artifact_bytes_budget'', ''cumulative_artifact_bytes'', ''cost_budget_estimate'',
        ''cumulative_cost_estimate'']),
     (''session_events'', [''event_id'', ''session_id'', ''event_order'', ''sequence'', ''actor_username'', ''actor_agent_id'',
        ''kind'', ''visibility'', ''payload_json'', ''signature'', ''created_at'']),
     (''artifacts'', [''artifact_id'', ''session_id'', ''sha256'', ''mime_type'', ''bytes_encrypted'', ''metadata_json'',
        ''offered_by'', ''created_at'']),
     (''approvals'', [''approval_id'', ''session_id'', ''agent_id'', ''action_class'', ''request_json'', ''decision'',
        ''decided_at'', ''expires_at'', ''consumed_at'']),
     (''audit_events'', [''audit_id'', ''correlation_id'', ''session_id'', ''category'', ''actor_username'', ''summary'',
        ''payload_json'', ''created_at'']),
     (''peer_agent_cards'', [''peer_username'', ''agent_id'', ''card_json'', ''content_hash'', ''status'', ''first_seen_at'', ''last_seen_at'']),
     (''outbound_envelope_queue'', [''queue_id'', ''session_id'', ''sequence'', ''recipient_username'', ''envelope_kind'',
        ''envelope_json_enc'', ''delivery_state'', ''attempt_count'', ''next_retry_at'', ''last_error'', ''created_at'', ''updated_at'']),
     (''peer_capabilities'', [''peer_username'', ''capability_json'', ''fetched_at'']),
     (''context_pantry_refs'', [''ref_id'', ''encrypted_path'', ''size_bytes'', ''expires_at'', ''created_at'']),
     (''context_packs'', [''pack_id'', ''name'', ''items_json_enc'', ''created_at'', ''updated_at'']),
     (''agent_reservations'', [''reservation_id'', ''agent_id'', ''owner_username'', ''starts_at'', ''ends_at'', ''status'', ''created_at'']),
     (''playbooks'', [''playbook_id'', ''name'', ''source_session_id'', ''template_json_enc'', ''created_at'', ''updated_at''])]"

definition V11_TRIGGERS :: "string list" where
  "V11_TRIGGERS = [''trg_session_events_no_update'', ''trg_session_events_no_delete'', ''trg_audit_events_no_update'', ''trg_audit_events_no_delete'']"

definition later_script :: "sql_stmt list" where
  "later_script = concat (map mi_script (tl ALL_MIGRATIONS))"

definition later_names :: "string list" where
  "later_names = map stmt_table later_script"

lemma later_names_new: "list_all (\<lambda>t. t \<notin> set ALLOWED_V1_TABLES) later_names"
  by code_simp

lemma later_run: "\<exists>is. executescript no_fault 0 later_script empty_schema =
    (\<lparr>sm_tables = V11_TABLES, sm_indexes = is, sm_triggers = V11_TRIGGERS, sm_versions = None\<rparr>, Inr ())"
proof -
  have "(case executescript no_fault 0 later_script empty_schema of
      (t, Inr u) \<Rightarrow> sm_tables t = V11_TABLES \<and> sm_triggers t = V11_TRIGGERS \<and> sm_versions t = None | _ \<Rightarrow> False)"
    by code_simp
  then show ?thesis
    by (cases "fst (executescript no_fault 0 later_script empty_schema)") (auto split: prod.splits sum.splits)
qed

lemma later_run_beside:
  assumes "fst ` set (sm_tables s) \<subseteq> set ALLOWED_V1_TABLES" and "sm_indexes s = []" and "sm_triggers s = []"
  shows "\<exists>is. executescript no_fault 0 later_script s =
    (\<lparr>sm_tables = sm_tables s @ V11_TABLES, sm_indexes = is, sm_triggers = V11_TRIGGERS, sm_versions = sm_versions s\<rparr>, Inr ())"
proof -
  have s: "s = beside (sm_tables s) (empty_schema\<lparr>sm_versions := sm_versions s\<rparr>)"
    using assms(2,3) by (cases s) (simp add: beside_def empty_schema_def)
  have "\<forall>st\<in>set later_script. stmt_table st \<notin> fst ` set (sm_tables s)"
    using later_names_new assms(1) by (auto simp: later_names_def list_all_iff)
  then have "executescript no_fault 0 later_script s =
      map_prod (beside (sm_tables s)) id (executescript no_fault 0 later_script (empty_schema\<lparr>sm_versions := sm_versions s\<rparr>))"
    by (subst s) (rule script_beside)
  moreover obtain "is" where "executescript no_fault 0 later_script empty_schema =
      (\<lparr>sm_tables = V11_TABLES, sm_indexes = is, sm_triggers = V11_TRIGGERS, sm_versions = None\<rparr>, Inr ())"
    using later_run by blast
  ultimately show ?thesis by (simp add: script_forget beside_def)
qed

definition V1_TABLES :: "(string \<times> string list) list" where
  "V1_TABLES = map (\<lambda>st. case st of CreateTable t cols \<Rightarrow> (t, cols) | _ \<Rightarrow> ([], [])) MIGRATION_0001"

lemma baseline_creates: "MIGRATION_0001 = map (\<lambda>(t, cols). CreateTable t cols) V1_TABLES"
  by code_simp

lemma baseline_allowed: "fst ` set V1_TABLES \<subseteq> set ALLOWED_V1_TABLES"
  by code_simp

text \<open>The whole sequence on a schema of the first release, and the records it leaves.\<close>

lemma full_run:
  assumes "fst ` set (sm_tables s) \<subseteq> set ALLOWED_V1_TABLES" and "sm_indexes s = []" and "sm_triggers s = []"
  shows "\<exists>u t. executescript no_fault 0 MIGRATION_0001 s = (u, Inr ()) \<and> executescript no_fault 0 later_script u = (t, Inr ())
    \<and> sm_versions u = sm_versions s
    \<and> map_of (sm_tables t) = map_of V11_TABLES ++ (map_of V1_TABLES ++ map_of (sm_tables s)) \<and> sm_triggers t = V11_TRIGGERS"
proof -
  obtain u where u: "executescript no_fault 0 MIGRATION_0001 s = (u, Inr ())"
    and tables: "map_of (sm_tables u) = map_of V1_TABLES ++ map_of (sm_tables s)"
    and names: "fst ` set (sm_tables u) = fst ` set (sm_tables s) \<union> fst ` set V1_TABLES"
    and frame: "sm_indexes u = sm_indexes s" "sm_triggers u = sm_triggers s" "sm_versions u = sm_versions s"
    unfolding baseline_creates using creates_tables [of 0 V1_TABLES s] by blast
  have "fst ` set (sm_tables u) \<subseteq> set ALLOWED_V1_TABLES"
    unfolding names using assms(1) baseline_allowed by (rule Un_least)
  then obtain "is" where "executescript no_fault 0 later_script u =
      (\<lparr>sm_tables = sm_tables u @ V11_TABLES, sm_indexes = is, sm_triggers = V11_TRIGGERS, sm_versions = sm_versions u\<rparr>, Inr ())"
    using later_run_beside [of u] frame assms(2,3) by auto
  then show ?thesis using u tables frame by simp
qed

lemma recorded_rows:
  assumes "sm_versions s = Some (map (row_of G) old)"
  shows "recorded_checksum s v = (if v \<in> mi_version ` set old then Some (ge_checksum G v) else None)"
proof -
  have "map_option mr_checksum (find (\<lambda>r. mr_version r = v) (map (row_of G) old))
      = (if v \<in> mi_version ` set old then Some (ge_checksum G v) else None)"
    by (induction old) (auto simp: row_of_def)
  then show ?thesis using assms by (simp add: recorded_checksum_def)
qed

lemma run_pending_clean:
  assumes "ge_fault G = (\<lambda>v. no_fault)" and "sm_versions s = Some (map (row_of G) old)"
    and "filter (\<lambda>m. mi_version m \<notin> mi_version ` set old) ALL_MIGRATIONS = todo" and "old @ todo = ALL_MIGRATIONS"
    and "executescript no_fault 0 (concat (map mi_script todo)) s = (t, Inr ())"
  shows "\<exists>rep'. run_pending G rep s = (t\<lparr>sm_versions := Some (map (row_of G) ALL_MIGRATIONS)\<rparr>, rep')
    \<and> rp_errors rep' = rp_errors rep \<and> rp_applied rep' = rp_applied rep @ map mi_version todo \<and> rp_ending_version rep' = 9"
proof -
  note recorded = recorded_rows [OF assms(2)]
  have "find (drifted G s) ALL_MIGRATIONS = None"
    by (auto simp: find_None_iff drifted_def recorded)
  moreover have "filter (\<lambda>m. recorded_checksum s (mi_version m) = None) ALL_MIGRATIONS = todo"
    unfolding assms(3) [symmetric] by (rule filter_cong) (simp_all add: recorded)
  moreover have "map (row_of G) old @ map (row_of G) todo = map (row_of G) ALL_MIGRATIONS"
    unfolding assms(4) [symmetric] by simp
  moreover have "max_version (t\<lparr>sm_versions := Some (map (row_of G) ALL_MIGRATIONS)\<rparr>) = 9"
    by (simp add: max_version_def ALL_MIGRATIONS_def row_of_def)
  ultimately show ?thesis
    by (simp add: run_pending_def Let_def apply_clean [OF assms(1,2,5)])
qed

lemma tables_after_set:
  "map_of (sm_tables (set_columns t cols s)) k = (if k = t then map_option (\<lambda>_. cols) (map_of (sm_tables s) k) else map_of (sm_tables s) k)"
proof -
  have "map_of (map (\<lambda>(n, cs). (n, if n = t then cols else cs)) xs) k = (if k = t then map_option (\<lambda>_. cols) (map_of xs k) else map_of xs k)" for xs
    by (induction xs) auto
  then show ?thesis by (simp add: set_columns_def)
qed

lemma names_after_set: "fst ` set (sm_tables (set_columns t cols s)) = fst ` set (sm_tables s)"
  by (force simp: set_columns_def image_iff split: prod.splits)

lemma task_columns_frame:
  "sm_versions (add_task_columns s) = sm_versions s" "sm_indexes (add_task_columns s) = sm_indexes s"
  "sm_triggers (add_task_columns s) = sm_triggers s" "fst ` set (sm_tables (add_task_columns s)) = fst ` set (sm_tables s)"
  by (auto simp: add_task_columns_def names_after_set split: option.split)

lemma task_columns_grow:
  assumes "map_of (sm_tables s) t = Some cols"
  shows "\<exists>more. map_of (sm_tables (add_task_columns s)) t = Some (cols @ more) \<and> (t = ''tasks'' \<longrightarrow> set OPTIONAL_TASK_COLUMNS \<subseteq> set (cols @ more))"
proof (cases "map_of (sm_tables s) ''tasks''")
  case None
  then have "t \<noteq> ''tasks''" using assms by auto
  then show ?thesis using None assms by (simp add: add_task_columns_def)
next
  case (Some ts)
  show ?thesis
  proof (cases "t = ''tasks''")
    case True
    then have "ts = cols" using Some assms by simp
    then have "map_of (sm_tables (add_task_columns s)) t = Some (cols @ filter (\<lambda>c. c \<notin> set cols) OPTIONAL_TASK_COLUMNS)"
      using True Some by (simp add: add_task_columns_def tables_after_set)
    then show ?thesis by (intro exI [of _ "filter (\<lambda>c. c \<notin> set cols) OPTIONAL_TASK_COLUMNS"]) auto
  next
    case False
    then show ?thesis using Some assms by (simp add: add_task_columns_def tables_after_set)
  qed
qed

lemma task_columns_absent:
  assumes "map_of (sm_tables s) t = None"
  shows "map_of (sm_tables (add_task_columns s)) t = None"
  using assms by (auto simp: add_task_columns_def tables_after_set split: option.split)

lemma valid_legacy:
  assumes "validate_legacy s = None"
  shows "fst ` set (sm_tables s) \<subseteq> set ALLOWED_V1_TABLES"
    and "(t, req) \<in> set REQUIRED_COLUMNS \<Longrightarrow> map_of (sm_tables s) t = Some cols \<Longrightarrow> set req \<subseteq> set cols"
proof -
  have extra: "filter (\<lambda>t. t \<notin> set ALLOWED_V1_TABLES) (map fst (sm_tables s)) = []"
    using assms by (auto simp: validate_legacy_def Let_def split: if_splits)
  then show "fst ` set (sm_tables s) \<subseteq> set ALLOWED_V1_TABLES" by (auto simp: filter_empty_conv)
  have "find (\<lambda>_. True) (List.map_filter (missing_columns s) REQUIRED_COLUMNS) = None"
    using assms unfolding validate_legacy_def Let_def extra by simp
  then have "missing_columns s r = None" if "r \<in> set REQUIRED_COLUMNS" for r
    using that by (cases r) (auto simp: find_None_iff map_filter_def)
  then show "set req \<subseteq> set cols" if "(t, req) \<in> set REQUIRED_COLUMNS" "map_of (sm_tables s) t = Some cols"
    using that by (fastforce simp: missing_columns_def Let_def filter_empty_conv split: if_splits)
qed

lemma no_legacy_name:
  assumes "\<not> has_legacy_tables s" and "t \<in> set LEGACY_TABLES"
  shows "map_of (sm_tables s) t = None"
  using assms unfolding has_legacy_tables_def list_ex_iff map_of_eq_None_iff by auto

lemma no_legacy_no_tasks:
  assumes "\<not> has_legacy_tables s"
  shows "add_task_columns s = s"
proof -
  have "map_of (sm_tables s) ''tasks'' = None"
    by (rule no_legacy_name [OF assms]) (simp add: LEGACY_TABLES_def)
  then show ?thesis by (simp add: add_task_columns_def)
qed

lemma add_task_versions: "add_task_columns (s\<lparr>sm_versions := v\<rparr>) = (add_task_columns s)\<lparr>sm_versions := v\<rparr>"
  by (simp add: add_task_columns_def set_columns_def split: option.split)

lemma validate_versions: "validate_legacy (s\<lparr>sm_versions := v\<rparr>) = validate_legacy s"
proof -
  have "missing_columns (s\<lparr>sm_versions := v\<rparr>) = missing_columns s" by (simp add: missing_columns_def fun_eq_iff)
  then show ?thesis by (simp add: validate_legacy_def Let_def)
qed

lemma clean_run:
  assumes "sm_versions s = None" and "sm_indexes s = []" and "sm_triggers s = []" and "validate_legacy s = None"
    and "ge_fault G = (\<lambda>v. no_fault)"
  shows "\<exists>s' rep. run_migrations G s = (s', Inr rep) \<and> rp_errors rep = []
    \<and> rp_applied rep = map mi_version ALL_MIGRATIONS \<and> rp_ending_version rep = 9 \<and> sm_triggers s' = V11_TRIGGERS
    \<and> map_of (sm_tables s') = map_of V11_TABLES ++ (map_of V1_TABLES ++ map_of (sm_tables (add_task_columns s)))"
proof -
  let ?m = "hd ALL_MIGRATIONS"
  have hd: "mi_script ?m = MIGRATION_0001" "mi_version ?m = 1" and whole: "ALL_MIGRATIONS = [?m] @ tl ALL_MIGRATIONS"
    by (simp_all add: ALL_MIGRATIONS_def)
  define s0 where "s0 = (add_task_columns s)\<lparr>sm_versions := Some []\<rparr>"
  have s0: "fst ` set (sm_tables s0) \<subseteq> set ALLOWED_V1_TABLES" "sm_indexes s0 = []" "sm_triggers s0 = []"
    using valid_legacy(1) [OF assms(4)] assms(2,3) by (simp_all add: s0_def task_columns_frame)
  obtain u t where u: "executescript no_fault 0 MIGRATION_0001 s0 = (u, Inr ())" and t: "executescript no_fault 0 later_script u = (t, Inr ())"
    and rows: "sm_versions u = sm_versions s0"
    and tables: "map_of (sm_tables t) = map_of V11_TABLES ++ (map_of V1_TABLES ++ map_of (sm_tables s0))" "sm_triggers t = V11_TRIGGERS"
    using full_run [OF s0] by blast
  have tables0: "sm_tables s0 = sm_tables (add_task_columns s)" by (simp add: s0_def)
  let ?G = "map (row_of G)"
  show ?thesis
  proof (cases "has_legacy_tables s")
    case True
    have backfilled: "validate_and_backfill_legacy_v1 G ?m (s\<lparr>sm_versions := Some []\<rparr>) = (record_migration G ?m u, Inr None)"
      using assms(4) u by (simp add: validate_and_backfill_legacy_v1_def validate_versions add_task_versions hd assms(5) s0_def [symmetric])
    have rec: "record_migration G ?m u = u\<lparr>sm_versions := Some (?G [?m])\<rparr>"
      using rows by (simp add: record_migration_def row_of_def s0_def)
    have "filter (\<lambda>m. mi_version m \<notin> mi_version ` set [?m]) ALL_MIGRATIONS = tl ALL_MIGRATIONS"
      by (simp add: ALL_MIGRATIONS_def)
    moreover have "executescript no_fault 0 (concat (map mi_script (tl ALL_MIGRATIONS))) (record_migration G ?m u)
        = (t\<lparr>sm_versions := Some (?G [?m])\<rparr>, Inr ())"
      unfolding rec script_forget later_script_def [symmetric] t by simp
    ultimately obtain rep where "run_pending G (empty_report\<lparr>rp_applied := [1]\<rparr>) (record_migration G ?m u)
          = (t\<lparr>sm_versions := Some (?G ALL_MIGRATIONS)\<rparr>, rep)"
        "rp_errors rep = []" "rp_applied rep = 1 # map mi_version (tl ALL_MIGRATIONS)" "rp_ending_version rep = 9"
      using run_pending_clean [OF assms(5), of "record_migration G ?m u" "[?m]" "tl ALL_MIGRATIONS" _ "empty_report\<lparr>rp_applied := [1]\<rparr>"] whole [symmetric]
      by (auto simp: rec empty_report_def)
    moreover have "1 # map mi_version (tl ALL_MIGRATIONS) = map mi_version ALL_MIGRATIONS" by (simp add: ALL_MIGRATIONS_def)
    ultimately show ?thesis
      using assms(1) True tables by (simp add: run_migrations_def Let_def backfilled tables0)
  next
    case False
    then have s0': "s0 = s\<lparr>sm_versions := Some []\<rparr>" by (simp add: s0_def no_legacy_no_tasks)
    have "executescript no_fault 0 (concat (map mi_script ALL_MIGRATIONS)) s0 = (t, Inr ())"
      using script_append [of 0 MIGRATION_0001 later_script s0] u t hd(1) arg_cong [OF whole, of "\<lambda>ms. concat (map mi_script ms)"]
      by (simp add: later_script_def)
    moreover have "sm_versions s0 = Some (?G [])" by (simp add: s0_def)
    ultimately obtain rep where "run_pending G empty_report s0 = (t\<lparr>sm_versions := Some (?G ALL_MIGRATIONS)\<rparr>, rep)"
        "rp_errors rep = []" "rp_applied rep = map mi_version ALL_MIGRATIONS" "rp_ending_version rep = 9"
      using run_pending_clean [OF assms(5), of s0 "[]" ALL_MIGRATIONS t empty_report] by (auto simp: empty_report_def)
    then show ?thesis
      using assms(1) False tables by (simp add: run_migrations_def Let_def s0' [symmetric] tables0)
  qed
qed

lemma later_tables_new: "(t, cols) \<in> set V11_TABLES \<Longrightarrow> map_of V11_TABLES t = Some cols \<and> t \<notin> set ALLOWED_V1_TABLES"
proof -
  have "distinct (map fst V11_TABLES)" "list_all (\<lambda>(t, cols). t \<notin> set ALLOWED_V1_TABLES) V11_TABLES" by code_simp+
  then show "(t, cols) \<in> set V11_TABLES \<Longrightarrow> map_of V11_TABLES t = Some cols \<and> t \<notin> set ALLOWED_V1_TABLES"
    by (auto simp: list_all_iff)
qed

lemma required_baseline:
  "(t, req) \<in> set REQUIRED_COLUMNS \<Longrightarrow> \<exists>cols. map_of V1_TABLES t = Some cols \<and> set req \<subseteq> set cols"
proof -
  have "list_all (\<lambda>(t, req). case map_of V1_TABLES t of None \<Rightarrow> False | Some cols \<Rightarrow> set req \<subseteq> set cols) REQUIRED_COLUMNS" by code_simp
  then show "(t, req) \<in> set REQUIRED_COLUMNS \<Longrightarrow> \<exists>cols. map_of V1_TABLES t = Some cols \<and> set req \<subseteq> set cols"
    by (auto simp: list_all_iff split: option.splits)
qed

lemma tasks_baseline: "\<exists>cols. map_of V1_TABLES ''tasks'' = Some cols \<and> set OPTIONAL_TASK_COLUMNS \<subseteq> set cols"
proof -
  have "(case map_of V1_TABLES ''tasks'' of None \<Rightarrow> False | Some cols \<Rightarrow> set OPTIONAL_TASK_COLUMNS \<subseteq> set cols)" by code_simp
  then show ?thesis by (simp split: option.splits)
qed

text \<open>
  C19. A profile that is empty or has a valid schema of the first release is migrated completely: with no
  fault outside the schema the run reports no error and all nine versions in order, every table of the later
  versions has exactly its final columns, every table of the first release exists with the columns the program
  requires, the task table has its optional columns, the triggers that make the event tables append-only are
  in place, and no table or column the profile had is lost.
\<close>

theorem migrated_profile_complete:
  assumes "sm_versions s = None" and "sm_indexes s = []" and "sm_triggers s = []" and "validate_legacy s = None"
    and "\<And>v i. \<not> ge_fault G v i"
  shows "\<exists>s' rep. run_migrations G s = (s', Inr rep) \<and> rp_errors rep = []
    \<and> rp_applied rep = [1, 2, 3, 4, 5, 6, 7, 8, 9] \<and> rp_ending_version rep = 9 \<and> sm_triggers s' = V11_TRIGGERS
    \<and> (\<forall>t cols. (t, cols) \<in> set V11_TABLES \<longrightarrow> map_of (sm_tables s') t = Some cols)
    \<and> (\<forall>t req. (t, req) \<in> set REQUIRED_COLUMNS \<longrightarrow> (\<exists>cols. map_of (sm_tables s') t = Some cols \<and> set req \<subseteq> set cols))
    \<and> (\<exists>cols. map_of (sm_tables s') ''tasks'' = Some cols \<and> set OPTIONAL_TASK_COLUMNS \<subseteq> set cols)
    \<and> (\<forall>t cols. map_of (sm_tables s) t = Some cols \<longrightarrow> (\<exists>more. map_of (sm_tables s') t = Some (cols @ more)))"
proof -
  have "ge_fault G = (\<lambda>v. no_fault)" using assms(5) by (simp add: fun_eq_iff no_fault_def)
  then obtain s' rep where run: "run_migrations G s = (s', Inr rep)" "rp_errors rep = []" "rp_applied rep = map mi_version ALL_MIGRATIONS"
      "rp_ending_version rep = 9" "sm_triggers s' = V11_TRIGGERS"
    and tables: "map_of (sm_tables s') = map_of V11_TABLES ++ (map_of V1_TABLES ++ map_of (sm_tables (add_task_columns s)))"
    using clean_run [OF assms(1-4)] by blast
  let ?old = "map_of (sm_tables (add_task_columns s))"
  note allowed = valid_legacy(1) [OF assms(4)]
  have kept: "map_of (sm_tables s') t = Some cols" if "?old t = Some cols" for t cols
    using that by (simp add: tables)
  have created: "map_of (sm_tables s') t = Some cols" if "?old t = None" "map_of V1_TABLES t = Some cols" for t cols
    using that by (simp add: tables map_add_def)
  have later: "map_of (sm_tables s') t = Some cols" if "(t, cols) \<in> set V11_TABLES" for t cols
  proof -
    note new = later_tables_new [OF that]
    then have "t \<notin> fst ` set (sm_tables (add_task_columns s))" "t \<notin> fst ` set V1_TABLES"
      using allowed baseline_allowed unfolding task_columns_frame(4) by blast+
    then have "?old t = None" "map_of V1_TABLES t = None" unfolding map_of_eq_None_iff .
    then show ?thesis using new by (simp add: tables map_add_def)
  qed
  have grown: "\<exists>more. map_of (sm_tables s') t = Some (cols @ more) \<and> (t = ''tasks'' \<longrightarrow> set OPTIONAL_TASK_COLUMNS \<subseteq> set (cols @ more))"
    if "map_of (sm_tables s) t = Some cols" for t cols
    using task_columns_grow [OF that] kept by blast
  have required: "\<exists>cols. map_of (sm_tables s') t = Some cols \<and> set req \<subseteq> set cols" if req: "(t, req) \<in> set REQUIRED_COLUMNS" for t req
  proof (cases "map_of (sm_tables s) t")
    case None
    then show ?thesis using created [OF task_columns_absent] required_baseline [OF req] by blast
  next
    case (Some cols)
    then obtain more where "map_of (sm_tables s') t = Some (cols @ more)" using grown by blast
    moreover have "set req \<subseteq> set (cols @ more)" using valid_legacy(2) [OF assms(4) req Some] by auto
    ultimately show ?thesis by blast
  qed
  have tasks: "\<exists>cols. map_of (sm_tables s') ''tasks'' = Some cols \<and> set OPTIONAL_TASK_COLUMNS \<subseteq> set cols"
  proof (cases "map_of (sm_tables s) ''tasks''")
    case None
    then show ?thesis using created [OF task_columns_absent] tasks_baseline by blast
  next
    case (Some cols)
    then show ?thesis using grown by blast
  qed
  have "rp_applied rep = [1, 2, 3, 4, 5, 6, 7, 8, 9]" using run(3) by (simp add: ALL_MIGRATIONS_def)
  with run(1,2,4,5) later required tasks grown show ?thesis by blast
qed

text \<open>A profile of the first release, with an old contact table and no task table.\<close>

definition demo_old :: schema where
  "demo_old = empty_schema\<lparr>sm_tables := [(''contacts'', [''username'', ''display_name'', ''public_key''])]\<rparr>"

theorem migrated_profile_complete_witness:
  "\<exists>s' rep. run_migrations demo_migration_env demo_old = (s', Inr rep) \<and> rp_applied rep = [1, 2, 3, 4, 5, 6, 7, 8, 9]
    \<and> map_of (sm_tables s') ''playbooks'' = Some [''playbook_id'', ''name'', ''source_session_id'', ''template_json_enc'', ''created_at'', ''updated_at'']"
proof -
  have "sm_versions demo_old = None" "sm_indexes demo_old = []" "sm_triggers demo_old = []" "validate_legacy demo_old = None"
    by code_simp+
  moreover have "\<not> ge_fault demo_migration_env v i" for v i by (simp add: demo_migration_env_def)
  moreover have "(''playbooks'', [''playbook_id'', ''name'', ''source_session_id'', ''template_json_enc'', ''created_at'', ''updated_at'']) \<in> set V11_TABLES"
    by code_simp
  ultimately show ?thesis using migrated_profile_complete [of demo_old demo_migration_env] by blast
qed

section \<open>Behaviour worth knowing\<close>

text \<open>
  A migration that fails half way cannot be repeated: the statements before the failure are committed, and
  the next run stops at the first of them. Here the third column of version seven fails once.
\<close>

definition demo_faulty_env :: migration_env where
  "demo_faulty_env = demo_migration_env\<lparr>ge_fault := (\<lambda>v i. v = 7 \<and> i = 2)\<rparr>"

lemma failed_migration_sticks:
  "(case run_migrations demo_faulty_env empty_schema of
      (s1, Inr rep1) \<Rightarrow> rp_errors rep1 = [MigrationFailed 7] \<and>
        (case run_migrations demo_migration_env s1 of
           (s2, Inr rep2) \<Rightarrow> rp_errors rep2 = [MigrationFailed 7] \<and> s2 = s1
         | _ \<Rightarrow> False)
    | _ \<Rightarrow> False)"
  by code_simp

text \<open>
  A profile refused as unsupported is migrated by the next run: the refusal leaves an empty
  \<open>schema_migrations\<close>, and with that table present the check is not made again.
\<close>

definition demo_foreign :: schema where
  "demo_foreign = empty_schema\<lparr>sm_tables := [(''identity'', [''username'']), (''other'', [''x''])]\<rparr>"

lemma refused_profile_migrated_next_time:
  "(case run_migrations demo_migration_env demo_foreign of
      (s1, Inr rep1) \<Rightarrow> rp_errors rep1 = [UnrecognizedTables [''other'']] \<and>
        (case run_migrations demo_migration_env s1 of
           (s2, Inr rep2) \<Rightarrow> rp_errors rep2 = [] \<and> map_of (sm_tables s2) ''identity'' = Some [''username'']
         | _ \<Rightarrow> False)
    | _ \<Rightarrow> False)"
  by code_simp

text \<open>Of the first release only the task table is completed: an old contact table stays without an endpoint.\<close>

lemma old_contacts_stay_incomplete:
  "(case run_migrations demo_migration_env demo_old of
      (s1, Inr rep1) \<Rightarrow> rp_errors rep1 = [] \<and> map_of (sm_tables s1) ''contacts'' = Some [''username'', ''display_name'', ''public_key'']
    | _ \<Rightarrow> False)"
  by code_simp

end
