(* ===== verification/Kin_Redaction.thy ===== *)
theory Kin_Redaction
  imports Kin_Adapters
begin

text \<open>
  The redaction of text shown to people: \<open>kin-node/kin/tui/redaction.py\<close>. Python's regular expressions are
  modelled by the list of the rests a pattern may leave of a string, in the order in which the backtracking
  engine tries them; \<open>re.sub\<close> takes the first rest at the leftmost position. Every repetition in the patterns
  is over a class of characters, so the engine is a structural recursion.
\<close>

section \<open>Regular expressions\<close>

datatype rx =
    REmpty
  | RChar "char \<Rightarrow> bool"
  | RSeq rx rx
  | RAlt rx rx
  | RMany "char \<Rightarrow> bool" \<comment> \<open>\<open>[...]*\<close>, longest first\<close>
  | RLazy "char \<Rightarrow> bool" \<comment> \<open>\<open>[...]*?\<close>, shortest first\<close>

fun many_rests :: "(char \<Rightarrow> bool) \<Rightarrow> string \<Rightarrow> string list" where
  "many_rests p [] = [[]]"
| "many_rests p (ch # s) = (if p ch then many_rests p s @ [ch # s] else [ch # s])"

fun lazy_rests :: "(char \<Rightarrow> bool) \<Rightarrow> string \<Rightarrow> string list" where
  "lazy_rests p [] = [[]]"
| "lazy_rests p (ch # s) = (ch # s) # (if p ch then lazy_rests p s else [])"

primrec rests :: "rx \<Rightarrow> string \<Rightarrow> string list" where
  "rests REmpty s = [s]"
| "rests (RChar p) s = (case s of [] \<Rightarrow> [] | ch # t \<Rightarrow> if p ch then [t] else [])"
| "rests (RSeq a b) s = concat (map (rests b) (rests a s))"
| "rests (RAlt a b) s = rests a s @ rests b s"
| "rests (RMany p) s = many_rests p s"
| "rests (RLazy p) s = lazy_rests p s"

definition rx_match :: "rx \<Rightarrow> string \<Rightarrow> bool" where
  "rx_match r s = (rests r s \<noteq> [])"

definition rx_search :: "rx \<Rightarrow> string \<Rightarrow> bool" where
  "rx_search r s = search_from (rx_match r) s"

text \<open>\<open>re.sub\<close> for a pattern that matches no empty string.\<close>

function rx_sub :: "rx \<Rightarrow> string \<Rightarrow> string \<Rightarrow> string" where
  "rx_sub r repl s =
     (case s of
        [] \<Rightarrow> []
      | ch # t \<Rightarrow>
          (case rests r s of
             rest # _ \<Rightarrow> if length rest < length s then repl @ rx_sub r repl rest else ch # rx_sub r repl t
           | [] \<Rightarrow> ch # rx_sub r repl t))"
  by pat_completeness auto
termination by (relation "measure (\<lambda>(r, repl, s). length s)") auto

declare rx_sub.simps [simp del]

text \<open>Notation of the patterns: words without regard to case, exact words, options and counts.\<close>

definition rword :: "string \<Rightarrow> rx" where
  "rword w = foldr (\<lambda>ch r. RSeq (RChar (\<lambda>x. to_lower x = ch)) r) w REmpty"

definition rexact :: "string \<Rightarrow> rx" where
  "rexact w = foldr (\<lambda>ch r. RSeq (RChar (\<lambda>x. x = ch)) r) w REmpty"

fun rseq :: "rx list \<Rightarrow> rx" where
  "rseq [] = REmpty"
| "rseq [r] = r"
| "rseq (r # rs) = RSeq r (rseq rs)"

fun ralt :: "rx list \<Rightarrow> rx" where
  "ralt [] = REmpty"
| "ralt [r] = r"
| "ralt (r # rs) = RAlt r (ralt rs)"

definition ropt :: "rx \<Rightarrow> rx" where
  "ropt r = RAlt r REmpty"

fun rexactly :: "nat \<Rightarrow> (char \<Rightarrow> bool) \<Rightarrow> rx" where
  "rexactly 0 p = REmpty"
| "rexactly (Suc n) p = RSeq (RChar p) (rexactly n p)"

fun rleast :: "nat \<Rightarrow> (char \<Rightarrow> bool) \<Rightarrow> rx" where
  "rleast 0 p = RMany p"
| "rleast (Suc n) p = RSeq (RChar p) (rleast n p)"

section \<open>The patterns\<close>

definition separator :: "char \<Rightarrow> bool" where
  "separator ch = (ch \<in> set ''_-'')"

definition token_char :: "char \<Rightarrow> bool" where
  "token_char ch = (is_alnum ch \<or> ch \<in> set ''_-.'')"

definition not_separating :: "char \<Rightarrow> bool" where
  "not_separating ch = (\<not> is_space ch \<and> ch \<notin> set '',;'')"

definition path_char :: "char \<Rightarrow> bool" where
  "path_char ch = (\<not> is_space ch \<and> ch \<notin> {CHR '':'', CHR ''?'', CHR 0x22, CHR ''<'', CHR ''>'', CHR ''|''})"

definition two_words :: "string \<Rightarrow> string \<Rightarrow> rx" where
  "two_words a b = rseq [rword a, ropt (RChar separator), rword b]"

definition SECRET_PATTERN_REGEX :: rx where
  "SECRET_PATTERN_REGEX =
     ralt [two_words ''api'' ''key'', two_words ''secret'' ''key'', two_words ''access'' ''token'',
           rseq [rword ''bearer'', rleast 1 is_space, rleast 20 token_char],
           rseq [rword ''sk'', RChar separator, rword ''live'', RChar separator, rleast 24 is_alnum],
           rseq [rword ''ghp_'', rexactly 36 is_alnum]]"

text \<open>\<open>\s*[:=]\s*[^\s,;]+\<close>.\<close>

definition assigned :: rx where
  "assigned = rseq [RMany is_space, RChar (\<lambda>ch. ch = CHR '':'' \<or> ch = CHR ''=''), RMany is_space, rleast 1 not_separating]"

definition TUI_SECRET_REGEX :: rx where
  "TUI_SECRET_REGEX =
     ralt [rseq [two_words ''api'' ''key'', assigned], rseq [two_words ''secret'' ''key'', assigned],
           rseq [two_words ''access'' ''token'', assigned], rseq [rword ''password'', assigned], rseq [rword ''token'', assigned],
           rseq [rword ''bearer'', rleast 1 is_space, rleast 20 token_char],
           rseq [rword ''sk'', RChar separator, rword ''live'', RChar separator, rleast 24 is_alnum],
           rseq [rword ''sk'', RChar separator, rword ''proj'', RChar separator, rleast 24 (\<lambda>ch. is_alnum ch \<or> separator ch)],
           rseq [rword ''sk'', RChar separator, rleast 24 is_alnum],
           rseq [rword ''ghp_'', rexactly 36 is_alnum],
           rseq [rword ''aws_'', rexactly 20 is_alnum]]"

definition PATH_WIN_REGEX :: rx where
  "PATH_WIN_REGEX = rseq [RChar (\<lambda>ch. is_lower ch \<or> is_upper ch), RChar (\<lambda>ch. ch = CHR '':''), RChar (\<lambda>ch. ch = BACKSLASH), rleast 4 path_char]"

definition POSIX_ROOTS :: "string list" where
  "POSIX_ROOTS = [''Users'', ''home'', ''private'', ''root'', ''var'', ''etc'']"

definition PATH_POSIX_REGEX :: rx where
  "PATH_POSIX_REGEX = rseq [rexact ''/'', ralt (map rexact POSIX_ROOTS), rexact ''/'', rleast 3 path_char]"

definition COT_TAG_REGEX :: rx where
  "COT_TAG_REGEX =
     ralt [rseq [rword ''<think>'', RLazy (\<lambda>_. True), rword ''</think>''],
           rseq [rword ''<scratchpad>'', RLazy (\<lambda>_. True), rword ''</scratchpad>''],
           rseq [rword ''chain'', RMany is_space, rword ''of'', RMany is_space, rword ''thought'', RMany is_space,
                 RChar (\<lambda>ch. ch = CHR '':''), RMany is_space, rleast 1 (\<lambda>ch. ch \<noteq> NEWLINE)],
           rseq [rword ''internal'', RMany is_space, rword ''reasoning'', RMany is_space, RChar (\<lambda>ch. ch = CHR '':''),
                 RMany is_space, rleast 1 (\<lambda>ch. ch \<noteq> NEWLINE)]]"

definition REDACTED_PATH :: string where
  "REDACTED_PATH = ''[REDACTED PATH]''"

definition REDACTED_SECRET :: string where
  "REDACTED_SECRET = ''[REDACTED SECRET]''"

definition redact_ui_text :: "string option \<Rightarrow> string" where
  "redact_ui_text t =
     (case t of
        None \<Rightarrow> []
      | Some s \<Rightarrow>
          (let scrubbed = rx_sub COT_TAG_REGEX ''[reasoning hidden]'' s;
               scrubbed = rx_sub SECRET_PATTERN_REGEX REDACTED_SECRET scrubbed;
               scrubbed = rx_sub TUI_SECRET_REGEX REDACTED_SECRET scrubbed;
               scrubbed = rx_sub PATH_WIN_REGEX REDACTED_PATH scrubbed
           in rx_sub PATH_POSIX_REGEX REDACTED_PATH scrubbed))"

definition contains_secrets_or_paths :: "string \<Rightarrow> bool" where
  "contains_secrets_or_paths s =
     (s \<noteq> [] \<and> (rx_search SECRET_PATTERN_REGEX s \<or> rx_search TUI_SECRET_REGEX s \<or> rx_search PATH_WIN_REGEX s
        \<or> rx_search PATH_POSIX_REGEX s \<or> rx_search COT_TAG_REGEX s))"

section \<open>Matching\<close>

lemma many_rests_nonempty [simp]: "many_rests p s \<noteq> []"
  by (cases s) auto

lemma match_seq: "rx_match (RSeq a b) s \<longleftrightarrow> (\<exists>t\<in>set (rests a s). rx_match b t)"
  by (auto simp: rx_match_def)

lemma match_alt: "rx_match (RAlt a b) s \<longleftrightarrow> rx_match a s \<or> rx_match b s"
  by (simp add: rx_match_def)

lemma rests_rexact: "rests (rexact w) s = (if starts_with w s then [drop (length w) s] else [])"
proof (induction w arbitrary: s)
  case Nil
  then show ?case by (simp add: rexact_def starts_with_def)
next
  case (Cons ch w)
  show ?case
  proof (cases s)
    case Nil
    then show ?thesis by (simp add: rexact_def starts_with_def)
  next
    case (Cons d t)
    then show ?thesis using Cons.IH [of t] by (simp add: rexact_def starts_with_def)
  qed
qed

lemma match_rleast: "rx_match (rleast n p) s \<longleftrightarrow> at_least_run n p s"
proof (induction n arbitrary: s)
  case 0
  then show ?case by (simp add: rx_match_def at_least_run_def)
next
  case (Suc n)
  then show ?case by (cases s) (auto simp: match_seq at_least_run_def)
qed

lemma rests_ralt: "rs \<noteq> [] \<Longrightarrow> set (rests (ralt rs) s) = (\<Union>r\<in>set rs. set (rests r s))"
proof (induction rs)
  case (Cons r rs)
  then show ?case by (cases rs) auto
qed simp

text \<open>What the substitution leaves where nothing matches.\<close>

lemma sub_nil [simp]: "rx_sub r repl [] = []"
  by (simp add: rx_sub.simps)

lemma rests_length: "t \<in> set (rests r s) \<Longrightarrow> length t \<le> length s"
proof (induction r arbitrary: s t)
  case (RMany p)
  then show ?case by (induction s) (auto split: if_splits intro: le_SucI)
next
  case (RLazy p)
  then show ?case by (induction s) (auto split: if_splits intro: le_SucI)
next
  case (RSeq a b)
  then show ?case by (fastforce intro: order_trans)
qed (auto split: list.splits if_splits)

definition posix_at :: "string \<Rightarrow> bool" where
  "posix_at s = (\<exists>w\<in>set POSIX_ROOTS. starts_with (''/'' @ w @ ''/'') s \<and> at_least_run 3 path_char (drop (length w + 2) s))"

lemma starts_append: "starts_with (a @ b) s \<longleftrightarrow> starts_with a s \<and> starts_with b (drop (length a) s)"
proof -
  have iff: "starts_with p z \<longleftrightarrow> (\<exists>u. z = p @ u)" for p z
    by (metis append_eq_conv_conj append_take_drop_id starts_with_def)
  show ?thesis unfolding iff by auto
qed

lemma match_posix: "rx_match PATH_POSIX_REGEX s \<longleftrightarrow> posix_at s"
proof -
  have roots: "map rexact POSIX_ROOTS \<noteq> []" by (simp add: POSIX_ROOTS_def)
  have "rx_match PATH_POSIX_REGEX s \<longleftrightarrow>
      (starts_with ''/'' s \<and> (\<exists>w\<in>set POSIX_ROOTS. starts_with w (drop 1 s) \<and> starts_with ''/'' (drop (length w) (drop 1 s))
        \<and> at_least_run 3 path_char (drop 1 (drop (length w) (drop 1 s)))))"
    unfolding PATH_POSIX_REGEX_def rseq.simps match_seq rests_rexact rests_ralt [OF roots] match_rleast by (auto simp: rests_rexact split: if_splits)
  also have "\<dots> \<longleftrightarrow> posix_at s"
    unfolding posix_at_def starts_append by (auto simp: add.commute)
  finally show ?thesis .
qed

lemma posix_rest_shorter:
  assumes "rest \<in> set (rests PATH_POSIX_REGEX (ch # t))"
  shows "length rest \<le> length t"
proof -
  obtain r2 where pat: "PATH_POSIX_REGEX = RSeq (rexact ''/'') r2" by (simp add: PATH_POSIX_REGEX_def)
  have "rest \<in> set (rests r2 t)" using assms unfolding pat by (simp add: rests_rexact split: if_splits)
  then show ?thesis by (rule rests_length)
qed

lemma sub_posix_step:
  "rx_sub PATH_POSIX_REGEX repl (ch # t) =
     (if posix_at (ch # t) then repl @ rx_sub PATH_POSIX_REGEX repl (hd (rests PATH_POSIX_REGEX (ch # t)))
      else ch # rx_sub PATH_POSIX_REGEX repl t)"
proof (cases "rests PATH_POSIX_REGEX (ch # t)")
  case Nil
  then have "\<not> posix_at (ch # t)" unfolding match_posix [symmetric] rx_match_def by simp
  then show ?thesis using Nil by (simp add: rx_sub.simps [of _ _ "ch # t"])
next
  case (Cons rest more)
  then have "posix_at (ch # t)" unfolding match_posix [symmetric] rx_match_def by simp
  moreover have "length rest < length (ch # t)" using posix_rest_shorter [of rest ch t] Cons by simp
  ultimately show ?thesis using Cons by (simp add: rx_sub.simps [of _ _ "ch # t"])
qed

section \<open>No path is left\<close>

definition OPEN :: char where
  "OPEN = CHR ''[''"

lemma marker: "REDACTED_PATH = OPEN # tl REDACTED_PATH" "CHR ''/'' \<notin> set REDACTED_PATH"
  by (simp_all add: REDACTED_PATH_def OPEN_def)

lemma posix_starts_slash: "posix_at (ch # s) \<Longrightarrow> ch = CHR ''/''"
  by (auto simp: posix_at_def starts_with_def)

lemma search_past:
  assumes "CHR ''/'' \<notin> set a"
  shows "search_from posix_at (a @ s) = search_from posix_at s"
  using assms by (induction a) (auto dest: posix_starts_slash)

text \<open>A prefix of the result without the marker's bracket is a prefix of the text, and the rest is the result of the rest.\<close>

lemma sub_prefix:
  assumes "starts_with x (rx_sub PATH_POSIX_REGEX REDACTED_PATH t)" and "OPEN \<notin> set x"
  shows "starts_with x t \<and> drop (length x) (rx_sub PATH_POSIX_REGEX REDACTED_PATH t) = rx_sub PATH_POSIX_REGEX REDACTED_PATH (drop (length x) t)"
  using assms
proof (induction x arbitrary: t)
  case Nil
  show ?case by (simp add: starts_with_def)
next
  case (Cons ch x)
  obtain d t' where t: "t = d # t'" using Cons.prems(1) by (cases t) (auto simp: starts_with_def)
  have "\<not> posix_at t"
  proof
    assume "posix_at t"
    then obtain u where "rx_sub PATH_POSIX_REGEX REDACTED_PATH t = OPEN # u"
      unfolding t sub_posix_step using marker(1) by (metis append_Cons)
    then show False using Cons.prems by (auto simp: starts_with_def)
  qed
  then have sub: "rx_sub PATH_POSIX_REGEX REDACTED_PATH t = d # rx_sub PATH_POSIX_REGEX REDACTED_PATH t'"
    by (simp add: t sub_posix_step)
  then show ?case using Cons.IH [of t'] Cons.prems by (simp add: t starts_with_def)
qed

lemma posix_run: "posix_at s \<Longrightarrow> n \<le> 3 \<Longrightarrow> at_least_run n path_char s"
proof -
  assume "posix_at s" and n: "n \<le> 3"
  then obtain w where w: "w \<in> set POSIX_ROOTS" "starts_with (''/'' @ w @ ''/'') s" by (auto simp: posix_at_def)
  have "list_all (\<lambda>w. list_all path_char w \<and> 3 \<le> length w) POSIX_ROOTS" "path_char (CHR ''/'')" by code_simp+
  then have "list_all path_char (''/'' @ w @ ''/'')" "3 \<le> length (''/'' @ w @ ''/'')"
    using w(1) by (auto simp: list_all_iff)
  moreover obtain u where "s = (''/'' @ w @ ''/'') @ u"
    using w(2) unfolding starts_with_def by (metis append_take_drop_id)
  ultimately show "at_least_run n path_char s"
    using n by (auto simp del: append.simps append_assoc simp: at_least_run_def list_all_iff dest: in_set_takeD)
qed

lemma sub_run:
  assumes "at_least_run n path_char (rx_sub PATH_POSIX_REGEX REDACTED_PATH t)" and "n \<le> 3"
  shows "at_least_run n path_char t"
  using assms
proof (induction n arbitrary: t)
  case 0
  then show ?case by (simp add: at_least_run_def)
next
  case (Suc n)
  obtain d t' where t: "t = d # t'" using Suc.prems(1) by (cases t) (auto simp: at_least_run_def)
  show ?case
  proof (cases "posix_at t")
    case True
    then show ?thesis using posix_run Suc.prems(2) by blast
  next
    case False
    then have "rx_sub PATH_POSIX_REGEX REDACTED_PATH t = d # rx_sub PATH_POSIX_REGEX REDACTED_PATH t'"
      by (simp add: t sub_posix_step)
    then show ?thesis using Suc.IH [of t'] Suc.prems by (simp add: t at_least_run_def)
  qed
qed

lemma sub_no_posix_at:
  assumes "\<not> posix_at (ch # t)"
  shows "\<not> posix_at (ch # rx_sub PATH_POSIX_REGEX REDACTED_PATH t)"
proof
  assume "posix_at (ch # rx_sub PATH_POSIX_REGEX REDACTED_PATH t)"
  then obtain w where w: "w \<in> set POSIX_ROOTS" and ch: "ch = CHR ''/''"
    and pre: "starts_with (w @ ''/'') (rx_sub PATH_POSIX_REGEX REDACTED_PATH t)"
    and run: "at_least_run 3 path_char (drop (length (w @ ''/'')) (rx_sub PATH_POSIX_REGEX REDACTED_PATH t))"
    by (auto simp: posix_at_def starts_with_def)
  have "list_all (\<lambda>w. OPEN \<notin> set (w @ ''/'')) POSIX_ROOTS" by code_simp
  then have "OPEN \<notin> set (w @ ''/'')" using w unfolding list_all_iff by blast
  note kept = sub_prefix [OF pre this]
  then have "at_least_run 3 path_char (drop (length (w @ ''/'')) t)" using run sub_run [of 3] by simp
  with kept w have "posix_at (ch # t)" unfolding posix_at_def ch by (intro bexI [of _ w]) (auto simp: starts_with_def)
  with assms show False by contradiction
qed

lemma sub_leaves_no_path: "\<not> search_from posix_at (rx_sub PATH_POSIX_REGEX REDACTED_PATH s)"
proof (induction s rule: length_induct)
  case (1 s)
  show ?case
  proof (cases s)
    case Nil
    then show ?thesis by (simp add: posix_at_def starts_with_def)
  next
    case (Cons ch t)
    show ?thesis
    proof (cases "posix_at s")
      case True
      let ?rest = "hd (rests PATH_POSIX_REGEX s)"
      have "rests PATH_POSIX_REGEX s \<noteq> []" using True unfolding match_posix [symmetric] rx_match_def .
      then have "?rest \<in> set (rests PATH_POSIX_REGEX (ch # t))" unfolding Cons by (rule hd_in_set)
      then have "length ?rest < length s" using posix_rest_shorter Cons by fastforce
      then have "\<not> search_from posix_at (rx_sub PATH_POSIX_REGEX REDACTED_PATH ?rest)" using 1 by blast
      then show ?thesis using True unfolding Cons sub_posix_step by (simp add: search_past [OF marker(2)])
    next
      case False
      moreover have "\<not> search_from posix_at (rx_sub PATH_POSIX_REGEX REDACTED_PATH t)" using 1 Cons by simp
      ultimately show ?thesis using sub_no_posix_at unfolding Cons sub_posix_step by simp
    qed
  qed
qed

section \<open>Properties\<close>


section \<open>Behaviour worth knowing\<close>

text \<open>
  The value of an API key is shown: the first pattern for secrets replaces only the name, and the second,
  which would take the value as well, does not find the name any more.
\<close>

lemma api_key_value_shown:
  "rx_sub TUI_SECRET_REGEX REDACTED_SECRET (rx_sub SECRET_PATTERN_REGEX REDACTED_SECRET ''api_key=z'') = ''[REDACTED SECRET]=z''"
  by code_simp

text \<open>A value after a repeated name is shown, since the name is taken for the value.\<close>

lemma repeated_name_shows_value: "rx_sub TUI_SECRET_REGEX REDACTED_SECRET ''token:token: z'' = ''[REDACTED SECRET] z''"
  by code_simp

end
