(* ===== verification/Kin_Export.thy ===== *)
theory Kin_Export
  imports Kin_History Kin_Redaction Kin_Tasks
begin

text \<open>
  Transcripts: \<open>kin-node/kin/audit/export.py\<close>, the projection of the earlier tasks in \<open>audit/legacy.py\<close>, and the
  scriptable commands of \<open>cli_v11.py\<close> that list, open and export sessions, with the redaction they apply.

  The column \<open>terminal_result_json\<close> is read by the export and written nowhere, so it is always \<open>NULL\<close>. A profile
  without a database is \<open>None\<close>. Sorted and indented JSON is a parameter.
\<close>

section \<open>Export of a session\<close>

definition parse_or_text :: "world \<Rightarrow> string \<Rightarrow> pyval" where
  "parse_or_text W s = (case w_loads W s of Some v \<Rightarrow> v | None \<Rightarrow> PStr s)"

definition session_meta :: "world \<Rightarrow> bytes \<Rightarrow> session_row \<Rightarrow> pydict result" where
  "session_meta W vault_key r =
     (case decrypt_field_or_plaintext W vault_key (sr_objective r) of
        Inl e \<Rightarrow> Inl e
      | Inr dec_obj \<Rightarrow>
          (case decrypt_field_or_plaintext W vault_key (sr_participant_snapshot_json r) of
             Inl e \<Rightarrow> Inl e
           | Inr dec_part_snap \<Rightarrow>
               Inr [(''session_id'', PStr (sr_session_id r)), (''type'', PStr (sr_type r)),
                    (''initiator_username'', PStr (sr_initiator_username r)), (''receiver_username'', PStr (sr_receiver_username r)),
                    (''status'', PStr (sr_status r)), (''objective'', opt_str dec_obj),
                    (''sender_agent_id'', opt_str (sr_sender_agent_id r)), (''receiver_agent_id'', opt_str (sr_receiver_agent_id r)),
                    (''participant_snapshot'', if otruthy dec_part_snap then parse_or_text W (the dec_part_snap) else PNone),
                    (''turn_limit'', PInt (sr_turn_limit r)), (''created_at'', PStr (sr_created_at r)),
                    (''updated_at'', PStr (sr_updated_at r)), (''terminal_result'', PNone)]))"

definition exported_payload :: "world \<Rightarrow> string option \<Rightarrow> pyval" where
  "exported_payload W dec = (case dec of None \<Rightarrow> PNone | Some s \<Rightarrow> parse_or_text W s)"

definition marks_private :: "pyval \<Rightarrow> bool" where
  "marks_private v = (case as_str_dict v of None \<Rightarrow> False | Some d \<Rightarrow> dget d ''visibility'' = PStr ''local_only'')"

definition payload_hash :: "world \<Rightarrow> pyval \<Rightarrow> string result" where
  "payload_hash W v =
     (case as_str_dict v of
        Some d \<Rightarrow> compute_content_hash (w_crypto W) d
      | None \<Rightarrow> if v = PNone then Inr [] else compute_content_hash (w_crypto W) [(''value'', PStr (str_of W v))])"

text \<open>One row; \<open>None\<close> where the loop continues without it.\<close>

definition export_event :: "world \<Rightarrow> bytes \<Rightarrow> bool \<Rightarrow> event_row \<Rightarrow> pydict option result" where
  "export_event W vault_key include_private_notes r =
     (if er_visibility r = ''local_only'' \<and> \<not> include_private_notes then Inr None
      else case decrypt_field W vault_key (er_payload_json r) of
        Inl e \<Rightarrow> Inl e
      | Inr dec_payload \<Rightarrow>
          (let parsed = exported_payload W dec_payload in
           if marks_private parsed \<and> \<not> include_private_notes then Inr None
           else case payload_hash W parsed of
             Inl e \<Rightarrow> Inl e
           | Inr content_hash \<Rightarrow>
               Inr (Some [(''event_id'', PStr (er_event_id r)), (''event_order'', PInt (er_event_order r)),
                  (''sequence'', case er_sequence r of None \<Rightarrow> PNone | Some i \<Rightarrow> PInt i),
                  (''actor_username'', PStr (er_actor_username r)), (''actor_agent_id'', opt_str (er_actor_agent_id r)),
                  (''kind'', PStr (er_kind r)), (''visibility'', PStr (er_visibility r)), (''payload'', parsed),
                  (''content_hash'', PStr content_hash), (''signature'', opt_str (er_signature r)),
                  (''created_at'', PStr (er_created_at r))])))"

fun export_events :: "world \<Rightarrow> bytes \<Rightarrow> bool \<Rightarrow> event_row list \<Rightarrow> pydict list result" where
  "export_events W vault_key include [] = Inr []"
| "export_events W vault_key include (r # rs) =
     (case export_event W vault_key include r of
        Inl e \<Rightarrow> Inl e
      | Inr x \<Rightarrow>
          (case export_events W vault_key include rs of
             Inl e \<Rightarrow> Inl e
           | Inr evs \<Rightarrow> Inr (case x of None \<Rightarrow> evs | Some ev \<Rightarrow> ev # evs)))"

text \<open>\<open>f"{v or dflt}"\<close> and \<open>f"{v}"\<close>.\<close>

definition shown_or :: "world \<Rightarrow> pyval \<Rightarrow> string \<Rightarrow> string" where
  "shown_or W v dflt = (if truthy v then str_of W v else dflt)"

definition payload_text :: "world \<Rightarrow> pyval \<Rightarrow> string option" where
  "payload_text W v = (case v of PDict kvs \<Rightarrow> w_dumps_pretty W v | PList vs \<Rightarrow> w_dumps_pretty W v | _ \<Rightarrow> Some (str_of W v))"

definition event_lines :: "world \<Rightarrow> pydict \<Rightarrow> string list option" where
  "event_lines W ev =
     map_option (\<lambda>body.
       [''### Event #'' @ str_of W (dget ev ''event_order'') @ '' - '' @ str_of W (dget ev ''kind''),
        ''- **Event ID**: '' @ str_of W (dget ev ''event_id''),
        ''- **Actor**: '' @ str_of W (dget ev ''actor_username'') @ '' ('' @ shown_or W (dget ev ''actor_agent_id'') ''system'' @ '')'',
        ''- **Sequence**: '' @ (if dget ev ''sequence'' \<noteq> PNone then str_of W (dget ev ''sequence'') else ''N/A''),
        ''- **Visibility**: '' @ str_of W (dget ev ''visibility''),
        ''- **Content Hash**: '' @ str_of W (dget ev ''content_hash''),
        ''- **Signature**: '' @ shown_or W (dget ev ''signature'') ''N/A'',
        ''- **Timestamp**: '' @ str_of W (dget ev ''created_at''),
        ''```json'', body, ''```'', []]) (payload_text W (dget ev ''payload''))"

definition markdown_lines :: "world \<Rightarrow> string \<Rightarrow> pydict \<Rightarrow> pydict list \<Rightarrow> string list option" where
  "markdown_lines W session_id meta evs =
     map_option (\<lambda>parts.
       [''# Session Transcript: '' @ session_id, ''- **Type**: '' @ str_of W (dget meta ''type''),
        ''- **Initiator**: '' @ str_of W (dget meta ''initiator_username''),
        ''- **Receiver**: '' @ str_of W (dget meta ''receiver_username''),
        ''- **Status**: '' @ str_of W (dget meta ''status''),
        ''- **Objective**: '' @ shown_or W (dget meta ''objective'') ''N/A'',
        ''- **Created At**: '' @ str_of W (dget meta ''created_at''), [], ''## Events Sequence'', []]
       @ (if evs = [] then [''*(No events recorded)*''] else concat parts)) (those (map (event_lines W) evs))"

definition render :: "world \<Rightarrow> string \<Rightarrow> string \<Rightarrow> pydict \<Rightarrow> pydict list \<Rightarrow> string result" where
  "render W session_id fmt meta evs =
     (if fmt = ''json'' then
        (case w_dumps_pretty W (of_dict [(''session'', of_dict meta), (''events'', PList (map of_dict evs))]) of
           None \<Rightarrow> Inl TypeError
         | Some s \<Rightarrow> Inr s)
      else if fmt = ''markdown'' then
        (case markdown_lines W session_id meta evs of None \<Rightarrow> Inl TypeError | Some ls \<Rightarrow> Inr (join_with NEWLINE ls))
      else Inl ValueError)"

definition export_rows :: "db \<Rightarrow> string \<Rightarrow> event_row list" where
  "export_rows d session_id = sort_key er_event_order (session_events_of d session_id)"

definition export_session :: "world \<Rightarrow> bytes \<Rightarrow> string \<Rightarrow> string \<Rightarrow> bool \<Rightarrow> db \<Rightarrow> string result" where
  "export_session W vault_key session_id fmt include_private_notes d =
     (case find_session d session_id of
        None \<Rightarrow> Inl ValueError
      | Some r \<Rightarrow>
          (case session_meta W vault_key r of
             Inl e \<Rightarrow> Inl e
           | Inr meta \<Rightarrow>
               (case export_events W vault_key include_private_notes (export_rows d session_id) of
                  Inl e \<Rightarrow> Inl e
                | Inr evs \<Rightarrow> render W session_id fmt meta evs)))"

section \<open>Commands\<close>

fun redact_value :: "pyval \<Rightarrow> pyval" where
  "redact_value (PStr s) = PStr (redact_ui_text (Some s))"
| "redact_value (PList vs) = PList (map redact_value vs)"
| "redact_value (PDict kvs) = PDict (map (\<lambda>(k, v). (k, redact_value v)) kvs)"
| "redact_value v = v"

definition session_summary :: "world \<Rightarrow> bytes \<Rightarrow> session_row \<Rightarrow> pydict result" where
  "session_summary W vault_key r =
     (case decrypt_field_or_plaintext W vault_key (sr_objective r) of
        Inl e \<Rightarrow> Inl e
      | Inr obj \<Rightarrow>
          Inr [(''session_id'', PStr (sr_session_id r)), (''type'', PStr (sr_type r)),
               (''initiator_username'', PStr (sr_initiator_username r)), (''receiver_username'', PStr (sr_receiver_username r)),
               (''status'', PStr (sr_status r)), (''objective'', PStr (redact_ui_text (Some (or_text obj [])))),
               (''sender_agent_id'', opt_str (sr_sender_agent_id r)), (''receiver_agent_id'', opt_str (sr_receiver_agent_id r)),
               (''turn_limit'', PInt (sr_turn_limit r)), (''created_at'', PStr (sr_created_at r)), (''updated_at'', PStr (sr_updated_at r))])"

fun session_summaries :: "world \<Rightarrow> bytes \<Rightarrow> session_row list \<Rightarrow> pydict list result" where
  "session_summaries W vault_key [] = Inr []"
| "session_summaries W vault_key (r # rs) =
     (case session_summary W vault_key r of
        Inl e \<Rightarrow> Inl e
      | Inr x \<Rightarrow> (case session_summaries W vault_key rs of Inl e \<Rightarrow> Inl e | Inr xs \<Rightarrow> Inr (x # xs)))"

text \<open>\<open>ORDER BY updated_at DESC, session_id ASC\<close>: sorted by the second key, then stably by the first, reversed.\<close>

definition list_sessions :: "world \<Rightarrow> bytes \<Rightarrow> db option \<Rightarrow> pydict list result" where
  "list_sessions W vault_key profile =
     (case profile of
        None \<Rightarrow> Inr []
      | Some d \<Rightarrow> session_summaries W vault_key (rev (sort_key sr_updated_at (rev (sort_key sr_session_id (db_sessions d))))))"

definition open_session :: "world \<Rightarrow> bytes \<Rightarrow> string \<Rightarrow> db option \<Rightarrow> pyval result" where
  "open_session W vault_key session_id profile =
     (case profile of
        None \<Rightarrow> Inl ValueError
      | Some d \<Rightarrow>
          (case export_session W vault_key session_id ''json'' False d of
             Inl e \<Rightarrow> Inl e
           | Inr raw \<Rightarrow> (case w_loads W raw of None \<Rightarrow> Inl ValueError | Some v \<Rightarrow> Inr (redact_value v))))"

definition export_session_content ::
  "world \<Rightarrow> bytes \<Rightarrow> (pyval \<Rightarrow> string option) \<Rightarrow> string \<Rightarrow> string \<Rightarrow> db option \<Rightarrow> string result" where
  "export_session_content W vault_key dumps_sorted session_id export_format profile =
     (if export_format \<notin> {''markdown'', ''json''} then Inl ValueError
      else case profile of
        None \<Rightarrow> Inl ValueError
      | Some d \<Rightarrow>
          (case export_session W vault_key session_id export_format False d of
             Inl e \<Rightarrow> Inl e
           | Inr raw \<Rightarrow>
               if export_format = ''json''
               then (case Option.bind (w_loads W raw) (dumps_sorted \<circ> redact_value) of None \<Rightarrow> Inl ValueError | Some s \<Rightarrow> Inr s)
               else Inr (redact_ui_text (Some raw))))"

text \<open>\<open>session_plain_lines\<close>; a missing key of an f-string raises \<open>KeyError\<close>.\<close>

definition has_keys :: "string list \<Rightarrow> pydict \<Rightarrow> bool" where
  "has_keys ks d = list_all (\<lambda>k. k \<in> fst ` set d) ks"

definition plain_event :: "world \<Rightarrow> pydict \<Rightarrow> string list result" where
  "plain_event W ev =
     (if \<not> has_keys [''event_order'', ''created_at'', ''kind'', ''actor_username''] ev then Inl KeyError
      else case w_dumps W (let v = dget ev ''payload'' in if truthy v then v else PDict []) of
        None \<Rightarrow> Inl TypeError
      | Some j \<Rightarrow>
          Inr [str_of W (dget ev ''event_order'') @ ''. '' @ str_of W (dget ev ''created_at'') @ '' | '' @ str_of W (dget ev ''kind'')
                 @ '' | @'' @ str_of W (dget ev ''actor_username''),
               ''  '' @ j])"

definition plain_artifact :: "world \<Rightarrow> pydict \<Rightarrow> string list result" where
  "plain_artifact W a =
     (if \<not> has_keys [''artifact_id'', ''mime_type'', ''sha256''] a then Inl KeyError
      else Inr [''- '' @ str_of W (dget a ''artifact_id'') @ '' | '' @ str_of W (dget a ''mime_type'') @ '' | sha256='' @ str_of W (dget a ''sha256'')])"

fun plain_items :: "(pydict \<Rightarrow> string list result) \<Rightarrow> pyval list \<Rightarrow> string list result" where
  "plain_items f [] = Inr []"
| "plain_items f (v # vs) =
     (case as_str_dict v of
        None \<Rightarrow> Inl TypeError
      | Some x \<Rightarrow>
          (case f x of
             Inl e \<Rightarrow> Inl e
           | Inr ls \<Rightarrow> (case plain_items f vs of Inl e \<Rightarrow> Inl e | Inr rest \<Rightarrow> Inr (ls @ rest))))"

definition list_of :: "pydict \<Rightarrow> string \<Rightarrow> pyval list" where
  "list_of d k = (case map_of d k of Some (PList vs) \<Rightarrow> vs | _ \<Rightarrow> [])"

definition session_plain_lines :: "world \<Rightarrow> pydict \<Rightarrow> string list result" where
  "session_plain_lines W session =
     (case Option.bind (map_of session ''session'') as_str_dict of
        None \<Rightarrow> Inl KeyError
      | Some meta \<Rightarrow>
          if \<not> has_keys [''session_id'', ''status'', ''type'', ''initiator_username'', ''receiver_username''] meta then Inl KeyError
          else (case plain_items (plain_event W) (list_of session ''events'') of
            Inl e \<Rightarrow> Inl e
          | Inr event_part \<Rightarrow>
              (case plain_items (plain_artifact W) (list_of session ''artifacts'') of
                 Inl e \<Rightarrow> Inl e
               | Inr artifact_part \<Rightarrow>
                   Inr ([''SESSION: '' @ str_of W (dget meta ''session_id''), ''STATUS: '' @ str_of W (dget meta ''status''),
                         ''TYPE: '' @ str_of W (dget meta ''type''),
                         ''PARTICIPANTS: '' @ str_of W (dget meta ''initiator_username'') @ '' -> '' @ str_of W (dget meta ''receiver_username''),
                         ''OBJECTIVE: '' @ shown_or W (dget meta ''objective'') [], ''EVENTS:'']
                        @ event_part @ [''ARTIFACTS:''] @ artifact_part))))"

section \<open>The earlier tasks\<close>

definition task_summary :: "task_row \<Rightarrow> pydict" where
  "task_summary t =
     [(''source'', PStr ''legacy_v1''), (''type'', PStr ''task_summary''), (''task_id'', PStr (tk_task_id t)), (''message_id'', PNone),
      (''contact_username'', PStr (tk_contact_username t)), (''goal'', PStr (tk_goal t)), (''context_json'', PStr (tk_context_json t)),
      (''status'', opt_str (tk_status t)), (''created_at'', PStr (tk_created_at t)), (''updated_at'', PStr (tk_updated_at t)),
      (''result_json'', opt_str (tk_result_json t)), (''signature'', PNone), (''sequence'', PNone), (''session_id'', PNone)]"

definition legacy_message :: "task_row \<Rightarrow> message_row \<Rightarrow> pydict" where
  "legacy_message t m =
     [(''source'', PStr ''legacy_v1''), (''type'', PStr ''message''), (''task_id'', PStr (tk_task_id t)), (''message_id'', PStr (mg_message_id m)),
      (''from_username'', PStr (mg_from_username m)), (''content'', PStr (mg_content m)), (''message_type'', opt_str (mg_message_type m)),
      (''created_at'', PStr (mg_created_at m)), (''signature'', PStr (mg_signature m)), (''sequence'', PNone), (''session_id'', PNone)]"

definition legacy_events_from_tasks :: "tasks \<Rightarrow> string \<Rightarrow> pydict list" where
  "legacy_events_from_tasks d task_id_or_contact =
     concat (map (\<lambda>t. task_summary t # map (legacy_message t)
         (sort_key mg_created_at (filter (\<lambda>m. mg_task_id m = tk_task_id t) (td_messages d))))
       (sort_key tk_created_at (filter (\<lambda>t. tk_task_id t = task_id_or_contact \<or> tk_contact_username t = task_id_or_contact) (td_tasks d))))"

section \<open>Properties\<close>

definition private_event :: "world \<Rightarrow> bytes \<Rightarrow> event_row \<Rightarrow> bool" where
  "private_event W vault_key r =
     (er_visibility r = ''local_only''
      \<or> (case decrypt_field W vault_key (er_payload_json r) of Inl e \<Rightarrow> False | Inr dec \<Rightarrow> marks_private (exported_payload W dec)))"

lemma private_skipped: "private_event W vault_key r \<Longrightarrow> export_event W vault_key False r = Inr None"
  by (auto simp: private_event_def export_event_def Let_def split: sum.splits)

lemma export_public_only:
  "export_events W vault_key False rs = export_events W vault_key False (filter (\<lambda>r. \<not> private_event W vault_key r) rs)"
proof (induction rs)
  case (Cons r rs)
  show ?case
  proof (cases "private_event W vault_key r")
    case True
    then show ?thesis using Cons.IH by (simp add: private_skipped split: sum.split)
  next
    case False
    then show ?thesis using Cons.IH by (cases "export_event W vault_key False r") simp_all
  qed
qed simp


definition demo_note :: event_row where
  "demo_note = \<lparr>er_event_id = ''n1'', er_session_id = ''s1'', er_event_order = 7, er_sequence = None, er_actor_username = ''alice'',
     er_actor_agent_id = None, er_kind = ''private_note'', er_visibility = ''local_only'', er_payload_json = Some ''x'',
     er_signature = None, er_created_at = ''t''\<rparr>"


text \<open>With private notes included, every event is exported, in the order of the ledger.\<close>

lemma export_complete:
  assumes "export_events W vault_key True rs = Inr evs"
  shows "map (\<lambda>ev. dget ev ''event_id'') evs = map (PStr \<circ> er_event_id) rs"
  using assms
proof (induction rs arbitrary: evs)
  case (Cons r rs)
  then show ?case
    by (auto simp: export_event_def Let_def dget_def split: sum.splits option.splits if_splits)
qed simp

text \<open>
  The text of an opened session never lists an artifact: the export has the keys \<open>session\<close> and \<open>events\<close> only, so
  what follows the line for artifacts is empty.
\<close>

lemma plain_lines_without_artifacts:
  assumes "session_plain_lines W [(''session'', m), (''events'', evs)] = Inr ls"
  shows "last ls = ''ARTIFACTS:''"
  using assms by (auto simp: session_plain_lines_def list_of_def split: option.splits sum.splits if_splits)

end
