(* ===== verification/Spec2Isabelle.thy ===== *)
theory Spec2Isabelle
  imports Kin_Depth Kin_Pantry Kin_Mirror Kin_Tasks Kin_Node Kin_Identity Kin_Migrations
    Kin_Bridges Kin_Export
begin

text \<open>
  KIN is a peer-to-peer gateway for collaborating agents: every owner runs a node (\<open>src/kin-node\<close>)
  with an encrypted profile database; nodes exchange signed session envelopes, directly or through a
  relay that also is the directory of names (\<open>src/kin-relay\<close>), and a separate gateway (\<open>kin_gateway\<close>) puts an
  agent that speaks the A2A protocol behind a proxy with session records. This development models the
  node, the relay and the gateway, one theory per component, in the order of their dependencies.

  \<^bold>\<open>The theories and the code.\<close>

  \<^item> \<open>Kin_Prelude\<close>: Python values, dictionaries, exceptions and results; the SQL aggregates used.
  \<^item> \<open>Kin_Lifecycle\<close>: \<open>session/transition_matrix.py\<close>, the fifteen statuses and their edges. Locale
    \<open>lifecycle_matrix\<close>: paths, absorbing terminal statuses, the phase a path never decreases.
  \<^item> \<open>Kin_Encoding\<close>: unpadded URL-safe Base64 of \<open>schemas.py\<close> with Python's lenient decoder.
  \<^item> \<open>Kin_Schemas\<close>: the enumerations, patterns, \<open>SessionEnvelope\<close>, \<open>compute_content_hash\<close>, \<open>sign_envelope\<close>
    and the six stages of \<open>verify_envelope_pipeline\<close> of \<open>schemas.py\<close>.
  \<^item> \<open>Kin_Cards\<close>: adapter configurations, \<open>AgentCard\<close> and \<open>PublishedAgentCard\<close> of \<open>schemas.py\<close>.
  \<^item> \<open>Kin_Reducer\<close>: \<open>session/reducer.py\<close>, the three processors. Locale \<open>session_processor\<close> is their common
    contract, interpreted for each and for their union; runs are the inductive \<open>session_run\<close>.
  \<^item> \<open>Kin_Store\<close>: the parameters of the environment (\<open>world\<close>), the tables of \<open>storage/migrations.py\<close> as
    lists of rows (\<open>db\<close>), and the field encryption of \<open>storage/vault.py\<close>.
  \<^item> \<open>Kin_Ledger\<close>: \<open>audit/writer.py\<close> and \<open>reconstruct_session_state\<close>. Locale \<open>event_ledger\<close>: an append
    adds at most one event and keeps \<open>ledger_inv\<close> (gapless order, no sequence number used twice).
  \<^item> \<open>Kin_Transitions\<close>: the persisted node and owner commands of \<open>transport/v11.py\<close>. Locale
    \<open>status_transition\<close>: only the status of a session row changes, along edges of the reducer.
  \<^item> \<open>Kin_Policy\<close>: \<open>policy/evaluator.py\<close> and \<open>policy/persistence.py\<close>, grants and approvals.
  \<^item> \<open>Kin_Peers\<close>: \<open>identity/keys.py\<close> (message encryption), \<open>identity/auth.py\<close>, \<open>session/compatibility.py\<close>,
    \<open>agent_registry/peer_cards.py\<close> and the capability cache of \<open>transport/v11.py\<close>.
  \<^item> \<open>Kin_Artifacts\<close>: \<open>artifacts/vault.py\<close>. \<open>Kin_History\<close>: \<open>session/history.py\<close>. \<open>Kin_Registry\<close>:
    \<open>agent_registry/registry.py\<close>, \<open>loader.py\<close> and \<open>availability.py\<close>.
  \<^item> \<open>Kin_Ingest\<close> and \<open>Kin_Offers\<close>: \<open>ingest_envelope\<close> of \<open>transport/v11.py\<close>, with lazy expiry, bootstrap,
    verification, reduction, the ledger entry, and the receipt of offered artifacts. The relation
    \<open>progress\<close> is what every operation of a node keeps, and locale \<open>node_operation\<close> lifts it to runs.
  \<^item> \<open>Kin_Dispatch\<close>: the senders of \<open>transport/v11.py\<close>: dispatch, messages, responses, cancellation,
    pause, resumption, artifact offers.
  \<^item> \<open>Kin_Delivery\<close>: the background tasks of \<open>transport/v11.py\<close>: outbound queue, relay inbox, card
    synchronisation.
  \<^item> \<open>Kin_Relay\<close>: \<open>kin_relay/routes.py\<close> with \<open>db.py\<close> and \<open>models.py\<close>. Locale \<open>store_and_forward\<close>: keys of names are
    permanent and mail stays until its owner acknowledges it or it expires.
  \<^item> \<open>Kin_Patch\<close>: the unified patches of \<open>artifacts/workspace.py\<close>, against an inductive reference relation.
    \<open>Kin_Workspace\<close>: the rest of \<open>workspace.py\<close> (confined paths, policy gate, atomic writes) and
    \<open>artifacts/preview.py\<close>.
  \<^item> \<open>Kin_Adapters\<close>: the models of \<open>adapters/base.py\<close> and the security validation of an agent's output.
  \<^item> \<open>Kin_Orchestrator\<close>: \<open>session/orchestrator.py\<close>: one turn of the local agent with budgets, gates and
    signed answer; nudges; handoffs. The adapter is a parameter.
  \<^item> \<open>Kin_Gateway\<close>: \<open>kin_gateway\<close>'s settings, upstream credentials, administration, session records and the
    REST and JSON-RPC proxies. Locale \<open>recorded_service\<close>: every call of a run is accounted for by one record.
    \<open>Kin_Mirror\<close>: its mirrored agent card, fetched from a confined origin, projected and cached; the cache is
    the inductive \<open>cache_step\<close>, and the sequential code is shown to be one of its runs.
  \<^item> \<open>Kin_Pantry\<close>: \<open>context_pantry.py\<close>. \<open>Kin_Depth\<close>: \<open>collaboration_depth.py\<close>.
  \<^item> \<open>Kin_Backend\<close>: \<open>agent_roster/loader.py\<close> and \<open>agent_backend\<close>. \<open>Kin_Tasks\<close>: the earlier task protocol of
    \<open>node/routes.py\<close> on tables of its own. The relation \<open>touches\<close> says which task an operation works on and
    how many messages it adds.
  \<^item> \<open>Kin_Node\<close>: the routes of the session protocol (\<open>node/routes.py\<close>) and the synchronisation pass of
    \<open>node/app.py\<close>. \<open>Kin_Identity\<close>: \<open>identity/storage.py\<close>, \<open>setup.py\<close>, \<open>fingerprint.py\<close>, \<open>resolver.py\<close> and the
    derivation of keys in \<open>keys.py\<close>.
  \<^item> \<open>Kin_Migrations\<close>: \<open>storage/migrations.py\<close> and \<open>storage/db.py\<close>: the scripts as statements on a schema, the
    completion of profiles of the first release, drift detection and the runner; settings.
  \<^item> \<open>Kin_Bridges\<close>: the four adapters and their factory (\<open>adapters\<close>), which are what the orchestrator calls.
    \<open>Kin_Redaction\<close>: \<open>tui/redaction.py\<close> with a model of Python's backtracking matcher. \<open>Kin_Export\<close>:
    \<open>audit/export.py\<close>, \<open>audit/legacy.py\<close> and the listing, opening and exporting of sessions in \<open>cli_v11.py\<close>.
  \<^item> This theory: all operations of a node as one type of commands, and that any run keeps it sound.

  \<^bold>\<open>State and effects.\<close> An operation takes the state of the database connection and returns the new
  state with a result whose left values are Python exceptions; early returns, raises and the writes
  made before them are all branches. Where the code threads the state through many calls, \<open>then_do\<close>
  sequences them. Uncommitted writes are kept when an exception escapes, as on the one connection a
  node has; the relay opens a connection per request, so there the rollback is modelled.

  \<^bold>\<open>Parameters.\<close> RFC 8785 canonicalisation, SHA-256, Ed25519, X25519, HKDF, ChaCha20-Poly1305, AES-GCM,
  JSON, pydantic's lax coercions, ISO time stamps, the keychain, and the replies of other hosts are
  fields of the records \<open>crypto\<close> and \<open>world\<close>; what only one component uses of its surroundings is a record of
  that component (\<open>gate\<close>, \<open>mirror_env\<close>, \<open>pantry_env\<close>, \<open>depth_env\<close>, \<open>backend_env\<close>, \<open>task_env\<close>, \<open>node_env\<close>, \<open>mnemonic\<close>,
  \<open>migration_env\<close>, \<open>bridge_env\<close>).
  A theorem that needs a law of one of them has it as a
  named hypothesis (\<open>aes_correct\<close>, \<open>json_stable\<close>), and its witness instantiates the record with
  concrete functions. Random bytes, identifiers, clock readings and replies are drawn at the index
  \<open>db_tick\<close>, which every draw advances, so two draws are never the same by construction of the model
  but may have equal values.

  \<^bold>\<open>Termination.\<close> No definition uses fuel: the loops of the code run over lists (rows, files, messages,
  segments) and are structural recursions or folds, and the one recursive call of \<open>ingest_envelope\<close> has
  depth one, since a node never receives an offer of its own user; the substitution of \<open>Kin_Redaction\<close> has the
  length of the text as its measure. All functions are total.

  \<^bold>\<open>What the theorems show.\<close> Authenticity: only a verified envelope of a participant changes a session
  or enters the ledger, and redelivery records nothing. Durability: a sent envelope is in the ledger
  and acknowledged, relayed or queued; the sweep of the queue and the relay lose nothing silently.
  Order: the ledger refines the reducer, sequence numbers are exact, statuses move forward only.
  Authority: nothing is allowed without a grant, an approval is used once and decided once, and a
  rerun carries no authority; an agent's answer is sent only within the budgets, validated and
  allowed, and files are written only below the workspace; a task changes only on a signed request of a
  verified contact, and an answer leaves without review only under the contact's policy. Privacy: local
  events and private fields of cards do not leave the node, cards go to verified contacts only, only
  reviewed context is shared, transcripts say nothing of private notes, redacted text shows no path of the
  machine, and a process started for an agent sees none of the node's variables but the allowed ones.
  Accounting: every call through the gateway has one record, whatever happens to it, and nothing the caller
  sends chooses the origin or the credential it is forwarded with. Schema: a migrated profile has every
  table of the later versions in its final form and the required columns of the first release, loses
  nothing it had, and migrating again changes nothing.

  \<^bold>\<open>Not modelled.\<close> Human-readable messages (error codes are modelled); code points above 255 and
  characters that are not ASCII in \<open>lower\<close> or \<open>strip\<close>; Windows paths; clashes of generated identifiers
  with primary keys; key length errors of the cryptographic library; the interactive command line
  (\<open>cli.py\<close>), the terminal interface (\<open>tui\<close>, but for its redaction) and diagnostics (\<open>doctor.py\<close>), which read the
  tables and call the operations modelled here; what happens inside child processes, web services, the
  model library and imported classes that adapters call; types, defaults and constraints of columns in the
  migrations.
\<close>

section \<open>The operations of a node\<close>

text \<open>
  Everything a node does to its profile database, as one type of commands: envelopes that arrive,
  what its owner sends and decides, the background tasks, and the registry.
\<close>

datatype node_command =
    Arrive pydict "string \<Rightarrow> bytes option" "bytes option" "bytes option" "string option"
  | Dispatch string string string string string route pyval pyval pyval pyval pyval
  | Send string message_kind pydict "string option" route
  | Respond string string "string option" "string option" route
  | Cancel string string
  | Pause string string
  | Resume string string
  | Offer string string route
  | Retry "string option" "bytes option" "string option"
  | Poll string "string \<Rightarrow> bytes option"
  | Sync string string
  | MarkNode string string
  | OwnerAction string string "pydict option"
  | Evaluate agent_card action_class pydict string string
  | RequestApproval approval_request string action_class string
  | DecideApproval string string string string "string option" "pydict option"
  | Checkpoint string string string "pydict option"
  | Decide string string string string "string option"
  | Rerun string string "string option"
  | StoreArtifact string bytes string string string int string "string option" "string option"
  | SetEnabled string bool "string option"
  | Advance string "agent_card \<Rightarrow> adapter_request \<Rightarrow> adapter_response result" "(string \<Rightarrow> bytes option) option"
  | Nudge string string int
  | Handoff string string bool "(string \<Rightarrow> bytes option) option" route
  | RouteEnvelope node_env pydict
  | BackgroundPass node_env

text \<open>The state after an operation, whatever it returns or raises.\<close>

definition after :: "db \<times> 'a result \<Rightarrow> db \<times> unit result" where
  "after m = (fst m, Inr ())"

fun run_command :: "world \<Rightarrow> bytes \<Rightarrow> owner \<Rightarrow> int \<times> node_command \<Rightarrow> db \<Rightarrow> db \<times> unit result" where
  "run_command W k ow (now, Arrive raw get_pk rp ok ru) d = after (ingest_envelope W k raw get_pk now rp ok ru d)"
| "run_command W k ow (now, Dispatch peer sa ra mode goal rt mt rb ab cb cp) d =
     after (dispatch_session W k ow peer sa ra mode goal rt mt rb ab cb cp now d)"
| "run_command W k ow (now, Send sid kind payload ag rt) d = after (send_session_message W k ow sid kind payload ag rt now d)"
| "run_command W k ow (now, Respond sid decision ag reason rt) d =
     after (respond_to_session W k ow sid decision ag reason rt now d)"
| "run_command W k ow (now, Cancel sid reason) d = after (cancel_session W k ow sid reason now d)"
| "run_command W k ow (now, Pause sid reason) d = after (pause_session W k ow sid reason now d)"
| "run_command W k ow (now, Resume sid reason) d = after (resume_session W k ow sid reason now d)"
| "run_command W k ow (now, Offer sid aid rt) d = after (send_artifact_offer W k ow sid aid rt now d)"
| "run_command W k ow (now, Retry un priv ru) d = after (retry_outbound_queue W k now un priv ru d)"
| "run_command W k ow (now, Poll url get_pk) d =
     after (poll_relay_and_process W k (ow_username ow) (ow_identity_key ow) (ow_x25519_privkey ow) url get_pk now d)"
| "run_command W k ow (now, Sync peer ep) d = after (sync_peer_cards W (ow_username ow) (ow_identity_key ow) peer ep now d)"
| "run_command W k ow (now, MarkNode sid c) d = after (apply_node_command_transition W k sid c now d)"
| "run_command W k ow (now, OwnerAction sid a p) d =
     after (apply_owner_command_transition W k sid (ow_username ow) a p now d)"
| "run_command W k ow (now, Evaluate c ac ctx sid t) d = after (evaluate_action_for_session c ac ctx sid t d)"
| "run_command W k ow (now, RequestApproval rq ag ac ex) d = after (create_pending_approval W k rq ag ac ex d)"
| "run_command W k ow (now, DecideApproval aid sid decision t reason cs) d =
     after (decide_approval W k aid sid decision (ow_username ow) t reason cs d)"
| "run_command W k ow (now, Checkpoint sid by label snap) d = after (create_checkpoint W k sid by label snap d)"
| "run_command W k ow (now, Decide sid by summary rationale cp) d = after (create_decision W k sid by summary rationale cp d)"
| "run_command W k ow (now, Rerun src by new_id) d = after (create_fresh_authority_rerun W k src by new_id now d)"
| "run_command W k ow (now, StoreArtifact sid raw mt ob pp mx src aid rel) d =
     after (store_artifact W k sid raw mt ob pp mx src now aid rel d)"
| "run_command W k ow (now, SetEnabled aid en profile) d = after (set_enabled W aid en profile (Some k) d)"
| "run_command W k ow (now, Advance sid invoke get_pk) d = after (advance_session_turn W k ow sid invoke get_pk now d)"
| "run_command W k ow (now, Nudge sid msg limit) d = after (send_status_nudge W k (ow_username ow) sid msg now limit d)"
| "run_command W k ow (now, Handoff sid replacement has_x get_pk rt) d =
     after (tag_in_handoff W k ow sid replacement has_x get_pk rt now d)"
| "run_command W k ow (now, RouteEnvelope E raw) d = after (process_v11_session_envelope E raw now d)"
| "run_command W k ow (now, BackgroundPass E) d = (synchronize_once E now d, Inr ())"

section \<open>Every operation keeps the contract\<close>

lemma quiet_record_decision: "quiet d (fst (record_approval_decision W k ad ag ac ex rj d))"
proof -
  have "fst (case (x :: db \<times> string result) of (d', Inl e) \<Rightarrow> (d', Inl e) | (d', Inr _) \<Rightarrow> (d', Inr ())) = fst x" for x
    by (auto split: prod.split sum.split)
  then show ?thesis
    by (simp add: record_approval_decision_def Let_def quiet_audit_after quiet_approvals)
qed

lemma progress_owner_command: "progress d (fst (apply_owner_command_transition W k sid u a p now d))"
  using apply_owner_ok [of W k sid u a p now d] progress_transition by (metis prod.collapse)

lemma progress_decide: "progress d (fst (decide_approval W k aid sid decision u t reason cs d))"
proof -
  have p: "progress d d1" if "apply_owner_command_transition W k sid u a p n d = (d1, x)" for a p n d1 x
    using progress_owner_command [of d W k sid u a p n] that by simp
  have "progress d d2" if "apply_owner_command_transition W k sid u a p n d = (d1, x)"
      "record_approval_decision W k ad ag ac ex rj d1 = (d2, y)" for a p n d1 x ad ag ac ex rj d2 y
    using progress_trans [OF p [OF that(1)] quiet_progress [OF quiet_record_decision]] that(2) by (metis fst_conv)
  with p show ?thesis
    unfolding decide_approval_def Let_def by (auto split: option.split sum.split prod.split)
qed

lemma progress_local_event: "progress d (fst (append_local_event W k sid actor kind p d))"
  unfolding local_event_db by (rule progress_append)

lemma progress_local_then:
  assumes "append_local_event W k sid actor kind p d = (d', r)"
  shows "progress d d'"
  using progress_local_event [of d W k sid actor kind p] assms by simp

lemma progress_checkpoint: "progress d (fst (create_checkpoint W k sid by label snap d))"
  unfolding create_checkpoint_def by (auto split: sum.split prod.split dest: progress_local_then)

lemma progress_decision: "progress d (fst (create_decision W k sid by summary rationale cp d))"
  unfolding create_decision_def by (auto split: sum.split prod.split dest: progress_local_then)

lemma progress_rerun: "progress d (fst (create_fresh_authority_rerun W k src by new_id now d))"
proof -
  have e: "progress d d2" if "append_local_event W k sid actor kind p (tick (d\<lparr>db_sessions := db_sessions d @ [r]\<rparr>)) = (d2, x)"
    for sid actor kind p r d2 x
    by (rule progress_trans [OF progress_trans [OF progress_new_session progress_tick] progress_local_then [OF that]])
  have "progress d d3" if "append_local_event W k sid actor kind p (tick (d\<lparr>db_sessions := db_sessions d @ [r]\<rparr>)) = (d2, x)"
      "write_audit_event W k c sid' un p' cor d2 = (d3, y)" for sid actor kind p r d2 x c sid' un p' cor d3 y
    using progress_trans [OF e [OF that(1)] progress_audit] that(2) by (metis fst_conv)
  with e show ?thesis
    unfolding create_fresh_authority_rerun_def Let_def by (auto split: option.split sum.split prod.split)
qed

lemma progress_set_enabled: "progress d (fst (set_enabled W aid en profile key d))"
proof -
  have u: "progress d (tick (update_agent aid f d))" for f
    by (rule progress_quiet) (simp_all add: update_agent_def)
  show ?thesis
    unfolding set_enabled_def Let_def
    by (auto simp: u split: option.split sum.split bool.split)
qed

lemmas operations_progress =
  progress_envelope progress_dispatch progress_send_message progress_respond progress_cancel progress_pause
  progress_resume progress_send_offer progress_retry progress_poll quiet_progress [OF quiet_sync]
  progress_node_command progress_owner_command progress_evaluate quiet_progress [OF quiet_create_pending]
  progress_decide progress_checkpoint progress_decision progress_rerun
  quiet_progress [OF store_artifact_quiet] progress_set_enabled
  progress_advance progress_nudge progress_handoff progress_route progress_pass

lemma run_command_progress: "progress d (fst (run_command W k ow c d))"
proof (cases c)
  case (Pair now cmd)
  then show ?thesis by (cases cmd) (simp_all only: run_command.simps after_def fst_conv operations_progress)
qed

interpretation node: node_operation "\<lambda>(W, k, ow, c) d. run_command W k ow c d"
proof unfold_locales
  fix x d d' r
  assume run: "(case x of (W, k, ow, c) \<Rightarrow> \<lambda>d. run_command W k ow c d) d = (d', r)"
  obtain W k ow c where x: "x = (W, k, ow, c)" by (rule prod_cases4)
  from run have "run_command W k ow c d = (d', r)" by (simp only: x case_prod_conv)
  then show "progress d d'" using run_command_progress [of d W k ow c] by (simp only: fst_conv)
qed

section \<open>Properties of the whole node\<close>

text \<open>
  C1. A node stays sound: start from a profile whose ledger is sound and run any of these operations in
  any order, each at any time, succeeding or raising. The ledger stays numbered without gaps and
  without a reused sequence number; ledger, audit trail and artifacts only grow at the end; identity and
  contacts are unchanged; no session disappears, each moves only along edges of the lifecycle as the
  reducer takes them, and a session that has ended keeps its status for good.
\<close>

theorem node_stays_sound:
  assumes "ledger_inv d" and "d' = fold (\<lambda>c d. fst (run_command W k ow c d)) cs d"
  shows "ledger_inv d'
    \<and> (\<exists>es. db_events d' = db_events d @ es) \<and> (\<exists>xs. db_audit d' = db_audit d @ xs)
    \<and> (\<exists>as. db_artifacts d' = db_artifacts d @ as)
    \<and> db_identity d' = db_identity d \<and> db_contacts d' = db_contacts d
    \<and> (\<forall>sid s. row_status d sid = Some s \<longrightarrow>
         (\<exists>t. row_status d' sid = Some t \<and> reducer_edge\<^sup>*\<^sup>* s t \<and> (is_terminal_state s \<longrightarrow> t = s)))"
proof -
  have f: "fold (\<lambda>c d. fst (run_command W k ow c d)) cs d =
      fold (\<lambda>a d. fst ((\<lambda>(W, k, ow, c) d. run_command W k ow c d) a d)) (map (\<lambda>c. (W, k, ow, c)) cs) d"
    by (simp add: fold_map comp_def)
  have p: "progress d d'" unfolding assms(2) f by (rule node.runs_progress)
  with assms(1) progress_terminal [OF p] show ?thesis by (fastforce simp: progress_def)
qed

theorem node_stays_sound_witness:
  "ledger_inv (fst (run_command demo_light_world [9] demo_owner (0, Retry None None None)
     (fst (run_command demo_light_world [9] demo_owner
       (0, Dispatch ''bob'' ''a1'' ''b1'' ''ask'' ''goal'' no_route PNone PNone PNone PNone PNone) (empty_db ''alice'')))))"
  using node_stays_sound [OF empty_db_inv refl, of demo_light_world "[9]" demo_owner
      "[(0, Dispatch ''bob'' ''a1'' ''b1'' ''ask'' ''goal'' no_route PNone PNone PNone PNone PNone), (0, Retry None None None)]"
      "''alice''"]
  by simp

end
